(* ===== verification/Prelude.thy ===== *)
theory Prelude
  imports Main "HOL-Library.Word" "HOL-Library.AList" "HOL-Library.Sublist"
begin

text \<open>
  Shared vocabulary of the development: JavaScript strings as lists of UTF-16 code units, the
  string and array methods the modelled sources call (\<open>slice\<close>, \<open>indexOf\<close>, \<open>split\<close>), the
  insertion-ordered \<open>Map\<close> and \<open>Set\<close>, results of fallible code, and the generic list lemmas the
  component theories share.
\<close>

named_theorems js_defs \<open>definitions of the JavaScript library operations\<close>

section \<open>Strings\<close>

text \<open>
  A JavaScript string is a sequence of 16-bit code units; \<open>length\<close>, indexing, \<open>slice\<close> and
  \<open>indexOf\<close> all count code units. \<open>js\<close> turns a literal of the source into such a sequence.
\<close>

type_synonym code_unit = "16 word"
type_synonym jsstring = "code_unit list"

definition js :: "string \<Rightarrow> jsstring" where
  [js_defs]: "js s = map of_char s"

definition newline :: code_unit where
  [js_defs]: "newline = 10"

text \<open>\<open>Array.prototype.slice\<close> and \<open>String.prototype.slice\<close>: a negative index counts from the end,
  both ends are clamped to the length.\<close>

definition slice_index :: "nat \<Rightarrow> int \<Rightarrow> nat" where
  [js_defs]: "slice_index len i = nat (if i < 0 then max (int len + i) 0 else min i (int len))"

definition js_slice :: "'a list \<Rightarrow> int \<Rightarrow> int \<Rightarrow> 'a list" where
  [js_defs]: "js_slice xs from to =
     (let f = slice_index (length xs) from; t = slice_index (length xs) to
      in take (t - f) (drop f xs))"

text \<open>\<open>indexOf(pat, start)\<close>: the least position at or after \<open>start\<close> where \<open>pat\<close> occurs
  (\<open>None\<close> is the source's \<open>-1\<close>).\<close>

fun find_from :: "'a list \<Rightarrow> 'a list \<Rightarrow> nat \<Rightarrow> nat option" where
  "find_from pat [] i = (if pat = [] then Some i else None)"
| "find_from pat (x # xs) i =
     (if prefix pat (x # xs) then Some i else find_from pat xs (Suc i))"

definition js_indexOf :: "'a list \<Rightarrow> 'a list \<Rightarrow> nat \<Rightarrow> nat option" where
  [js_defs]: "js_indexOf hay pat start =
     (let s = min start (length hay) in find_from pat (drop s hay) s)"

definition js_includes :: "'a list \<Rightarrow> 'a list \<Rightarrow> bool" where
  [js_defs]: "js_includes hay pat = (js_indexOf hay pat 0 \<noteq> None)"

text \<open>\<open>split\<close> on a single code unit, and its inverse \<open>join\<close>.\<close>

fun split_on :: "'a \<Rightarrow> 'a list \<Rightarrow> 'a list list" where
  "split_on c [] = [[]]"
| "split_on c (x # xs) =
     (if x = c then [] # split_on c xs
      else (case split_on c xs of [] \<Rightarrow> [[x]] | l # ls \<Rightarrow> (x # l) # ls))"

fun join_with :: "'a \<Rightarrow> 'a list list \<Rightarrow> 'a list" where
  "join_with c [] = []"
| "join_with c [l] = l"
| "join_with c (l # m # ls) = l @ c # join_with c (m # ls)"

text \<open>The decimal digits of a number in a template string.\<close>

fun digits_of :: "nat \<Rightarrow> jsstring" where
  "digits_of n = (if n < 10 then [of_nat (48 + n)] else digits_of (n div 10) @ [of_nat (48 + n mod 10)])"

definition js_of_int :: "int \<Rightarrow> jsstring" where
  "js_of_int i = (if i < 0 then 45 # digits_of (nat (- i)) else digits_of (nat i))"

text \<open>\<open>String.prototype.trim\<close>: white space and line terminators of ECMAScript.\<close>

definition js_space :: "code_unit \<Rightarrow> bool" where
  "js_space c \<longleftrightarrow> c \<in> {9, 10, 11, 12, 13, 32, 0xA0, 0x1680, 0x2028, 0x2029, 0x202F, 0x205F, 0x3000, 0xFEFF}
     \<or> (0x2000 \<le> c \<and> c \<le> 0x200A)"

definition js_trim :: "jsstring \<Rightarrow> jsstring" where
  "js_trim s = rev (dropWhile js_space (rev (dropWhile js_space s)))"

section \<open>Insertion-ordered maps and sets\<close>

text \<open>
  A JavaScript \<open>Map\<close> iterates its entries in insertion order and keeps the position of a key
  that is set again: \<open>AList.update\<close> and \<open>AList.delete\<close> on association lists with distinct keys.
  A \<open>Set\<close> is a list without duplicates.
\<close>

type_synonym ('k, 'v) jsmap = "('k \<times> 'v) list"
type_synonym 'a jsset = "'a list"

abbreviation jm_get :: "('k, 'v) jsmap \<Rightarrow> 'k \<Rightarrow> 'v option" where
  "jm_get \<equiv> map_of"

abbreviation jm_set :: "'k \<Rightarrow> 'v \<Rightarrow> ('k, 'v) jsmap \<Rightarrow> ('k, 'v) jsmap" where
  "jm_set \<equiv> AList.update"

abbreviation jm_delete :: "'k \<Rightarrow> ('k, 'v) jsmap \<Rightarrow> ('k, 'v) jsmap" where
  "jm_delete \<equiv> AList.delete"

abbreviation jm_has :: "('k, 'v) jsmap \<Rightarrow> 'k \<Rightarrow> bool" where
  "jm_has m k \<equiv> map_of m k \<noteq> None"

definition js_add :: "'a \<Rightarrow> 'a jsset \<Rightarrow> 'a jsset" where
  [js_defs]: "js_add x s = (if x \<in> set s then s else s @ [x])"

definition js_remove :: "'a \<Rightarrow> 'a jsset \<Rightarrow> 'a jsset" where
  [js_defs]: "js_remove x s = filter (\<lambda>y. y \<noteq> x) s"

section \<open>Fallible computations\<close>

text \<open>A call that may throw returns \<open>Inl\<close> of the error; \<open>bind_res\<close> is the early exit.\<close>

definition bind_res :: "'e + 'a \<Rightarrow> ('a \<Rightarrow> 'e + 'b) \<Rightarrow> 'e + 'b" where
  "bind_res r f = (case r of Inl e \<Rightarrow> Inl e | Inr a \<Rightarrow> f a)"

section \<open>Lemmas on slices and searches\<close>

lemma slice_index_le [simp]: "slice_index len i \<le> len"
  by (auto simp: slice_index_def)

lemma slice_index_of_nat [simp]: "slice_index len (int i) = min i len"
  by (simp add: slice_index_def min_def nat_int)

lemma js_slice_nat:
  "js_slice xs (int f) (int t) = take (min t (length xs) - min f (length xs)) (drop f xs)"
  by (cases "f \<le> length xs") (auto simp: js_slice_def Let_def min_def)

lemma js_slice_nat_le:
  "t \<le> length xs \<Longrightarrow> js_slice xs (int f) (int t) = take (t - f) (drop f xs)"
  by (cases "f \<le> length xs") (auto simp: js_slice_nat min_def)

lemma take_middle_drop: "i \<le> j \<Longrightarrow> take i xs @ take (j - i) (drop i xs) @ drop j xs = xs"
  by (metis append_assoc append_take_drop_id drop_drop le_add_diff_inverse2 take_add add.commute)

lemma find_from_Some:
  "find_from pat xs i = Some k \<Longrightarrow> i \<le> k \<and> k - i + length pat \<le> length xs
     \<and> take (length pat) (drop (k - i) xs) = pat"
proof (induction pat xs i rule: find_from.induct)
  case (1 pat i)
  then show ?case by (auto split: if_splits)
next
  case (2 pat x xs i)
  show ?case
  proof (cases "prefix pat (x # xs)")
    case True
    with "2.prems" have "k = i" by simp
    moreover from True have "length pat \<le> length (x # xs)" by (rule prefix_length_le)
    moreover from True have "take (length pat) (x # xs) = pat" by (auto simp: prefix_def)
    ultimately show ?thesis by simp
  next
    case False
    with "2.prems" have "find_from pat xs (Suc i) = Some k" by simp
    from "2.IH" [OF False this]
    have IH: "Suc i \<le> k" "k - Suc i + length pat \<le> length xs"
      "take (length pat) (drop (k - Suc i) xs) = pat" by auto
    then have "k - i = Suc (k - Suc i)" by simp
    with IH show ?thesis by simp
  qed
qed

lemma find_from_None: "find_from pat xs i = None \<Longrightarrow> \<not> sublist pat xs"
proof (induction pat xs i rule: find_from.induct)
  case (1 pat i)
  then show ?case by (auto split: if_splits)
next
  case (2 pat x xs i)
  then show ?case
    by (metis find_from.simps(2) option.distinct(1) sublist_Cons_right)
qed

lemma js_indexOf_Some:
  assumes "js_indexOf hay pat start = Some k"
  shows "start \<le> k \<or> length hay \<le> start" "k + length pat \<le> length hay"
    "take (length pat) (drop k hay) = pat"
proof -
  let ?s = "min start (length hay)"
  from assms have "find_from pat (drop ?s hay) ?s = Some k"
    by (simp add: js_indexOf_def Let_def)
  from find_from_Some [OF this]
  have *: "?s \<le> k" "k - ?s + length pat \<le> length hay - ?s"
    "take (length pat) (drop (k - ?s) (drop ?s hay)) = pat" by auto
  show "start \<le> k \<or> length hay \<le> start" using *(1) by auto
  show "k + length pat \<le> length hay" using *(1,2) by linarith
  show "take (length pat) (drop k hay) = pat" using *(1,3) by (simp add: add.commute)
qed

lemma js_indexOf_ge:
  assumes "js_indexOf hay pat start = Some k"
  shows "min start (length hay) \<le> k"
  using assms find_from_Some [of pat "drop (min start (length hay)) hay" "min start (length hay)" k]
  by (simp add: js_indexOf_def Let_def)

lemma js_indexOf_None: "js_indexOf hay pat 0 = None \<Longrightarrow> \<not> sublist pat hay"
  by (auto simp: js_indexOf_def dest: find_from_None)

lemma js_includes_iff: "js_includes hay pat \<longleftrightarrow> sublist pat hay"
proof
  assume "js_includes hay pat"
  then obtain k where "js_indexOf hay pat 0 = Some k" by (auto simp: js_includes_def)
  then have "take (length pat) (drop k hay) = pat" by (rule js_indexOf_Some)
  then have "hay = take k hay @ pat @ drop (length pat) (drop k hay)"
    by (metis append_take_drop_id)
  then show "sublist pat hay" by (metis sublist_appendI)
next
  assume "sublist pat hay"
  then show "js_includes hay pat"
    using js_indexOf_None [of hay pat] by (auto simp: js_includes_def)
qed

section \<open>Lemmas on splitting and joining\<close>

lemma split_on_nonempty [simp]: "split_on c xs \<noteq> []"
  by (induction xs) (auto split: list.splits)

lemma join_split [simp]: "join_with c (split_on c xs) = xs"
proof (induction xs)
  case Nil
  then show ?case by simp
next
  case (Cons x xs)
  obtain l ls where s: "split_on c xs = l # ls" by (cases "split_on c xs") auto
  with Cons have "join_with c (l # ls) = xs" by simp
  then show ?case using s by (cases ls) auto
qed

lemma length_join_with:
  "ls \<noteq> [] \<Longrightarrow> length (join_with c ls) = sum_list (map length ls) + length ls - 1"
  by (induction c ls rule: join_with.induct) auto

section \<open>Lemmas on ordered maps and sets\<close>

lemma js_add_set [simp]: "set (js_add x s) = insert x (set s)"
  by (auto simp: js_add_def)

lemma fold_js_add_set [simp]: "set (fold js_add ks s) = set ks \<union> set s"
  by (induction ks arbitrary: s) auto

lemma js_remove_set [simp]: "set (js_remove x s) = set s - {x}"
  by (auto simp: js_remove_def)

lemma distinct_js_add [simp]: "distinct s \<Longrightarrow> distinct (js_add x s)"
  by (auto simp: js_add_def)

lemma distinct_js_remove [simp]: "distinct s \<Longrightarrow> distinct (js_remove x s)"
  by (auto simp: js_remove_def)

lemma jm_get_set [simp]: "map_of (AList.update k v m) k' = (if k' = k then Some v else map_of m k')"
  by (simp add: update_conv')

lemma jm_get_delete [simp]: "map_of (AList.delete k m) k' = (if k' = k then None else map_of m k')"
  by (simp add: delete_conv')

lemma jm_set_fresh: "k \<notin> fst ` set m \<Longrightarrow> AList.update k v m = m @ [(k, v)]"
  by (induction m) auto

lemma jm_delete_absent: "k \<notin> fst ` set m \<Longrightarrow> AList.delete k m = m"
  by (induction m) (auto simp: AList.delete_eq)

lemma jm_keys_delete: "map fst (AList.delete k m) = filter (\<lambda>x. x \<noteq> k) (map fst m)"
  by (induction m) (auto simp: AList.delete_eq)

end
