(* ===== verification/Lcs.thy ===== *)
theory Lcs
  imports Prelude
begin

text \<open>
  The longest-common-subsequence routine that \<open>blame.ts\<close> of the provider SDK and
  \<open>diff-engine.ts\<close> of the frontend both carry: the table filled by two nested loops, the
  backtracking loop over it, and the proof that the returned index pairs are an increasing
  matching of equal lines of greatest possible length. The locale \<open>line_matcher\<close> is what the two
  clients rely on.
\<close>

section \<open>The routine\<close>

text \<open>\<open>dp\<close> is an array of arrays; the loops write one cell at a time, row by row.\<close>

definition lcs_cell :: "'a list \<Rightarrow> 'a list \<Rightarrow> nat list list \<Rightarrow> nat \<Rightarrow> nat \<Rightarrow> nat" where
  "lcs_cell a b dp i j =
     (if a ! (i - 1) = b ! (j - 1) then dp ! (i - 1) ! (j - 1) + 1
      else max (dp ! (i - 1) ! j) (dp ! i ! (j - 1)))"

definition lcs_write :: "'a list \<Rightarrow> 'a list \<Rightarrow> nat \<Rightarrow> nat \<Rightarrow> nat list list \<Rightarrow> nat list list" where
  "lcs_write a b i j dp = dp[i := (dp ! i)[j := lcs_cell a b dp i j]]"

definition lcs_init :: "nat \<Rightarrow> nat \<Rightarrow> nat list list" where
  "lcs_init m n = replicate (m + 1) (replicate (n + 1) 0)"

definition lcs_table :: "'a list \<Rightarrow> 'a list \<Rightarrow> nat list list" where
  "lcs_table a b =
     fold (\<lambda>i dp. fold (lcs_write a b i) [1..<length b + 1] dp) [1..<length a + 1]
       (lcs_init (length a) (length b))"

text \<open>The \<open>while (i > 0 && j > 0)\<close> loop pushes the matched pair on \<open>result\<close>.\<close>

fun lcs_backtrack ::
  "'a list \<Rightarrow> 'a list \<Rightarrow> nat list list \<Rightarrow> nat \<Rightarrow> nat \<Rightarrow> (nat \<times> nat) list \<Rightarrow> (nat \<times> nat) list" where
  "lcs_backtrack a b dp 0 j result = result"
| "lcs_backtrack a b dp (Suc i) 0 result = result"
| "lcs_backtrack a b dp (Suc i) (Suc j) result =
     (if a ! i = b ! j then lcs_backtrack a b dp i j (result @ [(i, j)])
      else if dp ! i ! Suc j \<ge> dp ! Suc i ! j then lcs_backtrack a b dp i (Suc j) result
      else lcs_backtrack a b dp (Suc i) j result)"

definition computeLCS :: "'a list \<Rightarrow> 'a list \<Rightarrow> (nat \<times> nat) list" where
  "computeLCS a b = rev (lcs_backtrack a b (lcs_table a b) (length a) (length b) [])"

section \<open>Specification\<close>

text \<open>The recurrence on prefixes, and what a result must be: index pairs that increase strictly in
  both components and name equal lines inside both arrays.\<close>

fun lcs_len :: "'a list \<Rightarrow> 'a list \<Rightarrow> nat \<Rightarrow> nat \<Rightarrow> nat" where
  "lcs_len a b 0 j = 0"
| "lcs_len a b (Suc i) 0 = 0"
| "lcs_len a b (Suc i) (Suc j) =
     (if a ! i = b ! j then lcs_len a b i j + 1
      else max (lcs_len a b i (Suc j)) (lcs_len a b (Suc i) j))"

definition pair_less :: "nat \<times> nat \<Rightarrow> nat \<times> nat \<Rightarrow> bool" where
  "pair_less p q \<longleftrightarrow> fst p < fst q \<and> snd p < snd q"

definition matching :: "'a list \<Rightarrow> 'a list \<Rightarrow> (nat \<times> nat) list \<Rightarrow> bool" where
  "matching a b ps \<longleftrightarrow> sorted_wrt pair_less ps \<and>
     (\<forall>(i, j) \<in> set ps. i < length a \<and> j < length b \<and> a ! i = b ! j)"

section \<open>The table holds the recurrence\<close>

lemma lcs_len_0 [simp]: "lcs_len a b i 0 = 0"
  by (cases i) auto

lemma length_lcs_write [simp]: "length (lcs_write a b i j dp) = length dp"
  by (simp add: lcs_write_def)

lemma length_lcs_row [simp]:
  "length (lcs_write a b i j dp ! k) = length (dp ! k)"
  by (cases "k = i"; cases "i < length dp") (auto simp: lcs_write_def list_update_beyond)

text \<open>\<open>filled a b dp i j\<close>: the rows below \<open>i\<close> are complete, row \<open>i\<close> is complete up to \<open>j\<close>, and
  every later cell still holds its initial 0.\<close>

definition filled :: "'a list \<Rightarrow> 'a list \<Rightarrow> nat list list \<Rightarrow> nat \<Rightarrow> nat \<Rightarrow> bool" where
  "filled a b dp i j \<longleftrightarrow>
     length dp = length a + 1 \<and> (\<forall>k \<le> length a. length (dp ! k) = length b + 1) \<and>
     (\<forall>k \<le> length a. \<forall>l \<le> length b.
        dp ! k ! l = (if k < i \<or> k = i \<and> l \<le> j then lcs_len a b k l else 0))"

lemma filled_write:
  assumes "filled a b dp i j" "1 \<le> i" "i \<le> length a" "j < length b"
  shows "filled a b (lcs_write a b i (Suc j) dp) i (Suc j)"
proof -
  obtain i' where i: "i = Suc i'" using assms(2) by (cases i) auto
  have len: "length dp = length a + 1" "length (dp ! i) = length b + 1"
    using assms(1,3) by (auto simp: filled_def)
  have up: "dp ! i' ! l = lcs_len a b i' l" if "l \<le> length b" for l
    using assms(1,3) that i by (auto simp: filled_def)
  have left: "dp ! i ! j = lcs_len a b i j"
    using assms by (auto simp: filled_def)
  have cell: "lcs_cell a b dp i (Suc j) = lcs_len a b i (Suc j)"
    using up left assms(4) i by (simp add: lcs_cell_def)
  show ?thesis
    unfolding filled_def
  proof (intro conjI allI impI)
    show "length (lcs_write a b i (Suc j) dp) = length a + 1" using len by simp
    show "length (lcs_write a b i (Suc j) dp ! k) = length b + 1" if "k \<le> length a" for k
      using assms(1) that by (auto simp: filled_def)
    show "lcs_write a b i (Suc j) dp ! k ! l =
        (if k < i \<or> k = i \<and> l \<le> Suc j then lcs_len a b k l else 0)"
      if "k \<le> length a" "l \<le> length b" for k l
      using assms that len cell by (auto simp: filled_def lcs_write_def nth_list_update)
  qed
qed

lemma filled_row:
  assumes "filled a b dp i 0" "1 \<le> i" "i \<le> length a" "n \<le> length b"
  shows "filled a b (fold (lcs_write a b i) [1..<n + 1] dp) i n"
  using assms(4)
proof (induction n)
  case 0
  then show ?case using assms(1) by simp
next
  case (Suc n)
  then have "filled a b (fold (lcs_write a b i) [1..<n + 1] dp) i n" by simp
  from filled_write [OF this assms(2,3)] Suc.prems show ?case by simp
qed

lemma filled_next_row: "filled a b dp i (length b) \<Longrightarrow> filled a b dp (Suc i) 0"
  by (auto simp: filled_def less_Suc_eq)

lemma filled_init: "filled a b (lcs_init (length a) (length b)) 0 (length b)"
  by (auto simp: filled_def lcs_init_def nth_append simp del: replicate_Suc)

lemma filled_rows:
  "m \<le> length a \<Longrightarrow>
   filled a b (fold (\<lambda>i dp. fold (lcs_write a b i) [1..<length b + 1] dp) [1..<m + 1]
     (lcs_init (length a) (length b))) m (length b)"
proof (induction m)
  case 0
  then show ?case using filled_init by simp
next
  case (Suc m)
  let ?dp = "fold (\<lambda>i dp. fold (lcs_write a b i) [1..<length b + 1] dp) [1..<m + 1]
     (lcs_init (length a) (length b))"
  from Suc have "filled a b ?dp (Suc m) 0" by (simp add: filled_next_row)
  from filled_row [OF this] Suc.prems
  have "filled a b (fold (lcs_write a b (Suc m)) [1..<length b + 1] ?dp) (Suc m) (length b)" by simp
  then show ?case by simp
qed

lemma lcs_table_nth:
  assumes "i \<le> length a" "j \<le> length b"
  shows "lcs_table a b ! i ! j = lcs_len a b i j"
  using filled_rows [of "length a" a b] assms by (auto simp: filled_def lcs_table_def)

section \<open>The backtracking loop\<close>

lemma lcs_backtrack_acc:
  "lcs_backtrack a b dp i j result = result @ lcs_backtrack a b dp i j []"
proof (induction a b i j arbitrary: result rule: lcs_len.induct)
  case (3 a b i j)
  show ?case
  proof (cases "a ! i = b ! j")
    case True
    then show ?thesis
      using "3.IH"(1) [OF True, of "result @ [(i, j)]"] "3.IH"(1) [OF True, of "[(i, j)]"] by simp
  next
    case False
    then show ?thesis
      using "3.IH"(2) [OF False, of result] "3.IH"(3) [OF False, of result] by (simp split: if_split)
  qed
qed auto

text \<open>The pairs found from \<open>(i, j)\<close>, in the order \<open>result.reverse()\<close> gives them.\<close>

definition lcs_pairs :: "'a list \<Rightarrow> 'a list \<Rightarrow> nat list list \<Rightarrow> nat \<Rightarrow> nat \<Rightarrow> (nat \<times> nat) list" where
  "lcs_pairs a b dp i j = rev (lcs_backtrack a b dp i j [])"

lemma lcs_pairs_0 [simp]: "lcs_pairs a b dp 0 j = []" "lcs_pairs a b dp i 0 = []"
  by (simp_all add: lcs_pairs_def) (cases i; simp)

lemma lcs_pairs_Suc:
  "lcs_pairs a b dp (Suc i) (Suc j) =
     (if a ! i = b ! j then lcs_pairs a b dp i j @ [(i, j)]
      else if dp ! i ! Suc j \<ge> dp ! Suc i ! j then lcs_pairs a b dp i (Suc j)
      else lcs_pairs a b dp (Suc i) j)"
  using lcs_backtrack_acc [of a b dp i j "[(i, j)]"] by (simp add: lcs_pairs_def)

lemma computeLCS_pairs: "computeLCS a b = lcs_pairs a b (lcs_table a b) (length a) (length b)"
  by (simp add: computeLCS_def lcs_pairs_def)

lemma lcs_pairs_bounds:
  "(k, l) \<in> set (lcs_pairs a b dp i j) \<Longrightarrow> k < i \<and> l < j \<and> a ! k = b ! l"
proof (induction a b i j rule: lcs_len.induct)
  case (3 a b i j)
  then show ?case by (fastforce simp: lcs_pairs_Suc split: if_splits)
qed auto

lemma lcs_pairs_sorted: "sorted_wrt pair_less (lcs_pairs a b dp i j)"
proof (induction a b i j rule: lcs_len.induct)
  case (3 a b i j)
  then show ?case
    by (auto simp: lcs_pairs_Suc sorted_wrt_append pair_less_def dest: lcs_pairs_bounds)
qed auto

lemma lcs_pairs_length:
  "i \<le> length a \<Longrightarrow> j \<le> length b \<Longrightarrow>
   length (lcs_pairs a b (lcs_table a b) i j) = lcs_len a b i j"
proof (induction a b i j rule: lcs_len.induct)
  case (3 a b i j)
  then show ?case by (auto simp: lcs_pairs_Suc lcs_table_nth max_def)
qed auto

section \<open>Matching and optimality\<close>

lemma matching_computeLCS: "matching a b (computeLCS a b)"
  using lcs_pairs_sorted [of a b] lcs_pairs_bounds [of _ _ a b]
  by (auto simp: matching_def computeLCS_pairs)

lemma matching_snoc:
  "matching a b (ps @ [(i, j)]) \<longleftrightarrow> matching a b ps \<and> (\<forall>p \<in> set ps. pair_less p (i, j)) \<and>
     i < length a \<and> j < length b \<and> a ! i = b ! j"
  by (auto simp: matching_def sorted_wrt_append)

text \<open>Every matching confined to the first \<open>i\<close> and \<open>j\<close> lines is at most as long as the recurrence
  says: its last pair decides which branch of the recurrence covers it.\<close>

lemma matching_le_lcs_len:
  assumes "matching a b ps" "\<forall>(k, l) \<in> set ps. k < i \<and> l < j"
  shows "length ps \<le> lcs_len a b i j"
  using assms
proof (induction a b i j arbitrary: ps rule: lcs_len.induct)
  case (1 a b j)
  then show ?case by (cases ps) auto
next
  case (2 a b i)
  then show ?case by (cases ps) auto
next
  case (3 a b i j)
  show ?case
  proof (cases ps rule: rev_cases)
    case Nil
    then show ?thesis by simp
  next
    case (snoc qs p)
    obtain k l where p: "p = (k, l)" by (cases p)
    have kl: "k \<le> i" "l \<le> j" using "3.prems"(2) snoc p by auto
    have qs: "matching a b qs" "\<forall>(x, y) \<in> set qs. x < k \<and> y < l" and eq: "a ! k = b ! l"
      using "3.prems"(1) snoc p by (auto simp: matching_snoc pair_less_def)
    show ?thesis
    proof (cases "a ! i = b ! j")
      case True
      have "length qs \<le> lcs_len a b i j"
        using "3.IH"(1) [OF True qs(1)] qs(2) kl by fastforce
      then show ?thesis using True snoc by simp
    next
      case False
      then have "k < i \<or> l < j" using eq kl by (auto simp: le_less)
      then show ?thesis
      proof
        assume "k < i"
        then have "\<forall>(x, y) \<in> set ps. x < i \<and> y < Suc j" using qs(2) kl snoc p by fastforce
        with "3.IH"(2) [OF False "3.prems"(1)] False show ?thesis by simp
      next
        assume "l < j"
        then have "\<forall>(x, y) \<in> set ps. x < Suc i \<and> y < j" using qs(2) kl snoc p by fastforce
        with "3.IH"(3) [OF False "3.prems"(1)] False show ?thesis by simp
      qed
    qed
  qed
qed

lemma computeLCS_longest:
  assumes "matching a b ps"
  shows "length ps \<le> length (computeLCS a b)"
  using matching_le_lcs_len [OF assms, of "length a" "length b"] assms
  by (auto simp: matching_def computeLCS_pairs lcs_pairs_length)

lemma lcs_pairs_self: "i \<le> length a \<Longrightarrow> lcs_pairs a a dp i i = map (\<lambda>k. (k, k)) [0..<i]"
  by (induction i) (auto simp: lcs_pairs_Suc)

lemma computeLCS_self: "computeLCS a a = map (\<lambda>k. (k, k)) [0..<length a]"
  by (simp add: computeLCS_pairs lcs_pairs_self)

section \<open>The interface the clients rely on\<close>

locale line_matcher =
  fixes lcs :: "'a list \<Rightarrow> 'a list \<Rightarrow> (nat \<times> nat) list"
  assumes lcs_matching: "matching a b (lcs a b)"
    and lcs_longest: "matching a b ps \<Longrightarrow> length ps \<le> length (lcs a b)"
    and lcs_self: "lcs a a = map (\<lambda>k. (k, k)) [0..<length a]"
begin

lemma lcs_sorted: "sorted_wrt pair_less (lcs a b)"
  using lcs_matching by (auto simp: matching_def)

lemma lcs_in_range:
  assumes "(i, j) \<in> set (lcs a b)"
  shows "i < length a" "j < length b" "a ! i = b ! j"
  using lcs_matching [of a b] assms by (auto simp: matching_def)

lemma lcs_distinct_new: "distinct (map snd (lcs a b))"
proof -
  have "sorted_wrt (\<lambda>p q. snd p < snd q) (lcs a b)"
    by (rule sorted_wrt_mono_rel [OF _ lcs_sorted]) (auto simp: pair_less_def)
  then have "sorted_wrt (<) (map snd (lcs a b))" by (simp add: sorted_wrt_map)
  then show ?thesis by (simp add: strict_sorted_iff)
qed

end

interpretation dp: line_matcher computeLCS
  by unfold_locales (auto intro: matching_computeLCS computeLCS_longest simp: computeLCS_self)

section \<open>Properties\<close>

text \<open>C20: the table loops and the backtracking loop together return an order-preserving pairing of
  equal lines, in range on both sides, and no such pairing is longer.\<close>

theorem computeLCS_correct:
  "matching a b (computeLCS a b) \<and> (\<forall>ps. matching a b ps \<longrightarrow> length ps \<le> length (computeLCS a b))"
  using dp.lcs_matching dp.lcs_longest by blast

theorem computeLCS_correct_witness:
  "matching [1, 2, 3 :: nat] [2, 3] [(1, 0), (2, 1)] \<and>
   length [(1::nat, 0::nat), (2, 1)] \<le> length (computeLCS [1, 2, 3 :: nat] [2, 3])"
proof -
  have m: "matching [1, 2, 3 :: nat] [2, 3] [(1, 0), (2, 1)]"
    by (simp add: matching_def pair_less_def)
  with computeLCS_correct [of "[1, 2, 3 :: nat]" "[2, 3]"] show ?thesis by blast
qed

end
