(* ===== verification/Blame_Segments.thy ===== *)
theory Blame_Segments
  imports Prelude
begin

text \<open>
  Runs of equally attributed characters. \<open>linesToSegments\<close> of the provider SDK's \<open>blame.ts\<close> and
  \<open>_extractBlameFromText\<close> of the frontend's \<open>blame-engine.ts\<close> both walk a sequence of pieces and
  extend the last segment when the next piece has the same author and touches it. The step is
  modelled once; the lemmas relate a segment list to the author of every single character.
\<close>

section \<open>Segments and the merging step\<close>

record blame_segment =
  seg_start :: nat
  seg_end :: nat
  seg_user :: jsstring

text \<open>\<open>last && last.user_name === author && last.end === offset ? last.end += len : push\<close>.\<close>

definition push_segment :: "blame_segment list \<Rightarrow> nat \<Rightarrow> nat \<Rightarrow> jsstring \<Rightarrow> blame_segment list" where
  "push_segment segments offset len user =
     (if segments \<noteq> [] \<and> seg_user (last segments) = user \<and> seg_end (last segments) = offset
      then butlast segments @ [(last segments)\<lparr>seg_end := seg_end (last segments) + len\<rparr>]
      else segments @ [\<lparr>seg_start = offset, seg_end = offset + len, seg_user = user\<rparr>])"

section \<open>What a segment list says\<close>

text \<open>The author of every character, in order.\<close>

definition seg_chars :: "blame_segment \<Rightarrow> jsstring list" where
  "seg_chars s = replicate (seg_end s - seg_start s) (seg_user s)"

definition char_authors :: "blame_segment list \<Rightarrow> jsstring list" where
  "char_authors segs = concat (map seg_chars segs)"

text \<open>\<open>tiling lo segs hi\<close>: the segments cover \<open>[lo, hi)\<close> without gap or overlap, none is
  empty, and neighbours differ in author (no segment could be merged with the next).\<close>

fun tiling :: "nat \<Rightarrow> blame_segment list \<Rightarrow> nat \<Rightarrow> bool" where
  "tiling lo [] hi = (lo = hi)"
| "tiling lo (s # segs) hi =
     (seg_start s = lo \<and> lo < seg_end s \<and>
      (case segs of [] \<Rightarrow> True | t # _ \<Rightarrow> seg_user t \<noteq> seg_user s) \<and>
      tiling (seg_end s) segs hi)"

section \<open>Lemmas\<close>

lemma char_authors_simps [simp]:
  "char_authors [] = []"
  "char_authors (s # segs) = seg_chars s @ char_authors segs"
  "char_authors (xs @ ys) = char_authors xs @ char_authors ys"
  by (simp_all add: char_authors_def)

lemma tiling_last:
  "tiling lo segs hi \<Longrightarrow> segs \<noteq> [] \<Longrightarrow> seg_end (last segs) = hi \<and> seg_start (last segs) < hi"
  by (induction lo segs hi rule: tiling.induct) (auto split: if_splits)

lemma tiling_le: "tiling lo segs hi \<Longrightarrow> lo \<le> hi"
  by (induction lo segs hi rule: tiling.induct) auto

lemma tiling_snoc:
  assumes "tiling lo segs hi" "0 < len" "segs = [] \<or> seg_user (last segs) \<noteq> u"
  shows "tiling lo (segs @ [\<lparr>seg_start = hi, seg_end = hi + len, seg_user = u\<rparr>]) (hi + len)"
  using assms
proof (induction segs arbitrary: lo)
  case Nil
  then show ?case by simp
next
  case (Cons s segs)
  then show ?case by (cases segs) auto
qed

lemma tiling_extend:
  assumes "tiling lo segs hi" "segs \<noteq> []"
  shows "tiling lo (butlast segs @ [(last segs)\<lparr>seg_end := seg_end (last segs) + len\<rparr>]) (hi + len)"
  using assms
proof (induction segs arbitrary: lo)
  case Nil
  then show ?case by simp
next
  case (Cons s segs)
  show ?case
  proof (cases segs)
    case Nil
    with Cons.prems show ?thesis by simp
  next
    case (Cons t ts)
    then have "tiling (seg_end s)
        (butlast segs @ [(last segs)\<lparr>seg_end := seg_end (last segs) + len\<rparr>]) (hi + len)"
      using Cons.IH Cons.prems by simp
    with Cons.prems Cons show ?thesis by (cases ts) auto
  qed
qed

text \<open>One step of either loop keeps the tiling and appends the piece's characters.\<close>

lemma push_segment_tiling:
  assumes "tiling 0 segs offset" "0 < len"
  shows "tiling 0 (push_segment segs offset len u) (offset + len)"
proof (cases "segs \<noteq> [] \<and> seg_user (last segs) = u")
  case True
  then show ?thesis
    using assms tiling_last [of 0 segs offset] tiling_extend [of 0 segs offset len]
    by (simp add: push_segment_def)
next
  case False
  then show ?thesis
    using assms tiling_snoc [of 0 segs offset len u] by (auto simp: push_segment_def)
qed

lemma push_segment_authors:
  assumes "tiling 0 segs offset"
  shows "char_authors (push_segment segs offset len u) = char_authors segs @ replicate len u"
proof (cases "segs \<noteq> [] \<and> seg_user (last segs) = u")
  case True
  then have last: "seg_end (last segs) = offset" "seg_start (last segs) < offset"
    using assms tiling_last by auto
  have "char_authors segs = char_authors (butlast segs) @ seg_chars (last segs)"
    using True by (metis append_butlast_last_id char_authors_simps append_Nil2)
  moreover have "seg_chars ((last segs)\<lparr>seg_end := seg_end (last segs) + len\<rparr>) =
      seg_chars (last segs) @ replicate len u"
    using True last by (simp add: seg_chars_def replicate_add [symmetric] Suc_diff_le)
  ultimately show ?thesis using True last by (simp add: push_segment_def)
next
  case False
  then show ?thesis by (auto simp: push_segment_def seg_chars_def)
qed

lemma tiling_length_authors: "tiling lo segs hi \<Longrightarrow> length (char_authors segs) = hi - lo"
  by (induction lo segs hi rule: tiling.induct) (auto simp: seg_chars_def dest: tiling_le)

text \<open>The author list and the tiling determine the segment that covers an offset.\<close>

lemma tiling_cover:
  assumes "tiling lo segs hi" "s \<in> set segs" "seg_start s \<le> p" "p < seg_end s"
  shows "lo \<le> p \<and> p < hi \<and> char_authors segs ! (p - lo) = seg_user s"
  using assms
proof (induction lo segs hi rule: tiling.induct)
  case (2 lo t segs hi)
  show ?case
  proof (cases "s = t")
    case True
    with 2 show ?thesis
      using tiling_le [of "seg_end t" segs hi] by (auto simp: nth_append seg_chars_def)
  next
    case False
    with 2 have IH: "seg_end t \<le> p" "p < hi" "char_authors segs ! (p - seg_end t) = seg_user s"
      by auto
    with 2 show ?thesis by (auto simp: nth_append seg_chars_def)
  qed
qed simp

end
