(* ===== verification/Version_Blame.thy ===== *)
theory Version_Blame
  imports Lcs Blame_Segments
begin

text \<open>
  \<open>packages/provider-sdk-ts/src/blame.ts\<close>: blame segments of a version computed from the chain of
  versions that leads to it. The records are those of \<open>types.ts\<close> that the computation reads.
  Shown: the segments tile the final content, every character carries the author of its line, and
  that author created a version which contains the line.
\<close>

section \<open>Version records\<close>

datatype version_type = Auto_Version | Manual_Version

record version_list_entry =
  vl_id :: jsstring
  vl_created_at :: jsstring
  vl_type :: version_type
  vl_label :: "jsstring option"
  vl_creator :: "jsstring option"
  vl_mime_type :: "jsstring option"

record version_entry =
  ve_id :: jsstring
  ve_created_at :: jsstring
  ve_type :: version_type
  ve_label :: "jsstring option"
  ve_creator :: "jsstring option"
  ve_content :: "jsstring option"
  ve_mime_type :: "jsstring option"
  ve_blame :: "blame_segment list option"

text \<open>\<open>content ?? ''\<close> and \<open>creator ?? 'unknown'\<close>.\<close>

definition content_of :: "version_entry \<Rightarrow> jsstring" where
  "content_of v = (case ve_content v of None \<Rightarrow> [] | Some c \<Rightarrow> c)"

definition creator_of :: "version_entry \<Rightarrow> jsstring" where
  "creator_of v = (case ve_creator v of None \<Rightarrow> js ''unknown'' | Some c \<Rightarrow> c)"

section \<open>The computation\<close>

definition splitLines :: "jsstring \<Rightarrow> jsstring list" where
  "splitLines s = (if s = [] then [[]] else split_on newline s)"

text \<open>The loop over the matched pairs: \<open>newAuthors[newIdx] = oldAuthors[oldIdx] ?? creator\<close>.\<close>

fun attribute_matches ::
  "jsstring list \<Rightarrow> jsstring \<Rightarrow> (nat \<times> nat) list \<Rightarrow> jsstring list \<Rightarrow> jsstring list" where
  "attribute_matches oldAuthors creator [] newAuthors = newAuthors"
| "attribute_matches oldAuthors creator ((oldIdx, newIdx) # lcs) newAuthors =
     attribute_matches oldAuthors creator lcs
       (newAuthors[newIdx :=
          (if oldIdx < length oldAuthors then oldAuthors ! oldIdx else creator)])"

definition applyDiffAttribution ::
  "jsstring list \<Rightarrow> jsstring list \<Rightarrow> jsstring list \<Rightarrow> jsstring \<Rightarrow> jsstring list" where
  "applyDiffAttribution oldLines newLines oldAuthors creator =
     attribute_matches oldAuthors creator (computeLCS oldLines newLines)
       (replicate (length newLines) creator)"

text \<open>\<open>linesToSegments\<close>: the line length counts the newline of every line but the last; a line of
  length 0 is skipped.\<close>

definition line_len :: "jsstring list \<Rightarrow> nat \<Rightarrow> nat" where
  "line_len lines i = length (lines ! i) + (if i < length lines - 1 then 1 else 0)"

definition segment_step ::
  "jsstring list \<Rightarrow> jsstring list \<Rightarrow> nat \<Rightarrow> blame_segment list \<times> nat \<Rightarrow> blame_segment list \<times> nat"
  where
  "segment_step lines authors i st =
     (let segments = fst st; offset = snd st; lineLen = line_len lines i
      in if lineLen = 0 then st
         else (push_segment segments offset lineLen
                 (if i < length authors then authors ! i else js ''unknown''),
               offset + lineLen))"

definition linesToSegments :: "jsstring list \<Rightarrow> jsstring list \<Rightarrow> blame_segment list" where
  "linesToSegments lines authors =
     fst (fold (segment_step lines authors) [0..<length lines] ([], 0))"

text \<open>The loop over \<open>versions[i - 1]\<close> and \<open>versions[i]\<close>.\<close>

definition version_step :: "version_entry list \<Rightarrow> nat \<Rightarrow> jsstring list \<Rightarrow> jsstring list" where
  "version_step versions i lineAuthors =
     applyDiffAttribution (splitLines (content_of (versions ! (i - 1))))
       (splitLines (content_of (versions ! i))) lineAuthors (creator_of (versions ! i))"

definition lineAuthorsOf :: "version_entry list \<Rightarrow> jsstring list" where
  "lineAuthorsOf versions =
     fold (version_step versions) [1..<length versions]
       (map (\<lambda>_. creator_of (versions ! 0)) (splitLines (content_of (versions ! 0))))"

definition computeBlameFromVersions :: "version_entry list \<Rightarrow> blame_segment list" where
  "computeBlameFromVersions versions =
     (if length versions = 0 then []
      else linesToSegments (splitLines (content_of (versions ! (length versions - 1))))
             (lineAuthorsOf versions))"

section \<open>Specification\<close>

text \<open>The author of line \<open>i\<close> of version \<open>k\<close>: inherited through the matched line of version
  \<open>k - 1\<close>, or the creator of version \<open>k\<close>.\<close>

fun line_author :: "version_entry list \<Rightarrow> nat \<Rightarrow> nat \<Rightarrow> jsstring" where
  "line_author vs 0 i = creator_of (vs ! 0)"
| "line_author vs (Suc k) i =
     (case map_of (map prod.swap (computeLCS (splitLines (content_of (vs ! k)))
             (splitLines (content_of (vs ! Suc k))))) i of
        Some j \<Rightarrow> line_author vs k j
      | None \<Rightarrow> creator_of (vs ! Suc k))"

definition lines_of :: "version_entry list \<Rightarrow> nat \<Rightarrow> jsstring list" where
  "lines_of vs k = splitLines (content_of (vs ! k))"

section \<open>Lines\<close>

lemma splitLines_nonempty [simp]: "splitLines s \<noteq> []"
  by (simp add: splitLines_def)

lemma join_splitLines [simp]: "join_with newline (splitLines s) = s"
  by (simp add: splitLines_def)

lemma sum_line_len:
  "lines \<noteq> [] \<Longrightarrow>
   sum_list (map (line_len lines) [0..<length lines]) = length (join_with newline lines)"
proof -
  assume ne: "lines \<noteq> []"
  then obtain n where n: "length lines = Suc n" by (cases lines) auto
  have "sum_list (map (line_len lines) [0..<n]) = sum_list (map (\<lambda>i. length (lines ! i) + 1) [0..<n])"
    using n by (intro arg_cong [of _ _ sum_list] map_cong) (auto simp: line_len_def)
  also have "\<dots> = sum_list (map (\<lambda>i. length (lines ! i)) [0..<n]) + n"
    by (induction n) auto
  finally have "sum_list (map (line_len lines) [0..<length lines]) =
      sum_list (map (\<lambda>i. length (lines ! i)) [0..<length lines]) + n"
    using n by (simp add: line_len_def)
  also have "map (\<lambda>i. length (lines ! i)) [0..<length lines] = map length lines"
    by (auto intro: nth_equalityI)
  finally show ?thesis using ne n by (simp add: length_join_with)
qed

section \<open>Attribution through a matching\<close>

lemma length_attribute_matches [simp]:
  "length (attribute_matches oldAuthors c ps na) = length na"
  by (induction oldAuthors c ps na rule: attribute_matches.induct) auto

lemma attribute_matches_nth:
  assumes "distinct (map snd ps)" "\<forall>(x, y) \<in> set ps. x < length oldAuthors \<and> y < length na"
    "i < length na"
  shows "attribute_matches oldAuthors c ps na ! i =
     (case map_of (map prod.swap ps) i of Some x \<Rightarrow> oldAuthors ! x | None \<Rightarrow> na ! i)"
  using assms
proof (induction oldAuthors c ps na rule: attribute_matches.induct)
  case (2 oldAuthors c oi ni ps na)
  have "map_of (map prod.swap ps) i = None" if "i = ni"
    using "2.prems"(1) that by (auto simp: map_of_eq_None_iff image_image)
  then show ?case using 2 by (auto split: option.splits)
qed auto

context line_matcher
begin

text \<open>Every client of a matcher that overwrites by new index inherits exactly the matched lines.\<close>

lemma attribute_lcs_nth:
  fixes newLines oldLines :: "'a list"
  assumes "length oldAuthors = length oldLines" "i < length newLines"
  shows "attribute_matches oldAuthors c (lcs oldLines newLines) (replicate (length newLines) c) ! i =
     (case map_of (map prod.swap (lcs oldLines newLines)) i of
        Some x \<Rightarrow> oldAuthors ! x | None \<Rightarrow> c)"
proof -
  have "\<forall>(x, y) \<in> set (lcs oldLines newLines).
      x < length oldAuthors \<and> y < length (replicate (length newLines) c)"
    using lcs_in_range [of _ _ oldLines newLines] assms(1) by auto
  from attribute_matches_nth [OF lcs_distinct_new this, of i c] assms(2)
  show ?thesis by (simp split: option.split)
qed

lemma lcs_old_line:
  assumes "map_of (map prod.swap (lcs a b)) i = Some x"
  shows "x < length a" "i < length b" "a ! x = b ! i"
proof -
  from assms have "(x, i) \<in> set (lcs a b)" by (force dest: map_of_SomeD)
  then show "x < length a" "i < length b" "a ! x = b ! i" by (rule lcs_in_range)+
qed

end

lemma length_applyDiffAttribution [simp]:
  "length (applyDiffAttribution oldLines newLines oldAuthors c) = length newLines"
  by (simp add: applyDiffAttribution_def)

lemma lineAuthors_upto:
  assumes "k < length vs"
  shows "fold (version_step vs) [1..<Suc k]
       (map (\<lambda>_. creator_of (vs ! 0)) (splitLines (content_of (vs ! 0)))) =
     map (line_author vs k) [0..<length (lines_of vs k)]"
  using assms
proof (induction k)
  case 0
  then show ?case by (auto simp: lines_of_def map_replicate_const)
next
  case (Suc k)
  let ?prev = "map (line_author vs k) [0..<length (lines_of vs k)]"
  have "version_step vs (Suc k) ?prev =
      map (line_author vs (Suc k)) [0..<length (lines_of vs (Suc k))]"
  proof (rule nth_equalityI)
    fix i assume "i < length (version_step vs (Suc k) ?prev)"
    then have i: "i < length (lines_of vs (Suc k))" by (simp add: version_step_def lines_of_def)
    then show "version_step vs (Suc k) ?prev ! i =
        map (line_author vs (Suc k)) [0..<length (lines_of vs (Suc k))] ! i"
      using dp.lcs_old_line [of "lines_of vs k" "lines_of vs (Suc k)" i]
      by (auto simp: version_step_def applyDiffAttribution_def lines_of_def dp.attribute_lcs_nth
          split: option.splits)
  qed (simp add: version_step_def lines_of_def)
  then show ?case using Suc by simp
qed

lemma lineAuthorsOf_eq:
  assumes "vs \<noteq> []"
  shows "lineAuthorsOf vs =
    map (line_author vs (length vs - 1)) [0..<length (lines_of vs (length vs - 1))]"
  using lineAuthors_upto [of "length vs - 1" vs] assms by (simp add: lineAuthorsOf_def)

text \<open>An inherited author really created an earlier version with that very line in it.\<close>

lemma line_author_origin:
  assumes "k < length vs" "i < length (lines_of vs k)"
  shows "\<exists>m \<le> k. line_author vs k i = creator_of (vs ! m) \<and> lines_of vs k ! i \<in> set (lines_of vs m)"
  using assms
proof (induction k arbitrary: i)
  case 0
  then show ?case by (auto intro: nth_mem)
next
  case (Suc k)
  show ?case
  proof (cases "map_of (map prod.swap (computeLCS (lines_of vs k) (lines_of vs (Suc k)))) i")
    case None
    then show ?thesis using Suc.prems by (intro exI [of _ "Suc k"]) (simp add: lines_of_def)
  next
    case (Some x)
    note old = dp.lcs_old_line [OF Some]
    then obtain m where "m \<le> k" "line_author vs k x = creator_of (vs ! m)"
      "lines_of vs k ! x \<in> set (lines_of vs m)" using Suc.IH [of x] Suc.prems(1) by auto
    then show ?thesis using Some old by (intro exI [of _ m]) (auto simp: lines_of_def)
  qed
qed

section \<open>From lines to segments\<close>

definition line_chars :: "jsstring list \<Rightarrow> jsstring list \<Rightarrow> nat \<Rightarrow> jsstring list" where
  "line_chars lines authors i = replicate (line_len lines i) (authors ! i)"

lemma segment_fold:
  assumes "length authors = length lines" "n \<le> length lines"
    "fold (segment_step lines authors) [0..<n] ([], 0) = (segs, offset)"
  shows "tiling 0 segs offset \<and> offset = sum_list (map (line_len lines) [0..<n]) \<and>
     char_authors segs = concat (map (line_chars lines authors) [0..<n])"
  using assms(2,3)
proof (induction n arbitrary: segs offset)
  case 0
  then show ?case by simp
next
  case (Suc n)
  obtain segs' off' where st: "fold (segment_step lines authors) [0..<n] ([], 0) = (segs', off')"
    by fastforce
  with Suc have IH: "tiling 0 segs' off'" "off' = sum_list (map (line_len lines) [0..<n])"
    "char_authors segs' = concat (map (line_chars lines authors) [0..<n])" by auto
  have step: "(segs, offset) = segment_step lines authors n (segs', off')"
    using Suc.prems(2) st by simp
  show ?case
  proof (cases "line_len lines n = 0")
    case True
    then show ?thesis using step IH by (simp add: segment_step_def line_chars_def [of _ _ n])
  next
    case False
    then show ?thesis
      using step IH Suc.prems(1) assms(1) push_segment_tiling [of segs' off']
        push_segment_authors [of segs' off']
      by (simp add: segment_step_def Let_def line_chars_def [of _ _ n])
  qed
qed

lemma linesToSegments_spec:
  assumes "length authors = length lines" "lines \<noteq> []"
  shows "tiling 0 (linesToSegments lines authors) (length (join_with newline lines))"
    "char_authors (linesToSegments lines authors) =
       concat (map (line_chars lines authors) [0..<length lines])"
proof -
  obtain segs off where st: "fold (segment_step lines authors) [0..<length lines] ([], 0) = (segs, off)"
    by fastforce
  from segment_fold [OF assms(1) order_refl st] assms(2)
  have "tiling 0 segs (length (join_with newline lines))"
    "char_authors segs = concat (map (line_chars lines authors) [0..<length lines])"
    by (auto simp: sum_line_len)
  then show "tiling 0 (linesToSegments lines authors) (length (join_with newline lines))"
    "char_authors (linesToSegments lines authors) =
       concat (map (line_chars lines authors) [0..<length lines])"
    by (simp_all add: linesToSegments_def st)
qed

text \<open>Locating an offset in a concatenation of pieces.\<close>

lemma concat_locate:
  "p < length (concat (map f [0..<n])) \<Longrightarrow>
   \<exists>i < n. sum_list (map (length \<circ> f) [0..<i]) \<le> p \<and> p < sum_list (map (length \<circ> f) [0..<Suc i]) \<and>
     concat (map f [0..<n]) ! p = f i ! (p - sum_list (map (length \<circ> f) [0..<i]))"
proof (induction n)
  case 0
  then show ?case by simp
next
  case (Suc n)
  have len: "length (concat (map f [0..<n])) = sum_list (map (length \<circ> f) [0..<n])"
    by (simp add: length_concat comp_def)
  show ?case
  proof (cases "p < length (concat (map f [0..<n]))")
    case True
    with Suc.IH obtain i where "i < n" "sum_list (map (length \<circ> f) [0..<i]) \<le> p"
      "p < sum_list (map (length \<circ> f) [0..<Suc i])"
      "concat (map f [0..<n]) ! p = f i ! (p - sum_list (map (length \<circ> f) [0..<i]))" by blast
    with True show ?thesis by (intro exI [of _ i]) (simp add: nth_append comp_def)
  next
    case False
    with Suc.prems len show ?thesis by (intro exI [of _ n]) (simp add: nth_append comp_def)
  qed
qed

lemma computeBlame_segments:
  assumes "vs \<noteq> []"
  shows "tiling 0 (computeBlameFromVersions vs) (length (content_of (last vs)))"
    "char_authors (computeBlameFromVersions vs) =
       concat (map (\<lambda>i. replicate (line_len (splitLines (content_of (last vs))) i)
                          (line_author vs (length vs - 1) i))
         [0..<length (splitLines (content_of (last vs)))])"
proof -
  let ?L = "splitLines (content_of (last vs))"
  have L: "lines_of vs (length vs - 1) = ?L" using assms by (simp add: lines_of_def last_conv_nth)
  have cb: "computeBlameFromVersions vs = linesToSegments ?L (lineAuthorsOf vs)"
    using assms by (simp add: computeBlameFromVersions_def last_conv_nth)
  have len: "length (lineAuthorsOf vs) = length ?L"
    using lineAuthorsOf_eq [OF assms] L by simp
  have "map (line_chars ?L (lineAuthorsOf vs)) [0..<length ?L] =
      map (\<lambda>i. replicate (line_len ?L i) (line_author vs (length vs - 1) i)) [0..<length ?L]"
    using lineAuthorsOf_eq [OF assms] L by (auto simp: line_chars_def)
  with linesToSegments_spec [OF len] cb
  show "tiling 0 (computeBlameFromVersions vs) (length (content_of (last vs)))"
    "char_authors (computeBlameFromVersions vs) =
       concat (map (\<lambda>i. replicate (line_len ?L i) (line_author vs (length vs - 1) i)) [0..<length ?L])"
    by simp_all
qed

lemma applyDiffAttribution_same:
  assumes "length authors = length lines"
  shows "applyDiffAttribution lines lines authors c = authors"
proof (rule nth_equalityI)
  fix i assume "i < length (applyDiffAttribution lines lines authors c)"
  moreover have "map_of (map (\<lambda>k. (k, k)) [0..<n]) i = (if i < n then Some i else None)" for n i :: nat
    by (induction n) (auto simp: map_add_def split: option.splits)
  ultimately show "applyDiffAttribution lines lines authors c ! i = authors ! i"
    using assms dp.attribute_lcs_nth [of authors lines i lines c]
    by (simp add: applyDiffAttribution_def dp.lcs_self comp_def)
qed (simp add: assms)

lemma lineAuthorsOf_snoc:
  assumes "vs \<noteq> []"
  shows "lineAuthorsOf (vs @ [w]) = version_step (vs @ [w]) (length vs) (lineAuthorsOf vs)"
proof -
  obtain n where n: "length vs = Suc n" using assms by (cases vs) auto
  have "fold (version_step (vs @ [w])) [1..<length vs] a = fold (version_step vs) [1..<length vs] a" for a
    by (rule fold_cong) (auto simp: fun_eq_iff version_step_def nth_append)
  then show ?thesis using n by (simp add: lineAuthorsOf_def nth_append)
qed

section \<open>Properties\<close>

text \<open>for every non-empty chain of versions the computed blame tiles the content of the last
  version exactly (contiguous, non-empty, maximal runs from 0 to its length), and the author of
  every character is the author of its line, as inherited through the matched lines.\<close>

theorem blame_tiles_final_content:
  assumes "vs \<noteq> []"
  shows "tiling 0 (computeBlameFromVersions vs) (length (content_of (last vs))) \<and>
    char_authors (computeBlameFromVersions vs) =
      concat (map (\<lambda>i. replicate (line_len (splitLines (content_of (last vs))) i)
                         (line_author vs (length vs - 1) i))
        [0..<length (splitLines (content_of (last vs)))])"
  using computeBlame_segments [OF assms] by simp

text \<open>C1: a user who is blamed for a character created some version of the chain, and that version
  contains the whole line the character stands on.\<close>

theorem blame_author_wrote_line:
  assumes "s \<in> set (computeBlameFromVersions vs)" "seg_start s \<le> p" "p < seg_end s"
  shows "\<exists>m i. m < length vs \<and> creator_of (vs ! m) = seg_user s \<and>
    i < length (splitLines (content_of (last vs))) \<and>
    sum_list (map (line_len (splitLines (content_of (last vs)))) [0..<i]) \<le> p \<and>
    p < sum_list (map (line_len (splitLines (content_of (last vs)))) [0..<Suc i]) \<and>
    splitLines (content_of (last vs)) ! i \<in> set (splitLines (content_of (vs ! m)))"
proof -
  let ?L = "splitLines (content_of (last vs))" and ?k = "length vs - 1"
  let ?f = "\<lambda>i. replicate (line_len ?L i) (line_author vs ?k i)"
  have ne: "vs \<noteq> []" using assms(1) by (auto simp: computeBlameFromVersions_def)
  have L: "lines_of vs ?k = ?L" using ne by (simp add: lines_of_def last_conv_nth)
  note segs = computeBlame_segments [OF ne]
  have p: "p < length (content_of (last vs))"
    "char_authors (computeBlameFromVersions vs) ! p = seg_user s"
    using tiling_cover [OF segs(1) assms] by auto
  then have "p < length (concat (map ?f [0..<length ?L]))"
    using tiling_length_authors [OF segs(1)] segs(2) by simp
  from concat_locate [OF this] obtain i where i: "i < length ?L"
    "sum_list (map (line_len ?L) [0..<i]) \<le> p" "p < sum_list (map (line_len ?L) [0..<Suc i])"
    "concat (map ?f [0..<length ?L]) ! p = ?f i ! (p - sum_list (map (line_len ?L) [0..<i]))"
    by (auto simp: comp_def)
  then have author: "line_author vs ?k i = seg_user s" using p(2) segs(2) by simp
  obtain m where "m \<le> ?k" "line_author vs ?k i = creator_of (vs ! m)" "?L ! i \<in> set (lines_of vs m)"
    using line_author_origin [of ?k vs i] ne L i(1) by auto
  moreover from this(1) have "m < length vs" using ne by (cases vs) auto
  ultimately show ?thesis using author i(1-3) by (intro exI [of _ m] exI [of _ i]) (simp add: lines_of_def)
qed

text \<open>saving a version whose content equals the previous one changes no attribution, whoever
  creates it.\<close>

theorem blame_unchanged_version:
  assumes "content_of w = content_of v"
  shows "computeBlameFromVersions (vs @ [v, w]) = computeBlameFromVersions (vs @ [v])"
proof -
  have "length (lineAuthorsOf (vs @ [v])) = length (splitLines (content_of v))"
    using lineAuthorsOf_eq [of "vs @ [v]"] by (simp add: lines_of_def)
  then have "lineAuthorsOf ((vs @ [v]) @ [w]) = lineAuthorsOf (vs @ [v])"
    using assms by (simp add: lineAuthorsOf_snoc version_step_def nth_append applyDiffAttribution_same
        del: append_assoc)
  then show ?thesis using assms by (simp add: computeBlameFromVersions_def nth_append)
qed

section \<open>Witnesses\<close>

text \<open>Two versions by two users: the second keeps the first line and adds one.\<close>

definition sample_version :: "string \<Rightarrow> string \<Rightarrow> version_entry" where
  "sample_version creator content =
     \<lparr>ve_id = js ''v'', ve_created_at = js ''t'', ve_type = Manual_Version, ve_label = None,
      ve_creator = Some (js creator), ve_content = Some (js content), ve_mime_type = None,
      ve_blame = None\<rparr>"

definition sample_chain :: "version_entry list" where
  "sample_chain =
     [sample_version ''ann'' [CHR ''a'', CHR 0x0A, CHR ''b''],
      sample_version ''bob'' [CHR ''a'', CHR 0x0A, CHR ''c'']]"

lemma sample_chain_blame:
  "computeBlameFromVersions sample_chain =
     [\<lparr>seg_start = 0, seg_end = 2, seg_user = js ''ann''\<rparr>,
      \<lparr>seg_start = 2, seg_end = 3, seg_user = js ''bob''\<rparr>]"
  by code_simp

theorem blame_tiles_final_content_witness:
  "tiling 0 (computeBlameFromVersions sample_chain) (length (content_of (last sample_chain)))"
  using blame_tiles_final_content [of sample_chain] by (simp add: sample_chain_def)

theorem blame_author_wrote_line_witness:
  "\<exists>m i. m < length sample_chain \<and> creator_of (sample_chain ! m) = js ''bob'' \<and>
    splitLines (content_of (last sample_chain)) ! i \<in> set (splitLines (content_of (sample_chain ! m)))"
  using blame_author_wrote_line
    [of "\<lparr>seg_start = 2, seg_end = 3, seg_user = js ''bob''\<rparr>" sample_chain 2]
  by (auto simp: sample_chain_blame)

theorem blame_unchanged_version_witness:
  "computeBlameFromVersions
     ([] @ [sample_version ''ann'' ''x'', sample_version ''bob'' ''x'']) =
   computeBlameFromVersions ([] @ [sample_version ''ann'' ''x''])"
  by (rule blame_unchanged_version) (simp add: sample_version_def content_of_def)

end
