(* ===== verification/Diff_Engine.thy ===== *)
theory Diff_Engine
  imports Lcs
begin

text \<open>
  \<open>frontend/src/collab/diff-engine.ts\<close>: the line diff shown when two versions are compared. Its
  LCS routine is the one of theory Lcs, repeated in the source. Shown: the diff rebuilds both
  texts, numbers their lines consecutively, and keeps as many lines unchanged as any diff can.
\<close>

section \<open>The diff\<close>

datatype diff_type = Added | Removed | Unchanged

record diff_line =
  dl_type :: diff_type
  dl_content :: jsstring
  dl_oldLineNumber :: "nat option"
  dl_newLineNumber :: "nat option"

definition diff_splitLines :: "jsstring \<Rightarrow> jsstring list" where
  "diff_splitLines s = (if s = [] then [] else split_on newline s)"

definition diff_computeLCS :: "jsstring list \<Rightarrow> jsstring list \<Rightarrow> (nat \<times> nat) list" where
  "diff_computeLCS a b = rev (lcs_backtrack a b (lcs_table a b) (length a) (length b) [])"

text \<open>\<open>while (oi < stop) { push removed; oi++ }\<close> and the loop for added lines.\<close>

definition removed_lines :: "jsstring list \<Rightarrow> nat \<Rightarrow> nat \<Rightarrow> diff_line list" where
  "removed_lines oldLines oi stop =
     map (\<lambda>k. \<lparr>dl_type = Removed, dl_content = oldLines ! k,
               dl_oldLineNumber = Some (k + 1), dl_newLineNumber = None\<rparr>) [oi..<stop]"

definition added_lines :: "jsstring list \<Rightarrow> nat \<Rightarrow> nat \<Rightarrow> diff_line list" where
  "added_lines newLines ni stop =
     map (\<lambda>k. \<lparr>dl_type = Added, dl_content = newLines ! k,
               dl_oldLineNumber = None, dl_newLineNumber = Some (k + 1)\<rparr>) [ni..<stop]"

text \<open>The \<open>for (const [oldIdx, newIdx] of lcs)\<close> loop followed by the two trailing loops. After a
  \<open>while (oi < oldIdx)\<close> loop \<open>oi\<close> is the larger of the two.\<close>

fun diff_loop ::
  "jsstring list \<Rightarrow> jsstring list \<Rightarrow> (nat \<times> nat) list \<Rightarrow> nat \<Rightarrow> nat \<Rightarrow> diff_line list" where
  "diff_loop oldLines newLines [] oi ni =
     removed_lines oldLines oi (length oldLines) @ added_lines newLines ni (length newLines)"
| "diff_loop oldLines newLines ((oldIdx, newIdx) # lcs) oi ni =
     (let oi' = max oi oldIdx; ni' = max ni newIdx
      in removed_lines oldLines oi oldIdx @ added_lines newLines ni newIdx @
         [\<lparr>dl_type = Unchanged, dl_content = oldLines ! oi',
           dl_oldLineNumber = Some (oi' + 1), dl_newLineNumber = Some (ni' + 1)\<rparr>] @
         diff_loop oldLines newLines lcs (oi' + 1) (ni' + 1))"

definition computeLineDiff :: "jsstring \<Rightarrow> jsstring \<Rightarrow> diff_line list" where
  "computeLineDiff oldText newText =
     (let oldLines = diff_splitLines oldText; newLines = diff_splitLines newText
      in diff_loop oldLines newLines (diff_computeLCS oldLines newLines) 0 0)"

section \<open>Reading a diff back\<close>

definition old_side :: "diff_line list \<Rightarrow> diff_line list" where
  "old_side ds = filter (\<lambda>d. dl_type d \<noteq> Added) ds"

definition new_side :: "diff_line list \<Rightarrow> diff_line list" where
  "new_side ds = filter (\<lambda>d. dl_type d \<noteq> Removed) ds"

definition unchanged_lines :: "diff_line list \<Rightarrow> diff_line list" where
  "unchanged_lines ds = filter (\<lambda>d. dl_type d = Unchanged) ds"

lemmas side_defs = old_side_def new_side_def unchanged_lines_def

lemma diff_computeLCS_eq: "diff_computeLCS = computeLCS"
  by (simp add: fun_eq_iff diff_computeLCS_def computeLCS_def)

interpretation diff: line_matcher diff_computeLCS
  unfolding diff_computeLCS_eq by (rule dp.line_matcher_axioms)

lemma side_append [simp]:
  "old_side (xs @ ys) = old_side xs @ old_side ys"
  "new_side (xs @ ys) = new_side xs @ new_side ys"
  "unchanged_lines (xs @ ys) = unchanged_lines xs @ unchanged_lines ys"
  by (simp_all add: side_defs)

lemma side_removed [simp]:
  "old_side (removed_lines ls a b) = removed_lines ls a b"
  "new_side (removed_lines ls a b) = []" "unchanged_lines (removed_lines ls a b) = []"
  by (simp_all add: side_defs removed_lines_def filter_map comp_def)

lemma side_added [simp]:
  "old_side (added_lines ls a b) = []" "new_side (added_lines ls a b) = added_lines ls a b"
  "unchanged_lines (added_lines ls a b) = []"
  by (simp_all add: side_defs added_lines_def filter_map comp_def)

text \<open>\<open>numbered f ls a b ds\<close>: the entries are the lines \<open>a, \<dots>, b - 1\<close> of \<open>ls\<close> in order, numbered
  from 1.\<close>

definition numbered ::
  "(diff_line \<Rightarrow> nat option) \<Rightarrow> jsstring list \<Rightarrow> nat \<Rightarrow> nat \<Rightarrow> diff_line list \<Rightarrow> bool" where
  "numbered f ls a b ds \<longleftrightarrow>
     map (\<lambda>d. (dl_content d, f d)) ds = map (\<lambda>k. (ls ! k, Some (k + 1))) [a..<b]"

lemma numbered_trans:
  "numbered f ls a b xs \<Longrightarrow> numbered f ls b c ys \<Longrightarrow> a \<le> b \<Longrightarrow> b \<le> c \<Longrightarrow>
   numbered f ls a c (xs @ ys)"
  using upt_add_eq_append [of a b "c - b"] by (simp add: numbered_def)

lemma numbered_removed: "numbered dl_oldLineNumber ls a b (removed_lines ls a b)"
  by (simp add: numbered_def removed_lines_def)

lemma numbered_added: "numbered dl_newLineNumber ls a b (added_lines ls a b)"
  by (simp add: numbered_def added_lines_def)

lemma matching_Cons:
  "matching a b ((i, j) # ps) \<longleftrightarrow> matching a b ps \<and> (\<forall>p \<in> set ps. pair_less (i, j) p) \<and>
     i < length a \<and> j < length b \<and> a ! i = b ! j"
  by (auto simp: matching_def)

lemma diff_loop_sides:
  assumes "matching oldL newL ps" "\<forall>(i, j) \<in> set ps. oi \<le> i \<and> ni \<le> j"
    "oi \<le> length oldL" "ni \<le> length newL"
  shows "numbered dl_oldLineNumber oldL oi (length oldL) (old_side (diff_loop oldL newL ps oi ni)) \<and>
    numbered dl_newLineNumber newL ni (length newL) (new_side (diff_loop oldL newL ps oi ni)) \<and>
    length (unchanged_lines (diff_loop oldL newL ps oi ni)) = length ps"
  using assms
proof (induction ps arbitrary: oi ni)
  case Nil
  then show ?case by (simp add: numbered_removed numbered_added)
next
  case (Cons p ps)
  obtain i j where p: "p = (i, j)" by (cases p)
  have le: "oi \<le> i" "ni \<le> j" using Cons.prems(2) p by auto
  have m: "matching oldL newL ps" "\<forall>(k, l) \<in> set ps. Suc i \<le> k \<and> Suc j \<le> l"
    "i < length oldL" "j < length newL" and eq: "oldL ! i = newL ! j"
    using Cons.prems(1) p by (auto simp: matching_Cons pair_less_def)
  let ?u = "\<lparr>dl_type = Unchanged, dl_content = oldL ! i, dl_oldLineNumber = Some (i + 1),
    dl_newLineNumber = Some (j + 1)\<rparr>"
  have IH: "numbered dl_oldLineNumber oldL (Suc i) (length oldL) (old_side (diff_loop oldL newL ps (Suc i) (Suc j)))"
    "numbered dl_newLineNumber newL (Suc j) (length newL) (new_side (diff_loop oldL newL ps (Suc i) (Suc j)))"
    "length (unchanged_lines (diff_loop oldL newL ps (Suc i) (Suc j))) = length ps"
    using Cons.IH [OF m(1,2)] m(3,4) by auto
  have u: "numbered dl_oldLineNumber oldL i (Suc i) [?u]" "numbered dl_newLineNumber newL j (Suc j) [?u]"
    using eq by (simp_all add: numbered_def)
  have loop: "diff_loop oldL newL (p # ps) oi ni = removed_lines oldL oi i @ added_lines newL ni j @
      [?u] @ diff_loop oldL newL ps (Suc i) (Suc j)"
    using p le by (simp add: max_def)
  have sides: "old_side [?u] = [?u]" "new_side [?u] = [?u]" "unchanged_lines [?u] = [?u]"
    by (simp_all add: side_defs)
  have old: "numbered dl_oldLineNumber oldL oi (length oldL)
      (removed_lines oldL oi i @ [?u] @ old_side (diff_loop oldL newL ps (Suc i) (Suc j)))"
    by (rule numbered_trans [OF numbered_removed numbered_trans [OF u(1) IH(1)]]) (use le m(3) in auto)
  have new: "numbered dl_newLineNumber newL ni (length newL)
      (added_lines newL ni j @ [?u] @ new_side (diff_loop oldL newL ps (Suc i) (Suc j)))"
    by (rule numbered_trans [OF numbered_added numbered_trans [OF u(2) IH(2)]]) (use le m(4) in auto)
  show ?case
    unfolding loop using old new IH(3) by (simp only: side_append side_removed side_added sides) simp
qed

lemma computeLineDiff_sides:
  fixes oldText newText :: jsstring
  defines "ds \<equiv> computeLineDiff oldText newText"
  shows "numbered dl_oldLineNumber (diff_splitLines oldText) 0 (length (diff_splitLines oldText)) (old_side ds)"
    "numbered dl_newLineNumber (diff_splitLines newText) 0 (length (diff_splitLines newText)) (new_side ds)"
    "length (unchanged_lines ds) =
       length (diff_computeLCS (diff_splitLines oldText) (diff_splitLines newText))"
  using diff_loop_sides [of "diff_splitLines oldText" "diff_splitLines newText"
      "diff_computeLCS (diff_splitLines oldText) (diff_splitLines newText)" 0 0]
  by (simp_all add: ds_def computeLineDiff_def Let_def case_prod_unfold diff.lcs_matching)

lemma join_diff_splitLines: "join_with newline (diff_splitLines s) = s"
  by (simp add: diff_splitLines_def)

lemma numbered_contents: "numbered f ls 0 (length ls) ds \<Longrightarrow> map dl_content ds = ls"
proof -
  assume "numbered f ls 0 (length ls) ds"
  then have "map fst (map (\<lambda>d. (dl_content d, f d)) ds) =
      map fst (map (\<lambda>k. (ls ! k, Some (k + 1))) [0..<length ls])"
    by (simp only: numbered_def)
  then show ?thesis by (simp add: comp_def map_nth)
qed

lemma numbered_numbers: "numbered f ls 0 (length ls) ds \<Longrightarrow> map f ds = map Some [1..<length ls + 1]"
proof -
  assume "numbered f ls 0 (length ls) ds"
  then have "map snd (map (\<lambda>d. (dl_content d, f d)) ds) =
      map snd (map (\<lambda>k. (ls ! k, Some (k + 1))) [0..<length ls])"
    by (simp only: numbered_def)
  then show ?thesis by (simp add: comp_def map_Suc_upt [symmetric] del: upt_Suc)
qed

section \<open>Properties\<close>

text \<open>C32: joining the contents of the removed and unchanged entries gives back the old text, and of
  the added and unchanged entries the new text: a line diff loses nothing of either version.\<close>

theorem line_diff_roundtrip:
  "join_with newline (map dl_content (old_side (computeLineDiff oldText newText))) = oldText \<and>
   join_with newline (map dl_content (new_side (computeLineDiff oldText newText))) = newText"
  by (simp add: numbered_contents [OF computeLineDiff_sides(1)]
      numbered_contents [OF computeLineDiff_sides(2)] join_diff_splitLines)

text \<open>on each side the entries carry the line numbers 1, 2, 3, \<dots> of that side without gap.\<close>

theorem line_diff_numbers:
  "map dl_oldLineNumber (old_side (computeLineDiff oldText newText)) =
     map Some [1..<length (diff_splitLines oldText) + 1] \<and>
   map dl_newLineNumber (new_side (computeLineDiff oldText newText)) =
     map Some [1..<length (diff_splitLines newText) + 1]"
  by (simp only: numbered_numbers [OF computeLineDiff_sides(1)]
      numbered_numbers [OF computeLineDiff_sides(2)])

text \<open>the diff is minimal: no order-preserving pairing of equal lines of the two texts keeps
  more lines than the diff reports as unchanged.\<close>

theorem line_diff_minimal:
  assumes "matching (diff_splitLines oldText) (diff_splitLines newText) ps"
  shows "length ps \<le> length (unchanged_lines (computeLineDiff oldText newText))"
  using diff.lcs_longest [OF assms] computeLineDiff_sides(3) by simp

theorem line_diff_minimal_witness:
  "length [(0, 1)] \<le> length (unchanged_lines
     (computeLineDiff (js ''a'') (js [CHR ''x'', CHR 0x0A, CHR ''a''])))"
  using line_diff_minimal [of "js ''a''" "js [CHR ''x'', CHR 0x0A, CHR ''a'']" "[(0, 1)]"]
  by (simp add: matching_def diff_splitLines_def js_defs)

end
