(* ===== verification/Yjs_Interface.thy ===== *)
theory Yjs_Interface
  imports Prelude
begin

text \<open>
  What the modelled code calls of the third-party package \<open>yjs\<close>: the operations are parameters
  (records of functions), the documented behaviour the code relies on is a predicate over them.
  Theorems that need it state it as a hypothesis; the two concrete instances at the end show that
  the predicates can be satisfied and serve as witnesses.
\<close>

section \<open>Shared text\<close>

record 't ytext_ops =
  yt_toString :: "'t \<Rightarrow> jsstring"
  yt_insert :: "'t \<Rightarrow> nat \<Rightarrow> jsstring \<Rightarrow> 't"
  yt_delete :: "'t \<Rightarrow> nat \<Rightarrow> nat \<Rightarrow> 't"

text \<open>\<open>Y.Text\<close>: \<open>insert(index, s)\<close> and \<open>delete(index, length)\<close> act on the string that \<open>toString\<close>
  shows, for positions inside it. These laws are the documented behaviour; they do not show that Yjs
  replaces the halves of a surrogate pair that an edit splits by U+FFFD.\<close>

definition ytext_laws :: "'t ytext_ops \<Rightarrow> bool" where
  "ytext_laws Y \<longleftrightarrow>
     (\<forall>t i s. i \<le> length (yt_toString Y t) \<longrightarrow>
        yt_toString Y (yt_insert Y t i s) =
          take i (yt_toString Y t) @ s @ drop i (yt_toString Y t)) \<and>
     (\<forall>t i n. i + n \<le> length (yt_toString Y t) \<longrightarrow>
        yt_toString Y (yt_delete Y t i n) =
          take i (yt_toString Y t) @ drop (i + n) (yt_toString Y t))"

lemma ytext_insert:
  "ytext_laws Y \<Longrightarrow> i \<le> length (yt_toString Y t) \<Longrightarrow>
   yt_toString Y (yt_insert Y t i s) = take i (yt_toString Y t) @ s @ drop i (yt_toString Y t)"
  by (simp add: ytext_laws_def)

lemma ytext_delete:
  "ytext_laws Y \<Longrightarrow> i + n \<le> length (yt_toString Y t) \<Longrightarrow>
   yt_toString Y (yt_delete Y t i n) = take i (yt_toString Y t) @ drop (i + n) (yt_toString Y t)"
  by (simp add: ytext_laws_def)

text \<open>Deleting a range and inserting at its start replaces the range.\<close>

lemma ytext_replace:
  assumes "ytext_laws Y" "i + n \<le> length (yt_toString Y t)"
  shows "yt_toString Y (yt_insert Y (yt_delete Y t i n) i s) =
    take i (yt_toString Y t) @ s @ drop (i + n) (yt_toString Y t)"
  using assms by (simp add: ytext_insert ytext_delete)

section \<open>Documents and updates\<close>

text \<open>
  A \<open>Y.Doc\<close> integrates operations; an update carries operations. \<open>yd_ops\<close> and \<open>yu_ops\<close> name the
  sets involved, \<open>yd_ready\<close> says that everything an update depends on is integrated, and
  \<open>yd_emitted\<close> is the update that the \<open>'update'\<close> event reports after a change (\<open>None\<close>: nothing
  changed, no event).
\<close>

record ('d, 'u, 'o) ydoc_ops =
  yd_new :: "nat \<Rightarrow> 'd"
  yd_applyUpdate :: "'d \<Rightarrow> 'u \<Rightarrow> 'd"
  yd_emitted :: "'d \<Rightarrow> 'u \<Rightarrow> 'u option"
  yd_encodeState :: "'d \<Rightarrow> 'u"
  yd_text :: "'d \<Rightarrow> jsstring"
  yd_ops :: "'d \<Rightarrow> 'o set"
  yu_ops :: "'u \<Rightarrow> 'o set"
  yd_ready :: "'d \<Rightarrow> 'u \<Rightarrow> bool"

text \<open>
  The documented laws: an update whose dependencies are present adds its operations; applying it
  again changes nothing; the encoded state of a document is an update that any document can take
  and that carries everything; documents with the same operations show the same text.
\<close>

definition ydoc_laws :: "('d, 'u, 'o) ydoc_ops \<Rightarrow> bool" where
  "ydoc_laws Y \<longleftrightarrow>
     (\<forall>i. yd_ops Y (yd_new Y i) = {}) \<and>
     (\<forall>d u. yd_ready Y d u \<longrightarrow> yd_ops Y (yd_applyUpdate Y d u) = yd_ops Y d \<union> yu_ops Y u) \<and>
     (\<forall>d u. yd_ready Y d u \<longrightarrow> yd_emitted Y d u = None \<longrightarrow> yu_ops Y u \<subseteq> yd_ops Y d) \<and>
     (\<forall>d u e. yd_ready Y d u \<longrightarrow> yd_emitted Y d u = Some e \<longrightarrow>
        yd_ready Y d e \<and> yd_ops Y d \<union> yu_ops Y e = yd_ops Y d \<union> yu_ops Y u) \<and>
     (\<forall>d d' u. yd_ready Y d u \<longrightarrow> yd_ops Y d \<subseteq> yd_ops Y d' \<longrightarrow> yd_ready Y d' u) \<and>
     (\<forall>d. yu_ops Y (yd_encodeState Y d) = yd_ops Y d) \<and>
     (\<forall>d d'. yd_ready Y d' (yd_encodeState Y d)) \<and>
     (\<forall>d d'. yd_ops Y d = yd_ops Y d' \<longrightarrow> yd_text Y d = yd_text Y d')"

lemma ydoc_new: "ydoc_laws Y \<Longrightarrow> yd_ops Y (yd_new Y i) = {}"
  and ydoc_apply: "ydoc_laws Y \<Longrightarrow> yd_ready Y d u \<Longrightarrow>
    yd_ops Y (yd_applyUpdate Y d u) = yd_ops Y d \<union> yu_ops Y u"
  and ydoc_emitted_None: "ydoc_laws Y \<Longrightarrow> yd_ready Y d u \<Longrightarrow> yd_emitted Y d u = None \<Longrightarrow>
    yu_ops Y u \<subseteq> yd_ops Y d"
  and ydoc_emitted_Some: "ydoc_laws Y \<Longrightarrow> yd_ready Y d u \<Longrightarrow> yd_emitted Y d u = Some e \<Longrightarrow>
    yd_ready Y d e \<and> yd_ops Y d \<union> yu_ops Y e = yd_ops Y d \<union> yu_ops Y u"
  and ydoc_ready_mono: "ydoc_laws Y \<Longrightarrow> yd_ready Y d u \<Longrightarrow> yd_ops Y d \<subseteq> yd_ops Y d' \<Longrightarrow>
    yd_ready Y d' u"
  and ydoc_encode: "ydoc_laws Y \<Longrightarrow> yu_ops Y (yd_encodeState Y d) = yd_ops Y d"
  and ydoc_encode_ready: "ydoc_laws Y \<Longrightarrow> yd_ready Y d' (yd_encodeState Y d)"
  and ydoc_text: "ydoc_laws Y \<Longrightarrow> yd_ops Y d = yd_ops Y d' \<Longrightarrow> yd_text Y d = yd_text Y d'"
  unfolding ydoc_laws_def by metis+

section \<open>Instances\<close>

text \<open>A text that is its own string, with the checks on positions left out.\<close>

definition plain_text :: "jsstring ytext_ops" where
  "plain_text =
     \<lparr>yt_toString = (\<lambda>t. t), yt_insert = (\<lambda>t i s. take i t @ s @ drop i t),
      yt_delete = (\<lambda>t i n. take i t @ drop (i + n) t)\<rparr>"

lemma plain_text_laws: "ytext_laws plain_text"
  by (simp add: ytext_laws_def plain_text_def)

text \<open>A grow-only document: operations are numbers, a document and an update list them, and the
  text shows each operation's number as a code unit, in increasing order.\<close>

definition grow_doc :: "(nat list, nat list, nat) ydoc_ops" where
  "grow_doc =
     \<lparr>yd_new = (\<lambda>_. []),
      yd_applyUpdate = (\<lambda>d u. d @ filter (\<lambda>x. x \<notin> set d) u),
      yd_emitted = (\<lambda>d u. let n = filter (\<lambda>x. x \<notin> set d) u in if n = [] then None else Some n),
      yd_encodeState = (\<lambda>d. d),
      yd_text = (\<lambda>d. map of_nat (sort (remdups d))),
      yd_ops = set, yu_ops = set, yd_ready = (\<lambda>_ _. True)\<rparr>"

lemma grow_doc_laws: "ydoc_laws grow_doc"
  by (auto simp: ydoc_laws_def grow_doc_def Let_def filter_empty_conv split: if_splits
      simp flip: sorted_list_of_set_sort_remdups)

end
