(* ===== verification/String_Diff.thy ===== *)
theory String_Diff
  imports Yjs_Interface
begin

text \<open>
  The common-prefix/common-suffix diff. The same two loops stand in \<open>applyStringDiff\<close> of
  \<open>frontend/src/collab/text-binding.ts\<close> and in \<open>computeAnchor\<close> of
  \<open>frontend/src/collab/suggest-engine.ts\<close>. Shown: applying the diff turns the old text into the new
  one, and the replaced range is the shortest one for which that is possible.
\<close>

section \<open>The two loops\<close>

function prefix_loop :: "'a list \<Rightarrow> 'a list \<Rightarrow> nat \<Rightarrow> nat \<Rightarrow> nat" where
  "prefix_loop old new minLen prefixLen =
     (if prefixLen < minLen \<and> old ! prefixLen = new ! prefixLen
      then prefix_loop old new minLen (prefixLen + 1) else prefixLen)"
  by pat_completeness auto
termination
  by (relation "measure (\<lambda>(old, new, minLen, prefixLen). minLen - prefixLen)") auto

function suffix_loop :: "'a list \<Rightarrow> 'a list \<Rightarrow> nat \<Rightarrow> nat \<Rightarrow> nat" where
  "suffix_loop old new bound suffixLen =
     (if suffixLen < bound \<and>
         old ! (length old - 1 - suffixLen) = new ! (length new - 1 - suffixLen)
      then suffix_loop old new bound (suffixLen + 1) else suffixLen)"
  by pat_completeness auto
termination
  by (relation "measure (\<lambda>(old, new, bound, suffixLen). bound - suffixLen)") auto

declare prefix_loop.simps [simp del] suffix_loop.simps [simp del]

definition diff_prefix :: "'a list \<Rightarrow> 'a list \<Rightarrow> nat" where
  "diff_prefix old new = prefix_loop old new (min (length old) (length new)) 0"

definition diff_suffix :: "'a list \<Rightarrow> 'a list \<Rightarrow> nat" where
  "diff_suffix old new =
     suffix_loop old new (min (length old) (length new) - diff_prefix old new) 0"

text \<open>\<open>applyStringDiff(ytext, oldStr, newStr)\<close>.\<close>

definition applyStringDiff :: "'t ytext_ops \<Rightarrow> 't \<Rightarrow> jsstring \<Rightarrow> jsstring \<Rightarrow> 't" where
  "applyStringDiff Y ytext oldStr newStr =
     (let prefixLen = diff_prefix oldStr newStr;
          suffixLen = diff_suffix oldStr newStr;
          deleteFrom = prefixLen;
          deleteCount = int (length oldStr) - int prefixLen - int suffixLen;
          insertEnd = (if suffixLen > 0 then int (length newStr) - int suffixLen
                       else int (length newStr));
          insertText = js_slice newStr (int prefixLen) insertEnd;
          t1 = (if deleteCount > 0 then yt_delete Y ytext deleteFrom (nat deleteCount) else ytext)
      in if length insertText > 0 then yt_insert Y t1 deleteFrom insertText else t1)"

section \<open>What the loops compute\<close>

lemma prefix_loop_spec:
  assumes "p \<le> m" "\<forall>k < p. old ! k = new ! k"
  shows "p \<le> prefix_loop old new m p \<and> prefix_loop old new m p \<le> m \<and>
    (\<forall>k < prefix_loop old new m p. old ! k = new ! k) \<and>
    (prefix_loop old new m p < m \<longrightarrow>
       old ! prefix_loop old new m p \<noteq> new ! prefix_loop old new m p)"
  using assms
proof (induction old new m p rule: prefix_loop.induct)
  case (1 old new m p)
  show ?case
  proof (cases "p < m \<and> old ! p = new ! p")
    case True
    then have "\<forall>k < p + 1. old ! k = new ! k" using "1.prems"(2) by (auto simp: less_Suc_eq)
    with "1.IH" True show ?thesis by (auto simp: prefix_loop.simps [of old new m p])
  next
    case False
    with "1.prems" show ?thesis by (auto simp: prefix_loop.simps [of old new m p])
  qed
qed

lemma suffix_loop_spec:
  assumes "s \<le> b" "\<forall>k < s. old ! (length old - 1 - k) = new ! (length new - 1 - k)"
  shows "s \<le> suffix_loop old new b s \<and> suffix_loop old new b s \<le> b \<and>
    (\<forall>k < suffix_loop old new b s. old ! (length old - 1 - k) = new ! (length new - 1 - k)) \<and>
    (suffix_loop old new b s < b \<longrightarrow>
       old ! (length old - 1 - suffix_loop old new b s) \<noteq>
       new ! (length new - 1 - suffix_loop old new b s))"
  using assms
proof (induction old new b s rule: suffix_loop.induct)
  case (1 old new b s)
  show ?case
  proof (cases "s < b \<and> old ! (length old - 1 - s) = new ! (length new - 1 - s)")
    case True
    then have "\<forall>k < s + 1. old ! (length old - 1 - k) = new ! (length new - 1 - k)"
      using "1.prems"(2) by (auto simp: less_Suc_eq)
    with "1.IH" True show ?thesis by (auto simp: suffix_loop.simps [of old new b s])
  next
    case False
    with "1.prems" show ?thesis by (auto simp: suffix_loop.simps [of old new b s])
  qed
qed

lemma diff_prefix_le: "diff_prefix old new \<le> length old" "diff_prefix old new \<le> length new"
  using prefix_loop_spec [of 0 "min (length old) (length new)" old new]
  by (auto simp: diff_prefix_def)

lemma diff_suffix_le: "diff_suffix old new \<le> min (length old) (length new) - diff_prefix old new"
  using suffix_loop_spec [of 0 "min (length old) (length new) - diff_prefix old new" old new]
  by (auto simp: diff_suffix_def)

lemma diff_fits:
  "diff_prefix old new + diff_suffix old new \<le> length old"
  "diff_prefix old new + diff_suffix old new \<le> length new"
  using diff_prefix_le [of old new] diff_suffix_le [of old new] by auto

lemma diff_prefix_eq: "take (diff_prefix old new) old = take (diff_prefix old new) new"
  using prefix_loop_spec [of 0 "min (length old) (length new)" old new] diff_prefix_le [of old new]
  by (intro nth_equalityI) (auto simp: diff_prefix_def)

lemma diff_suffix_eq:
  "drop (length old - diff_suffix old new) old = drop (length new - diff_suffix old new) new"
proof (rule nth_equalityI)
  let ?s = "diff_suffix old new"
  have fits: "?s \<le> length old" "?s \<le> length new" using diff_fits [of old new] by auto
  then show "length (drop (length old - ?s) old) = length (drop (length new - ?s) new)" by simp
  fix i assume i: "i < length (drop (length old - ?s) old)"
  define k where "k = ?s - 1 - i"
  have k: "k < ?s" "length old - ?s + i = length old - 1 - k" "length new - ?s + i = length new - 1 - k"
    using i fits by (auto simp: k_def)
  have "old ! (length old - 1 - k) = new ! (length new - 1 - k)"
    using suffix_loop_spec [of 0 "min (length old) (length new) - diff_prefix old new" old new] k(1)
    by (simp add: diff_suffix_def)
  then show "drop (length old - ?s) old ! i = drop (length new - ?s) new ! i"
    using i fits k(2,3) by simp
qed

text \<open>The new text is the old one with the middle replaced.\<close>

lemma diff_decompose:
  "take (diff_prefix old new) old @
     take (length new - diff_suffix old new - diff_prefix old new) (drop (diff_prefix old new) new) @
     drop (length old - diff_suffix old new) old = new"
proof -
  let ?p = "diff_prefix old new" and ?s = "diff_suffix old new"
  have "new = take ?p new @ take (length new - ?s - ?p) (drop ?p new) @ drop (length new - ?s) new"
    using take_middle_drop [of ?p "length new - ?s" new] diff_fits(2) [of old new] by simp
  then show ?thesis by (simp add: diff_prefix_eq diff_suffix_eq)
qed

text \<open>No other replacement of one range keeps more of the text.\<close>

lemma diff_shortest:
  assumes "old = p @ d @ s" "new = p @ i @ s"
  shows "length p + length s \<le> diff_prefix old new + diff_suffix old new"
proof -
  let ?m = "min (length old) (length new)" and ?P = "diff_prefix old new" and ?S = "diff_suffix old new"
  have m: "length p + length s \<le> ?m" using assms by simp
  have P: "length p \<le> ?P"
  proof (rule ccontr)
    assume "\<not> ?thesis"
    then have lt: "?P < length p" by simp
    then have "old ! ?P = new ! ?P" using assms by (simp add: nth_append)
    moreover have "?P < ?m" using lt m by simp
    ultimately show False
      using prefix_loop_spec [of 0 ?m old new] by (simp add: diff_prefix_def)
  qed
  show ?thesis
  proof (cases "?S < ?m - ?P")
    case True
    have "length s \<le> ?S"
    proof (rule ccontr)
      assume "\<not> ?thesis"
      then have lt: "?S < length s" by simp
      have "old ! (length old - 1 - ?S) = s ! (length s - 1 - ?S)"
        "new ! (length new - 1 - ?S) = s ! (length s - 1 - ?S)"
        using assms lt by (auto simp: nth_append)
      then show False
        using suffix_loop_spec [of 0 "?m - ?P" old new] True by (simp add: diff_suffix_def)
    qed
    with P show ?thesis by simp
  next
    case False
    then have "?P + ?S = ?m"
      using diff_suffix_le [of old new] diff_prefix_le [of old new] by simp
    with m show ?thesis by simp
  qed
qed

lemma diff_insert_text:
  "js_slice new (int (diff_prefix old new)) (int (length new) - int (diff_suffix old new)) =
     take (length new - diff_suffix old new - diff_prefix old new) (drop (diff_prefix old new) new)"
  using diff_fits(2) [of old new] js_slice_nat_le [of "length new - diff_suffix old new" new]
  by (simp add: of_nat_diff)

lemma applyStringDiff_toString:
  assumes Y: "ytext_laws Y" and old: "yt_toString Y t = old"
  shows "yt_toString Y (applyStringDiff Y t old new) = new"
proof -
  let ?p = "diff_prefix old new" and ?s = "diff_suffix old new"
  define ins where "ins = take (length new - ?s - ?p) (drop ?p new)"
  define t1 where "t1 = (if length old - ?p - ?s > 0 then yt_delete Y t ?p (length old - ?p - ?s) else t)"
  have fits: "?p + ?s \<le> length old" by (rule diff_fits)
  have t1: "yt_toString Y t1 = take ?p old @ drop (length old - ?s) old"
  proof (cases "length old - ?p - ?s > 0")
    case True
    then show ?thesis using ytext_delete [OF Y, of ?p "length old - ?p - ?s" t] fits old
      by (simp add: t1_def)
  next
    case False
    then have "?p = length old - ?s" using fits by simp
    then show ?thesis using False old by (simp add: t1_def)
  qed
  have "applyStringDiff Y t old new = (if ins \<noteq> [] then yt_insert Y t1 ?p ins else t1)"
  proof -
    have ie: "(if ?s > 0 then int (length new) - int ?s else int (length new)) =
        int (length new) - int ?s" by simp
    have dc: "int (length old) - int ?p - int ?s = int (length old - ?p - ?s)"
      using fits by simp
    show ?thesis
      unfolding applyStringDiff_def Let_def ie dc diff_insert_text ins_def t1_def nat_int
        of_nat_0_less_iff length_greater_0_conv ..
  qed
  moreover have "take ?p old @ ins @ drop (length old - ?s) old = new"
    using diff_decompose [of old new] by (simp add: ins_def)
  moreover have "yt_toString Y (yt_insert Y t1 ?p ins) = take ?p old @ ins @ drop (length old - ?s) old"
    using ytext_insert [OF Y, of ?p t1 ins] t1 fits by simp
  ultimately show ?thesis using t1 by auto
qed

section \<open>Properties\<close>

text \<open>C5: applied to a shared text that shows \<open>oldStr\<close>, \<open>applyStringDiff\<close> leaves a text that shows
  \<open>newStr\<close>, whatever the two strings are.\<close>

theorem applyStringDiff_correct:
  assumes "ytext_laws Y" "yt_toString Y ytext = oldStr"
  shows "yt_toString Y (applyStringDiff Y ytext oldStr newStr) = newStr"
  using assms by (rule applyStringDiff_toString)

theorem applyStringDiff_correct_witness:
  "yt_toString plain_text (applyStringDiff plain_text (js ''abXcd'') (js ''abXcd'') (js ''abYYcd'')) =
   js ''abYYcd''"
  by (rule applyStringDiff_correct [OF plain_text_laws]) (simp add: plain_text_def)

text \<open>the diff is local: whenever the old text becomes the new one by replacing one range
  \<open>d\<close> by \<open>i\<close>, the range the diff deletes is no longer than \<open>d\<close> and the text it inserts is no longer
  than \<open>i\<close>, so cursors outside the changed region are not disturbed.\<close>

theorem string_diff_minimal:
  assumes "oldStr = p @ d @ s" "newStr = p @ i @ s"
  shows "length oldStr - diff_prefix oldStr newStr - diff_suffix oldStr newStr \<le> length d \<and>
    length newStr - diff_prefix oldStr newStr - diff_suffix oldStr newStr \<le> length i"
proof -
  have "length oldStr = length p + length d + length s" "length newStr = length p + length i + length s"
    using assms by simp_all
  with diff_shortest [OF assms] show ?thesis by linarith
qed

theorem string_diff_minimal_witness:
  "length (js ''abXcd'') - diff_prefix (js ''abXcd'') (js ''abYYcd'') -
     diff_suffix (js ''abXcd'') (js ''abYYcd'') \<le> length (js ''X'')"
  using string_diff_minimal [of "js ''abXcd''" "js ''ab''" "js ''X''" "js ''cd''" "js ''abYYcd''" "js ''YY''"]
  by (simp add: js_def)

text \<open>The diff works on code units: between two emoji with the same high surrogate it deletes and inserts
  the low surrogate alone, an edit inside a surrogate pair.\<close>

lemma diff_splits_pair:
  "diff_prefix [0xD83D, 0xDE00 :: code_unit] [0xD83D, 0xDE01] = 1
   \<and> diff_suffix [0xD83D, 0xDE00 :: code_unit] [0xD83D, 0xDE01] = 0"
  by (simp add: diff_prefix_def diff_suffix_def prefix_loop.simps suffix_loop.simps)

end
