(* ===== verification/Comment_Types.thy ===== *)
theory Comment_Types
  imports Prelude
begin

text \<open>
  The wire types of the comments feature, \<open>frontend/src/interfaces/comments.ts\<close> (the SDK's
  \<open>comments/types.ts\<close> declares the same shapes). Optional fields are \<open>option\<close>s; offsets are \<open>int\<close>,
  since values read from a provider are not checked for sign.
\<close>

record comment_anchor =
  ca_start :: int
  ca_end :: int
  ca_quoted_text :: jsstring

record mention =
  mn_user_id :: jsstring
  mn_display_name :: jsstring

record reaction =
  re_user_id :: jsstring
  re_user_name :: jsstring
  re_emoji :: jsstring
  re_created_at :: jsstring

record comment =
  cm_id :: jsstring
  cm_thread_id :: jsstring
  cm_author_id :: jsstring
  cm_author_name :: jsstring
  cm_content :: jsstring
  cm_mentions :: "mention list option"
  cm_reactions :: "reaction list option"
  cm_created_at :: jsstring
  cm_updated_at :: "jsstring option"
  cm_deleted_at :: "jsstring option"

datatype suggestion_status = Pending | Accepted | Rejected | Not_Applicable

datatype operation_kind = Op_Insert | Op_Delete | Op_Replace | Op_Format

record operation_summary =
  os_kind :: operation_kind
  os_offset :: int
  os_length :: int
  os_inserted_text :: "jsstring option"
  os_format_change :: "jsstring option"

record suggestion_view =
  sv_summary :: jsstring
  sv_before_text :: jsstring
  sv_after_text :: jsstring
  sv_operations :: "operation_summary list"

record suggestion =
  sg_yjs_payload :: "jsstring option"
  sg_human_readable :: suggestion_view
  sg_author_id :: jsstring
  sg_author_name :: jsstring
  sg_author_note :: "jsstring option"
  sg_status :: suggestion_status
  sg_decided_by :: "jsstring option"
  sg_decided_by_name :: "jsstring option"
  sg_decided_at :: "jsstring option"
  sg_applied_version_id :: "jsstring option"

datatype thread_status = Open_Thread | Resolved_Thread

record comment_thread =
  ct_id :: jsstring
  ct_document_id :: jsstring
  ct_anchor :: comment_anchor
  ct_status :: thread_status
  ct_created_at :: jsstring
  ct_resolved_at :: "jsstring option"
  ct_resolved_by :: "jsstring option"
  ct_comments :: "comment list"
  ct_reactions :: "reaction list option"
  ct_suggestion :: "suggestion option"

record comments_capabilities =
  cc_comment_edit :: bool
  cc_comment_delete :: bool
  cc_reactions :: "jsstring list"
  cc_mentions :: bool
  cc_suggestions :: bool
  cc_max_comment_size :: int
  cc_poll_supported :: bool

datatype comment_change_action =
  Ch_Created | Ch_Reply_Added | Ch_Resolved | Ch_Reopened | Ch_Deleted | Ch_Suggestion_Decided

record comment_change =
  ch_thread_id :: jsstring
  ch_action :: comment_change_action
  ch_by :: jsstring
  ch_at :: jsstring
  ch_comment_id :: "jsstring option"

record mention_candidate =
  mc_user_id :: jsstring
  mc_display_name :: jsstring
  mc_avatar_url :: "jsstring option"

text \<open>The payload a submitted suggestion carries, \<open>frontend/src/interfaces/suggest.ts\<close>.\<close>

record suggestion_payload =
  sp_anchor :: comment_anchor
  sp_yjs_payload :: "jsstring option"
  sp_view :: suggestion_view
  sp_author_note :: "jsstring option"

end
