(* ===== verification/Suggest_Engine.thy ===== *)
theory Suggest_Engine
  imports String_Diff Comment_Types
begin

text \<open>
  \<open>frontend/src/collab/suggest-engine.ts\<close>: Suggest Mode, and \<open>tryApplyTextSuggestion\<close> of
  \<open>frontend/src/multi-editor.ts\<close>, which applies an accepted suggestion. The engine talks to the
  collaboration provider through the interface \<open>ICollaborationProvider\<close>; the locale
  \<open>collab_provider\<close> is that interface with its laws.
\<close>

section \<open>The interface the engine uses\<close>

record 'c collab_ops =
  co_setOutboundOpen :: "bool \<Rightarrow> 'c \<Rightarrow> 'c"
  co_resetEditorDoc :: "'c \<Rightarrow> 'c"
  co_outboundOpen :: "'c \<Rightarrow> bool"
  co_syncText :: "'c \<Rightarrow> jsstring"
  co_editorText :: "'c \<Rightarrow> jsstring"

section \<open>Engine state and operations\<close>

record suggest_engine =
  se_enabled :: bool
  se_destroyed :: bool
  se_textAtEnable :: jsstring
  se_warningListeners :: "nat jsset"

datatype suggest_error = Suggest_Not_Active | No_Pending_Changes

definition suggest_new :: suggest_engine where
  "suggest_new = \<lparr>se_enabled = False, se_destroyed = False, se_textAtEnable = [],
     se_warningListeners = []\<rparr>"

definition suggest_enable ::
  "'c collab_ops \<Rightarrow> jsstring \<Rightarrow> suggest_engine \<times> 'c \<Rightarrow> suggest_engine \<times> 'c" where
  "suggest_enable C currentText st =
     (let e = fst st; c = snd st
      in if se_destroyed e then st
         else if se_enabled e then st
         else (e\<lparr>se_textAtEnable := currentText, se_enabled := True\<rparr>, co_setOutboundOpen C False c))"

definition suggest_disable :: "'c collab_ops \<Rightarrow> suggest_engine \<times> 'c \<Rightarrow> suggest_engine \<times> 'c" where
  "suggest_disable C st =
     (let e = fst st; c = snd st
      in if \<not> se_enabled e then st
         else (e\<lparr>se_enabled := False, se_textAtEnable := []\<rparr>, co_setOutboundOpen C True c))"

definition hasPendingChanges :: "suggest_engine \<Rightarrow> jsstring \<Rightarrow> bool" where
  "hasPendingChanges e currentText = (if \<not> se_enabled e then False else currentText \<noteq> se_textAtEnable e)"

definition suggest_rebase :: "jsstring \<Rightarrow> suggest_engine \<Rightarrow> suggest_engine" where
  "suggest_rebase newBaseline e =
     (if \<not> se_enabled e then e else e\<lparr>se_textAtEnable := newBaseline\<rparr>)"

definition onRebaseWarning :: "nat \<Rightarrow> suggest_engine \<Rightarrow> suggest_engine" where
  "onRebaseWarning cb e = e\<lparr>se_warningListeners := js_add cb (se_warningListeners e)\<rparr>"

definition offRebaseWarning :: "nat \<Rightarrow> suggest_engine \<Rightarrow> suggest_engine" where
  "offRebaseWarning cb e = e\<lparr>se_warningListeners := js_remove cb (se_warningListeners e)\<rparr>"

definition suggest_destroy :: "'c collab_ops \<Rightarrow> suggest_engine \<times> 'c \<Rightarrow> suggest_engine \<times> 'c" where
  "suggest_destroy C st =
     (let e = fst st; c = snd st
      in if se_destroyed e then st
         else let e1 = e\<lparr>se_destroyed := True\<rparr>;
                  st2 = (if se_enabled e1 then suggest_disable C (e1, c) else (e1, c))
              in ((fst st2)\<lparr>se_warningListeners := []\<rparr>, snd st2))"

section \<open>Building a suggestion\<close>

definition computeAnchor :: "jsstring \<Rightarrow> jsstring \<Rightarrow> comment_anchor" where
  "computeAnchor baseText afterText =
     (let prefix = int (diff_prefix baseText afterText);
          suffix = int (diff_suffix baseText afterText);
          start = prefix;
          stop = max prefix (int (length baseText) - suffix)
      in \<lparr>ca_start = start, ca_end = stop, ca_quoted_text = js_slice baseText start stop\<rparr>)"

definition anchored_after :: "jsstring \<Rightarrow> jsstring \<Rightarrow> comment_anchor \<Rightarrow> jsstring" where
  "anchored_after baseText afterText anchor =
     js_slice afterText (ca_start anchor)
       (ca_end anchor + (int (length afterText) - int (length baseText)))"

definition toOperationSummaries ::
  "jsstring \<Rightarrow> jsstring \<Rightarrow> comment_anchor \<Rightarrow> operation_summary list" where
  "toOperationSummaries baseText afterText anchor =
     (let before = js_slice baseText (ca_start anchor) (ca_end anchor);
          after = anchored_after baseText afterText anchor
      in if before = after then []
         else if length before = 0 \<and> length after > 0 then
           [\<lparr>os_kind = Op_Insert, os_offset = ca_start anchor, os_length = 0,
             os_inserted_text = Some after, os_format_change = None\<rparr>]
         else if length before > 0 \<and> length after = 0 then
           [\<lparr>os_kind = Op_Delete, os_offset = ca_start anchor, os_length = int (length before),
             os_inserted_text = None, os_format_change = None\<rparr>]
         else
           [\<lparr>os_kind = Op_Replace, os_offset = ca_start anchor, os_length = int (length before),
             os_inserted_text = Some after, os_format_change = None\<rparr>])"

text \<open>\<open>truncate\<close> ends a shortened text with U+2026; numbers print in decimal.\<close>

definition truncate :: "jsstring \<Rightarrow> nat \<Rightarrow> jsstring" where
  "truncate s n = (if length s \<le> n then s else js_slice s 0 (int n - 1) @ [8230])"

fun decimal :: "nat \<Rightarrow> jsstring" where
  "decimal n = (if n < 10 then [of_nat (48 + n)] else decimal (n div 10) @ [of_nat (48 + n mod 10)])"

definition generateSummary ::
  "operation_summary list \<Rightarrow> comment_anchor \<Rightarrow> jsstring \<Rightarrow> jsstring" where
  "generateSummary operations anchor baseText =
     (case operations of
        [] \<Rightarrow> js ''No changes''
      | op # rest \<Rightarrow>
          let inserted = (case os_inserted_text op of None \<Rightarrow> [] | Some s \<Rightarrow> s)
          in if length operations > 1 then
               js ''Mixed edits ('' @ decimal (length operations) @ js '' ops)''
             else if os_kind op = Op_Insert then js ''Insert \"'' @ truncate inserted 40 @ js ''\"''
             else if os_kind op = Op_Delete then
               js ''Delete '' @ decimal (nat (os_length op)) @ js '' characters''
             else js ''Change \"'' @
               truncate (js_slice baseText (ca_start anchor) (ca_end anchor)) 40 @
               js ''\" to \"'' @ truncate inserted 40 @ js ''\"'')"

definition buildSuggestion ::
  "suggest_engine \<Rightarrow> jsstring option \<Rightarrow> jsstring \<Rightarrow> suggest_error + suggestion_payload" where
  "buildSuggestion e authorNote currentText =
     (if \<not> se_enabled e then Inl Suggest_Not_Active
      else if currentText = se_textAtEnable e then Inl No_Pending_Changes
      else
        let beforeText = se_textAtEnable e;
            afterText = currentText;
            anchor = computeAnchor beforeText afterText;
            operations = toOperationSummaries beforeText afterText anchor
        in Inr \<lparr>sp_anchor = anchor, sp_yjs_payload = None,
             sp_view = \<lparr>sv_summary = generateSummary operations anchor beforeText,
               sv_before_text = js_slice beforeText (ca_start anchor) (ca_end anchor),
               sv_after_text = anchored_after beforeText afterText anchor,
               sv_operations = operations\<rparr>,
             sp_author_note =
               (case authorNote of None \<Rightarrow> None
                | Some n \<Rightarrow> if length n > 0 then Some n else None)\<rparr>)"

text \<open>An exception of \<open>buildSuggestion\<close> leaves \<open>commit\<close> before anything is reset.\<close>

definition suggest_commit ::
  "'c collab_ops \<Rightarrow> jsstring option \<Rightarrow> jsstring \<Rightarrow> suggest_engine \<times> 'c \<Rightarrow>
   (suggest_error + suggestion_payload) \<times> (suggest_engine \<times> 'c)" where
  "suggest_commit C authorNote currentText st =
     (case buildSuggestion (fst st) authorNote currentText of
        Inl err \<Rightarrow> (Inl err, st)
      | Inr payload \<Rightarrow>
          (Inr payload, suggest_disable C (fst st, co_resetEditorDoc C (snd st))))"

definition suggest_discard :: "'c collab_ops \<Rightarrow> suggest_engine \<times> 'c \<Rightarrow> suggest_engine \<times> 'c" where
  "suggest_discard C st =
     (if \<not> se_enabled (fst st) then st
      else suggest_disable C (fst st, co_resetEditorDoc C (snd st)))"

section \<open>Applying a suggestion\<close>

text \<open>\<open>tryApplyTextSuggestion(ytext, anchor, afterText)\<close>: whether a change was attempted, and the
  text afterwards.\<close>

definition tryApplyTextSuggestion ::
  "'t ytext_ops \<Rightarrow> 't \<Rightarrow> (int \<times> int) option \<Rightarrow> jsstring \<Rightarrow> bool \<times> 't" where
  "tryApplyTextSuggestion Y ytext anchor afterText =
     (case anchor of
        None \<Rightarrow> (False, ytext)
      | Some (f, t) \<Rightarrow>
          if f < 0 \<or> t > int (length (yt_toString Y ytext)) \<or> f > t then (False, ytext)
          else
            let existing = js_slice (yt_toString Y ytext) f t
            in if existing = afterText then (True, ytext)
               else
                 let t1 = (if t > f then yt_delete Y ytext (nat f) (nat (t - f)) else ytext)
                 in (True, if length afterText > 0 then yt_insert Y t1 (nat f) afterText else t1))"

section \<open>Any sequence of engine calls\<close>

datatype suggest_cmd =
    Cmd_Enable jsstring | Cmd_Disable | Cmd_Rebase jsstring
  | Cmd_Commit "jsstring option" jsstring | Cmd_Discard | Cmd_Destroy

fun suggest_step :: "'c collab_ops \<Rightarrow> suggest_cmd \<Rightarrow> suggest_engine \<times> 'c \<Rightarrow> suggest_engine \<times> 'c" where
  "suggest_step C (Cmd_Enable s) st = suggest_enable C s st"
| "suggest_step C Cmd_Disable st = suggest_disable C st"
| "suggest_step C (Cmd_Rebase s) st = (suggest_rebase s (fst st), snd st)"
| "suggest_step C (Cmd_Commit n s) st = snd (suggest_commit C n s st)"
| "suggest_step C Cmd_Discard st = suggest_discard C st"
| "suggest_step C Cmd_Destroy st = suggest_destroy C st"

lemmas suggest_defs =
  suggest_enable_def suggest_disable_def suggest_rebase_def suggest_commit_def
  suggest_discard_def suggest_destroy_def

lemma buildSuggestion_enabled: "buildSuggestion e n s = Inr p \<Longrightarrow> se_enabled e"
  by (auto simp: buildSuggestion_def split: if_splits)

text \<open>Suggest Mode is on exactly while the gate is closed.\<close>

definition gate_inv :: "'c collab_ops \<Rightarrow> ('c \<Rightarrow> bool) \<Rightarrow> suggest_engine \<times> 'c \<Rightarrow> bool" where
  "gate_inv C I st \<longleftrightarrow>
     I (snd st) \<and> (se_enabled (fst st) \<longleftrightarrow> \<not> co_outboundOpen C (snd st)) \<and>
     (se_destroyed (fst st) \<longrightarrow> \<not> se_enabled (fst st))"

text \<open>The contract of \<open>ICollaborationProvider\<close> that Suggest Mode rests on.\<close>

locale collab_provider =
  fixes C :: "'c collab_ops" and inv :: "'c \<Rightarrow> bool"
  assumes inv_setOutbound: "inv c \<Longrightarrow> inv (co_setOutboundOpen C b c)"
    and inv_reset: "inv c \<Longrightarrow> inv (co_resetEditorDoc C c)"
    and outbound_setOutbound: "inv c \<Longrightarrow> co_outboundOpen C (co_setOutboundOpen C b c) = b"
    and syncText_setOutbound: "inv c \<Longrightarrow> co_syncText C (co_setOutboundOpen C b c) = co_syncText C c"
    and editorText_setOutbound:
      "inv c \<Longrightarrow> co_editorText C (co_setOutboundOpen C b c) = co_editorText C c"
    and syncText_reset: "inv c \<Longrightarrow> co_syncText C (co_resetEditorDoc C c) = co_syncText C c"
    and editorText_reset: "inv c \<Longrightarrow> co_editorText C (co_resetEditorDoc C c) = co_syncText C c"
begin

lemmas provider_simps = inv_setOutbound inv_reset outbound_setOutbound syncText_setOutbound
  editorText_setOutbound syncText_reset editorText_reset

lemma gate_step: "gate_inv C inv st \<Longrightarrow> gate_inv C inv (suggest_step C cmd st)"
  by (cases cmd)
    (auto simp: gate_inv_def suggest_defs Let_def provider_simps
      dest: buildSuggestion_enabled split: sum.splits)

lemma gate_run: "gate_inv C inv st \<Longrightarrow> gate_inv C inv (fold (suggest_step C) cmds st)"
  by (induction cmds arbitrary: st) (auto simp: gate_step)

lemma step_syncText: "inv (snd st) \<Longrightarrow> co_syncText C (snd (suggest_step C cmd st)) = co_syncText C (snd st)"
  by (cases cmd) (auto simp: suggest_defs Let_def provider_simps split: sum.splits)

lemma run_syncText:
  "gate_inv C inv st \<Longrightarrow> co_syncText C (snd (fold (suggest_step C) cmds st)) = co_syncText C (snd st)"
proof (induction cmds arbitrary: st)
  case (Cons cmd cmds)
  then have "inv (snd st)" by (simp add: gate_inv_def)
  with Cons gate_step [of st cmd] show ?case by (simp add: step_syncText)
qed simp

lemma commit_reverts:
  assumes "inv (snd st)" "suggest_commit C note cur st = (Inr payload, st')"
  shows "\<not> se_enabled (fst st') \<and> co_outboundOpen C (snd st') \<and>
    co_syncText C (snd st') = co_syncText C (snd st) \<and>
    co_editorText C (snd st') = co_syncText C (snd st)"
proof -
  from assms(2) have "se_enabled (fst st)"
    by (auto simp: suggest_commit_def buildSuggestion_def split: if_splits sum.splits)
  then show ?thesis using assms
    by (auto simp: suggest_defs Let_def provider_simps split: sum.splits)
qed

end

section \<open>The anchor\<close>

lemma computeAnchor_fields:
  fixes base after :: jsstring
  defines "p \<equiv> diff_prefix base after" and "s \<equiv> diff_suffix base after"
  shows "ca_start (computeAnchor base after) = int p"
    "ca_end (computeAnchor base after) = int (length base - s)"
    "ca_quoted_text (computeAnchor base after) = take (length base - s - p) (drop p base)"
    "js_slice base (ca_start (computeAnchor base after)) (ca_end (computeAnchor base after)) =
       take (length base - s - p) (drop p base)"
    "anchored_after base after (computeAnchor base after) = take (length after - s - p) (drop p after)"
proof -
  have fits: "p + s \<le> length base" "p + s \<le> length after" by (simp_all add: p_def s_def diff_fits)
  then have m: "max (int p) (int (length base) - int s) = int (length base - s)" by simp
  show start: "ca_start (computeAnchor base after) = int p"
    by (simp add: computeAnchor_def Let_def p_def)
  show stop: "ca_end (computeAnchor base after) = int (length base - s)"
    using m by (simp add: computeAnchor_def Let_def p_def s_def)
  have q: "js_slice base (int p) (int (length base - s)) = take (length base - s - p) (drop p base)"
    by (rule js_slice_nat_le) simp
  then show "ca_quoted_text (computeAnchor base after) = take (length base - s - p) (drop p base)"
    using m by (simp add: computeAnchor_def Let_def p_def s_def)
  show "js_slice base (ca_start (computeAnchor base after)) (ca_end (computeAnchor base after)) =
      take (length base - s - p) (drop p base)"
    using q start stop by simp
  have "int (length base - s) + (int (length after) - int (length base)) = int (length after - s)"
    using fits by simp
  then show "anchored_after base after (computeAnchor base after) = take (length after - s - p) (drop p after)"
    using start stop js_slice_nat_le [of "length after - s" after p] by (simp add: anchored_after_def)
qed

text \<open>Replacing the anchored range of the base text by the suggested text gives the edited text.\<close>

lemma anchor_replace:
  "take (nat (ca_start (computeAnchor base after))) base @
     anchored_after base after (computeAnchor base after) @
     drop (nat (ca_end (computeAnchor base after))) base = after"
  using diff_decompose [of base after] by (simp add: computeAnchor_fields)

lemma anchor_bounds:
  "0 \<le> ca_start (computeAnchor base after)"
  "ca_start (computeAnchor base after) \<le> ca_end (computeAnchor base after)"
  "ca_end (computeAnchor base after) \<le> int (length base)"
  using diff_fits [of base after] by (simp_all add: computeAnchor_fields)

lemma tryApply_in_range:
  assumes Y: "ytext_laws Y" and r: "0 \<le> f" "f \<le> t" "t \<le> int (length (yt_toString Y yt))"
  shows "fst (tryApplyTextSuggestion Y yt (Some (f, t)) a) \<and>
    yt_toString Y (snd (tryApplyTextSuggestion Y yt (Some (f, t)) a)) =
      take (nat f) (yt_toString Y yt) @ a @ drop (nat t) (yt_toString Y yt)"
proof -
  define i where "i = nat f"
  define j where "j = nat t"
  have ij: "f = int i" "t = int j" "i \<le> j" "j \<le> length (yt_toString Y yt)"
    using r by (simp_all add: i_def j_def)
  have sl: "js_slice (yt_toString Y yt) f t = take (j - i) (drop i (yt_toString Y yt))"
    using ij by (simp add: js_slice_nat_le)
  have whole: "take i (yt_toString Y yt) @ take (j - i) (drop i (yt_toString Y yt)) @
      drop j (yt_toString Y yt) = yt_toString Y yt"
    using ij by (simp add: take_middle_drop)
  define t1 where "t1 = (if t > f then yt_delete Y yt i (j - i) else yt)"
  have t1: "yt_toString Y t1 = take i (yt_toString Y yt) @ drop j (yt_toString Y yt)"
    using ij ytext_delete [OF Y, of i "j - i" yt] by (auto simp: t1_def)
  have "yt_toString Y (yt_insert Y t1 i a) = take i (yt_toString Y yt) @ a @ drop j (yt_toString Y yt)"
    using ytext_insert [OF Y, of i t1 a] t1 ij by simp
  moreover have "nat (int j - int i) = j - i" by arith
  ultimately show ?thesis using t1 sl whole ij
    by (auto simp: tryApplyTextSuggestion_def Let_def t1_def)
qed

text \<open>What an operation summary tells a reviewer to do.\<close>

definition perform_op :: "jsstring \<Rightarrow> operation_summary \<Rightarrow> jsstring" where
  "perform_op s op =
     take (nat (os_offset op)) s @ (case os_inserted_text op of None \<Rightarrow> [] | Some i \<Rightarrow> i) @
     drop (nat (os_offset op) + nat (os_length op)) s"

lemma operations_of_change:
  fixes base after :: jsstring
  assumes "base \<noteq> after"
  defines "ops \<equiv> toOperationSummaries base after (computeAnchor base after)"
  shows "\<exists>op. ops = [op] \<and> perform_op base op = after \<and>
    (os_kind op = Op_Insert \<longleftrightarrow> os_length op = 0) \<and>
    (os_kind op = Op_Delete \<longleftrightarrow> os_inserted_text op = None)"
proof -
  let ?A = "computeAnchor base after"
  define b where "b = js_slice base (ca_start ?A) (ca_end ?A)"
  define a where "a = anchored_after base after ?A"
  have rep: "take (nat (ca_start ?A)) base @ a @ drop (nat (ca_end ?A)) base = after"
    unfolding a_def by (rule anchor_replace)
  have b: "b = take (length base - diff_suffix base after - diff_prefix base after)
      (drop (diff_prefix base after) base)"
    unfolding b_def by (rule computeAnchor_fields)
  have se: "nat (ca_start ?A) = diff_prefix base after"
    "nat (ca_end ?A) = length base - diff_suffix base after"
    by (simp_all add: computeAnchor_fields(1,2))
  have len: "nat (ca_start ?A) + length b = nat (ca_end ?A)"
    using diff_fits [of base after] by (simp add: b se)
  have "take (nat (ca_start ?A)) base @ b @ drop (nat (ca_end ?A)) base = base"
    using diff_fits [of base after] take_middle_drop [of "diff_prefix base after"
        "length base - diff_suffix base after" base] by (simp add: b se)
  with rep assms(1) have ne: "b \<noteq> a" by auto
  then show ?thesis
    using rep len by (auto simp: ops_def toOperationSummaries_def Let_def a_def b_def perform_op_def)
qed

section \<open>Properties\<close>

text \<open>C6: a suggestion loses nothing. Whatever the author typed, the payload that \<open>buildSuggestion\<close>
  returns has an anchor inside the text captured at enable time, quotes exactly the anchored text,
  and accepting it on a shared text that still shows that text produces what the author saw.\<close>

theorem suggestion_accept_roundtrip:
  assumes Y: "ytext_laws Y"
    and build: "buildSuggestion e note cur = Inr p"
    and same: "yt_toString Y ytext = se_textAtEnable e"
  shows "fst (tryApplyTextSuggestion Y ytext (Some (ca_start (sp_anchor p), ca_end (sp_anchor p)))
           (sv_after_text (sp_view p))) \<and>
    yt_toString Y (snd (tryApplyTextSuggestion Y ytext
      (Some (ca_start (sp_anchor p), ca_end (sp_anchor p))) (sv_after_text (sp_view p)))) = cur \<and>
    ca_quoted_text (sp_anchor p) = sv_before_text (sp_view p)"
proof -
  let ?A = "computeAnchor (se_textAtEnable e) cur"
  have p: "sp_anchor p = ?A" "sv_after_text (sp_view p) = anchored_after (se_textAtEnable e) cur ?A"
    "sv_before_text (sp_view p) = js_slice (se_textAtEnable e) (ca_start ?A) (ca_end ?A)"
    using build by (auto simp: buildSuggestion_def Let_def split: if_splits)
  have "ca_end ?A \<le> int (length (yt_toString Y ytext))" using same by (simp add: anchor_bounds)
  from tryApply_in_range [OF Y anchor_bounds(1,2) this, of "sv_after_text (sp_view p)"]
  show ?thesis using p same anchor_replace [of "se_textAtEnable e" cur]
    by (simp add: computeAnchor_fields(3,4))
qed

text \<open>\<open>buildSuggestion\<close> fails exactly when Suggest Mode is off or nothing changed, with the error
  of that case; otherwise it reports one operation, whose kind says whether text is only inserted or
  only deleted, and performing that operation on the captured text gives the current text.\<close>

theorem buildSuggestion_outcome:
  "case buildSuggestion e note cur of
     Inl Suggest_Not_Active \<Rightarrow> \<not> se_enabled e
   | Inl No_Pending_Changes \<Rightarrow> se_enabled e \<and> \<not> hasPendingChanges e cur
   | Inr p \<Rightarrow> hasPendingChanges e cur \<and>
       (\<exists>op. sv_operations (sp_view p) = [op] \<and> perform_op (se_textAtEnable e) op = cur \<and>
         (os_kind op = Op_Insert \<longleftrightarrow> os_length op = 0) \<and>
         (os_kind op = Op_Delete \<longleftrightarrow> os_inserted_text op = None))"
  using operations_of_change [of "se_textAtEnable e" cur]
  by (auto simp: buildSuggestion_def hasPendingChanges_def Let_def)

section \<open>Witness\<close>

definition drafting :: suggest_engine where
  "drafting = suggest_new\<lparr>se_enabled := True, se_textAtEnable := js ''one two''\<rparr>"

theorem suggestion_accept_roundtrip_witness:
  "\<exists>p. buildSuggestion drafting None (js ''one 2'') = Inr p \<and>
     yt_toString plain_text (snd (tryApplyTextSuggestion plain_text (js ''one two'')
       (Some (ca_start (sp_anchor p), ca_end (sp_anchor p))) (sv_after_text (sp_view p)))) =
     js ''one 2''"
proof -
  have "js ''one 2'' \<noteq> js ''one two''" by (simp add: js_def)
  then obtain p where p: "buildSuggestion drafting None (js ''one 2'') = Inr p"
    by (simp add: buildSuggestion_def drafting_def Let_def)
  have "yt_toString plain_text (js ''one two'') = se_textAtEnable drafting"
    by (simp add: plain_text_def drafting_def)
  from suggestion_accept_roundtrip [OF plain_text_laws p this] p show ?thesis by blast
qed

end
