(* ===== verification/Collab_Provider.thy ===== *)
theory Collab_Provider
  imports Suggest_Engine
begin

text \<open>
  \<open>frontend/src/collab/doc-replicator.ts\<close> and \<open>frontend/src/collab/collab-provider.ts\<close>: the pair of
  documents (the one on the wire and the one the editors write to), the gated replicator between
  them, the reset of the editor document, and the connection state of the provider. The documents
  are parameters (theory Yjs_Interface). Shown: with open gates every update is applied once to each
  document and the two show the same text after any sequence of updates; with the outbound gate closed nothing the editor does reaches
  the wire document; the provider satisfies the contract Suggest Mode uses.
\<close>

section \<open>The replicator\<close>

datatype origin = Replicator_Symbol nat | Transport nat | Local_Origin nat

record 'd replicator =
  rp_syncDoc :: 'd
  rp_editorDoc :: 'd
  rp_inboundOpen :: bool
  rp_outboundOpen :: bool
  rp_origin :: nat
  rp_destroyed :: bool

definition new_replicator :: "nat \<Rightarrow> 'd \<Rightarrow> 'd \<Rightarrow> 'd replicator" where
  "new_replicator symb sync editor =
     \<lparr>rp_syncDoc = sync, rp_editorDoc = editor, rp_inboundOpen = True, rp_outboundOpen = True,
      rp_origin = symb, rp_destroyed = False\<rparr>"

text \<open>
  Applying an update to one document emits its \<open>'update'\<close> event; the replicator's listener may
  apply it to the other document, which emits an event of its own. \<open>sync_update\<close> and
  \<open>editor_update\<close> are an update on either document together with the listener's reaction. The
  recursion ends because the replicated update carries the replicator's own symbol as origin.
\<close>

function sync_update ::
    "('d, 'u, 'o) ydoc_ops \<Rightarrow> 'u \<Rightarrow> origin \<Rightarrow> 'd replicator \<Rightarrow> 'd replicator"
  and editor_update ::
    "('d, 'u, 'o) ydoc_ops \<Rightarrow> 'u \<Rightarrow> origin \<Rightarrow> 'd replicator \<Rightarrow> 'd replicator" where
  "sync_update Y u orig r =
     (let r1 = r\<lparr>rp_syncDoc := yd_applyUpdate Y (rp_syncDoc r) u\<rparr>
      in case yd_emitted Y (rp_syncDoc r) u of
           None \<Rightarrow> r1
         | Some e \<Rightarrow>
             if rp_destroyed r then r1
             else if orig = Replicator_Symbol (rp_origin r) then r1
             else if \<not> rp_inboundOpen r then r1
             else editor_update Y e (Replicator_Symbol (rp_origin r)) r1)"
| "editor_update Y u orig r =
     (let r1 = r\<lparr>rp_editorDoc := yd_applyUpdate Y (rp_editorDoc r) u\<rparr>
      in case yd_emitted Y (rp_editorDoc r) u of
           None \<Rightarrow> r1
         | Some e \<Rightarrow>
             if rp_destroyed r then r1
             else if orig = Replicator_Symbol (rp_origin r) then r1
             else if \<not> rp_outboundOpen r then r1
             else sync_update Y e (Replicator_Symbol (rp_origin r)) r1)"
  by pat_completeness auto
termination
  by (relation "measure (\<lambda>x. case x of
        Inl (Y, u, orig, r) \<Rightarrow> (if orig = Replicator_Symbol (rp_origin r) then 0 else 1)
      | Inr (Y, u, orig, r) \<Rightarrow> (if orig = Replicator_Symbol (rp_origin r) then 0 else 1))")
    auto

declare sync_update.simps [simp del] editor_update.simps [simp del]

definition seedEditorFromSync :: "('d, 'u, 'o) ydoc_ops \<Rightarrow> 'd replicator \<Rightarrow> 'd replicator" where
  "seedEditorFromSync Y r =
     (if rp_destroyed r then r
      else editor_update Y (yd_encodeState Y (rp_syncDoc r)) (Replicator_Symbol (rp_origin r)) r)"

definition replicator_destroy :: "'d replicator \<Rightarrow> 'd replicator" where
  "replicator_destroy r = (if rp_destroyed r then r else r\<lparr>rp_destroyed := True\<rparr>)"

section \<open>The provider\<close>

datatype collab_status = Connecting | Connected | Disconnected

text \<open>Effects the provider has on its subscribers and on waiting callers, in order.\<close>

datatype 'm provider_event =
    Fired_Status nat collab_status
  | Fired_Remote nat
  | Fired_App nat 'm
  | Fired_Reset nat
  | Resolved nat
  | Rejected_Timeout nat
  | Rejected_Destroyed nat

record ('d, 'm) provider =
  cp_replicator :: "'d replicator"
  cp_fresh :: nat
  cp_transport :: "nat option"
  cp_status :: collab_status
  cp_statusCallbacks :: "nat jsset"
  cp_remoteCallbacks :: "nat jsset"
  cp_appMessageCallbacks :: "nat jsset"
  cp_editorResetCallbacks :: "nat jsset"
  cp_connectedResolvers :: "nat list"
  cp_updateListeners :: nat
  cp_hooked :: "nat list"
  cp_destroyedDocs :: "'d list"
  cp_events :: "'m provider_event list"

definition new_provider :: "('d, 'u, 'o) ydoc_ops \<Rightarrow> ('d, 'm) provider" where
  "new_provider Y =
     \<lparr>cp_replicator = new_replicator 2 (yd_new Y 0) (yd_new Y 1), cp_fresh = 3, cp_transport = None,
      cp_status = Disconnected, cp_statusCallbacks = [], cp_remoteCallbacks = [],
      cp_appMessageCallbacks = [], cp_editorResetCallbacks = [], cp_connectedResolvers = [],
      cp_updateListeners = 0, cp_hooked = [], cp_destroyedDocs = [], cp_events = []\<rparr>"

definition setStatus :: "collab_status \<Rightarrow> ('d, 'm) provider \<Rightarrow> ('d, 'm) provider" where
  "setStatus status p =
     (if status = cp_status p then p
      else p\<lparr>cp_status := status,
             cp_events := cp_events p @ map (\<lambda>cb. Fired_Status cb status) (cp_statusCallbacks p)\<rparr>)"

definition resolve_waiting :: "('d, 'm) provider \<Rightarrow> ('d, 'm) provider" where
  "resolve_waiting p =
     p\<lparr>cp_events := cp_events p @ map Resolved (cp_connectedResolvers p), cp_connectedResolvers := []\<rparr>"

definition disconnect :: "('d, 'm) provider \<Rightarrow> ('d, 'm) provider" where
  "disconnect p = setStatus Disconnected (p\<lparr>cp_transport := None\<rparr>)"

definition whenConnected :: "nat \<Rightarrow> ('d, 'm) provider \<Rightarrow> ('d, 'm) provider" where
  "whenConnected call p =
     (if cp_status p = Connected then p\<lparr>cp_events := cp_events p @ [Resolved call]\<rparr>
      else p\<lparr>cp_connectedResolvers := cp_connectedResolvers p @ [call]\<rparr>)"

definition connect_timeout :: "nat \<Rightarrow> ('d, 'm) provider \<Rightarrow> ('d, 'm) provider" where
  "connect_timeout call p =
     (if call \<in> set (cp_connectedResolvers p) then
        p\<lparr>cp_connectedResolvers := filter (\<lambda>r. r \<noteq> call) (cp_connectedResolvers p),
          cp_events := cp_events p @ [Rejected_Timeout call]\<rparr>
      else p)"

text \<open>\<open>connect\<close>: a transport (its identity, and whether it was already connected when the listener
  was attached) replaces the previous one; every call adds another update listener to \<open>syncDoc\<close>.\<close>

definition connect :: "nat \<Rightarrow> bool \<Rightarrow> nat \<Rightarrow> ('d, 'm) provider \<Rightarrow> ('d, 'm) provider" where
  "connect transport wsconnected call p =
     (let p1 = setStatus Connecting (disconnect p);
          p2 = p1\<lparr>cp_transport := Some transport\<rparr>;
          p3 = (if wsconnected then resolve_waiting (setStatus Connected p2) else p2);
          p4 = p3\<lparr>cp_updateListeners := cp_updateListeners p3 + 1\<rparr>
      in whenConnected call p4)"

definition on_transport_status :: "collab_status \<Rightarrow> ('d, 'm) provider \<Rightarrow> ('d, 'm) provider" where
  "on_transport_status newStatus p =
     (let p1 = setStatus newStatus p
      in if newStatus = Connected then
           resolve_waiting
             (case cp_transport p1 of
                None \<Rightarrow> p1
              | Some t \<Rightarrow> p1\<lparr>cp_hooked := cp_hooked p1 @ [t]\<rparr>)
         else p1)"

text \<open>An update arriving on \<open>syncDoc\<close>: the replicator's listener runs, then each listener that
  \<open>connect\<close> added; they report only updates whose origin is the current transport.\<close>

definition remote_listener :: "origin \<Rightarrow> ('d, 'm) provider \<Rightarrow> ('d, 'm) provider" where
  "remote_listener orig p =
     (if map_option Transport (cp_transport p) \<noteq> Some orig then p
      else p\<lparr>cp_events := cp_events p @ map Fired_Remote (cp_remoteCallbacks p)\<rparr>)"

definition provider_sync_update ::
  "('d, 'u, 'o) ydoc_ops \<Rightarrow> 'u \<Rightarrow> origin \<Rightarrow> ('d, 'm) provider \<Rightarrow> ('d, 'm) provider" where
  "provider_sync_update Y u orig p =
     (let p1 = p\<lparr>cp_replicator := sync_update Y u orig (cp_replicator p)\<rparr>
      in case yd_emitted Y (rp_syncDoc (cp_replicator p)) u of
           None \<Rightarrow> p1
         | Some _ \<Rightarrow> (remote_listener orig ^^ cp_updateListeners p) p1)"

definition resetEditorDoc :: "('d, 'u, 'o) ydoc_ops \<Rightarrow> ('d, 'm) provider \<Rightarrow> ('d, 'm) provider" where
  "resetEditorDoc Y p =
     (let oldReplicator = cp_replicator p;
          newEditorDoc = yd_new Y (cp_fresh p);
          newReplicator = new_replicator (cp_fresh p + 1) (rp_syncDoc oldReplicator) newEditorDoc;
          seeded = seedEditorFromSync Y newReplicator
      in p\<lparr>cp_replicator := seeded, cp_fresh := cp_fresh p + 2,
           cp_destroyedDocs := cp_destroyedDocs p @ [rp_editorDoc (replicator_destroy oldReplicator)],
           cp_events := cp_events p @ map Fired_Reset (cp_editorResetCallbacks p)\<rparr>)"

text \<open>The message hook: a binary frame of at least two bytes whose first byte is 3 goes to the
  application callbacks when its JSON parses, and is never passed on.\<close>

definition hook_message ::
  "(8 word list \<Rightarrow> 'm option) \<Rightarrow> 8 word list \<Rightarrow> ('d, 'm) provider \<Rightarrow> bool \<times> ('d, 'm) provider" where
  "hook_message parse bytes p =
     (if length bytes > 1 \<and> bytes ! 0 = 3 then
        (False, case parse (drop 1 bytes) of
           None \<Rightarrow> p
         | Some m \<Rightarrow> p\<lparr>cp_events := cp_events p @ map (\<lambda>cb. Fired_App cb m) (cp_appMessageCallbacks p)\<rparr>)
      else (True, p))"

definition provider_destroy :: "('d, 'm) provider \<Rightarrow> ('d, 'm) provider" where
  "provider_destroy p =
     (let p1 = disconnect p
      in p1\<lparr>cp_events := cp_events p1 @ map Rejected_Destroyed (cp_connectedResolvers p1),
            cp_connectedResolvers := [], cp_statusCallbacks := [], cp_remoteCallbacks := [],
            cp_appMessageCallbacks := [], cp_editorResetCallbacks := [],
            cp_replicator := replicator_destroy (cp_replicator p1),
            cp_destroyedDocs := cp_destroyedDocs p1 @
              [rp_editorDoc (cp_replicator p1), rp_syncDoc (cp_replicator p1)]\<rparr>)"

definition onStatusChange :: "nat \<Rightarrow> ('d, 'm) provider \<Rightarrow> ('d, 'm) provider" where
  "onStatusChange cb p = p\<lparr>cp_statusCallbacks := js_add cb (cp_statusCallbacks p)\<rparr>"

definition onRemoteUpdate :: "nat \<Rightarrow> ('d, 'm) provider \<Rightarrow> ('d, 'm) provider" where
  "onRemoteUpdate cb p = p\<lparr>cp_remoteCallbacks := js_add cb (cp_remoteCallbacks p)\<rparr>"

definition onEditorDocReset :: "nat \<Rightarrow> ('d, 'm) provider \<Rightarrow> ('d, 'm) provider" where
  "onEditorDocReset cb p = p\<lparr>cp_editorResetCallbacks := js_add cb (cp_editorResetCallbacks p)\<rparr>"

definition onAppMessage :: "nat \<Rightarrow> ('d, 'm) provider \<Rightarrow> ('d, 'm) provider" where
  "onAppMessage cb p = p\<lparr>cp_appMessageCallbacks := js_add cb (cp_appMessageCallbacks p)\<rparr>"

text \<open>The provider behind the interface of Suggest Mode.\<close>

definition provider_ops :: "('d, 'u, 'o) ydoc_ops \<Rightarrow> ('d, 'm) provider collab_ops" where
  "provider_ops Y =
     \<lparr>co_setOutboundOpen = (\<lambda>b p. p\<lparr>cp_replicator := (cp_replicator p)\<lparr>rp_outboundOpen := b\<rparr>\<rparr>),
      co_resetEditorDoc = resetEditorDoc Y,
      co_outboundOpen = (\<lambda>p. rp_outboundOpen (cp_replicator p)),
      co_syncText = (\<lambda>p. yd_text Y (rp_syncDoc (cp_replicator p))),
      co_editorText = (\<lambda>p. yd_text Y (rp_editorDoc (cp_replicator p)))\<rparr>"

section \<open>Runs of the replicator\<close>

datatype 'u replica_event = Sync_Event 'u origin | Editor_Event 'u origin

fun replica_step ::
  "('d, 'u, 'o) ydoc_ops \<Rightarrow> 'u replica_event \<Rightarrow> 'd replicator \<Rightarrow> 'd replicator" where
  "replica_step Y (Sync_Event u orig) r = sync_update Y u orig r"
| "replica_step Y (Editor_Event u orig) r = editor_update Y u orig r"

text \<open>An event is admissible when its update's dependencies are present in the document it arrives
  at; the replicator's symbol is private, so no event from outside carries it.\<close>

fun admissible :: "('d, 'u, 'o) ydoc_ops \<Rightarrow> 'u replica_event \<Rightarrow> 'd replicator \<Rightarrow> bool" where
  "admissible Y (Sync_Event u orig) r =
     (yd_ready Y (rp_syncDoc r) u \<and> orig \<noteq> Replicator_Symbol (rp_origin r))"
| "admissible Y (Editor_Event u orig) r =
     (yd_ready Y (rp_editorDoc r) u \<and> orig \<noteq> Replicator_Symbol (rp_origin r))"

fun admissible_run :: "('d, 'u, 'o) ydoc_ops \<Rightarrow> 'u replica_event list \<Rightarrow> 'd replicator \<Rightarrow> bool" where
  "admissible_run Y [] r = True"
| "admissible_run Y (e # es) r = (admissible Y e r \<and> admissible_run Y es (replica_step Y e r))"

definition mirrored :: "('d, 'u, 'o) ydoc_ops \<Rightarrow> 'd replicator \<Rightarrow> bool" where
  "mirrored Y r \<longleftrightarrow> yd_ops Y (rp_syncDoc r) = yd_ops Y (rp_editorDoc r)"

section \<open>Closed forms: a replicated update is not replicated again\<close>

lemma sync_update_own:
  "sync_update Y u (Replicator_Symbol (rp_origin r)) r =
     r\<lparr>rp_syncDoc := yd_applyUpdate Y (rp_syncDoc r) u\<rparr>"
  by (simp add: sync_update.simps Let_def split: option.split)

lemma editor_update_own:
  "editor_update Y u (Replicator_Symbol (rp_origin r)) r =
     r\<lparr>rp_editorDoc := yd_applyUpdate Y (rp_editorDoc r) u\<rparr>"
  by (simp add: editor_update.simps Let_def split: option.split)

lemma sync_update_eq:
  "sync_update Y u orig r =
     (case yd_emitted Y (rp_syncDoc r) u of
        None \<Rightarrow> r\<lparr>rp_syncDoc := yd_applyUpdate Y (rp_syncDoc r) u\<rparr>
      | Some e \<Rightarrow>
          if rp_destroyed r \<or> orig = Replicator_Symbol (rp_origin r) \<or> \<not> rp_inboundOpen r
          then r\<lparr>rp_syncDoc := yd_applyUpdate Y (rp_syncDoc r) u\<rparr>
          else r\<lparr>rp_syncDoc := yd_applyUpdate Y (rp_syncDoc r) u,
                 rp_editorDoc := yd_applyUpdate Y (rp_editorDoc r) e\<rparr>)"
  using editor_update_own [of Y _ "r\<lparr>rp_syncDoc := yd_applyUpdate Y (rp_syncDoc r) u\<rparr>"]
  by (auto simp: sync_update.simps Let_def split: option.split)

lemma editor_update_eq:
  "editor_update Y u orig r =
     (case yd_emitted Y (rp_editorDoc r) u of
        None \<Rightarrow> r\<lparr>rp_editorDoc := yd_applyUpdate Y (rp_editorDoc r) u\<rparr>
      | Some e \<Rightarrow>
          if rp_destroyed r \<or> orig = Replicator_Symbol (rp_origin r) \<or> \<not> rp_outboundOpen r
          then r\<lparr>rp_editorDoc := yd_applyUpdate Y (rp_editorDoc r) u\<rparr>
          else r\<lparr>rp_editorDoc := yd_applyUpdate Y (rp_editorDoc r) u,
                 rp_syncDoc := yd_applyUpdate Y (rp_syncDoc r) e\<rparr>)"
  using sync_update_own [of Y _ "r\<lparr>rp_editorDoc := yd_applyUpdate Y (rp_editorDoc r) u\<rparr>"]
  by (auto simp: editor_update.simps Let_def split: option.split)

lemma step_flags [simp]:
  "rp_inboundOpen (replica_step Y e r) = rp_inboundOpen r"
  "rp_outboundOpen (replica_step Y e r) = rp_outboundOpen r"
  "rp_destroyed (replica_step Y e r) = rp_destroyed r"
  "rp_origin (replica_step Y e r) = rp_origin r"
  by (cases e; auto simp: sync_update_eq editor_update_eq split: option.split)+

lemma update_flags [simp]:
  "rp_outboundOpen (sync_update Y u orig r) = rp_outboundOpen r"
  "rp_outboundOpen (editor_update Y u orig r) = rp_outboundOpen r"
  using step_flags(2) [of Y "Sync_Event u orig" r] step_flags(2) [of Y "Editor_Event u orig" r] by simp_all

lemma run_flags [simp]:
  "rp_inboundOpen (fold (replica_step Y) es r) = rp_inboundOpen r"
  "rp_outboundOpen (fold (replica_step Y) es r) = rp_outboundOpen r"
  "rp_destroyed (fold (replica_step Y) es r) = rp_destroyed r"
  by (induction es arbitrary: r) auto

section \<open>Invariants\<close>

lemma mirrored_step:
  assumes Y: "ydoc_laws Y" and gates: "rp_inboundOpen r" "rp_outboundOpen r" "\<not> rp_destroyed r"
    and m: "mirrored Y r" and adm: "admissible Y e r"
  shows "mirrored Y (replica_step Y e r)"
proof -
  have eq: "yd_ops Y (rp_syncDoc r) = yd_ops Y (rp_editorDoc r)" using m by (simp add: mirrored_def)
  have ready: "yd_ready Y (rp_editorDoc r) u" if "yd_ready Y (rp_syncDoc r) u" for u
    using ydoc_ready_mono [OF Y that] eq by simp
  have ready': "yd_ready Y (rp_syncDoc r) u" if "yd_ready Y (rp_editorDoc r) u" for u
    using ydoc_ready_mono [OF Y that] eq by simp
  show ?thesis
  proof (cases e)
    case (Sync_Event u orig)
    then have u: "yd_ready Y (rp_syncDoc r) u" "orig \<noteq> Replicator_Symbol (rp_origin r)"
      using adm by auto
    then show ?thesis
      using Sync_Event gates eq ydoc_emitted_None [OF Y u(1)] ydoc_emitted_Some [OF Y u(1)] ready
      by (auto simp: mirrored_def sync_update_eq ydoc_apply [OF Y] split: option.split)
  next
    case (Editor_Event u orig)
    then have u: "yd_ready Y (rp_editorDoc r) u" "orig \<noteq> Replicator_Symbol (rp_origin r)"
      using adm by auto
    then show ?thesis
      using Editor_Event gates eq ydoc_emitted_None [OF Y u(1)] ydoc_emitted_Some [OF Y u(1)] ready'
      by (auto simp: mirrored_def editor_update_eq ydoc_apply [OF Y] split: option.split)
  qed
qed

lemma mirrored_run:
  assumes "ydoc_laws Y" "rp_inboundOpen r" "rp_outboundOpen r" "\<not> rp_destroyed r" "mirrored Y r"
    "admissible_run Y es r"
  shows "mirrored Y (fold (replica_step Y) es r)"
  using assms by (induction es arbitrary: r) (auto simp: mirrored_step)

text \<open>What a run applies to the wire document and to the editor document: every event is one update
  of the document it arrives at, and what that document reports of it, if anything, one update of the
  other. The pair of documents is threaded through.\<close>

definition reported_update :: "('d, 'u, 'o) ydoc_ops \<Rightarrow> 'd \<Rightarrow> 'u \<Rightarrow> 'u list" where
  "reported_update Y d u = (case yd_emitted Y d u of None \<Rightarrow> [] | Some e \<Rightarrow> [e])"

fun applied_updates ::
  "('d, 'u, 'o) ydoc_ops \<Rightarrow> 'u replica_event list \<Rightarrow> 'd \<Rightarrow> 'd \<Rightarrow> 'u list \<times> 'u list" where
  "applied_updates Y [] wire editor = ([], [])"
| "applied_updates Y (Sync_Event u orig # es) wire editor =
     (let (ws, ds) = applied_updates Y es (yd_applyUpdate Y wire u)
            (foldl (yd_applyUpdate Y) editor (reported_update Y wire u))
      in (u # ws, reported_update Y wire u @ ds))"
| "applied_updates Y (Editor_Event u orig # es) wire editor =
     (let (ws, ds) = applied_updates Y es (foldl (yd_applyUpdate Y) wire (reported_update Y editor u))
            (yd_applyUpdate Y editor u)
      in (reported_update Y editor u @ ws, u # ds))"

lemma replica_step_docs:
  assumes "rp_inboundOpen r" "rp_outboundOpen r" "\<not> rp_destroyed r" "admissible Y e r"
  shows "(rp_syncDoc (replica_step Y e r), rp_editorDoc (replica_step Y e r)) =
    (case e of
       Sync_Event u _ \<Rightarrow> (yd_applyUpdate Y (rp_syncDoc r) u,
         foldl (yd_applyUpdate Y) (rp_editorDoc r) (reported_update Y (rp_syncDoc r) u))
     | Editor_Event u _ \<Rightarrow> (foldl (yd_applyUpdate Y) (rp_syncDoc r) (reported_update Y (rp_editorDoc r) u),
         yd_applyUpdate Y (rp_editorDoc r) u))"
  using assms
  by (cases e) (auto simp: sync_update_eq editor_update_eq reported_update_def split: option.split)

lemma applied_updates_run:
  assumes "rp_inboundOpen r" "rp_outboundOpen r" "\<not> rp_destroyed r" "admissible_run Y es r"
  shows "(rp_syncDoc (fold (replica_step Y) es r), rp_editorDoc (fold (replica_step Y) es r)) =
    (foldl (yd_applyUpdate Y) (rp_syncDoc r) (fst (applied_updates Y es (rp_syncDoc r) (rp_editorDoc r))),
     foldl (yd_applyUpdate Y) (rp_editorDoc r) (snd (applied_updates Y es (rp_syncDoc r) (rp_editorDoc r))))"
  using assms
proof (induction es arbitrary: r)
  case (Cons e es)
  let ?q = "replica_step Y e r"
  have ih: "(rp_syncDoc (fold (replica_step Y) es ?q), rp_editorDoc (fold (replica_step Y) es ?q)) =
      (foldl (yd_applyUpdate Y) (rp_syncDoc ?q) (fst (applied_updates Y es (rp_syncDoc ?q) (rp_editorDoc ?q))),
       foldl (yd_applyUpdate Y) (rp_editorDoc ?q) (snd (applied_updates Y es (rp_syncDoc ?q) (rp_editorDoc ?q))))"
    by (rule Cons.IH) (use Cons.prems in simp_all)
  have "admissible Y e r" using Cons.prems(4) by simp
  with ih show ?case using Cons.prems(1-3) replica_step_docs [of r Y e]
    by (cases e) (simp_all add: split_beta)
qed simp

lemma applied_updates_length:
  "length (fst (applied_updates Y es wire editor)) \<le> length es \<and> length (snd (applied_updates Y es wire editor)) \<le> length es"
proof (induction es arbitrary: wire editor)
  case (Cons e es)
  have "length (reported_update Y d u) \<le> 1" for d u by (simp add: reported_update_def split: option.split)
  then have l: "length (reported_update Y d u) + n \<le> Suc m" if "n \<le> m" for d u n m
    using that by (metis One_nat_def add_le_mono plus_1_eq_Suc)
  show ?case using Cons.IH l by (cases e) (simp_all add: split_beta)
qed simp

fun sync_updates :: "'u replica_event list \<Rightarrow> 'u list" where
  "sync_updates [] = []"
| "sync_updates (Sync_Event u orig # es) = u # sync_updates es"
| "sync_updates (Editor_Event u orig # es) = sync_updates es"

lemma closed_outbound_run:
  assumes "\<not> rp_outboundOpen r"
  shows "rp_syncDoc (fold (replica_step Y) es r) = foldl (yd_applyUpdate Y) (rp_syncDoc r) (sync_updates es)"
  using assms
proof (induction es arbitrary: r rule: sync_updates.induct)
  case (2 u orig es)
  then have "rp_syncDoc (fold (replica_step Y) es (replica_step Y (Sync_Event u orig) r)) =
      foldl (yd_applyUpdate Y) (rp_syncDoc (replica_step Y (Sync_Event u orig) r)) (sync_updates es)"
    by simp
  then show ?case by (auto simp: sync_update_eq split: option.split)
next
  case (3 u orig es)
  then have "rp_syncDoc (fold (replica_step Y) es (replica_step Y (Editor_Event u orig) r)) =
      foldl (yd_applyUpdate Y) (rp_syncDoc (replica_step Y (Editor_Event u orig) r)) (sync_updates es)"
    by simp
  with 3(2) show ?case by (auto simp: editor_update_eq split: option.split)
qed simp

lemma editor_superset_step:
  assumes Y: "ydoc_laws Y" and gates: "rp_inboundOpen r" "\<not> rp_outboundOpen r" "\<not> rp_destroyed r"
    and sub: "yd_ops Y (rp_syncDoc r) \<subseteq> yd_ops Y (rp_editorDoc r)" and adm: "admissible Y e r"
  shows "yd_ops Y (rp_syncDoc (replica_step Y e r)) \<subseteq> yd_ops Y (rp_editorDoc (replica_step Y e r))"
proof (cases e)
  case (Sync_Event u orig)
  then have u: "yd_ready Y (rp_syncDoc r) u" "orig \<noteq> Replicator_Symbol (rp_origin r)" using adm by auto
  show ?thesis
  proof (cases "yd_emitted Y (rp_syncDoc r) u")
    case None
    then show ?thesis
      using Sync_Event sub ydoc_emitted_None [OF Y u(1) None] ydoc_apply [OF Y u(1)]
      by (auto simp: sync_update_eq)
  next
    case (Some up)
    note em = ydoc_emitted_Some [OF Y u(1) Some]
    then have "yd_ready Y (rp_editorDoc r) up" using ydoc_ready_mono [OF Y _ sub] by blast
    then have "yd_ops Y (yd_applyUpdate Y (rp_editorDoc r) up) = yd_ops Y (rp_editorDoc r) \<union> yu_ops Y up"
      by (rule ydoc_apply [OF Y])
    then show ?thesis
      using Sync_Event Some sub gates u(2) em ydoc_apply [OF Y u(1)] by (auto simp: sync_update_eq)
  qed
next
  case (Editor_Event u orig)
  then show ?thesis
    using adm gates sub ydoc_apply [OF Y, of "rp_editorDoc r" u]
    by (auto simp: editor_update_eq split: option.split)
qed

lemma editor_superset_run:
  assumes "ydoc_laws Y" "rp_inboundOpen r" "\<not> rp_outboundOpen r" "\<not> rp_destroyed r"
    "yd_ops Y (rp_syncDoc r) \<subseteq> yd_ops Y (rp_editorDoc r)" "admissible_run Y es r"
  shows "yd_ops Y (rp_syncDoc (fold (replica_step Y) es r)) \<subseteq>
    yd_ops Y (rp_editorDoc (fold (replica_step Y) es r))"
  using assms by (induction es arbitrary: r) (auto simp: editor_superset_step)

section \<open>The reset\<close>

lemma seed_new_replicator:
  assumes Y: "ydoc_laws Y"
  shows "mirrored Y (seedEditorFromSync Y (new_replicator symb sync (yd_new Y i)))"
    "rp_syncDoc (seedEditorFromSync Y (new_replicator symb sync (yd_new Y i))) = sync"
  using ydoc_apply [OF Y ydoc_encode_ready [OF Y, of "yd_new Y i" sync]]
  by (simp_all add: seedEditorFromSync_def new_replicator_def editor_update_eq mirrored_def
      ydoc_new [OF Y] ydoc_encode [OF Y] split: option.split)

lemma resetEditorDoc_replicator:
  assumes Y: "ydoc_laws Y"
  shows "mirrored Y (cp_replicator (resetEditorDoc Y p))"
    "rp_syncDoc (cp_replicator (resetEditorDoc Y p)) = rp_syncDoc (cp_replicator p)"
    "rp_outboundOpen (cp_replicator (resetEditorDoc Y p))"
    "rp_inboundOpen (cp_replicator (resetEditorDoc Y p))"
    "\<not> rp_destroyed (cp_replicator (resetEditorDoc Y p))"
  using seed_new_replicator [OF Y, of "cp_fresh p + 1" "rp_syncDoc (cp_replicator p)" "cp_fresh p"]
  by (auto simp: resetEditorDoc_def Let_def seedEditorFromSync_def new_replicator_def editor_update_eq
      split: option.split)

lemma mirrored_text: "ydoc_laws Y \<Longrightarrow> mirrored Y r \<Longrightarrow> yd_text Y (rp_syncDoc r) = yd_text Y (rp_editorDoc r)"
  by (auto simp: mirrored_def intro: ydoc_text)

lemma resetEditorDoc_text:
  "ydoc_laws Y \<Longrightarrow> yd_text Y (rp_editorDoc (cp_replicator (resetEditorDoc Y p))) =
     yd_text Y (rp_syncDoc (cp_replicator p))"
  using mirrored_text [OF _ resetEditorDoc_replicator(1)] resetEditorDoc_replicator(2) by metis

text \<open>The provider fulfils the contract of Suggest Mode (for documents that obey the laws).\<close>

interpretation collab: collab_provider "provider_ops Y" "\<lambda>_. ydoc_laws Y"
  for Y :: "('d, 'u, 'o) ydoc_ops"
  by unfold_locales
    (auto simp: provider_ops_def resetEditorDoc_replicator resetEditorDoc_text)

section \<open>Connection state\<close>

datatype 'u provider_cmd =
    Pc_Connect nat bool nat | Pc_Disconnect | Pc_Status collab_status | Pc_When nat | Pc_Timeout nat
  | Pc_Sync 'u origin | Pc_Reset | Pc_Destroy

fun provider_step ::
  "('d, 'u, 'o) ydoc_ops \<Rightarrow> 'u provider_cmd \<Rightarrow> ('d, 'm) provider \<Rightarrow> ('d, 'm) provider" where
  "provider_step Y (Pc_Connect t w call) p = connect t w call p"
| "provider_step Y Pc_Disconnect p = disconnect p"
| "provider_step Y (Pc_Status st) p = on_transport_status st p"
| "provider_step Y (Pc_When call) p = whenConnected call p"
| "provider_step Y (Pc_Timeout call) p = connect_timeout call p"
| "provider_step Y (Pc_Sync u orig) p = provider_sync_update Y u orig p"
| "provider_step Y Pc_Reset p = resetEditorDoc Y p"
| "provider_step Y Pc_Destroy p = provider_destroy p"

text \<open>The calls that wait and the calls that were answered.\<close>

fun answered :: "'m provider_event \<Rightarrow> nat list" where
  "answered (Resolved c) = [c]"
| "answered (Rejected_Timeout c) = [c]"
| "answered (Rejected_Destroyed c) = [c]"
| "answered _ = []"

definition answers :: "('d, 'm) provider \<Rightarrow> nat list" where
  "answers p = concat (map answered (cp_events p))"

fun new_calls :: "'u provider_cmd \<Rightarrow> nat list" where
  "new_calls (Pc_Connect t w call) = [call]"
| "new_calls (Pc_When call) = [call]"
| "new_calls _ = []"

lemmas provider_defs = connect_def disconnect_def on_transport_status_def whenConnected_def
  connect_timeout_def resolve_waiting_def setStatus_def provider_destroy_def resetEditorDoc_def

lemma answers_callbacks [simp]:
  "concat (map (answered \<circ> (\<lambda>cb. Fired_Status cb st)) cbs) = []"
  "concat (map (answered \<circ> Fired_Remote) cbs) = []"
  "concat (map (answered \<circ> Fired_Reset) cbs) = []"
  by (induction cbs) auto

lemma answers_calls [simp]:
  "concat (map (answered \<circ> Resolved) calls) = calls"
  "concat (map (answered \<circ> Rejected_Destroyed) calls) = calls"
  by (induction calls) auto

lemma answers_simps [simp]:
  "answers (setStatus st p) = answers p"
  "answers (p\<lparr>cp_transport := t\<rparr>) = answers p"
  "answers (p\<lparr>cp_updateListeners := n\<rparr>) = answers p"
  "answers (p\<lparr>cp_hooked := h\<rparr>) = answers p"
  "answers (p\<lparr>cp_replicator := r\<rparr>) = answers p"
  "answers (resolve_waiting p) = answers p @ cp_connectedResolvers p"
  "answers (resetEditorDoc Y p) = answers p"
  by (simp_all add: answers_def setStatus_def resolve_waiting_def resetEditorDoc_def Let_def)

lemma remote_listener_simps [simp]:
  "answers (remote_listener orig p) = answers p"
  "cp_connectedResolvers (remote_listener orig p) = cp_connectedResolvers p"
  "cp_status (remote_listener orig p) = cp_status p"
  by (simp_all add: remote_listener_def answers_def)

lemma remote_listeners_simps [simp]:
  "answers ((remote_listener orig ^^ n) p) = answers p"
  "cp_connectedResolvers ((remote_listener orig ^^ n) p) = cp_connectedResolvers p"
  "cp_status ((remote_listener orig ^^ n) p) = cp_status p"
  by (induction n) auto

lemma provider_sync_update_simps [simp]:
  "answers (provider_sync_update Y u orig p) = answers p"
  "cp_connectedResolvers (provider_sync_update Y u orig p) = cp_connectedResolvers p"
  "cp_status (provider_sync_update Y u orig p) = cp_status p"
  by (simp_all add: provider_sync_update_def Let_def split: option.split)

text \<open>Waiting and answered calls together are exactly the calls made; none is in both.\<close>

definition calls_inv :: "nat list \<Rightarrow> ('d, 'm) provider \<Rightarrow> bool" where
  "calls_inv calls p \<longleftrightarrow>
     distinct (answers p @ cp_connectedResolvers p) \<and>
     set (answers p @ cp_connectedResolvers p) = set calls \<and>
     (cp_status p = Connected \<longrightarrow> cp_connectedResolvers p = [])"

lemma whenConnected_inv:
  "calls_inv calls p \<Longrightarrow> call \<notin> set calls \<Longrightarrow> calls_inv (calls @ [call]) (whenConnected call p)"
  by (auto simp: calls_inv_def whenConnected_def answers_def)

lemma resolve_waiting_inv: "calls_inv calls p \<Longrightarrow> calls_inv calls (resolve_waiting p)"
  by (auto simp: calls_inv_def) (auto simp: resolve_waiting_def)

lemma setStatus_fields [simp]:
  "cp_connectedResolvers (setStatus st p) = cp_connectedResolvers p"
  "cp_status (setStatus st p) = st"
  "cp_transport (setStatus st p) = cp_transport p"
  by (auto simp: setStatus_def)

lemma resolve_waiting_fields [simp]:
  "cp_connectedResolvers (resolve_waiting p) = []" "cp_status (resolve_waiting p) = cp_status p"
  by (auto simp: resolve_waiting_def)

lemma resetEditorDoc_fields [simp]:
  "cp_connectedResolvers (resetEditorDoc Y p) = cp_connectedResolvers p"
  "cp_status (resetEditorDoc Y p) = cp_status p"
  by (simp_all add: resetEditorDoc_def Let_def)

lemma calls_step:
  assumes "calls_inv calls p" "set (new_calls cmd) \<inter> set calls = {}"
  shows "calls_inv (calls @ new_calls cmd) (provider_step Y cmd p)"
proof (cases cmd)
  case (Pc_Connect t w call)
  let ?p2 = "(setStatus Connecting (disconnect p))\<lparr>cp_transport := Some t\<rparr>"
  let ?p3 = "if w then resolve_waiting (setStatus Connected ?p2) else ?p2"
  have "calls_inv calls (?p3\<lparr>cp_updateListeners := cp_updateListeners ?p3 + 1\<rparr>)"
    using assms(1) by (auto simp: calls_inv_def disconnect_def)
  then have "calls_inv (calls @ [call]) (connect t w call p)"
    unfolding connect_def Let_def by (rule whenConnected_inv) (use assms(2) Pc_Connect in simp)
  then show ?thesis using Pc_Connect by simp
next
  case (Pc_Status st)
  then show ?thesis
    using assms(1) by (auto simp: calls_inv_def on_transport_status_def Let_def split: option.split)
next
  case (Pc_Timeout call)
  then show ?thesis
    using assms(1) by (auto simp: calls_inv_def connect_timeout_def answers_def)
next
  case Pc_Destroy
  then show ?thesis
    using assms(1)
    by (auto simp: calls_inv_def provider_destroy_def Let_def answers_def disconnect_def setStatus_def)
next
  case (Pc_When call)
  then show ?thesis using whenConnected_inv [of calls p call] assms by simp
qed (use assms(1) in \<open>auto simp: calls_inv_def disconnect_def\<close>)

lemma calls_run:
  assumes "calls_inv calls p" "distinct (calls @ concat (map new_calls cmds))"
  shows "calls_inv (calls @ concat (map new_calls cmds)) (fold (provider_step Y) cmds p)"
  using assms
proof (induction cmds arbitrary: calls p)
  case (Cons cmd cmds)
  then have "calls_inv (calls @ new_calls cmd) (provider_step Y cmd p)"
    by (intro calls_step) auto
  from Cons.IH [OF this] Cons.prems show ?case by simp
qed simp

lemma remote_listeners_run:
  "cp_transport p = Some t \<Longrightarrow> (remote_listener (Transport t) ^^ n) p =
     p\<lparr>cp_events := cp_events p @ concat (replicate n (map Fired_Remote (cp_remoteCallbacks p)))\<rparr>"
  by (induction n) (auto simp: remote_listener_def replicate_append_same [symmetric]
      simp del: replicate_append_same)

section \<open>Properties\<close>

text \<open>C24: with both gates open, a run of updates on either side keeps the two documents together, and
  every update is mirrored once and never echoed back. The run starts from documents with the same
  operations; its updates have their dependencies present, and none carries the replicator's private
  symbol. Afterwards each document is the start document with exactly these updates applied: the ones
  that arrived at it and, once each, what the other document reported of the ones that arrived there
  (so no event touches a document twice); both have the same operations and show the same text.\<close>

theorem replicator_converges:
  assumes "ydoc_laws Y" "rp_inboundOpen r" "rp_outboundOpen r" "\<not> rp_destroyed r"
    "mirrored Y r" "admissible_run Y es r"
  shows "let r' = fold (replica_step Y) es r; (ws, ds) = applied_updates Y es (rp_syncDoc r) (rp_editorDoc r)
    in rp_syncDoc r' = foldl (yd_applyUpdate Y) (rp_syncDoc r) ws
       \<and> rp_editorDoc r' = foldl (yd_applyUpdate Y) (rp_editorDoc r) ds
       \<and> length ws \<le> length es \<and> length ds \<le> length es
       \<and> mirrored Y r' \<and> yd_text Y (rp_syncDoc r') = yd_text Y (rp_editorDoc r')"
  using mirrored_run [OF assms] mirrored_text [OF assms(1) mirrored_run [OF assms]]
    applied_updates_run [OF assms(2-4,6)] applied_updates_length [of Y es "rp_syncDoc r" "rp_editorDoc r"]
  by (simp add: Let_def split_beta)

theorem replicator_converges_witness:
  "rp_syncDoc (fold (replica_step grow_doc)
     [Sync_Event [1, 2] (Transport 7), Editor_Event [5] (Local_Origin 0)] (new_replicator 2 [] [])) =
   foldl (yd_applyUpdate grow_doc) [] [[1, 2], [5]]"
proof -
  let ?es = "[Sync_Event [1, 2] (Transport 7), Editor_Event [5] (Local_Origin 0)]"
    and ?r = "new_replicator 2 [] []"
  have "applied_updates grow_doc ?es [] [] = ([[1, 2], [5]], [[1, 2], [5]])"
    by (simp add: grow_doc_def reported_update_def Let_def)
  moreover have "rp_inboundOpen ?r" "rp_outboundOpen ?r" "\<not> rp_destroyed ?r" "mirrored grow_doc ?r"
    and d: "rp_syncDoc ?r = []" "rp_editorDoc ?r = []"
    by (simp_all add: new_replicator_def mirrored_def)
  moreover have "admissible_run grow_doc ?es ?r" by (simp add: new_replicator_def grow_doc_def)
  ultimately show ?thesis
    using replicator_converges [OF grow_doc_laws, of ?r ?es]
    by (simp only: Let_def split_conv d) blast
qed

text \<open>with the outbound gate closed the wire document depends only on the updates that arrive
  at it: nothing typed in the editor reaches it, in any interleaving. While the inbound gate is
  open the editor still receives everything the wire document has.\<close>

theorem closed_gate_isolates:
  assumes "ydoc_laws Y" "rp_inboundOpen r" "\<not> rp_outboundOpen r" "\<not> rp_destroyed r"
    "yd_ops Y (rp_syncDoc r) \<subseteq> yd_ops Y (rp_editorDoc r)" "admissible_run Y es r"
  shows "rp_syncDoc (fold (replica_step Y) es r) =
      foldl (yd_applyUpdate Y) (rp_syncDoc r) (sync_updates es) \<and>
    yd_ops Y (rp_syncDoc (fold (replica_step Y) es r)) \<subseteq>
      yd_ops Y (rp_editorDoc (fold (replica_step Y) es r))"
  using closed_outbound_run [OF assms(3)] editor_superset_run [OF assms] by blast

theorem closed_gate_isolates_witness:
  "rp_syncDoc (fold (replica_step grow_doc) [Editor_Event [5] (Local_Origin 0), Sync_Event [1] (Transport 7)]
     ((new_replicator 2 [] [])\<lparr>rp_outboundOpen := False\<rparr>)) = [1]"
  using closed_gate_isolates [OF grow_doc_laws, of "(new_replicator 2 [] [])\<lparr>rp_outboundOpen := False\<rparr>"
      "[Editor_Event [5] (Local_Origin 0), Sync_Event [1] (Transport 7)]"]
  by (simp add: new_replicator_def grow_doc_def)

text \<open>C16: a Suggest Mode session as a whole. After \<open>enable\<close>, whatever updates the editor makes leave
  the shared document as it was; \<open>discard\<close> then puts the editor back to exactly the shared text
  and reopens the gate, so no draft can leak later.\<close>

theorem suggest_session_isolated:
  fixes Y :: "('d, 'u, 'o) ydoc_ops" and p :: "('d, 'm) provider"
  assumes Y: "ydoc_laws Y" and off: "\<not> se_destroyed e" "\<not> se_enabled e"
    and on: "suggest_enable (provider_ops Y) cur (e, p) = (e1, p1)"
    and drafts: "sync_updates es = []"
    and disc: "suggest_discard (provider_ops Y)
      (e1, p1\<lparr>cp_replicator := fold (replica_step Y) es (cp_replicator p1)\<rparr>) = (e2, p2)"
  shows "rp_syncDoc (fold (replica_step Y) es (cp_replicator p1)) = rp_syncDoc (cp_replicator p) \<and>
    rp_syncDoc (cp_replicator p2) = rp_syncDoc (cp_replicator p) \<and>
    yd_text Y (rp_editorDoc (cp_replicator p2)) = yd_text Y (rp_syncDoc (cp_replicator p)) \<and>
    rp_outboundOpen (cp_replicator p2) \<and> \<not> se_enabled e2"
proof -
  have e1: "se_enabled e1" "p1 = p\<lparr>cp_replicator := (cp_replicator p)\<lparr>rp_outboundOpen := False\<rparr>\<rparr>"
    using on off by (auto simp: suggest_enable_def provider_ops_def)
  then have sync: "rp_syncDoc (fold (replica_step Y) es (cp_replicator p1)) = rp_syncDoc (cp_replicator p)"
    using closed_outbound_run [of "cp_replicator p1" Y es] drafts by simp
  let ?q = "p1\<lparr>cp_replicator := fold (replica_step Y) es (cp_replicator p1)\<rparr>"
  have "e2 = e1\<lparr>se_enabled := False, se_textAtEnable := []\<rparr>"
    "p2 = co_setOutboundOpen (provider_ops Y) True (resetEditorDoc Y ?q)"
    using disc e1(1) by (simp_all add: suggest_discard_def suggest_disable_def provider_ops_def)
  then show ?thesis
    using sync resetEditorDoc_replicator [OF Y, of ?q] resetEditorDoc_text [OF Y, of ?q]
    by (simp add: provider_ops_def)
qed

theorem suggest_session_isolated_witness:
  "\<exists>e1 p1. suggest_enable (provider_ops grow_doc) [] (suggest_new, new_provider grow_doc :: (nat list, nat) provider)
     = (e1, p1) \<and>
     rp_syncDoc (fold (replica_step grow_doc) [Editor_Event [5] (Local_Origin 0)] (cp_replicator p1)) = []"
proof -
  let ?p = "new_provider grow_doc :: (nat list, nat) provider"
  obtain e1 p1 where on: "suggest_enable (provider_ops grow_doc) [] (suggest_new, ?p) = (e1, p1)"
    by fastforce
  obtain e2 p2 where disc: "suggest_discard (provider_ops grow_doc) (e1, p1\<lparr>cp_replicator :=
      fold (replica_step grow_doc) [Editor_Event [5] (Local_Origin 0)] (cp_replicator p1)\<rparr>) = (e2, p2)"
    by fastforce
  have "sync_updates [Editor_Event [5] (Local_Origin 0)] = []" by simp
  from suggest_session_isolated [OF grow_doc_laws _ _ on this disc] on
  show ?thesis by (auto simp: suggest_new_def new_provider_def new_replicator_def grow_doc_def)
qed

text \<open>under any sequence of Suggest Mode calls on a fresh engine and provider, Suggest Mode is on
  exactly while the outbound gate is closed, and the shared text is never changed by them.\<close>

theorem suggest_gate_invariant:
  fixes Y :: "('d, 'u, 'o) ydoc_ops" and cmds :: "suggest_cmd list"
  defines "st \<equiv> fold (suggest_step (provider_ops Y)) cmds (suggest_new, new_provider Y :: ('d, 'm) provider)"
  assumes Y: "ydoc_laws Y"
  shows "(se_enabled (fst st) \<longleftrightarrow> \<not> rp_outboundOpen (cp_replicator (snd st))) \<and>
    yd_text Y (rp_syncDoc (cp_replicator (snd st))) = yd_text Y (yd_new Y 0)"
proof -
  have init: "gate_inv (provider_ops Y) (\<lambda>_. ydoc_laws Y) (suggest_new, new_provider Y :: ('d, 'm) provider)"
    using Y by (simp add: gate_inv_def suggest_new_def new_provider_def new_replicator_def provider_ops_def)
  from collab.gate_run [OF init, of cmds] collab.run_syncText [OF init, of cmds]
  show ?thesis
    by (simp add: st_def gate_inv_def provider_ops_def new_provider_def new_replicator_def)
qed

theorem suggest_gate_invariant_witness:
  "\<not> rp_outboundOpen (cp_replicator (snd (fold (suggest_step (provider_ops grow_doc)) [Cmd_Enable [97]]
     (suggest_new, new_provider grow_doc :: (nat list, nat) provider))))"
  using suggest_gate_invariant [where 'm = nat, OF grow_doc_laws, of "[Cmd_Enable [97]]"]
  by (simp add: suggest_enable_def suggest_new_def)

text \<open>C40: whatever happens to the connection (connects, status events, time-outs, resets, destroy),
  no caller that waits for it is answered twice, none is forgotten, and none is left waiting while the
  status is \<open>connected\<close>.\<close>

theorem connection_calls_answered_once:
  fixes Y :: "('d, 'u, 'o) ydoc_ops" and cmds :: "'u provider_cmd list"
  defines "p \<equiv> fold (provider_step Y) cmds (new_provider Y :: ('d, 'm) provider)"
  assumes "distinct (concat (map new_calls cmds))"
  shows "distinct (answers p @ cp_connectedResolvers p) \<and>
    set (answers p) \<union> set (cp_connectedResolvers p) = set (concat (map new_calls cmds)) \<and>
    (cp_status p = Connected \<longrightarrow> cp_connectedResolvers p = [])"
proof -
  have "calls_inv [] (new_provider Y :: ('d, 'm) provider)"
    by (simp add: calls_inv_def answers_def new_provider_def)
  from calls_run [OF this, of cmds Y] assms(2) show ?thesis by (auto simp: calls_inv_def p_def)
qed

theorem connection_calls_answered_once_witness:
  "distinct (answers (fold (provider_step grow_doc) [Pc_Connect 9 False 1, Pc_When 2, Pc_Status Connected]
     (new_provider grow_doc :: (nat list, nat) provider)))"
  using connection_calls_answered_once
    [where 'm = nat, of "[Pc_Connect 9 False 1, Pc_When 2, Pc_Status Connected]" grow_doc] by simp

text \<open>every \<open>connect\<close> adds one more update listener to the shared document and none is ever
  removed, so after \<open>n\<close> connects one remote update calls each subscriber \<open>n\<close> times.\<close>

theorem reconnect_duplicates_notifications:
  assumes "cp_transport p = Some t" "yd_emitted Y (rp_syncDoc (cp_replicator p)) u = Some e"
  shows "cp_events (provider_sync_update Y u (Transport t) p) =
      cp_events p @ concat (replicate (cp_updateListeners p) (map Fired_Remote (cp_remoteCallbacks p))) \<and>
    cp_updateListeners (connect t' w call p) = cp_updateListeners p + 1"
  using assms
  by (simp add: provider_sync_update_def Let_def connect_def whenConnected_def resolve_waiting_def
      setStatus_def disconnect_def remote_listeners_run)

text \<open>Two connects, one subscriber, one remote update: the subscriber is called twice.\<close>

definition twice_connected :: "(nat list, nat) provider" where
  "twice_connected = connect 11 False 2 (connect 10 False 1 (onRemoteUpdate 0 (new_provider grow_doc)))"

theorem reconnect_duplicates_notifications_witness:
  "cp_events (provider_sync_update grow_doc [4] (Transport 11) twice_connected) =
     cp_events twice_connected @ [Fired_Remote 0, Fired_Remote 0]"
  using reconnect_duplicates_notifications [of twice_connected 11 grow_doc "[4]" "[4]"]
  by (simp add: twice_connected_def connect_def whenConnected_def setStatus_def disconnect_def
      onRemoteUpdate_def new_provider_def new_replicator_def grow_doc_def js_add_def numeral_2_eq_2)

end
