(* ===== verification/Doc_Cache.thy ===== *)
theory Doc_Cache
  imports Prelude
begin

text \<open>
  The class \<open>DocCache\<close> of \<open>packages/provider-sdk-ts/src/engine.ts\<close>: a bounded cache of \<open>Y.Doc\<close>
  references in the insertion order of a JavaScript \<open>Map\<close>. A document is its address; the calls of
  \<open>doc.destroy()\<close> are logged. Shown: the cache never returns a stale reference, never exceeds its
  bound, and holds exactly the most recently used documents; each of its documents is alive.
\<close>

section \<open>The cache\<close>

record doc_cache =
  dc_cache :: "(jsstring, nat) jsmap"
  dc_maxSize :: int
  dc_destroyed :: "nat list"

definition new_cache :: "int \<Rightarrow> doc_cache" where
  "new_cache maxSize = \<lparr>dc_cache = [], dc_maxSize = maxSize, dc_destroyed = []\<rparr>"

definition cache_get :: "jsstring \<Rightarrow> doc_cache \<Rightarrow> nat option \<times> doc_cache" where
  "cache_get documentId c =
     (case jm_get (dc_cache c) documentId of
        None \<Rightarrow> (None, c)
      | Some doc \<Rightarrow>
          (Some doc,
           c\<lparr>dc_cache := jm_set documentId doc (jm_delete documentId (dc_cache c))\<rparr>))"

text \<open>The first entry is evicted and destroyed when a new key meets a full cache; an entry that is
  set again is replaced without being destroyed.\<close>

definition cache_make_room :: "jsstring \<Rightarrow> doc_cache \<Rightarrow> doc_cache" where
  "cache_make_room documentId c =
     (if jm_has (dc_cache c) documentId then
        c\<lparr>dc_cache := jm_delete documentId (dc_cache c)\<rparr>
      else if int (length (dc_cache c)) \<ge> dc_maxSize c then
        (case dc_cache c of
           [] \<Rightarrow> c
         | (firstKey, evicted) # _ \<Rightarrow>
             c\<lparr>dc_cache := jm_delete firstKey (dc_cache c),
               dc_destroyed := dc_destroyed c @ [evicted]\<rparr>)
      else c)"

definition cache_set :: "jsstring \<Rightarrow> nat \<Rightarrow> doc_cache \<Rightarrow> doc_cache" where
  "cache_set documentId doc c =
     (let c1 = cache_make_room documentId c
      in c1\<lparr>dc_cache := jm_set documentId doc (dc_cache c1)\<rparr>)"

definition cache_delete :: "jsstring \<Rightarrow> doc_cache \<Rightarrow> doc_cache" where
  "cache_delete documentId c =
     (let c1 = (case jm_get (dc_cache c) documentId of
                  None \<Rightarrow> c
                | Some doc \<Rightarrow> c\<lparr>dc_destroyed := dc_destroyed c @ [doc]\<rparr>)
      in c1\<lparr>dc_cache := jm_delete documentId (dc_cache c1)\<rparr>)"

definition cache_clear :: "doc_cache \<Rightarrow> doc_cache" where
  "cache_clear c = c\<lparr>dc_cache := [], dc_destroyed := dc_destroyed c @ map snd (dc_cache c)\<rparr>"

definition cache_size :: "doc_cache \<Rightarrow> nat" where
  "cache_size c = length (dc_cache c)"

section \<open>The contract of a cache\<close>

text \<open>What a client relies on: a lookup changes no binding, a stored binding is found at once, and
  every other binding is kept or dropped, never altered.\<close>

datatype ('k, 'v) cache_op = Do_Get 'k | Do_Set 'k 'v | Do_Delete 'k

fun run_ops ::
  "('k \<Rightarrow> 'c \<Rightarrow> 'v option \<times> 'c) \<Rightarrow> ('k \<Rightarrow> 'v \<Rightarrow> 'c \<Rightarrow> 'c) \<Rightarrow> ('k \<Rightarrow> 'c \<Rightarrow> 'c)
     \<Rightarrow> ('k, 'v) cache_op list \<Rightarrow> 'c \<Rightarrow> 'c" where
  "run_ops g s d [] c = c"
| "run_ops g s d (Do_Get k # ops) c = run_ops g s d ops (snd (g k c))"
| "run_ops g s d (Do_Set k v # ops) c = run_ops g s d ops (s k v c)"
| "run_ops g s d (Do_Delete k # ops) c = run_ops g s d ops (d k c)"

text \<open>The reference: an unbounded map.\<close>

fun spec_ops :: "('k, 'v) cache_op list \<Rightarrow> ('k \<rightharpoonup> 'v) \<Rightarrow> ('k \<rightharpoonup> 'v)" where
  "spec_ops [] m = m"
| "spec_ops (Do_Get k # ops) m = spec_ops ops m"
| "spec_ops (Do_Set k v # ops) m = spec_ops ops (m(k \<mapsto> v))"
| "spec_ops (Do_Delete k # ops) m = spec_ops ops (m(k := None))"

locale evicting_map =
  fixes lookup :: "'c \<Rightarrow> 'k \<Rightarrow> 'v option"
    and get :: "'k \<Rightarrow> 'c \<Rightarrow> 'v option \<times> 'c"
    and put :: "'k \<Rightarrow> 'v \<Rightarrow> 'c \<Rightarrow> 'c"
    and remove :: "'k \<Rightarrow> 'c \<Rightarrow> 'c"
  assumes get_result: "fst (get k c) = lookup c k"
    and get_keeps: "lookup (snd (get k c)) = lookup c"
    and put_found: "lookup (put k v c) k = Some v"
    and put_others: "k' \<noteq> k \<Longrightarrow> lookup (put k v c) k' = Some w \<Longrightarrow> lookup c k' = Some w"
    and remove_keeps: "lookup (remove k c) = (lookup c)(k := None)"
begin

lemma put_below: "lookup c \<subseteq>\<^sub>m m \<Longrightarrow> lookup (put k v c) \<subseteq>\<^sub>m m(k \<mapsto> v)"
proof (unfold map_le_def, rule ballI)
  fix k' assume le: "\<forall>a \<in> dom (lookup c). lookup c a = m a" and "k' \<in> dom (lookup (put k v c))"
  then obtain w where w: "lookup (put k v c) k' = Some w" by auto
  show "lookup (put k v c) k' = (m(k \<mapsto> v)) k'"
  proof (cases "k' = k")
    case True
    then show ?thesis by (simp add: put_found)
  next
    case False
    with w have "lookup c k' = Some w" by (rule put_others [rotated])
    moreover from this le have "lookup c k' = m k'" by (metis domI)
    ultimately show ?thesis using w False by simp
  qed
qed

lemma remove_below: "lookup c \<subseteq>\<^sub>m m \<Longrightarrow> lookup (remove k c) \<subseteq>\<^sub>m m(k := None)"
  by (auto simp: remove_keeps map_le_def)

lemma never_stale:
  "lookup c \<subseteq>\<^sub>m m \<Longrightarrow> lookup (run_ops get put remove ops c) \<subseteq>\<^sub>m spec_ops ops m"
proof (induction ops arbitrary: c m)
  case Nil
  then show ?case by simp
next
  case (Cons oper ops)
  show ?case
  proof (cases oper)
    case (Do_Get k)
    then show ?thesis using Cons by (simp add: get_keeps)
  next
    case (Do_Set k v)
    show ?thesis unfolding Do_Set run_ops.simps spec_ops.simps
      by (rule Cons.IH [OF put_below [OF Cons.prems]])
  next
    case (Do_Delete k)
    show ?thesis unfolding Do_Delete run_ops.simps spec_ops.simps
      by (rule Cons.IH [OF remove_below [OF Cons.prems]])
  qed
qed

end

lemma cache_make_room_others:
  "k' \<noteq> k \<Longrightarrow> map_of (dc_cache (cache_make_room k c)) k' = Some w \<Longrightarrow>
   map_of (dc_cache c) k' = Some w"
  by (auto simp: cache_make_room_def split: if_splits list.splits)

interpretation dc: evicting_map "\<lambda>c. map_of (dc_cache c)" cache_get cache_set cache_delete
proof unfold_locales
  show "fst (cache_get k c) = map_of (dc_cache c) k" for k c
    by (simp add: cache_get_def split: option.split)
  show "map_of (dc_cache (snd (cache_get k c))) = map_of (dc_cache c)" for k c
    by (auto simp: cache_get_def fun_eq_iff split: option.split)
  show "map_of (dc_cache (cache_set k v c)) k = Some v" for k v c
    by (simp add: cache_set_def Let_def)
  show "map_of (dc_cache c) k' = Some w"
    if "k' \<noteq> k" "map_of (dc_cache (cache_set k v c)) k' = Some w" for k k' v w c
    using that cache_make_room_others [of k' k c w] by (simp add: cache_set_def Let_def)
  show "map_of (dc_cache (cache_delete k c)) = (map_of (dc_cache c))(k := None)" for k c
    by (auto simp: cache_delete_def Let_def fun_eq_iff split: option.split)
qed

section \<open>Bound and liveness of the cached documents\<close>

definition cache_inv :: "doc_cache \<Rightarrow> bool" where
  "cache_inv c \<longleftrightarrow>
     distinct (map fst (dc_cache c)) \<and> distinct (map snd (dc_cache c))
     \<and> set (map snd (dc_cache c)) \<inter> set (dc_destroyed c) = {} \<and> distinct (dc_destroyed c)
     \<and> int (length (dc_cache c)) \<le> max 1 (dc_maxSize c)"

lemma keys_delete_delete: "k \<notin> fst ` set (AList.delete k m)"
  by (auto simp: AList.delete_eq)

lemma set_after_delete: "AList.update k v (AList.delete k m) = AList.delete k m @ [(k, v)]"
  by (simp add: jm_set_fresh keys_delete_delete)

lemma delete_hit:
  assumes "distinct (map fst m)" "map_of m k = Some d"
  obtains p q where "m = p @ (k, d) # q" "AList.delete k m = p @ q"
    "k \<notin> fst ` set p" "k \<notin> fst ` set q"
proof -
  from assms(2) have "(k, d) \<in> set m" by (rule map_of_SomeD)
  then obtain p q where m: "m = p @ (k, d) # q" by (auto dest: split_list)
  with assms(1) have pq: "k \<notin> fst ` set p" "k \<notin> fst ` set q" by auto
  have "AList.delete k m = AList.delete k p @ AList.delete k q"
    by (simp add: m AList.delete_eq)
  then have "AList.delete k m = p @ q" using pq by (simp add: jm_delete_absent)
  with m pq that show thesis by blast
qed

lemma cache_get_order:
  assumes "distinct (map fst (dc_cache c))" "map_of (dc_cache c) k = Some d"
  obtains p q where "dc_cache c = p @ (k, d) # q"
    "dc_cache (snd (cache_get k c)) = p @ q @ [(k, d)]"
proof -
  obtain p q where m: "dc_cache c = p @ (k, d) # q" "AList.delete k (dc_cache c) = p @ q"
    by (rule delete_hit [OF assms])
  then have "dc_cache (snd (cache_get k c)) = p @ q @ [(k, d)]"
    using assms(2) set_after_delete [of k d "dc_cache c"] by (simp add: cache_get_def)
  with m(1) show thesis by (rule that)
qed

lemma cache_inv_get: "cache_inv c \<Longrightarrow> cache_inv (snd (cache_get k c))"
proof (cases "map_of (dc_cache c) k")
  case None
  then show "cache_inv c \<Longrightarrow> ?thesis" by (simp add: cache_get_def)
next
  case (Some d)
  assume inv: "cache_inv c"
  then have "distinct (map fst (dc_cache c))" by (simp add: cache_inv_def)
  then obtain p q where "dc_cache c = p @ (k, d) # q"
    "dc_cache (snd (cache_get k c)) = p @ q @ [(k, d)]"
    using Some by (rule cache_get_order)
  moreover have "dc_maxSize (snd (cache_get k c)) = dc_maxSize c"
    "dc_destroyed (snd (cache_get k c)) = dc_destroyed c"
    by (simp_all add: cache_get_def Some)
  ultimately show ?thesis using inv by (auto simp: cache_inv_def)
qed

text \<open>The three cases of a store, on the list of entries.\<close>

lemma cache_set_cases:
  assumes "distinct (map fst (dc_cache c))"
  obtains
    (replaced) p d' q where "dc_cache c = p @ (k, d') # q" "cache_set k d c =
      c\<lparr>dc_cache := p @ q @ [(k, d)]\<rparr>"
  | (evicted) f e r where "dc_cache c = (f, e) # r" "k \<notin> fst ` set (dc_cache c)"
      "dc_maxSize c \<le> int (length (dc_cache c))"
      "cache_set k d c = c\<lparr>dc_cache := r @ [(k, d)], dc_destroyed := dc_destroyed c @ [e]\<rparr>"
  | (appended) "k \<notin> fst ` set (dc_cache c)"
      "int (length (dc_cache c)) < dc_maxSize c \<or> dc_cache c = []"
      "cache_set k d c = c\<lparr>dc_cache := dc_cache c @ [(k, d)]\<rparr>"
proof (cases "map_of (dc_cache c) k")
  case (Some d')
  obtain p q where *: "dc_cache c = p @ (k, d') # q" "AList.delete k (dc_cache c) = p @ q"
    "k \<notin> fst ` set p" "k \<notin> fst ` set q" by (rule delete_hit [OF assms Some])
  then have "cache_set k d c = c\<lparr>dc_cache := p @ q @ [(k, d)]\<rparr>"
    using Some by (simp add: cache_set_def cache_make_room_def Let_def jm_set_fresh image_Un)
  with *(1) show thesis by (rule replaced)
next
  case None
  then have k: "k \<notin> fst ` set (dc_cache c)" by (simp add: map_of_eq_None_iff)
  show thesis
  proof (cases "dc_maxSize c \<le> int (length (dc_cache c)) \<and> dc_cache c \<noteq> []")
    case True
    then obtain f e r where m: "dc_cache c = (f, e) # r" by (cases "dc_cache c") auto
    with assms have "AList.delete f (dc_cache c) = r" by (simp add: jm_delete_absent)
    moreover have "k \<notin> fst ` set r" using k m by simp
    ultimately have "cache_set k d c =
        c\<lparr>dc_cache := r @ [(k, d)], dc_destroyed := dc_destroyed c @ [e]\<rparr>"
      using None True m by (simp add: cache_set_def cache_make_room_def Let_def jm_set_fresh)
    with m k True show thesis by (intro evicted) auto
  next
    case False
    then have "cache_set k d c = c\<lparr>dc_cache := dc_cache c @ [(k, d)]\<rparr>"
      using None k by (auto simp: cache_set_def cache_make_room_def Let_def jm_set_fresh)
    with k False show thesis by (intro appended) auto
  qed
qed

lemma cache_inv_set:
  assumes "cache_inv c" "d \<notin> set (map snd (dc_cache c))" "d \<notin> set (dc_destroyed c)"
  shows "cache_inv (cache_set k d c)"
proof -
  have "distinct (map fst (dc_cache c))" using assms(1) by (simp add: cache_inv_def)
  then show ?thesis
    by (cases rule: cache_set_cases [where k = k and d = d])
      (use assms in \<open>auto simp: cache_inv_def\<close>)
qed

lemma cache_inv_delete: "cache_inv c \<Longrightarrow> cache_inv (cache_delete k c)"
proof (cases "map_of (dc_cache c) k")
  case None
  then have "AList.delete k (dc_cache c) = dc_cache c"
    by (simp add: jm_delete_absent map_of_eq_None_iff)
  then show "cache_inv c \<Longrightarrow> ?thesis" using None by (simp add: cache_delete_def)
next
  case (Some d)
  assume inv: "cache_inv c"
  then have "distinct (map fst (dc_cache c))" by (simp add: cache_inv_def)
  then obtain p q where "dc_cache c = p @ (k, d) # q" "AList.delete k (dc_cache c) = p @ q"
    using Some by (rule delete_hit)
  with inv Some show ?thesis by (auto simp: cache_delete_def cache_inv_def)
qed

lemma cache_inv_clear: "cache_inv c \<Longrightarrow> cache_inv (cache_clear c)"
  by (auto simp: cache_inv_def cache_clear_def)

lemma cache_inv_new: "cache_inv (new_cache n)"
  by (simp add: cache_inv_def new_cache_def)

inductive cache_reachable :: "int \<Rightarrow> doc_cache \<Rightarrow> nat set \<Rightarrow> bool" for n where
  reach_new: "cache_reachable n (new_cache n) {}"
| reach_get: "cache_reachable n c A \<Longrightarrow> cache_reachable n (snd (cache_get k c)) A"
| reach_set: "cache_reachable n c A \<Longrightarrow> d \<notin> A \<Longrightarrow>
    cache_reachable n (cache_set k d c) (insert d A)"
| reach_delete: "cache_reachable n c A \<Longrightarrow> cache_reachable n (cache_delete k c) A"
| reach_clear: "cache_reachable n c A \<Longrightarrow> cache_reachable n (cache_clear c) A"

lemma cache_maxSize_const [simp]:
  "dc_maxSize (snd (cache_get k c)) = dc_maxSize c"
  "dc_maxSize (cache_set k d c) = dc_maxSize c"
  "dc_maxSize (cache_delete k c) = dc_maxSize c"
  "dc_maxSize (cache_clear c) = dc_maxSize c"
  by (simp_all add: cache_get_def cache_set_def cache_make_room_def cache_delete_def
      cache_clear_def Let_def split: option.split list.split)

definition cache_docs :: "doc_cache \<Rightarrow> nat set" where
  "cache_docs c = snd ` set (dc_cache c) \<union> set (dc_destroyed c)"

lemma snd_map_of_ran: "distinct (map fst m) \<Longrightarrow> snd ` set m = ran (map_of m)"
  by (simp add: ran_distinct)

lemma cache_docs_get: "cache_inv c \<Longrightarrow> cache_docs (snd (cache_get k c)) = cache_docs c"
proof -
  assume "cache_inv c"
  then have "distinct (map fst (dc_cache c))" "distinct (map fst (dc_cache (snd (cache_get k c))))"
    using cache_inv_get [of c k] by (auto simp: cache_inv_def)
  then have "snd ` set (dc_cache (snd (cache_get k c))) = snd ` set (dc_cache c)"
    by (simp add: snd_map_of_ran dc.get_keeps)
  moreover have "dc_destroyed (snd (cache_get k c)) = dc_destroyed c"
    by (simp add: cache_get_def split: option.split)
  ultimately show ?thesis by (simp add: cache_docs_def)
qed

lemma cache_docs_set:
  "cache_inv c \<Longrightarrow> cache_docs (cache_set k d c) \<subseteq> insert d (cache_docs c)"
  unfolding cache_inv_def
  by (elim conjE, cases rule: cache_set_cases [where c = c and k = k and d = d])
    (auto simp: cache_docs_def)

lemma cache_docs_delete: "cache_docs (cache_delete k c) \<subseteq> cache_docs c"
  by (auto simp: cache_docs_def cache_delete_def Let_def AList.delete_eq
      split: option.splits dest!: map_of_SomeD intro: rev_image_eqI)

lemma cache_reachable_inv:
  "cache_reachable n c A \<Longrightarrow> cache_inv c \<and> dc_maxSize c = n \<and> cache_docs c \<subseteq> A"
proof (induction rule: cache_reachable.induct)
  case reach_new
  show ?case by (simp add: cache_inv_new) (simp add: new_cache_def cache_docs_def)
next
  case (reach_get c A k)
  then show ?case by (simp add: cache_inv_get cache_docs_get)
next
  case (reach_set c A d k)
  then have "d \<notin> cache_docs c" by blast
  then have "cache_inv (cache_set k d c)"
    using reach_set by (intro cache_inv_set) (auto simp: cache_docs_def)
  then show ?case using reach_set cache_docs_set [of c k d] by auto
next
  case (reach_delete c A k)
  then show ?case using cache_docs_delete [of k c] by (auto simp: cache_inv_delete)
next
  case (reach_clear c A)
  then show ?case by (auto simp: cache_inv_clear) (auto simp: cache_docs_def cache_clear_def)
qed

section \<open>Properties\<close>

text \<open>C4: Whatever sequence of get, set, delete and clear has run (each set with a newly created
  document), the cache holds at most max(1, maxSize) documents under distinct ids, none of the
  documents it holds has been destroyed, and no document is destroyed twice.\<close>

theorem cache_bounded_and_alive:
  assumes "cache_reachable n c A"
  shows "int (cache_size c) \<le> max 1 n \<and> distinct (map fst (dc_cache c))
    \<and> snd ` set (dc_cache c) \<inter> set (dc_destroyed c) = {} \<and> distinct (dc_destroyed c)"
  using cache_reachable_inv [OF assms] by (auto simp: cache_inv_def cache_size_def)

theorem cache_bounded_and_alive_witness:
  "int (cache_size (cache_set (js ''b'') 2 (cache_set (js ''a'') 1 (new_cache 1)))) \<le> 1"
proof -
  have "cache_reachable 1 (cache_set (js ''b'') 2 (cache_set (js ''a'') 1 (new_cache 1))) {2, 1}"
    by (intro cache_reachable.intros) auto
  from cache_bounded_and_alive [OF this] show ?thesis by simp
qed

text \<open>The cache refines an unbounded map: after any sequence of operations each document it
  still returns for an id is the one most recently stored under that id and not deleted since.\<close>

theorem cache_never_stale:
  "map_of (dc_cache (run_ops cache_get cache_set cache_delete ops (new_cache n)))
     \<subseteq>\<^sub>m spec_ops ops Map.empty"
  by (rule dc.never_stale) (simp add: new_cache_def)

text \<open>An access of the processor: look the document up, store a newly created one when it is
  missing.\<close>

definition cache_access :: "jsstring \<times> nat \<Rightarrow> doc_cache \<Rightarrow> doc_cache" where
  "cache_access kd c =
     (let r = cache_get (fst kd) c
      in case fst r of Some _ \<Rightarrow> snd r | None \<Rightarrow> cache_set (fst kd) (snd kd) (snd r))"

text \<open>The reference for least-recently-used eviction: of the accessed ids in the order of their
  last access, the last \<open>n\<close>.\<close>

definition most_recent :: "nat \<Rightarrow> 'k list \<Rightarrow> 'k list" where
  "most_recent n ks = (let r = remdups ks in drop (length r - n) r)"

lemma remdups_snoc: "remdups (xs @ [x]) = filter (\<lambda>y. y \<noteq> x) (remdups xs) @ [x]"
  by (induction xs) auto

lemma length_filter_neq:
  "distinct s \<Longrightarrow> k \<in> set s \<Longrightarrow> Suc (length (filter (\<lambda>y. y \<noteq> k) s)) = length s"
  by (induction s) (auto simp: filter_id_conv intro: arg_cong [where f = length])

lemma most_recent_snoc:
  assumes "0 < n" and s: "s = most_recent n ks"
  shows "most_recent n (ks @ [k]) =
    (if k \<in> set s then filter (\<lambda>y. y \<noteq> k) s @ [k]
     else if length s < n then s @ [k] else tl s @ [k])"
proof -
  define r where "r = remdups ks"
  define p where "p = take (length r - n) r"
  have dist: "distinct r" by (simp add: r_def)
  have s_r: "s = drop (length r - n) r" by (simp add: s most_recent_def r_def Let_def)
  then have r: "r = p @ s" by (simp add: p_def)
  have lp: "length p = length r - n" by (simp add: p_def)
  have lr: "length r = length p + length s" by (simp add: r)
  have len: "length s = min n (length r)" by (auto simp: s_r min_def)
  have new: "most_recent n (ks @ [k]) =
      (let r' = filter (\<lambda>y. y \<noteq> k) r @ [k] in drop (length r' - n) r')"
    by (simp only: most_recent_def remdups_snoc r_def)
  show ?thesis
  proof (cases "k \<in> set s")
    case True
    with dist r have p: "filter (\<lambda>y. y \<noteq> k) p = p" by (auto simp: filter_id_conv)
    have "Suc (length (filter (\<lambda>y. y \<noteq> k) s)) = length s"
      using True dist r by (simp add: length_filter_neq)
    then have "length (p @ filter (\<lambda>y. y \<noteq> k) s @ [k]) - n = length p"
      using lp lr by simp
    then show ?thesis using True p by (simp add: new r Let_def)
  next
    case False
    then have fs: "filter (\<lambda>y. y \<noteq> k) s = s" by (auto simp: filter_id_conv)
    show ?thesis
    proof (cases "length s < n")
      case short: True
      then have "p = []" using len lp by simp
      then show ?thesis using False fs short by (simp add: new r Let_def)
    next
      case full: False
      then have ls: "length s = n" using len by simp
      then have "length (tl s @ [k]) = n" "s \<noteq> []" using assms(1) by auto
      moreover have "filter (\<lambda>y. y \<noteq> k) r @ [k] =
          (filter (\<lambda>y. y \<noteq> k) p @ [hd s]) @ tl s @ [k]"
        using fs \<open>s \<noteq> []\<close> by (simp add: r)
      ultimately have "most_recent n (ks @ [k]) = tl s @ [k]"
        unfolding new Let_def using assms(1) by (cases n) (simp_all del: append_assoc)
      then show ?thesis using False full by simp
    qed
  qed
qed

lemma cache_access_keys:
  assumes "distinct (map fst (dc_cache c))"
  shows "map fst (dc_cache (cache_access (k, d) c)) =
    (let s = map fst (dc_cache c)
     in if k \<in> set s then filter (\<lambda>y. y \<noteq> k) s @ [k]
        else if int (length s) < dc_maxSize c \<or> s = [] then s @ [k] else tl s @ [k])"
proof (cases "map_of (dc_cache c) k")
  case None
  then have k: "k \<notin> fst ` set (dc_cache c)" by (simp add: map_of_eq_None_iff)
  have "cache_access (k, d) c = cache_set k d c"
    using None by (simp add: cache_access_def Let_def dc.get_result) (simp add: cache_get_def)
  moreover from assms have "map fst (dc_cache (cache_set k d c)) =
    (if int (length (dc_cache c)) < dc_maxSize c \<or> dc_cache c = [] then
       map fst (dc_cache c) @ [k] else tl (map fst (dc_cache c)) @ [k])"
    by (cases rule: cache_set_cases [where c = c and k = k and d = d]) (use k in auto)
  ultimately show ?thesis using k by (simp add: Let_def)
next
  case (Some e)
  then have k: "k \<in> fst ` set (dc_cache c)" by (metis domI dom_map_of_conv_image_fst)
  have "cache_access (k, d) c = snd (cache_get k c)"
    using Some by (simp add: cache_access_def Let_def dc.get_result)
  moreover have "map fst (dc_cache (snd (cache_get k c))) =
      filter (\<lambda>y. y \<noteq> k) (map fst (dc_cache c)) @ [k]"
    using Some by (simp add: cache_get_def set_after_delete jm_keys_delete)
  ultimately show ?thesis using k by (simp add: Let_def)
qed

lemma most_recent_distinct: "distinct (most_recent n ks)"
  by (simp add: most_recent_def Let_def)

lemma cache_access_maxSize [simp]: "dc_maxSize (cache_access kd c) = dc_maxSize c"
  by (simp add: cache_access_def Let_def split: option.split)

text \<open>C29: Eviction is least-recently-used: after any sequence of accesses the cache of bound
  \<open>n\<close> holds exactly the \<open>n\<close> most recently accessed ids (one id when the bound is below one), in
  the order of their last access.\<close>

theorem cache_holds_most_recent:
  "map fst (dc_cache (fold cache_access kds (new_cache n))) =
     most_recent (nat (max 1 n)) (map fst kds)"
proof (induction kds rule: rev_induct)
  case Nil
  show ?case by (simp add: new_cache_def most_recent_def)
next
  case (snoc kd kds)
  let ?c = "fold cache_access kds (new_cache n)" and ?n = "nat (max 1 n)"
  have size: "dc_maxSize ?c = n"
    by (induction kds rule: rev_induct) (simp_all add: new_cache_def)
  have "distinct (map fst (dc_cache ?c))" by (simp add: snoc.IH most_recent_distinct)
  note step = cache_access_keys [OF this, of "fst kd" "snd kd"]
  have "length (most_recent ?n (map fst kds)) \<le> ?n" by (simp add: most_recent_def Let_def)
  then have "int (length (map fst (dc_cache ?c))) < n \<or> map fst (dc_cache ?c) = []
      \<longleftrightarrow> length (most_recent ?n (map fst kds)) < ?n"
    unfolding snoc.IH by (auto simp: max_def)
  with step size snoc.IH show ?case
    by (simp add: most_recent_snoc [OF _ refl] Let_def del: length_map)
qed

end
