(* ===== verification/Base64.thy ===== *)
theory Base64
  imports Prelude
begin

text \<open>
  The base64 codecs of the JavaScript platforms that the modelled sources call:
  \<open>Buffer.toString('base64')\<close> and \<open>btoa\<close> (the same padded encoding), Node's lenient
  \<open>Buffer.from(s, 'base64')\<close> and the strict \<open>atob\<close> of the browser. Shown: decoding the encoding
  of any byte sequence gives it back, with either decoder.
\<close>

type_synonym byte = "8 word"

definition base64_char :: "nat \<Rightarrow> code_unit" where
  "base64_char n =
     (if n < 26 then of_nat (65 + n) else if n < 52 then of_nat (71 + n)
      else if n < 62 then of_nat (n - 4) else if n = 62 then 43 else 47)"

definition base64_value :: "code_unit \<Rightarrow> nat option" where
  "base64_value c =
     (let n = unat c
      in if 65 \<le> n \<and> n \<le> 90 then Some (n - 65) else if 97 \<le> n \<and> n \<le> 122 then Some (n - 71)
         else if 48 \<le> n \<and> n \<le> 57 then Some (n + 4) else if n = 43 then Some 62
         else if n = 47 then Some 63 else None)"

fun base64_encode :: "byte list \<Rightarrow> jsstring" where
  "base64_encode [] = []"
| "base64_encode [a] =
     [base64_char (unat a div 4), base64_char (unat a mod 4 * 16), 61, 61]"
| "base64_encode [a, b] =
     [base64_char (unat a div 4), base64_char (unat a mod 4 * 16 + unat b div 16),
      base64_char (unat b mod 16 * 4), 61]"
| "base64_encode (a # b # c # bs) =
     base64_char (unat a div 4) # base64_char (unat a mod 4 * 16 + unat b div 16)
     # base64_char (unat b mod 16 * 4 + unat c div 64) # base64_char (unat c mod 64)
     # base64_encode bs"

text \<open>Groups of four sextets give three bytes, an incomplete group of three or two gives two or one,
  a single left-over sextet is dropped.\<close>

fun sextets_bytes :: "nat list \<Rightarrow> byte list" where
  "sextets_bytes (p # q # r # s # xs) =
     of_nat (p * 4 + q div 16) # of_nat (q mod 16 * 16 + r div 4) # of_nat (r mod 4 * 64 + s)
     # sextets_bytes xs"
| "sextets_bytes [p, q, r] = [of_nat (p * 4 + q div 16), of_nat (q mod 16 * 16 + r div 4)]"
| "sextets_bytes [p, q] = [of_nat (p * 4 + q div 16)]"
| "sextets_bytes _ = []"

text \<open>\<open>Buffer.from(s, 'base64')\<close> reads up to the first padding character, takes the URL-safe
  alphabet as well and skips every other character.\<close>

definition buffer_value :: "code_unit \<Rightarrow> nat option" where
  "buffer_value c = (if c = 45 then Some 62 else if c = 95 then Some 63 else base64_value c)"

definition buffer_from_base64 :: "jsstring \<Rightarrow> byte list" where
  "buffer_from_base64 s =
     sextets_bytes (List.map_filter buffer_value (takeWhile (\<lambda>c. c \<noteq> 61) s))"

text \<open>\<open>atob\<close> removes ASCII whitespace and one or two padding characters of a string whose length
  is a multiple of four, and throws (\<open>None\<close>) on a length of 1 modulo 4 or a character outside the
  alphabet.\<close>

definition atob_strip :: "jsstring \<Rightarrow> jsstring" where
  "atob_strip s =
     (let t = filter (\<lambda>c. c \<notin> {9, 10, 12, 13, 32}) s
      in if length t mod 4 = 0 \<and> t \<noteq> [] \<and> last t = 61 then
           (let t' = butlast t in if t' \<noteq> [] \<and> last t' = 61 then butlast t' else t')
         else t)"

definition atob :: "jsstring \<Rightarrow> byte list option" where
  "atob s =
     (let t = atob_strip s
      in if length t mod 4 = 1 \<or> (\<exists>c \<in> set t. base64_value c = None) then None
         else Some (sextets_bytes (map (\<lambda>c. the (base64_value c)) t)))"

section \<open>Round trips\<close>

lemma unat_code_unit: "m < 65536 \<Longrightarrow> unat (of_nat m :: code_unit) = m"
  by (simp add: unat_of_nat take_bit_eq_mod)

lemma unat_base64_char:
  "n < 64 \<Longrightarrow> unat (base64_char n) =
     (if n < 26 then 65 + n else if n < 52 then 71 + n
      else if n < 62 then n - 4 else if n = 62 then 43 else 47)"
  unfolding base64_char_def by (simp add: unat_code_unit del: of_nat_add of_nat_diff)

lemma base64_value_char [simp]: "n < 64 \<Longrightarrow> base64_value (base64_char n) = Some n"
  unfolding base64_value_def Let_def unat_base64_char
  by (auto simp: unat_base64_char)

lemma base64_char_neq [simp]:
  assumes "n < 64"
  shows "base64_char n \<noteq> 9" "base64_char n \<noteq> 10" "base64_char n \<noteq> 12" "base64_char n \<noteq> 13"
    "base64_char n \<noteq> 32" "base64_char n \<noteq> 45" "base64_char n \<noteq> 61" "base64_char n \<noteq> 95"
  using unat_base64_char [OF assms] assms by (auto split: if_splits)

lemma byte_bound: "unat (b :: byte) < 256"
  using unsigned_less [of b] by simp

lemma byte_of_unat [simp]: "(of_nat (unat (b :: byte)) :: byte) = b"
  by simp

lemma sextet_bounds [simp]:
  "unat (a :: byte) div 4 < 64" "unat a mod 4 * 16 < 64"
  "unat a mod 4 * 16 + unat (b :: byte) div 16 < 64" "unat b mod 16 * 4 < 64"
  "unat b mod 16 * 4 + unat (c :: byte) div 64 < 64" "unat c mod 64 < 64"
proof -
  have "unat a < 256" "unat b < 256" "unat c < 256" by (rule byte_bound)+
  then have q: "unat a div 4 < 64" "unat b div 16 < 16" "unat c div 64 < 4"
    by (simp_all add: less_mult_imp_div_less)
  have r: "unat a mod 4 < 4" "unat b mod 16 < 16" by simp_all
  show "unat a div 4 < 64" by (rule q)
  show "unat a mod 4 * 16 < 64" using r(1) by linarith
  show "unat a mod 4 * 16 + unat b div 16 < 64" using r(1) q(2) by linarith
  show "unat b mod 16 * 4 < 64" using r(2) by linarith
  show "unat b mod 16 * 4 + unat c div 64 < 64" using r(2) q(3) by linarith
  show "unat c mod 64 < 64" by simp
qed

text \<open>Packing the sextets of a byte gives the byte.\<close>

lemma byte_pack:
  "unat (a :: byte) div 4 * 4 + (unat a mod 4 * 16) div 16 = unat a"
  "unat a div 4 * 4 + (unat a mod 4 * 16 + unat (b :: byte) div 16) div 16 = unat a"
  "(unat a mod 4 * 16 + unat b div 16) mod 16 * 16 + (unat b mod 16 * 4) div 4 = unat b"
  "(unat a mod 4 * 16 + unat b div 16) mod 16 * 16
      + (unat b mod 16 * 4 + unat (c :: byte) div 64) div 4 = unat b"
  "(unat b mod 16 * 4 + unat c div 64) mod 4 * 64 + unat c mod 64 = unat c"
proof -
  have "unat b < 256" "unat c < 256" by (rule byte_bound)+
  then have q: "unat b div 16 < 16" "unat c div 64 < 4"
    by (simp_all add: less_mult_imp_div_less)
  then have z: "unat b div 16 div 16 = 0" "unat b div 16 mod 16 = unat b div 16"
    "unat c div 64 div 4 = 0" "unat c div 64 mod 4 = unat c div 64" by simp_all
  show "unat a div 4 * 4 + (unat a mod 4 * 16) div 16 = unat a" by simp
  show "unat a div 4 * 4 + (unat a mod 4 * 16 + unat b div 16) div 16 = unat a"
    using z by simp
  show "(unat a mod 4 * 16 + unat b div 16) mod 16 * 16 + (unat b mod 16 * 4) div 4 = unat b"
    using z by simp
  show "(unat a mod 4 * 16 + unat b div 16) mod 16 * 16
      + (unat b mod 16 * 4 + unat c div 64) div 4 = unat b"
    using z by simp
  show "(unat b mod 16 * 4 + unat c div 64) mod 4 * 64 + unat c mod 64 = unat c"
    using z by simp
qed

lemma sextets_group:
  "sextets_bytes [unat a div 4, unat a mod 4 * 16] = [a]"
  "sextets_bytes [unat a div 4, unat a mod 4 * 16 + unat b div 16, unat b mod 16 * 4] = [a, b]"
  "sextets_bytes (unat a div 4 # (unat a mod 4 * 16 + unat b div 16)
     # (unat b mod 16 * 4 + unat c div 64) # unat c mod 64 # xs) = a # b # c # sextets_bytes xs"
  by (simp_all only: sextets_bytes.simps byte_pack byte_of_unat)

lemma buffer_value_char [simp]: "n < 64 \<Longrightarrow> buffer_value (base64_char n) = Some n"
  by (simp add: buffer_value_def)

theorem buffer_base64_roundtrip [simp]: "buffer_from_base64 (base64_encode bs) = bs"
  unfolding buffer_from_base64_def
  by (induction bs rule: base64_encode.induct)
    (simp_all add: map_filter_simps sextets_group del: sextets_bytes.simps(1-3))

text \<open>The strict decoder sees the same sextets: the encoding's characters without its padding.\<close>

fun base64_body :: "byte list \<Rightarrow> nat list" where
  "base64_body [] = []"
| "base64_body [a] = [unat a div 4, unat a mod 4 * 16]"
| "base64_body [a, b] =
     [unat a div 4, unat a mod 4 * 16 + unat b div 16, unat b mod 16 * 4]"
| "base64_body (a # b # c # bs) =
     unat a div 4 # (unat a mod 4 * 16 + unat b div 16)
     # (unat b mod 16 * 4 + unat c div 64) # unat c mod 64 # base64_body bs"

lemma base64_body_bound: "n \<in> set (base64_body bs) \<Longrightarrow> n < 64"
  by (induction bs rule: base64_body.induct) auto

lemma sextets_base64_body: "sextets_bytes (base64_body bs) = bs"
  by (induction bs rule: base64_body.induct)
    (simp_all add: sextets_group del: sextets_bytes.simps(1-3))

lemma length_base64_body: "length (base64_body bs) mod 4 \<noteq> 1"
  by (induction bs rule: base64_body.induct) auto

lemma base64_encode_body:
  "base64_encode bs =
     map base64_char (base64_body bs) @ replicate ((4 - length (base64_body bs) mod 4) mod 4) 61"
proof (induction bs rule: base64_body.induct)
  case (4 a b c bs)
  have "length (base64_body (a # b # c # bs)) mod 4 = length (base64_body bs) mod 4" by simp
  with 4 show ?case by simp
qed (simp_all add: numeral_2_eq_2)

lemma atob_strip_padding:
  assumes "\<forall>c \<in> set b. c \<notin> {9, 10, 12, 13, 32, 61}" "length b mod 4 \<noteq> 1"
  shows "atob_strip (b @ replicate ((4 - length b mod 4) mod 4) 61) = b"
proof -
  define k where "k = (4 - length b mod 4) mod 4"
  have fil: "filter (\<lambda>c. c \<notin> {9, 10, 12, 13, 32}) (b @ replicate k 61) = b @ replicate k 61"
    using assms(1) by (auto simp: filter_id_conv)
  have last_b: "b \<noteq> [] \<Longrightarrow> last b \<noteq> 61"
    using assms(1) last_in_set [of b] by auto
  have "length b mod 4 < 4" by simp
  with assms(2) have "length b mod 4 = 0 \<or> length b mod 4 = 2 \<or> length b mod 4 = 3" by linarith
  then consider "k = 0" | "k = Suc (Suc 0)" "length b mod 4 = 2" | "k = Suc 0" "length b mod 4 = 3"
    unfolding k_def by fastforce
  then have "atob_strip (b @ replicate k 61) = b"
  proof cases
    case 1
    then show ?thesis using last_b fil unfolding atob_strip_def fil Let_def by auto
  next
    case 2
    then have "Suc (Suc (length b)) mod 4 = 0" by presburger
    then show ?thesis using fil 2(1) unfolding atob_strip_def Let_def
      by (simp add: butlast_append)
  next
    case 3
    then have b: "b \<noteq> []" "Suc (length b) mod 4 = 0" by (auto simp: mod_Suc)
    then show ?thesis using fil 3(1) last_b unfolding atob_strip_def Let_def
      by (simp add: butlast_append)
  qed
  then show ?thesis by (simp add: k_def)
qed

lemma atob_strip_encode: "atob_strip (base64_encode bs) = map base64_char (base64_body bs)"
  using atob_strip_padding [of "map base64_char (base64_body bs)"]
    base64_body_bound [of _ bs] length_base64_body [of bs]
  by (auto simp: base64_encode_body)

theorem atob_base64_roundtrip [simp]: "atob (base64_encode bs) = Some bs"
proof -
  have "map (\<lambda>c. the (base64_value c)) (map base64_char (base64_body bs)) = base64_body bs"
    using base64_body_bound by (auto simp: map_idI)
  moreover have "\<forall>c \<in> set (map base64_char (base64_body bs)). base64_value c \<noteq> None"
    using base64_body_bound by auto
  ultimately show ?thesis
    using length_base64_body [of bs]
    by (auto simp: atob_def atob_strip_encode Let_def sextets_base64_body)
qed

end
