(* ===== verification/Provider_Processor.thy ===== *)
theory Provider_Processor
  imports Doc_Cache Base64 Version_Blame
begin

text \<open>
  \<open>packages/provider-sdk-ts/src/engine.ts\<close> (the functions on \<open>Y.Doc\<close>) and \<open>provider.ts\<close>: the
  processor between the relay's storage protocol and the storage backend. The backend (the
  implementor's \<open>Provider\<close> object), \<open>yjs\<close> and \<open>lib0\<close> are parameters. An asynchronous request is a
  task that runs from one \<open>await\<close> to the next; requests interleave at these points. Shown: what one
  undisturbed store request does; that every request finishes; that any interleaving of requests
  keeps the cache bounded and its documents alive; that overlapping requests can lose an update or
  write an outdated text; that automatic blame belongs to the requested version.
\<close>

section \<open>The engine\<close>

text \<open>What the engine calls of \<open>yjs\<close> and \<open>lib0\<close>. \<open>sy_apply\<close> returns the document after the call
  and whether the call returned (\<open>False\<close>: it threw); the readers return \<open>None\<close> when they throw.\<close>

record 'd server_yjs =
  sy_new :: 'd
  sy_insert0 :: "'d \<Rightarrow> jsstring \<Rightarrow> 'd"
  sy_apply :: "'d \<Rightarrow> byte list \<Rightarrow> 'd \<times> bool"
  sy_text :: "'d \<Rightarrow> jsstring"
  sy_encodeState :: "'d \<Rightarrow> byte list"
  rd_varUint :: "byte list \<Rightarrow> (nat \<times> byte list) option"
  rd_varUint8Array :: "byte list \<Rightarrow> byte list option"

type_synonym error_message = jsstring

definition decode_error :: error_message where
  "decode_error = js ''Unexpected end of array''"

definition extractYjsUpdate ::
  "'d server_yjs \<Rightarrow> byte list \<Rightarrow> error_message + byte list option" where
  "extractYjsUpdate Y bytes =
     (if length bytes < 2 then Inr None
      else case rd_varUint Y bytes of
             None \<Rightarrow> Inl decode_error
           | Some (messageType, rest) \<Rightarrow>
               if messageType \<noteq> 0 then Inr None
               else (case rd_varUint Y rest of
                       None \<Rightarrow> Inl decode_error
                     | Some (syncType, payload) \<Rightarrow>
                         if syncType \<noteq> 2 then Inr None
                         else (case rd_varUint8Array Y payload of
                                 None \<Rightarrow> Inl decode_error
                               | Some u \<Rightarrow> Inr (Some u))))"

text \<open>The document after the call is returned in every case: a throw leaves what was applied.\<close>

definition applyBase64Update ::
  "'d server_yjs \<Rightarrow> 'd \<Rightarrow> jsstring \<Rightarrow> 'd \<times> (error_message + bool)" where
  "applyBase64Update Y doc base64Data =
     (case extractYjsUpdate Y (buffer_from_base64 base64Data) of
        Inl e \<Rightarrow> (doc, Inl e)
      | Inr None \<Rightarrow> (doc, Inr False)
      | Inr (Some u) \<Rightarrow>
          (case sy_apply Y doc u of
             (doc', True) \<Rightarrow> (doc', Inr True)
           | (doc', False) \<Rightarrow> (doc', Inl decode_error)))"

definition extractText :: "'d server_yjs \<Rightarrow> 'd \<Rightarrow> jsstring" where
  "extractText Y doc = sy_text Y doc"

definition createDocWithContent :: "'d server_yjs \<Rightarrow> jsstring \<Rightarrow> 'd" where
  "createDocWithContent Y content =
     (if content \<noteq> [] then sy_insert0 Y (sy_new Y) content else sy_new Y)"

definition encodeDocState :: "'d server_yjs \<Rightarrow> 'd \<Rightarrow> jsstring" where
  "encodeDocState Y doc = base64_encode (sy_encodeState Y doc)"

section \<open>Requests and the backend\<close>

record update_payload =
  up_sequence :: int
  up_data :: jsstring
  up_client_id :: int
  up_created_at :: "jsstring option"

record content_result =
  cr_content :: jsstring
  cr_mimeType :: jsstring

record load_response =
  lr_content :: jsstring
  lr_mime_type :: jsstring

record health_response =
  hr_status :: jsstring
  hr_storage :: "jsstring option"

record document_list_entry =
  de_name :: jsstring
  de_size :: int
  de_mime_type :: jsstring

record create_version_request =
  cv_content :: jsstring
  cv_mime_type :: "jsstring option"
  cv_label :: "jsstring option"
  cv_creator :: "jsstring option"
  cv_type :: "version_type option"
  cv_blame :: "blame_segment list option"

record client_user_mapping =
  cu_client_id :: int
  cu_user_name :: jsstring

text \<open>The implementor's object, over a backend state \<open>'s\<close>: a method that may be absent is an
  option, a call that rejects returns \<open>Inl\<close>.\<close>

type_synonym ('s, 'a) call = "'s \<Rightarrow> (error_message + 'a) \<times> 's"

record 's backend =
  be_readContent :: "jsstring \<Rightarrow> ('s, content_result) call"
  be_writeContent :: "(jsstring \<Rightarrow> jsstring \<Rightarrow> jsstring \<Rightarrow> ('s, unit) call) option"
  be_storeRawUpdates :: "(jsstring \<Rightarrow> update_payload list \<Rightarrow> ('s, unit) call) option"
  be_listDocuments :: "('s, document_list_entry list) call option"
  be_onHealth :: "('s, health_response) call option"
  be_listVersions :: "(jsstring \<Rightarrow> ('s, version_list_entry list) call) option"
  be_createVersion ::
    "(jsstring \<Rightarrow> create_version_request option \<Rightarrow> ('s, version_list_entry) call) option"
  be_getVersion :: "(jsstring \<Rightarrow> jsstring \<Rightarrow> ('s, version_entry option) call) option"
  be_getClientMappings :: "(jsstring \<Rightarrow> ('s, client_user_mapping list) call) option"
  be_storeClientMappings :: "(jsstring \<Rightarrow> client_user_mapping list \<Rightarrow> ('s, unit) call) option"

text \<open>The processor: its cache, the documents by address, the next free address and the backend.\<close>

record ('d, 's) processor =
  pp_cache :: doc_cache
  pp_docs :: "nat \<Rightarrow> 'd"
  pp_next :: nat
  pp_backend :: 's

definition new_processor :: "'d server_yjs \<Rightarrow> int option \<Rightarrow> 's \<Rightarrow> ('d, 's) processor" where
  "new_processor Y cacheSize s =
     \<lparr>pp_cache = new_cache (case cacheSize of None \<Rightarrow> 1000 | Some n \<Rightarrow> n),
      pp_docs = (\<lambda>_. sy_new Y), pp_next = 0, pp_backend = s\<rparr>"

section \<open>Load and store\<close>

text \<open>The continuation after each \<open>await\<close>. \<open>Store_Done\<close> and \<open>Load_Done\<close> carry the outcome of the
  promise.\<close>

datatype request =
    Load_Start jsstring
  | Load_Read jsstring content_result
  | Load_Done "error_message + load_response"
  | Store_Start jsstring "update_payload list"
  | Store_Read jsstring "update_payload list" content_result
  | Store_Mime jsstring "update_payload list" nat jsstring jsstring
  | Store_Raw_Stored jsstring nat jsstring jsstring
  | Store_Written nat
  | Store_Done "error_message + nat"

definition create_cached ::
  "'d server_yjs \<Rightarrow> jsstring \<Rightarrow> jsstring \<Rightarrow> ('d, 's) processor \<Rightarrow> nat \<times> ('d, 's) processor" where
  "create_cached Y documentId content p =
     (pp_next p,
      p\<lparr>pp_docs := (pp_docs p)(pp_next p := createDocWithContent Y content),
        pp_next := pp_next p + 1,
        pp_cache := cache_set documentId (pp_next p) (pp_cache p)\<rparr>)"

text \<open>The loop over the updates: \<open>applied\<close> counts the sync updates; a throw ends the loop.\<close>

fun apply_updates ::
  "'d server_yjs \<Rightarrow> 'd \<Rightarrow> nat \<Rightarrow> update_payload list \<Rightarrow> 'd \<times> (error_message + nat)" where
  "apply_updates Y doc applied [] = (doc, Inr applied)"
| "apply_updates Y doc applied (u # us) =
     (case applyBase64Update Y doc (up_data u) of
        (doc', Inl e) \<Rightarrow> (doc', Inl e)
      | (doc', Inr ok) \<Rightarrow> apply_updates Y doc' (if ok then applied + 1 else applied) us)"

definition store_apply ::
  "'d server_yjs \<Rightarrow> 's backend \<Rightarrow> jsstring \<Rightarrow> update_payload list \<Rightarrow> nat
     \<Rightarrow> ('d, 's) processor \<Rightarrow> request \<times> ('d, 's) processor" where
  "store_apply Y B documentId updates doc p =
     (case apply_updates Y (pp_docs p doc) 0 updates of
        (d, Inl e) \<Rightarrow> (Store_Done (Inl e), p\<lparr>pp_docs := (pp_docs p)(doc := d)\<rparr>)
      | (d, Inr applied) \<Rightarrow>
          (case be_readContent B documentId (pp_backend p) of
             (r, s) \<Rightarrow>
               ((case r of
                   Inl e \<Rightarrow> Store_Done (Inl e)
                 | Inr c \<Rightarrow> Store_Mime documentId updates applied (extractText Y d) (cr_mimeType c)),
                p\<lparr>pp_docs := (pp_docs p)(doc := d), pp_backend := s\<rparr>)))"

definition store_write ::
  "'s backend \<Rightarrow> jsstring \<Rightarrow> nat \<Rightarrow> jsstring \<Rightarrow> jsstring
     \<Rightarrow> ('d, 's) processor \<Rightarrow> request \<times> ('d, 's) processor" where
  "store_write B documentId applied resolvedText mimeType p =
     (case be_writeContent B of
        None \<Rightarrow> (Store_Done (Inr applied), p)
      | Some writeContent \<Rightarrow>
          (case writeContent documentId resolvedText mimeType (pp_backend p) of
             (r, s) \<Rightarrow>
               ((case r of Inl e \<Rightarrow> Store_Done (Inl e) | Inr _ \<Rightarrow> Store_Written applied),
                p\<lparr>pp_backend := s\<rparr>)))"

text \<open>One segment of a request: from where it is to its next \<open>await\<close> or to its end.\<close>

fun request_step ::
  "'d server_yjs \<Rightarrow> 's backend \<Rightarrow> request \<Rightarrow> ('d, 's) processor \<Rightarrow> request \<times> ('d, 's) processor"
  where
  "request_step Y B (Load_Start documentId) p =
     (case be_readContent B documentId (pp_backend p) of
        (Inl e, s) \<Rightarrow> (Load_Done (Inl e), p\<lparr>pp_backend := s\<rparr>)
      | (Inr c, s) \<Rightarrow> (Load_Read documentId c, p\<lparr>pp_backend := s\<rparr>))"
| "request_step Y B (Load_Read documentId c) p =
     (let g = cache_get documentId (pp_cache p); p1 = p\<lparr>pp_cache := snd g\<rparr>;
          p2 = (if fst g = None then snd (create_cached Y documentId (cr_content c) p1) else p1)
      in (Load_Done (Inr \<lparr>lr_content = cr_content c, lr_mime_type = cr_mimeType c\<rparr>), p2))"
| "request_step Y B (Store_Start documentId updates) p =
     (if updates = [] then (Store_Done (Inr 0), p)
      else let g = cache_get documentId (pp_cache p); p1 = p\<lparr>pp_cache := snd g\<rparr>
           in case fst g of
                Some doc \<Rightarrow> store_apply Y B documentId updates doc p1
              | None \<Rightarrow>
                  (case be_readContent B documentId (pp_backend p1) of
                     (Inl e, s) \<Rightarrow> (Store_Done (Inl e), p1\<lparr>pp_backend := s\<rparr>)
                   | (Inr c, s) \<Rightarrow> (Store_Read documentId updates c, p1\<lparr>pp_backend := s\<rparr>)))"
| "request_step Y B (Store_Read documentId updates c) p =
     (let r = create_cached Y documentId (cr_content c) p
      in store_apply Y B documentId updates (fst r) (snd r))"
| "request_step Y B (Store_Mime documentId updates applied resolvedText mimeType) p =
     (case be_storeRawUpdates B of
        None \<Rightarrow> store_write B documentId applied resolvedText mimeType p
      | Some storeRawUpdates \<Rightarrow>
          (case storeRawUpdates documentId updates (pp_backend p) of
             (Inl e, s) \<Rightarrow> (Store_Done (Inl e), p\<lparr>pp_backend := s\<rparr>)
           | (Inr _, s) \<Rightarrow>
               (Store_Raw_Stored documentId applied resolvedText mimeType, p\<lparr>pp_backend := s\<rparr>)))"
| "request_step Y B (Store_Raw_Stored documentId applied resolvedText mimeType) p =
     store_write B documentId applied resolvedText mimeType p"
| "request_step Y B (Store_Written applied) p = (Store_Done (Inr applied), p)"
| "request_step Y B (Load_Done r) p = (Load_Done r, p)"
| "request_step Y B (Store_Done r) p = (Store_Done r, p)"

text \<open>A request that runs alone: its segments one after the other. Five segments finish every
  request.\<close>

definition request_run ::
  "'d server_yjs \<Rightarrow> 's backend \<Rightarrow> request \<Rightarrow> ('d, 's) processor \<Rightarrow> request \<times> ('d, 's) processor"
  where
  "request_run Y B r p = ((\<lambda>(r, p). request_step Y B r p) ^^ 5) (r, p)"

definition processLoad ::
  "'d server_yjs \<Rightarrow> 's backend \<Rightarrow> jsstring \<Rightarrow> ('d, 's) processor
     \<Rightarrow> (error_message + load_response) \<times> ('d, 's) processor" where
  "processLoad Y B documentId p =
     (case request_run Y B (Load_Start documentId) p of
        (Load_Done r, p') \<Rightarrow> (r, p') | (_, p') \<Rightarrow> (Inl [], p'))"

definition processStore ::
  "'d server_yjs \<Rightarrow> 's backend \<Rightarrow> jsstring \<Rightarrow> update_payload list \<Rightarrow> ('d, 's) processor
     \<Rightarrow> (error_message + nat) \<times> ('d, 's) processor" where
  "processStore Y B documentId updates p =
     (case request_run Y B (Store_Start documentId updates) p of
        (Store_Done r, p') \<Rightarrow> (r, p') | (_, p') \<Rightarrow> (Inl [], p'))"

text \<open>Requests that overlap: a schedule names the request that runs its next segment.\<close>

fun run_schedule ::
  "'d server_yjs \<Rightarrow> 's backend \<Rightarrow> nat list \<Rightarrow> request list \<times> ('d, 's) processor
     \<Rightarrow> request list \<times> ('d, 's) processor" where
  "run_schedule Y B [] st = st"
| "run_schedule Y B (i # is) (rs, p) =
     (if i < length rs then
        (case request_step Y B (rs ! i) p of (r, p') \<Rightarrow> run_schedule Y B is (rs[i := r], p'))
      else run_schedule Y B is (rs, p))"

section \<open>The other requests\<close>

definition clearCache :: "('d, 's) processor \<Rightarrow> ('d, 's) processor" where
  "clearCache p = p\<lparr>pp_cache := cache_clear (pp_cache p)\<rparr>"

definition processHealth :: "'s backend \<Rightarrow> ('s, health_response) call" where
  "processHealth B s =
     (case be_onHealth B of
        Some onHealth \<Rightarrow> onHealth s
      | None \<Rightarrow> (Inr \<lparr>hr_status = js ''ok'', hr_storage = None\<rparr>, s))"

definition processList :: "'s backend \<Rightarrow> ('s, document_list_entry list) call" where
  "processList B s =
     (case be_listDocuments B of Some listDocuments \<Rightarrow> listDocuments s | None \<Rightarrow> (Inr [], s))"

definition processListVersions :: "'s backend \<Rightarrow> jsstring \<Rightarrow> ('s, version_list_entry list) call" where
  "processListVersions B documentId s =
     (case be_listVersions B of
        Some listVersions \<Rightarrow> listVersions documentId s | None \<Rightarrow> (Inr [], s))"

text \<open>\<open>req\<close> is the request's body as it is (\<open>None\<close>: undefined, when no JSON was sent).\<close>

definition processCreateVersion ::
  "'s backend \<Rightarrow> jsstring \<Rightarrow> create_version_request option \<Rightarrow> ('s, version_list_entry option) call" where
  "processCreateVersion B documentId req s =
     (case be_createVersion B of
        Some createVersion \<Rightarrow>
          (case createVersion documentId req s of
             (Inl e, s') \<Rightarrow> (Inl e, s') | (Inr v, s') \<Rightarrow> (Inr (Some v), s'))
      | None \<Rightarrow> (Inr None, s))"

definition processGetClientMappings ::
  "'s backend \<Rightarrow> jsstring \<Rightarrow> ('s, client_user_mapping list) call" where
  "processGetClientMappings B documentId s =
     (case be_getClientMappings B of
        Some getClientMappings \<Rightarrow> getClientMappings documentId s | None \<Rightarrow> (Inr [], s))"

definition processStoreClientMappings ::
  "'s backend \<Rightarrow> jsstring \<Rightarrow> client_user_mapping list \<Rightarrow> ('s, unit) call" where
  "processStoreClientMappings B documentId mappings s =
     (case be_storeClientMappings B of
        Some storeClientMappings \<Rightarrow> storeClientMappings documentId mappings s
      | None \<Rightarrow> (Inr (), s))"

text \<open>\<open>new Date(s).getTime()\<close> is a parameter (\<open>None\<close>: \<open>NaN\<close>, which no comparison accepts). The
  chain is sorted by time, equal times in the order of the list.\<close>

definition versions_upto ::
  "(jsstring \<Rightarrow> int option) \<Rightarrow> jsstring \<Rightarrow> version_list_entry list \<Rightarrow> version_list_entry list" where
  "versions_upto date_time created_at allVersions =
     (case date_time created_at of
        None \<Rightarrow> []
      | Some entryTime \<Rightarrow>
          sort_key (\<lambda>v. the (date_time (vl_created_at v)))
            (filter (\<lambda>v. case date_time (vl_created_at v) of
                           None \<Rightarrow> False | Some t \<Rightarrow> t \<le> entryTime) allVersions))"

fun fetch_versions ::
  "(jsstring \<Rightarrow> jsstring \<Rightarrow> ('s, version_entry option) call) \<Rightarrow> jsstring \<Rightarrow>
     version_list_entry list \<Rightarrow> ('s, version_entry list) call" where
  "fetch_versions getVersion documentId [] s = (Inr [], s)"
| "fetch_versions getVersion documentId (v # vs) s =
     (case getVersion documentId (vl_id v) s of
        (Inl e, s1) \<Rightarrow> (Inl e, s1)
      | (Inr full, s1) \<Rightarrow>
          (case fetch_versions getVersion documentId vs s1 of
             (Inl e, s2) \<Rightarrow> (Inl e, s2)
           | (Inr fulls, s2) \<Rightarrow>
               (Inr (case full of None \<Rightarrow> fulls | Some f \<Rightarrow> f # fulls), s2)))"

definition processGetVersion ::
  "(jsstring \<Rightarrow> int option) \<Rightarrow> 's backend \<Rightarrow> jsstring \<Rightarrow> jsstring \<Rightarrow>
     ('s, version_entry option) call" where
  "processGetVersion date_time B documentId versionId s =
     (case be_getVersion B of
        None \<Rightarrow> (Inr None, s)
      | Some getVersion \<Rightarrow>
          (case getVersion documentId versionId s of
             (Inl e, s1) \<Rightarrow> (Inl e, s1)
           | (Inr None, s1) \<Rightarrow> (Inr None, s1)
           | (Inr (Some entry), s1) \<Rightarrow>
               (case be_listVersions B of
                  None \<Rightarrow> (Inr (Some entry), s1)
                | Some listVersions \<Rightarrow>
                    if ve_blame entry \<noteq> None \<and> ve_blame entry \<noteq> Some [] then
                      (Inr (Some entry), s1)
                    else (case listVersions documentId s1 of
                       (Inl e, s2) \<Rightarrow> (Inl e, s2)
                     | (Inr allVersions, s2) \<Rightarrow>
                         (case fetch_versions getVersion documentId
                                 (versions_upto date_time (ve_created_at entry) allVersions) s2 of
                            (Inl e, s3) \<Rightarrow> (Inl e, s3)
                          | (Inr [], s3) \<Rightarrow> (Inr (Some entry), s3)
                          | (Inr (f # fs), s3) \<Rightarrow>
                              (Inr (Some (entry\<lparr>ve_blame :=
                                     Some (computeBlameFromVersions (f # fs))\<rparr>)), s3))))))"

section \<open>Every request finishes\<close>

fun request_done :: "request \<Rightarrow> bool" where
  "request_done (Load_Done _) = True"
| "request_done (Store_Done _) = True"
| "request_done _ = False"

fun request_rank :: "request \<Rightarrow> nat" where
  "request_rank (Load_Start _) = 2"
| "request_rank (Load_Read _ _) = 1"
| "request_rank (Store_Start _ _) = 5"
| "request_rank (Store_Read _ _ _) = 4"
| "request_rank (Store_Mime _ _ _ _ _) = 3"
| "request_rank (Store_Raw_Stored _ _ _ _) = 2"
| "request_rank (Store_Written _) = 1"
| "request_rank _ = 0"

lemma request_done_rank: "request_done r \<longleftrightarrow> request_rank r = 0"
  by (cases r) auto

lemma store_write_rank: "request_rank (fst (store_write B i n t m p)) \<le> 1"
  by (auto simp: store_write_def split: option.split sum.split prod.split)

lemma store_apply_rank: "request_rank (fst (store_apply Y B i us d p)) \<le> 3"
  by (auto simp: store_apply_def split: sum.split prod.split)

lemma request_step_rank:
  "request_rank (fst (request_step Y B r p)) \<le> request_rank r - 1"
proof (cases r)
  case (Store_Start i us)
  then show ?thesis using store_apply_rank [of Y B i us]
    by (auto simp: Let_def le_SucI numeral_eq_Suc split: option.split sum.split prod.split)
next
  case (Store_Read i us c)
  then show ?thesis using store_apply_rank [of Y B i us] by (simp add: Let_def)
next
  case (Store_Mime i us n t m)
  then show ?thesis using store_write_rank [of B i n t m p]
    by (auto split: option.split sum.split prod.split)
next
  case (Store_Raw_Stored i n t m)
  then show ?thesis using store_write_rank [of B i n t m p] by simp
qed (auto simp: Let_def split: sum.split prod.split)

lemma request_iterate_rank:
  "request_rank (fst (((\<lambda>(r, p). request_step Y B r p) ^^ n) (r, p))) \<le> request_rank r - n"
proof (induction n)
  case 0
  show ?case by simp
next
  case (Suc n)
  let ?q = "((\<lambda>(r, p). request_step Y B r p) ^^ n) (r, p)"
  obtain r' q where q: "?q = (r', q)" by (cases ?q)
  have "request_rank (fst (request_step Y B r' q)) \<le> request_rank r' - 1"
    by (rule request_step_rank)
  with Suc q show ?case by simp
qed

lemma request_run_done: "request_done (fst (request_run Y B r p))"
proof -
  have "request_rank r \<le> 5" by (cases r) auto
  then show ?thesis using request_iterate_rank [where n = 5 and r = r and p = p and Y = Y and B = B]
    by (simp add: request_done_rank request_run_def)
qed

section \<open>Interleavings keep the cache sound\<close>

definition processor_inv :: "int \<Rightarrow> ('d, 's) processor \<Rightarrow> bool" where
  "processor_inv n p \<longleftrightarrow> (\<exists>A. cache_reachable n (pp_cache p) A \<and> (\<forall>a \<in> A. a < pp_next p))"

lemma processor_inv_new: "processor_inv n (new_processor Y (Some n) s)"
  unfolding processor_inv_def new_processor_def by (auto intro: reach_new)

lemma processor_inv_unchanged:
  "processor_inv n p \<Longrightarrow> pp_cache q = pp_cache p \<Longrightarrow> pp_next q = pp_next p \<Longrightarrow> processor_inv n q"
  by (simp add: processor_inv_def)

lemma processor_inv_get:
  "processor_inv n p \<Longrightarrow> processor_inv n (p\<lparr>pp_cache := snd (cache_get k (pp_cache p))\<rparr>)"
  unfolding processor_inv_def by (auto intro: reach_get)

lemma processor_inv_create:
  "processor_inv n p \<Longrightarrow> processor_inv n (snd (create_cached Y k c p))"
proof -
  assume "processor_inv n p"
  then obtain A where A: "cache_reachable n (pp_cache p) A" "\<forall>a \<in> A. a < pp_next p"
    by (auto simp: processor_inv_def)
  then have "pp_next p \<notin> A" by blast
  with A(1) have "cache_reachable n (cache_set k (pp_next p) (pp_cache p)) (insert (pp_next p) A)"
    by (rule reach_set)
  with A(2) show ?thesis
    by (auto simp: processor_inv_def create_cached_def less_Suc_eq intro!: exI)
qed

lemma processor_inv_clear: "processor_inv n p \<Longrightarrow> processor_inv n (clearCache p)"
  unfolding processor_inv_def clearCache_def by (auto intro: reach_clear)

lemma store_apply_keeps:
  "pp_cache (snd (store_apply Y B i us d p)) = pp_cache p"
  "pp_next (snd (store_apply Y B i us d p)) = pp_next p"
  by (auto simp: store_apply_def split: sum.split prod.split)

lemma store_write_keeps:
  "pp_cache (snd (store_write B i n t m p)) = pp_cache p"
  "pp_next (snd (store_write B i n t m p)) = pp_next p"
  by (auto simp: store_write_def split: option.split sum.split prod.split)

lemmas keeps_inv = processor_inv_unchanged [OF _ store_apply_keeps]
  processor_inv_unchanged [OF _ store_write_keeps]

lemma request_step_inv:
  assumes "processor_inv n p"
  shows "processor_inv n (snd (request_step Y B r p))"
proof (cases r)
  case (Load_Read i c)
  then show ?thesis using assms
    by (auto simp: Let_def intro: processor_inv_get processor_inv_create)
next
  case (Store_Start i us)
  note g = processor_inv_get [OF assms, of i]
  show ?thesis unfolding Store_Start using assms g
    by (auto simp: Let_def keeps_inv split: option.split sum.split prod.split
        intro: processor_inv_unchanged [OF g])
next
  case (Store_Read i us c)
  then show ?thesis using processor_inv_create [OF assms] by (simp add: Let_def keeps_inv)
next
  case (Store_Mime i us k t m)
  then show ?thesis using assms
    by (auto simp: keeps_inv split: option.split sum.split prod.split
        intro: processor_inv_unchanged [OF assms])
qed (use assms in \<open>auto simp: keeps_inv split: sum.split prod.split
       intro: processor_inv_unchanged [OF assms]\<close>)

lemma run_schedule_inv:
  "processor_inv n p \<Longrightarrow> processor_inv n (snd (run_schedule Y B is (rs, p)))"
proof (induction "is" arbitrary: rs p)
  case Nil
  then show ?case by simp
next
  case (Cons i "is")
  obtain r q where s: "request_step Y B (rs ! i) p = (r, q)" by (cases "request_step Y B (rs ! i) p")
  with request_step_inv [OF Cons.prems, of Y B "rs ! i"] have "processor_inv n q" by simp
  with Cons s show ?case by simp
qed

section \<open>The loop over the updates\<close>

text \<open>The raw updates a request carries, as the engine decodes them.\<close>

definition sync_payload :: "'d server_yjs \<Rightarrow> update_payload \<Rightarrow> byte list option" where
  "sync_payload Y u =
     (case extractYjsUpdate Y (buffer_from_base64 (up_data u)) of Inl _ \<Rightarrow> None | Inr r \<Rightarrow> r)"

definition sync_payloads :: "'d server_yjs \<Rightarrow> update_payload list \<Rightarrow> byte list list" where
  "sync_payloads Y us = List.map_filter (sync_payload Y) us"

definition decodable :: "'d server_yjs \<Rightarrow> update_payload \<Rightarrow> bool" where
  "decodable Y u \<longleftrightarrow> (\<forall>e. extractYjsUpdate Y (buffer_from_base64 (up_data u)) \<noteq> Inl e)"

text \<open>Applying raw updates in order; \<open>None\<close> when one of them throws.\<close>

fun apply_all :: "'d server_yjs \<Rightarrow> 'd \<Rightarrow> byte list list \<Rightarrow> 'd option" where
  "apply_all Y d [] = Some d"
| "apply_all Y d (u # us) =
     (case sy_apply Y d u of (d', True) \<Rightarrow> apply_all Y d' us | (d', False) \<Rightarrow> None)"

lemma apply_updates_spec:
  assumes "\<forall>u \<in> set us. decodable Y u" "apply_all Y d (sync_payloads Y us) = Some d'"
  shows "apply_updates Y d n us = (d', Inr (n + length (sync_payloads Y us)))"
  using assms
proof (induction us arbitrary: d n)
  case Nil
  then show ?case by (simp add: sync_payloads_def map_filter_simps)
next
  case (Cons u us)
  obtain r where r: "extractYjsUpdate Y (buffer_from_base64 (up_data u)) = Inr r"
    using Cons.prems(1) by (cases "extractYjsUpdate Y (buffer_from_base64 (up_data u))")
      (auto simp: decodable_def)
  show ?case
  proof (cases r)
    case None
    then have "sync_payloads Y (u # us) = sync_payloads Y us"
      by (simp add: sync_payloads_def map_filter_simps sync_payload_def r)
    with Cons None r show ?thesis by (simp add: applyBase64Update_def)
  next
    case (Some b)
    then have s: "sync_payloads Y (u # us) = b # sync_payloads Y us"
      by (simp add: sync_payloads_def map_filter_simps sync_payload_def r)
    with Cons.prems(2) obtain d1 where d1: "sy_apply Y d b = (d1, True)"
      "apply_all Y d1 (sync_payloads Y us) = Some d'"
      by (auto split: prod.splits bool.splits)
    with Cons Some r s show ?thesis by (simp add: applyBase64Update_def)
  qed
qed

section \<open>A request that runs alone\<close>

definition cached_at :: "('d, 's) processor \<Rightarrow> jsstring \<Rightarrow> nat option" where
  "cached_at p documentId = map_of (dc_cache (pp_cache p)) documentId"

text \<open>The document a store request works on: the cached one, else a new one seeded from storage.\<close>

definition base_doc :: "'d server_yjs \<Rightarrow> ('d, 's) processor \<Rightarrow> jsstring \<Rightarrow> jsstring \<Rightarrow> 'd" where
  "base_doc Y p documentId content =
     (case cached_at p documentId of
        Some a \<Rightarrow> pp_docs p a | None \<Rightarrow> createDocWithContent Y content)"

lemma store_resolves:
  assumes "us \<noteq> []" "\<forall>u \<in> set us. decodable Y u"
    and "be_readContent B i (pp_backend p) = (Inr c, pp_backend p)"
    and "apply_all Y (base_doc Y p i (cr_content c)) (sync_payloads Y us) = Some d"
  obtains q k a where "((\<lambda>(r, p). request_step Y B r p) ^^ k) (Store_Start i us, p) =
      (Store_Mime i us (length (sync_payloads Y us)) (sy_text Y d) (cr_mimeType c), q)"
    "k \<le> 2" "pp_backend q = pp_backend p" "cached_at q i = Some a" "pp_docs q a = d"
proof (cases "cached_at p i")
  case (Some a)
  let ?p1 = "p\<lparr>pp_cache := snd (cache_get i (pp_cache p))\<rparr>"
  have "apply_updates Y (pp_docs p a) 0 us = (d, Inr (length (sync_payloads Y us)))"
    using apply_updates_spec [OF assms(2), of "pp_docs p a" d 0] assms(4) Some
    by (simp add: base_doc_def)
  with assms(1,3) Some
  have "((\<lambda>(r, p). request_step Y B r p) ^^ 1) (Store_Start i us, p) =
      (Store_Mime i us (length (sync_payloads Y us)) (sy_text Y d) (cr_mimeType c),
       ?p1\<lparr>pp_docs := (pp_docs p)(a := d), pp_backend := pp_backend p\<rparr>)"
    by (simp add: store_apply_def cached_at_def dc.get_result extractText_def Let_def)
  from that [OF this, of a] show thesis
    using Some by (simp add: cached_at_def dc.get_keeps)
next
  case None
  let ?p1 = "p\<lparr>pp_cache := snd (cache_get i (pp_cache p)), pp_backend := pp_backend p\<rparr>"
  let ?a = "pp_next p" and ?d0 = "createDocWithContent Y (cr_content c)"
  let ?p2 = "snd (create_cached Y i (cr_content c) ?p1)"
  have upd: "apply_updates Y ?d0 0 us = (d, Inr (length (sync_payloads Y us)))"
    using apply_updates_spec [OF assms(2), of ?d0 d 0] assms(4) None
    by (simp add: base_doc_def)
  from assms(1,3) None have "((\<lambda>(r, p). request_step Y B r p) ^^ 1) (Store_Start i us, p) =
      (Store_Read i us c, ?p1)"
    by (simp add: cached_at_def dc.get_result Let_def)
  moreover from upd assms(3) have "request_step Y B (Store_Read i us c) ?p1 =
      (Store_Mime i us (length (sync_payloads Y us)) (sy_text Y d) (cr_mimeType c),
       ?p2\<lparr>pp_docs := (pp_docs ?p2)(?a := d), pp_backend := pp_backend p\<rparr>)"
    by (simp add: store_apply_def create_cached_def extractText_def Let_def)
  ultimately have "((\<lambda>(r, p). request_step Y B r p) ^^ 2) (Store_Start i us, p) =
      (Store_Mime i us (length (sync_payloads Y us)) (sy_text Y d) (cr_mimeType c),
       ?p2\<lparr>pp_docs := (pp_docs ?p2)(?a := d), pp_backend := pp_backend p\<rparr>)"
    by (simp add: numeral_2_eq_2)
  from that [OF this, of ?a] show thesis
    by (simp add: cached_at_def create_cached_def dc.put_found)
qed

lemma request_done_fixed:
  "((\<lambda>(r, p). request_step Y B r p) ^^ n) (Store_Done x, p) = (Store_Done x, p)"
  by (induction n) simp_all

lemma iterate_split:
  assumes "(f ^^ k) x = y" "k \<le> n"
  shows "(f ^^ n) x = (f ^^ (n - k)) y"
  using assms funpow_add [of "n - k" k f] by (simp add: o_def)

lemma store_completes:
  assumes "be_storeRawUpdates B = Some raw" "raw i us (pp_backend q) = (Inr (), s1)"
    and "be_writeContent B = Some wr" "wr i t m s1 = (Inr (), s2)"
  shows "((\<lambda>(r, p). request_step Y B r p) ^^ 3) (Store_Mime i us n t m, q) =
    (Store_Done (Inr n), q\<lparr>pp_backend := s2\<rparr>)"
  using assms by (simp add: numeral_3_eq_3 store_write_def)

section \<open>Properties\<close>

text \<open>C3: A store request that is not disturbed resolves the document: when its updates decode and
  the backend accepts the calls, the raw updates are stored, then the text of the base document
  (cached, or seeded from the stored content) with every sync update applied in order is written
  under the stored mime type; the response counts the sync updates, and the cache keeps the
  resulting document.\<close>

theorem store_request_effect:
  assumes "us \<noteq> []" "\<forall>u \<in> set us. decodable Y u"
    and "be_readContent B i (pp_backend p) = (Inr c, pp_backend p)"
    and "apply_all Y (base_doc Y p i (cr_content c)) (sync_payloads Y us) = Some d"
    and "be_storeRawUpdates B = Some raw" "raw i us (pp_backend p) = (Inr (), sr)"
    and "be_writeContent B = Some wr" "wr i (sy_text Y d) (cr_mimeType c) sr = (Inr (), sw)"
  shows "\<exists>q a. processStore Y B i us p = (Inr (length (sync_payloads Y us)), q)
    \<and> pp_backend q = sw \<and> cached_at q i = Some a \<and> pp_docs q a = d"
proof -
  let ?f = "\<lambda>(r, p). request_step Y B r p"
  obtain q k a where k: "(?f ^^ k) (Store_Start i us, p) =
      (Store_Mime i us (length (sync_payloads Y us)) (sy_text Y d) (cr_mimeType c), q)"
    "k \<le> 2" and q: "pp_backend q = pp_backend p" "cached_at q i = Some a" "pp_docs q a = d"
    using assms(1-4) by (rule store_resolves)
  have "(?f ^^ 3) (Store_Mime i us (length (sync_payloads Y us)) (sy_text Y d) (cr_mimeType c), q) =
      (Store_Done (Inr (length (sync_payloads Y us))), q\<lparr>pp_backend := sw\<rparr>)"
    by (rule store_completes [OF assms(5) _ assms(7,8)]) (simp add: assms(6) q(1))
  moreover have "request_run Y B (Store_Start i us) p = (?f ^^ (5 - k))
      (Store_Mime i us (length (sync_payloads Y us)) (sy_text Y d) (cr_mimeType c), q)"
    unfolding request_run_def by (rule iterate_split [OF k(1)]) (use k(2) in simp)
  ultimately have "request_run Y B (Store_Start i us) p =
      (Store_Done (Inr (length (sync_payloads Y us))), q\<lparr>pp_backend := sw\<rparr>)"
    using iterate_split [where f = ?f and k = 3 and n = "5 - k"] k(2)
    by (simp add: request_done_fixed)
  with q show ?thesis by (auto simp: processStore_def cached_at_def)
qed

text \<open>Every load or store request reaches its answer in at most five segments, whatever the
  backend returns and whatever the other requests do in between.\<close>

theorem requests_always_answered:
  "request_done (fst (request_run Y B r p))
   \<and> request_rank (fst (request_step Y B r p)) \<le> request_rank r - 1 \<and> request_rank r \<le> 5"
  using request_run_done request_step_rank [of Y B r p] by (cases r) auto

text \<open>However load and store requests interleave at their await points, the processor's cache
  stays within its bound, has one document per id, and holds no destroyed document.\<close>

theorem interleaving_keeps_cache_sound:
  "let c = pp_cache (snd (run_schedule Y B is (rs, new_processor Y (Some n) s)))
   in int (cache_size c) \<le> max 1 n \<and> distinct (map fst (dc_cache c))
      \<and> snd ` set (dc_cache c) \<inter> set (dc_destroyed c) = {}"
proof -
  let ?p = "snd (run_schedule Y B is (rs, new_processor Y (Some n) s))"
  have "processor_inv n ?p" by (intro run_schedule_inv processor_inv_new)
  then obtain A where "cache_reachable n (pp_cache ?p) A" by (auto simp: processor_inv_def)
  then have "cache_inv (pp_cache ?p)" "dc_maxSize (pp_cache ?p) = n"
    using cache_reachable_inv by auto
  then show ?thesis by (auto simp: cache_inv_def cache_size_def)
qed

text \<open>A backend in memory: the content of every document; raw updates are accepted.\<close>

definition mem_backend :: "(jsstring \<Rightarrow> content_result) backend" where
  "mem_backend =
     \<lparr>be_readContent = (\<lambda>i s. (Inr (s i), s)),
      be_writeContent = Some (\<lambda>i t m s. (Inr (), s(i := \<lparr>cr_content = t, cr_mimeType = m\<rparr>))),
      be_storeRawUpdates = Some (\<lambda>i us s. (Inr (), s)),
      be_listDocuments = None, be_onHealth = None, be_listVersions = None,
      be_createVersion = None, be_getVersion = None, be_getClientMappings = None,
      be_storeClientMappings = None\<rparr>"

lemmas mem_backend_simps [simp] =
  mem_backend_def [THEN arg_cong [where f = be_readContent], simplified]
  mem_backend_def [THEN arg_cong [where f = be_writeContent], simplified]
  mem_backend_def [THEN arg_cong [where f = be_storeRawUpdates], simplified]

text \<open>Two store requests for a document that is not cached lose an update when the second
  starts while the first waits for the stored content: both are answered with their full counts,
  yet the cached document and the written content are those of the second request alone.\<close>

theorem overlapping_stores_lose_update:
  assumes "us1 \<noteq> []" "us2 \<noteq> []" "\<forall>u \<in> set us1. decodable Y u" "\<forall>u \<in> set us2. decodable Y u"
    and "cached_at p i = None"
    and "apply_all Y (createDocWithContent Y (cr_content (pp_backend p i))) (sync_payloads Y us1) = Some d1"
    and "apply_all Y (createDocWithContent Y (cr_content (pp_backend p i))) (sync_payloads Y us2) = Some d2"
  shows "\<exists>q a. run_schedule Y mem_backend [0, 1, 0, 1, 0, 1, 0, 1, 0, 1]
        ([Store_Start i us1, Store_Start i us2], p) =
      ([Store_Done (Inr (length (sync_payloads Y us1))),
        Store_Done (Inr (length (sync_payloads Y us2)))], q)
    \<and> cr_content (pp_backend q i) = sy_text Y d2 \<and> cached_at q i = Some a \<and> pp_docs q a = d2"
proof -
  note u1 = apply_updates_spec [OF assms(3,6), of 0] and u2 = apply_updates_spec [OF assms(4,7), of 0]
  from assms(5) have g: "cache_get i (pp_cache p) = (None, pp_cache p)"
    by (simp add: cached_at_def cache_get_def)
  show ?thesis using assms(1,2) g u1 u2
    by (simp add: Let_def store_apply_def store_write_def create_cached_def extractText_def
        cached_at_def dc.put_found)
qed

text \<open>Two store requests for a cached document can leave an outdated text in storage: when the
  first resolves its text before the second but writes after it, the cached document has the updates
  of both, and the stored content has those of the first only.\<close>

theorem overlapping_stores_write_stale_text:
  assumes "us1 \<noteq> []" "us2 \<noteq> []" "\<forall>u \<in> set us1. decodable Y u" "\<forall>u \<in> set us2. decodable Y u"
    and "cached_at p i = Some a"
    and "apply_all Y (pp_docs p a) (sync_payloads Y us1) = Some d1"
    and "apply_all Y d1 (sync_payloads Y us2) = Some d2"
  shows "\<exists>q. run_schedule Y mem_backend [0, 1, 1, 1, 1, 0, 0, 0]
        ([Store_Start i us1, Store_Start i us2], p) =
      ([Store_Done (Inr (length (sync_payloads Y us1))),
        Store_Done (Inr (length (sync_payloads Y us2)))], q)
    \<and> cached_at q i = Some a \<and> pp_docs q a = d2 \<and> cr_content (pp_backend q i) = sy_text Y d1"
proof -
  note u1 = apply_updates_spec [OF assms(3,6), of 0] and u2 = apply_updates_spec [OF assms(4,7), of 0]
  show ?thesis using assms(1,2,5) u1 u2
    by (simp add: Let_def store_apply_def store_write_def extractText_def
        cached_at_def dc.get_result dc.get_keeps)
qed

section \<open>Automatic blame\<close>

lemma fetch_versions_pure:
  assumes "\<And>v. getVersion i v s = (Inr (db v), s)"
  shows "fetch_versions getVersion i vs s = (Inr (List.map_filter (\<lambda>v. db (vl_id v)) vs), s)"
  by (induction vs) (simp_all add: assms map_filter_simps split: option.split)

lemma last_sort_key_unique:
  assumes "x \<in> set xs" "\<And>y. y \<in> set xs \<Longrightarrow> y = x \<or> f y < f x"
  shows "last (sort_key f xs) = (x :: 'a)"
proof -
  let ?s = "sort_key f xs"
  have ne: "?s \<noteq> []" using assms(1) by (metis empty_iff empty_set set_sort)
  then have l: "last ?s \<in> set xs" by (metis last_in_set set_sort)
  have "x \<in> set ?s" using assms(1) by simp
  then obtain n where n: "n < length ?s" "?s ! n = x" by (metis in_set_conv_nth)
  have "sorted (map f ?s)" by (rule sorted_sort_key)
  then have "map f ?s ! n \<le> map f ?s ! (length ?s - 1)"
    using n(1) by (intro sorted_nth_mono) auto
  then have "f x \<le> f (last ?s)" using n ne by (simp add: last_conv_nth)
  with assms(2) [OF l] show ?thesis by auto
qed

lemma map_filter_snoc: "f x = Some y \<Longrightarrow> List.map_filter f (xs @ [x]) = List.map_filter f xs @ [y]"
  by (simp add: List.map_filter_def)

lemma map_filter_last:
  assumes "xs \<noteq> []" "f (last xs) = Some y"
  shows "List.map_filter f xs \<noteq> []" "last (List.map_filter f xs) = y"
proof -
  have "List.map_filter f (butlast xs @ [last xs]) = List.map_filter f (butlast xs) @ [y]"
    using assms(2) by (rule map_filter_snoc)
  then show "List.map_filter f xs \<noteq> []" "last (List.map_filter f xs) = y"
    using assms(1) by simp_all
qed

text \<open>Automatic blame belongs to the requested version: when its summary is the only one with
  its creation time among the summaries no later than it, the blame added to a version without
  stored blame tiles exactly that version's content, and every author named created a version of
  the chain.\<close>

theorem get_version_blame:
  assumes "be_getVersion B = Some getVersion" "\<And>v. getVersion i v s = (Inr (db v), s)"
    and "be_listVersions B = Some listVersions" "listVersions i s = (Inr vs, s)"
    and "db (vl_id x) = Some entry" "ve_blame entry = None"
    and "x \<in> set vs" "vl_created_at x = ve_created_at entry"
    and "date_time (ve_created_at entry) = Some t"
    and "\<And>y u. y \<in> set vs \<Longrightarrow> date_time (vl_created_at y) = Some u \<Longrightarrow> u \<le> t \<Longrightarrow> y = x \<or> u < t"
  shows "\<exists>blame. processGetVersion date_time B i (vl_id x) s =
      (Inr (Some (entry\<lparr>ve_blame := Some blame\<rparr>)), s)
    \<and> tiling 0 blame (length (content_of entry))"
proof -
  let ?chain = "versions_upto date_time (ve_created_at entry) vs"
  let ?elig = "filter (\<lambda>v. case date_time (vl_created_at v) of None \<Rightarrow> False | Some u \<Rightarrow> u \<le> t) vs"
  have x: "x \<in> set ?elig" using assms(7-9) by simp
  have "last ?chain = x"
    unfolding versions_upto_def assms(9) option.case
    by (rule last_sort_key_unique [OF x]) (use assms(8-10) in \<open>fastforce split: option.splits\<close>)
  moreover have ne: "?chain \<noteq> []"
    unfolding versions_upto_def assms(9) option.case using x
    by (metis empty_iff empty_set set_sort)
  ultimately have fs: "List.map_filter (\<lambda>v. db (vl_id v)) ?chain \<noteq> []"
    "last (List.map_filter (\<lambda>v. db (vl_id v)) ?chain) = entry"
    using map_filter_last [OF ne, of "\<lambda>v. db (vl_id v)" entry] assms(5) by simp_all
  let ?fs = "List.map_filter (\<lambda>v. db (vl_id v)) ?chain"
  have "processGetVersion date_time B i (vl_id x) s =
      (Inr (Some (entry\<lparr>ve_blame := Some (computeBlameFromVersions ?fs)\<rparr>)), s)"
    using fs(1) by (cases ?fs)
      (simp_all add: processGetVersion_def assms(1-6) fetch_versions_pure [of getVersion i s db, OF assms(2)])
  moreover have "tiling 0 (computeBlameFromVersions ?fs) (length (content_of entry))"
    using computeBlame_segments [OF fs(1)] fs(2) by simp
  ultimately show ?thesis by blast
qed

section \<open>Witnesses\<close>

text \<open>A document that is its text; an update appends its bytes; lengths and tags below 128 as
  single bytes.\<close>

definition append_yjs :: "jsstring server_yjs" where
  "append_yjs =
     \<lparr>sy_new = [], sy_insert0 = (\<lambda>d t. t @ d), sy_apply = (\<lambda>d u. (d @ map ucast u, True)),
      sy_text = (\<lambda>d. d), sy_encodeState = map ucast,
      rd_varUint = (\<lambda>bs. case bs of [] \<Rightarrow> None | b # r \<Rightarrow> Some (unat b, r)),
      rd_varUint8Array =
        (\<lambda>bs. case bs of [] \<Rightarrow> None
                | n # r \<Rightarrow> if unat n \<le> length r then Some (take (unat n) r) else None)\<rparr>"

definition sample_update :: "byte \<Rightarrow> update_payload" where
  "sample_update b =
     \<lparr>up_sequence = 1, up_data = base64_encode [0, 2, 1, b], up_client_id = 7, up_created_at = None\<rparr>"

lemma sample_update_facts:
  "decodable append_yjs (sample_update b)" "sync_payload append_yjs (sample_update b) = Some [b]"
  by (simp_all add: decodable_def sync_payload_def extractYjsUpdate_def sample_update_def
      append_yjs_def del: base64_encode.simps)

lemma sample_payloads: "sync_payloads append_yjs [sample_update b] = [[b]]"
  by (simp add: sync_payloads_def map_filter_simps sample_update_facts)

definition sample_store :: "jsstring \<Rightarrow> content_result" where
  "sample_store = (\<lambda>_. \<lparr>cr_content = js ''a'', cr_mimeType = js ''text/plain''\<rparr>)"

definition sample_processor :: "(jsstring, jsstring \<Rightarrow> content_result) processor" where
  "sample_processor = new_processor append_yjs None sample_store"

lemma sample_processor_facts:
  "cached_at sample_processor i = None" "pp_backend sample_processor = sample_store"
  by (simp_all add: sample_processor_def new_processor_def cached_at_def new_cache_def)

lemma sample_apply:
  "apply_all append_yjs d [[b]] = Some (d @ [ucast b])"
  "createDocWithContent append_yjs (cr_content (sample_store i)) = js ''a''"
  by (simp_all add: append_yjs_def createDocWithContent_def sample_store_def js_defs)

lemmas sample_facts = sample_update_facts sample_payloads sample_processor_facts sample_apply

theorem store_request_effect_witness:
  "\<exists>q. processStore append_yjs mem_backend (js ''d'') [sample_update 98] sample_processor = (Inr 1, q)
    \<and> cr_content (pp_backend q (js ''d'')) = js ''ab''"
proof -
  let ?t = "\<lparr>cr_content = js ''ab'', cr_mimeType = js ''text/plain''\<rparr>"
  have "\<exists>q a. processStore append_yjs mem_backend (js ''d'') [sample_update 98] sample_processor =
      (Inr (length (sync_payloads append_yjs [sample_update 98])), q)
    \<and> pp_backend q = sample_store(js ''d'' := ?t)
    \<and> cached_at q (js ''d'') = Some a \<and> pp_docs q a = js ''ab''"
    by (rule store_request_effect [where c = "sample_store (js ''d'')"
          and raw = "\<lambda>i us s. (Inr (), s)" and sr = sample_store
          and wr = "\<lambda>i t m s. (Inr (), s(i := \<lparr>cr_content = t, cr_mimeType = m\<rparr>))"])
      (auto simp: sample_facts base_doc_def mem_backend_def,
       simp_all add: js_defs append_yjs_def sample_store_def)
  then show ?thesis by (auto simp: sample_payloads)
qed

theorem overlapping_stores_lose_update_witness:
  "\<exists>q rs. run_schedule append_yjs mem_backend [0, 1, 0, 1, 0, 1, 0, 1, 0, 1]
      ([Store_Start (js ''d'') [sample_update 98], Store_Start (js ''d'') [sample_update 99]],
       sample_processor) = (rs, q)
    \<and> cr_content (pp_backend q (js ''d'')) = js ''ac''"
proof -
  have "apply_all append_yjs (js ''a'') [[98]] = Some (js ''ab'')"
    "apply_all append_yjs (js ''a'') [[99]] = Some (js ''ac'')"
    by (simp_all add: append_yjs_def js_defs)
  then show ?thesis
    using overlapping_stores_lose_update
      [of "[sample_update 98]" "[sample_update 99]" append_yjs sample_processor "js ''d''"
          "js ''ab''" "js ''ac''"]
    by (simp add: sample_update_facts sample_payloads sample_processor_facts sample_apply(2))
      (metis (no_types, lifting) append_yjs_def server_yjs.select_convs(4))
qed

theorem overlapping_stores_write_stale_text_witness:
  "\<exists>q rs. run_schedule append_yjs mem_backend [0, 1, 1, 1, 1, 0, 0, 0]
      ([Store_Start (js ''d'') [sample_update 98], Store_Start (js ''d'') [sample_update 99]],
       snd (create_cached append_yjs (js ''d'') (js ''a'') sample_processor)) = (rs, q)
    \<and> cr_content (pp_backend q (js ''d'')) = js ''ab''"
proof -
  let ?p = "snd (create_cached append_yjs (js ''d'') (js ''a'') sample_processor)"
  have p: "cached_at ?p (js ''d'') = Some (pp_next sample_processor)"
    "pp_docs ?p (pp_next sample_processor) = js ''a''"
    by (simp_all add: create_cached_def cached_at_def dc.put_found createDocWithContent_def
        append_yjs_def js_defs)
  have "apply_all append_yjs (js ''a'') [[98]] = Some (js ''ab'')"
    "apply_all append_yjs (js ''ab'') [[99]] = Some (js ''abc'')"
    by (simp_all add: append_yjs_def js_defs)
  then show ?thesis
    using overlapping_stores_write_stale_text
      [of "[sample_update 98]" "[sample_update 99]" append_yjs ?p "js ''d''"
          "pp_next sample_processor" "js ''ab''" "js ''abc''"] p
    by (simp add: sample_update_facts sample_payloads)
      (metis (no_types, lifting) append_yjs_def server_yjs.select_convs(4))
qed

text \<open>A history of two versions, one hour apart.\<close>

definition sample_db :: "jsstring \<Rightarrow> version_entry option" where
  "sample_db v =
     (if v = js ''1'' then Some ((sample_version ''ann'' ''x'')\<lparr>ve_created_at := js ''1''\<rparr>)
      else if v = js ''2'' then Some ((sample_version ''bob'' ''xy'')\<lparr>ve_created_at := js ''2''\<rparr>)
      else None)"

definition sample_summary :: "string \<Rightarrow> version_list_entry" where
  "sample_summary n =
     \<lparr>vl_id = js n, vl_created_at = js n, vl_type = Auto_Version, vl_label = None,
      vl_creator = None, vl_mime_type = None\<rparr>"

definition sample_time :: "jsstring \<Rightarrow> int option" where
  "sample_time s = (if s = js ''1'' then Some 1 else if s = js ''2'' then Some 2 else None)"

definition history_backend :: "unit backend" where
  "history_backend =
     \<lparr>be_readContent = (\<lambda>i s. (Inl [], s)), be_writeContent = None, be_storeRawUpdates = None,
      be_listDocuments = None, be_onHealth = None,
      be_listVersions = Some (\<lambda>i s. (Inr [sample_summary ''2'', sample_summary ''1''], s)),
      be_createVersion = None, be_getVersion = Some (\<lambda>i v s. (Inr (sample_db v), s)),
      be_getClientMappings = None, be_storeClientMappings = None\<rparr>"

theorem get_version_blame_witness:
  "\<exists>blame entry. processGetVersion sample_time history_backend (js ''d'') (js ''2'') () =
      (Inr (Some (entry\<lparr>ve_blame := Some blame\<rparr>)), ())
    \<and> tiling 0 blame 2"
proof -
  let ?e = "(sample_version ''bob'' ''xy'')\<lparr>ve_created_at := js ''2''\<rparr>"
  have "\<exists>blame. processGetVersion sample_time history_backend (js ''d'')
        (vl_id (sample_summary ''2'')) () = (Inr (Some (?e\<lparr>ve_blame := Some blame\<rparr>)), ())
      \<and> tiling 0 blame (length (content_of ?e))"
    by (rule get_version_blame [where db = sample_db and t = 2
          and vs = "[sample_summary ''2'', sample_summary ''1'']"])
      (auto simp: history_backend_def sample_db_def sample_summary_def sample_time_def
        sample_version_def js_defs split: if_splits)
  moreover have "vl_id (sample_summary ''2'') = js ''2''" "length (content_of ?e) = 2"
    by (simp_all add: sample_summary_def sample_version_def content_of_def js_defs)
  ultimately show ?thesis by metis
qed

end
