(* ===== verification/Http_Router.thy ===== *)
theory Http_Router
  imports Prelude
begin

text \<open>
  What the two HTTP handler factories of the provider SDK share: requests, responses, the check of
  the \<open>path\<close> query parameter, the \<open>try\<close>/\<open>catch\<close> that answers 500, and routing. The router package
  (Express) is third-party: whether a path pattern matches a request path, and with which
  parameters, is a function argument; routes are tried in the order of their registration. The body
  parser \<open>express.json\<close> is a function argument too: it hands on a parsed body, or none when the request
  carries no JSON, or refuses the request with a status (400 for malformed JSON, 413 for a body over
  the limit), which Express's error handler answers before the handler runs.
\<close>

datatype http_method = GET | POST | PATCH | DELETE

type_synonym query = "jsstring \<Rightarrow> jsstring option"
type_synonym path_params = "jsstring \<Rightarrow> jsstring"
type_synonym path_match = "jsstring \<Rightarrow> jsstring \<Rightarrow> path_params option"

datatype 'b parsed_body = Parsed 'b | No_Body | Refused nat jsstring

text \<open>The argument of the parser is the \<open>limit\<close> option in bytes (\<open>None\<close>: the parser's default).\<close>

type_synonym ('w, 'b) json_parser = "nat option \<Rightarrow> 'w \<Rightarrow> 'b parsed_body"

record 'b http_request =
  rq_method :: http_method
  rq_path :: jsstring
  rq_query :: query
  rq_body :: 'b

record 'r http_response =
  rs_status :: nat
  rs_json :: 'r

definition json_error :: "nat \<Rightarrow> jsstring \<Rightarrow> (jsstring + 'r) http_response" where
  "json_error status message = \<lparr>rs_status = status, rs_json = Inl message\<rparr>"

definition json_ok :: "nat \<Rightarrow> 'r \<Rightarrow> (jsstring + 'r) http_response" where
  "json_ok status r = \<lparr>rs_status = status, rs_json = Inr r\<rparr>"

text \<open>\<open>express.json(...)\<close> in front of a handler \<open>k\<close>, which gets \<open>req.body\<close> (\<open>None\<close>: undefined).\<close>

definition json_middleware ::
  "('w, 'b) json_parser \<Rightarrow> nat option \<Rightarrow> 'w
     \<Rightarrow> ('b option \<Rightarrow> 'p \<Rightarrow> (jsstring + 'r) http_response \<times> 'p) \<Rightarrow> 'p
     \<Rightarrow> (jsstring + 'r) http_response \<times> 'p" where
  "json_middleware parse limit raw k p =
     (case parse limit raw of
        Refused status message \<Rightarrow> (json_error status message, p)
      | No_Body \<Rightarrow> k None p
      | Parsed b \<Rightarrow> k (Some b) p)"

text \<open>\<open>if (!v) { res.status(400)...; return; }\<close>: an absent and an empty parameter are refused.\<close>

definition require_query ::
  "query \<Rightarrow> string \<Rightarrow> (jsstring \<Rightarrow> 'p \<Rightarrow> (jsstring + 'r) http_response \<times> 'p) \<Rightarrow> 'p
     \<Rightarrow> (jsstring + 'r) http_response \<times> 'p" where
  "require_query q name k p =
     (case q (js name) of
        Some (c # cs) \<Rightarrow> k (c # cs) p
      | _ \<Rightarrow> (json_error 400 (js (''missing '' @ [CHR 0x27] @ name @ [CHR 0x27] @ '' query parameter'')), p))"

text \<open>\<open>try { ... } catch (err) { res.status(500).json({ error: err.message }) }\<close>.\<close>

definition answer ::
  "('a \<Rightarrow> (jsstring + 'r) http_response) \<Rightarrow> (jsstring + 'a) \<times> 'p \<Rightarrow> (jsstring + 'r) http_response \<times> 'p"
  where
  "answer ok rp =
     ((case fst rp of Inl e \<Rightarrow> json_error 500 e | Inr a \<Rightarrow> ok a), snd rp)"

text \<open>The first registered route whose method and pattern fit the request.\<close>

type_synonym 'h route = "http_method \<times> jsstring \<times> 'h"

fun find_route ::
  "path_match \<Rightarrow> 'h route list \<Rightarrow> http_method \<Rightarrow> jsstring \<Rightarrow> ('h \<times> path_params) option" where
  "find_route matches [] m path = None"
| "find_route matches ((m', pat, h) # routes) m path =
     (if m' = m then
        (case matches pat path of
           Some ps \<Rightarrow> Some (h, ps)
         | None \<Rightarrow> find_route matches routes m path)
      else find_route matches routes m path)"

section \<open>Lemmas\<close>

lemma answer_status:
  "rs_status (fst (answer ok rp)) = (case fst rp of Inl _ \<Rightarrow> 500 | Inr a \<Rightarrow> rs_status (ok a))"
  by (simp add: answer_def json_error_def split: sum.split)

lemma require_query_cases:
  obtains (absent) "q (js name) = None \<or> q (js name) = Some []" "snd (require_query q name k p) = p"
      "rs_status (fst (require_query q name k p)) = 400"
  | (present) v where "q (js name) = Some v" "v \<noteq> []" "require_query q name k p = k v p"
  by (cases "q (js name)"; cases "the (q (js name))")
    (auto simp: require_query_def json_error_def)

definition blank :: "query \<Rightarrow> string \<Rightarrow> bool" where
  "blank q name \<longleftrightarrow> q (js name) = None \<or> q (js name) = Some []"

lemma require_query_blank:
  "blank q name \<Longrightarrow> snd (require_query q name k p) = p
     \<and> rs_status (fst (require_query q name k p)) = 400"
  by (cases rule: require_query_cases [of q name k p]) (auto simp: blank_def)

lemma require_query_present:
  "\<not> blank q name \<Longrightarrow> require_query q name k p = k (the (q (js name))) p"
  by (cases rule: require_query_cases [of q name k p]) (auto simp: blank_def)

lemma json_status [simp]: "rs_status (json_ok n r) = n" "rs_status (json_error n e) = n"
  by (simp_all add: json_ok_def json_error_def)

text \<open>What \<open>req.body\<close> is once the parser has let the request through.\<close>

fun parsed_value :: "'b parsed_body \<Rightarrow> 'b option" where
  "parsed_value (Parsed b) = Some b"
| "parsed_value _ = None"

lemma json_middleware_cases:
  obtains (refused) n m where "parse limit raw = Refused n m" "json_middleware parse limit raw k p = (json_error n m, p)"
  | (passed) "\<And>n m. parse limit raw \<noteq> Refused n m"
      "json_middleware parse limit raw k p = k (parsed_value (parse limit raw)) p"
  by (cases "parse limit raw") (auto simp: json_middleware_def)

text \<open>How the call behind an endpoint ended: with a value, with \<open>null\<close> where a value was asked for, or
  with an exception.\<close>

datatype call_outcome = Call_Fulfilled | Call_Absent | Call_Rejected

definition outcome_of :: "jsstring + 'a \<Rightarrow> call_outcome" where
  "outcome_of r = (case r of Inl _ \<Rightarrow> Call_Rejected | Inr _ \<Rightarrow> Call_Fulfilled)"

definition outcome_of_option :: "jsstring + 'a option \<Rightarrow> call_outcome" where
  "outcome_of_option r = (case r of Inl _ \<Rightarrow> Call_Rejected | Inr None \<Rightarrow> Call_Absent | Inr (Some _) \<Rightarrow> Call_Fulfilled)"

definition status_of :: "nat \<Rightarrow> call_outcome \<Rightarrow> nat" where
  "status_of ok r = (case r of Call_Fulfilled \<Rightarrow> ok | Call_Absent \<Rightarrow> 404 | Call_Rejected \<Rightarrow> 500)"

text \<open>Status and state of an answer, as one value.\<close>

definition effect :: "'r http_response \<times> 'p \<Rightarrow> nat \<times> 'p" where
  "effect = apfst rs_status"

lemma effect_answer:
  "(\<And>a. rs_status (ok a) = c) \<Longrightarrow> effect (answer ok rp) = apfst (status_of c) (apfst outcome_of rp)"
  by (cases rp) (simp add: effect_def answer_def outcome_of_def status_of_def split: sum.split)

lemma effect_answer_option:
  "(\<And>a. rs_status (ok (Some a)) = c) \<Longrightarrow> rs_status (ok None) = 404 \<Longrightarrow>
   effect (answer ok rp) = apfst (status_of c) (apfst outcome_of_option rp)"
  by (cases rp) (simp add: effect_def answer_def outcome_of_option_def status_of_def split: sum.split option.split)

lemma effect_blank: "blank q name \<Longrightarrow> effect (require_query q name k p) = (400, p)"
  using require_query_blank [of q name k p] by (simp add: effect_def prod_eq_iff)

lemma find_route_mem:
  "find_route matches routes m path = Some (h, ps) \<Longrightarrow>
   \<exists>pat. (m, pat, h) \<in> set routes \<and> matches pat path = Some ps"
  by (induction matches routes m path rule: find_route.induct)
    (auto split: if_splits option.splits)

lemma find_route_first:
  "\<forall>r \<in> set before. fst r \<noteq> m \<or> matches (fst (snd r)) path = None \<Longrightarrow>
   matches pat path = Some ps \<Longrightarrow>
   find_route matches (before @ (m, pat, h) # after) m path = Some (h, ps)"
  by (induction before) auto

end
