(* ===== verification/Provider_Router.thy ===== *)
theory Provider_Router
  imports Provider_Processor Http_Router
begin

text \<open>
  \<open>packages/provider-sdk-ts/src/handler.ts\<close>: the HTTP endpoints of the storage protocol. Which routes
  exist depends on the methods the backend implements; three of them have the body parser
  \<open>express.json()\<close> in front. Shown: the status code of every answer and the state after it, on every
  branch; client mappings are acknowledged even when nobody stores them.
\<close>

text \<open>The parsed JSON body: the fields the handlers read of it.\<close>

record spi_body =
  sb_updates :: "update_payload list option"
  sb_mappings :: "client_user_mapping list option"
  sb_version :: create_version_request

datatype spi_reply =
    Health_Reply health_response
  | Load_Reply load_response
  | Stored_Reply nat
  | Documents_Reply "document_list_entry list"
  | Versions_Reply "version_list_entry list"
  | Version_Created_Reply version_list_entry
  | Version_Reply version_entry
  | Mappings_Reply "client_user_mapping list"

datatype spi_handler =
    Health_Route | Load_Route | Updates_Route | List_Route
  | Versions_Route | Create_Version_Route | Version_Detail_Route
  | Clients_Route | Store_Clients_Route

definition spi_routes :: "'s backend \<Rightarrow> spi_handler route list" where
  "spi_routes B =
     [(GET, js ''/health'', Health_Route),
      (POST, js ''/documents/load'', Load_Route),
      (POST, js ''/documents/updates'', Updates_Route),
      (GET, js ''/documents'', List_Route)]
     @ (if be_listVersions B \<noteq> None then
          [(GET, js ''/documents/versions'', Versions_Route),
           (POST, js ''/documents/versions'', Create_Version_Route),
           (GET, js ''/documents/versions/detail'', Version_Detail_Route)]
        else [])
     @ (if be_getClientMappings B \<noteq> None then
          [(GET, js ''/documents/clients'', Clients_Route),
           (POST, js ''/documents/clients'', Store_Clients_Route)]
        else [])"

text \<open>A call of the processor that only touches the backend.\<close>

definition on_backend ::
  "('s, 'a) call \<Rightarrow> ('d, 's) processor \<Rightarrow> (error_message + 'a) \<times> ('d, 's) processor" where
  "on_backend f p = (case f (pp_backend p) of (r, s) \<Rightarrow> (r, p\<lparr>pp_backend := s\<rparr>))"

definition updates_of :: "spi_body \<Rightarrow> update_payload list" where
  "updates_of b = (case sb_updates b of None \<Rightarrow> [] | Some us \<Rightarrow> us)"

definition mappings_of :: "spi_body \<Rightarrow> client_user_mapping list" where
  "mappings_of b = (case sb_mappings b of None \<Rightarrow> [] | Some ms \<Rightarrow> ms)"

text \<open>\<open>processStore\<close> never reports failed updates, so the status of a processed store is 202 (the
  source's test \<open>resp.failed && resp.failed.length > 0\<close> is on a field the processor leaves unset).\<close>

definition store_status :: "'f list option \<Rightarrow> nat" where
  "store_status failed = (case failed of Some (_ # _) \<Rightarrow> 207 | _ \<Rightarrow> 202)"

text \<open>Reading a property of an undefined \<open>req.body\<close> throws; the handler's \<open>try\<close> catches it.\<close>

definition with_body ::
  "string \<Rightarrow> 'b option \<Rightarrow> ('b \<Rightarrow> 'p \<Rightarrow> (jsstring + 'a) \<times> 'p) \<Rightarrow> 'p \<Rightarrow> (jsstring + 'a) \<times> 'p" where
  "with_body field body f p =
     (case body of
        None \<Rightarrow> (Inl (js (''Cannot read properties of undefined (reading '' @ [CHR 0x27] @ field @ [CHR 0x27] @ '')'')), p)
      | Some b \<Rightarrow> f b p)"

fun spi_handle ::
  "('w, spi_body) json_parser \<Rightarrow> 'd server_yjs \<Rightarrow> 's backend \<Rightarrow> (jsstring \<Rightarrow> int option) \<Rightarrow> spi_handler
     \<Rightarrow> 'w http_request \<Rightarrow> ('d, 's) processor
     \<Rightarrow> (error_message + spi_reply) http_response \<times> ('d, 's) processor" where
  "spi_handle J Y B dt Health_Route rq p =
     answer (\<lambda>r. json_ok 200 (Health_Reply r)) (on_backend (processHealth B) p)"
| "spi_handle J Y B dt Load_Route rq p =
     require_query (rq_query rq) ''path''
       (\<lambda>documentId p. answer (\<lambda>r. json_ok 200 (Load_Reply r)) (processLoad Y B documentId p)) p"
| "spi_handle J Y B dt Updates_Route rq p =
     json_middleware J None (rq_body rq) (\<lambda>body p.
       require_query (rq_query rq) ''path''
         (\<lambda>documentId p.
            answer (\<lambda>n. json_ok (store_status (None :: unit list option)) (Stored_Reply n))
              (with_body ''updates'' body (\<lambda>b. processStore Y B documentId (updates_of b)) p)) p) p"
| "spi_handle J Y B dt List_Route rq p =
     answer (\<lambda>r. json_ok 200 (Documents_Reply r)) (on_backend (processList B) p)"
| "spi_handle J Y B dt Versions_Route rq p =
     require_query (rq_query rq) ''path''
       (\<lambda>documentId p. answer (\<lambda>r. json_ok 200 (Versions_Reply r))
          (on_backend (processListVersions B documentId) p)) p"
| "spi_handle J Y B dt Create_Version_Route rq p =
     json_middleware J None (rq_body rq) (\<lambda>body p.
       require_query (rq_query rq) ''path''
         (\<lambda>documentId p. answer
            (\<lambda>r. case r of
                   None \<Rightarrow> json_error 500 (js ''version creation not supported'')
                 | Some v \<Rightarrow> json_ok 201 (Version_Created_Reply v))
            (on_backend (processCreateVersion B documentId (map_option sb_version body)) p)) p) p"
| "spi_handle J Y B dt Version_Detail_Route rq p =
     require_query (rq_query rq) ''path''
       (\<lambda>documentId p. require_query (rq_query rq) ''version''
          (\<lambda>versionId p. answer
             (\<lambda>r. case r of
                    None \<Rightarrow> json_error 404 (js ''version not found'')
                  | Some v \<Rightarrow> json_ok 200 (Version_Reply v))
             (on_backend (processGetVersion dt B documentId versionId) p)) p) p"
| "spi_handle J Y B dt Clients_Route rq p =
     require_query (rq_query rq) ''path''
       (\<lambda>documentId p. answer (\<lambda>r. json_ok 200 (Mappings_Reply r))
          (on_backend (processGetClientMappings B documentId) p)) p"
| "spi_handle J Y B dt Store_Clients_Route rq p =
     json_middleware J None (rq_body rq) (\<lambda>body p.
       require_query (rq_query rq) ''path''
         (\<lambda>documentId p. answer (\<lambda>n. json_ok 200 (Stored_Reply n))
            (with_body ''mappings'' body
               (\<lambda>b p. case on_backend (processStoreClientMappings B documentId (mappings_of b)) p of
                         (Inl e, q) \<Rightarrow> (Inl e, q)
                       | (Inr _, q) \<Rightarrow> (Inr (length (mappings_of b)), q)) p)) p) p"

text \<open>A request for which no route is registered is left to the application (\<open>None\<close>).\<close>

definition createExpressRouter ::
  "path_match \<Rightarrow> ('w, spi_body) json_parser \<Rightarrow> 'd server_yjs \<Rightarrow> 's backend \<Rightarrow> (jsstring \<Rightarrow> int option)
     \<Rightarrow> 'w http_request \<Rightarrow> ('d, 's) processor
     \<Rightarrow> ((error_message + spi_reply) http_response \<times> ('d, 's) processor) option" where
  "createExpressRouter matches J Y B dt rq p =
     (case find_route matches (spi_routes B) (rq_method rq) (rq_path rq) of
        None \<Rightarrow> None
      | Some (h, _) \<Rightarrow> Some (spi_handle J Y B dt h rq p))"

section \<open>What the endpoints promise\<close>

definition needs_path :: "spi_handler \<Rightarrow> bool" where
  "needs_path h \<longleftrightarrow> h \<noteq> Health_Route \<and> h \<noteq> List_Route"

definition takes_body :: "spi_handler \<Rightarrow> bool" where
  "takes_body h \<longleftrightarrow> h \<in> {Updates_Route, Create_Version_Route, Store_Clients_Route}"

definition success_code :: "spi_handler \<Rightarrow> nat" where
  "success_code h = (case h of Updates_Route \<Rightarrow> 202 | Create_Version_Route \<Rightarrow> 201 | _ \<Rightarrow> 200)"

text \<open>The call behind each endpoint and the state it leaves; a version that nobody can create counts
  as rejected.\<close>

fun spi_call ::
  "'d server_yjs \<Rightarrow> 's backend \<Rightarrow> (jsstring \<Rightarrow> int option) \<Rightarrow> spi_handler \<Rightarrow> jsstring \<Rightarrow> jsstring
     \<Rightarrow> spi_body option \<Rightarrow> ('d, 's) processor \<Rightarrow> call_outcome \<times> ('d, 's) processor" where
  "spi_call Y B dt Health_Route d v body p = apfst outcome_of (on_backend (processHealth B) p)"
| "spi_call Y B dt Load_Route d v body p = apfst outcome_of (processLoad Y B d p)"
| "spi_call Y B dt Updates_Route d v None p = (Call_Rejected, p)"
| "spi_call Y B dt Updates_Route d v (Some b) p = apfst outcome_of (processStore Y B d (updates_of b) p)"
| "spi_call Y B dt List_Route d v body p = apfst outcome_of (on_backend (processList B) p)"
| "spi_call Y B dt Versions_Route d v body p = apfst outcome_of (on_backend (processListVersions B d) p)"
| "spi_call Y B dt Create_Version_Route d v body p =
     apfst (\<lambda>r. if outcome_of_option r = Call_Fulfilled then Call_Fulfilled else Call_Rejected)
       (on_backend (processCreateVersion B d (map_option sb_version body)) p)"
| "spi_call Y B dt Version_Detail_Route d v body p =
     apfst outcome_of_option (on_backend (processGetVersion dt B d v) p)"
| "spi_call Y B dt Clients_Route d v body p = apfst outcome_of (on_backend (processGetClientMappings B d) p)"
| "spi_call Y B dt Store_Clients_Route d v None p = (Call_Rejected, p)"
| "spi_call Y B dt Store_Clients_Route d v (Some b) p =
     apfst outcome_of (on_backend (processStoreClientMappings B d (mappings_of b)) p)"

definition blank_parameter :: "spi_handler \<Rightarrow> query \<Rightarrow> bool" where
  "blank_parameter h q \<longleftrightarrow> needs_path h \<and> (blank q ''path'' \<or> h = Version_Detail_Route \<and> blank q ''version'')"

section \<open>Lemmas\<close>

lemma store_status_none [simp]: "store_status None = 202"
  by (simp add: store_status_def)

lemma on_backend_pure: "f (pp_backend p) = (r, pp_backend p) \<Longrightarrow> on_backend f p = (r, p)"
  by (simp add: on_backend_def)

lemma effect_create_version:
  "effect (answer (\<lambda>r. case r of None \<Rightarrow> json_error 500 e | Some v \<Rightarrow> json_ok 201 (f v)) rp) =
     apfst (status_of 201) (apfst (\<lambda>r. if outcome_of_option r = Call_Fulfilled then Call_Fulfilled else Call_Rejected) rp)"
  by (cases rp)
    (auto simp: effect_def answer_def outcome_of_option_def status_of_def split: sum.split option.split)

lemma effect_with_body:
  "effect (answer ok (with_body field None f p)) = (500, p)"
  "with_body field (Some b) f p = f b p"
  by (simp_all add: with_body_def effect_def answer_def)

lemma effect_counted:
  "effect (answer (\<lambda>n. json_ok 200 (Stored_Reply n)) (case rp of (Inl e, q) \<Rightarrow> (Inl e, q) | (Inr _, q) \<Rightarrow> (Inr n, q))) =
     apfst (status_of 200) (apfst outcome_of rp)"
  by (cases rp) (simp add: effect_def answer_def outcome_of_def status_of_def split: sum.split)

lemmas spi_effects =
  effect_answer effect_answer_option effect_create_version effect_with_body effect_counted effect_blank
  require_query_present

text \<open>The handler behind the body parser, with the body it gets.\<close>

definition expected_effect ::
  "'d server_yjs \<Rightarrow> 's backend \<Rightarrow> (jsstring \<Rightarrow> int option) \<Rightarrow> spi_handler \<Rightarrow> query \<Rightarrow> spi_body option
     \<Rightarrow> ('d, 's) processor \<Rightarrow> nat \<times> ('d, 's) processor" where
  "expected_effect Y B dt h q body p =
     (if blank_parameter h q then (400, p)
      else apfst (status_of (success_code h))
             (spi_call Y B dt h (the (q (js ''path''))) (the (q (js ''version''))) body p))"

lemma spi_plain_effect:
  assumes "\<not> takes_body h"
  shows "effect (spi_handle J Y B dt h rq p) = expected_effect Y B dt h (rq_query rq) body p"
  using assms
  by (cases h; cases "blank (rq_query rq) ''path''"; cases "blank (rq_query rq) ''version''")
    (simp_all add: spi_effects expected_effect_def blank_parameter_def needs_path_def takes_body_def
      success_code_def)

lemma spi_body_effect:
  assumes "takes_body h" "\<And>n m. J None (rq_body rq) \<noteq> Refused n m"
  shows "effect (spi_handle J Y B dt h rq p) =
    expected_effect Y B dt h (rq_query rq) (parsed_value (J None (rq_body rq))) p"
proof (cases "J None (rq_body rq)")
  case (Refused n m)
  then show ?thesis using assms(2) by blast
qed (use assms(1) in \<open>cases h; cases "blank (rq_query rq) ''path''";
    simp add: spi_effects expected_effect_def blank_parameter_def needs_path_def takes_body_def
      success_code_def json_middleware_def status_of_def\<close>)+

section \<open>Properties\<close>

text \<open>C37: Status and effect of every request to the storage endpoints. Where the body parser in front of
  an endpoint refuses the body (malformed, too large), the request is answered with the parser's
  status and reaches neither processor nor backend; otherwise, where the \<open>path\<close> parameter (or, for a
  version, the \<open>version\<close> parameter) is missing or empty, it is answered 400 and reaches neither; otherwise
  the state is the one the endpoint's call of the processor leaves, and the status is the endpoint's
  success code (200; 201 for a new version, 202 for updates), 404 for a version that does not exist, and
  500 when the call throws, when no JSON was sent to a handler that reads a field of it, or when
  versions cannot be created. (The 207 of the protocol document for partly failed updates does not
  occur: the processor reports no failed updates.)\<close>

theorem router_status:
  "let r = spi_handle J Y B dt h rq p; parsed = J None (rq_body rq)
   in case (takes_body h, parsed) of
        (True, Refused n m) \<Rightarrow> r = (json_error n m, p)
      | _ \<Rightarrow> (rs_status (fst r), snd r) =
          (if blank_parameter h (rq_query rq) then (400, p)
           else apfst (status_of (success_code h))
             (spi_call Y B dt h (the (rq_query rq (js ''path''))) (the (rq_query rq (js ''version'')))
                (parsed_value parsed) p))"
  using spi_plain_effect [of h J Y B dt rq p "parsed_value (J None (rq_body rq))"]
    spi_body_effect [of h J rq Y B dt p]
  by (cases "takes_body h"; cases "J None (rq_body rq)")
    (auto simp: Let_def effect_def expected_effect_def takes_body_def json_middleware_def prod_eq_iff)

text \<open>A backend that returns client mappings but does not store them gets the store endpoint
  mounted: the request is answered 200 with the number of mappings sent, and nothing is stored.\<close>

theorem client_mappings_acknowledged_unstored:
  assumes "be_storeClientMappings B = None" "\<not> blank (rq_query rq) ''path''"
    and "J None (rq_body rq) = Parsed b"
  shows "spi_handle J Y B dt Store_Clients_Route rq p =
    (json_ok 200 (Stored_Reply (length (mappings_of b))), p)"
proof -
  have "on_backend (processStoreClientMappings B i ms) p = (Inr (), p)" for i ms
    by (rule on_backend_pure) (simp add: processStoreClientMappings_def assms(1))
  then show ?thesis using assms(3)
    by (simp add: json_middleware_def with_body_def require_query_present [OF assms(2)] answer_def)
qed

text \<open>A parser on bodies that are parsed already, which refuses bodies with more than three mappings.\<close>

definition sample_parser :: "(spi_body, spi_body) json_parser" where
  "sample_parser limit b =
     (if length (mappings_of b) > 3 then Refused 413 (js ''request entity too large'') else Parsed b)"

definition sample_body :: "nat \<Rightarrow> spi_body" where
  "sample_body n =
     \<lparr>sb_updates = None, sb_mappings = Some (replicate n \<lparr>cu_client_id = 1, cu_user_name = js ''ann''\<rparr>),
      sb_version = \<lparr>cv_content = [], cv_mime_type = None, cv_label = None, cv_creator = None,
        cv_type = None, cv_blame = None\<rparr>\<rparr>"

definition sample_request :: "nat \<Rightarrow> spi_body http_request" where
  "sample_request n =
     \<lparr>rq_method = POST, rq_path = js ''/documents/clients'',
      rq_query = (\<lambda>k. if k = js ''path'' then Some (js ''d'') else None), rq_body = sample_body n\<rparr>"

theorem client_mappings_acknowledged_unstored_witness:
  "fst (spi_handle sample_parser append_yjs mem_backend sample_time Store_Clients_Route
     (sample_request 1) sample_processor) = json_ok 200 (Stored_Reply 1)"
  using client_mappings_acknowledged_unstored
    [of mem_backend "sample_request 1" sample_parser "sample_body 1" append_yjs sample_time]
  by (simp add: mem_backend_def blank_def sample_request_def sample_parser_def sample_body_def
      mappings_of_def js_defs)

end
