(* ===== verification/Comments_Router.thy ===== *)
theory Comments_Router
  imports Comment_Types Http_Router
begin

text \<open>
  \<open>packages/provider-sdk-ts/src/comments/handler.ts\<close>: the REST endpoints of a comments provider. The
  provider object is a parameter; its optional methods decide which routes exist. The routes that read
  a body have \<open>express.json({ limit: '256kb' })\<close> in front; without JSON they hand \<open>undefined\<close> on. Shown: the
  static routes are not shadowed by the thread routes; the status code of every answer and the state
  after it; a conflict raised by the provider is answered 500.
\<close>

section \<open>Requests\<close>

record new_comment =
  nc_id :: jsstring
  nc_author_id :: jsstring
  nc_author_name :: jsstring
  nc_content :: jsstring
  nc_mentions :: "mention list option"

record create_thread_request =
  cr_id :: jsstring
  cr_anchor :: comment_anchor
  cr_comment :: "new_comment option"
  cr_suggestion :: "suggestion option"

record update_thread_status_request =
  us_status :: thread_status
  us_resolved_by :: "jsstring option"

record update_comment_request =
  uc_content :: jsstring
  uc_mentions :: "mention list option"
  uc_edited_by :: "jsstring option"

record reaction_request =
  rr_comment_id :: "jsstring option"
  rr_user_id :: jsstring
  rr_user_name :: jsstring
  rr_emoji :: jsstring

record suggestion_decision_request =
  sd_decision :: suggestion_status
  sd_decided_by :: jsstring
  sd_applied_version_id :: "jsstring option"

record thread_list_entry =
  tl_id :: jsstring
  tl_anchor :: comment_anchor
  tl_status :: thread_status
  tl_created_at :: jsstring
  tl_comment_count :: int
  tl_last_author_name :: "jsstring option"
  tl_last_comment_at :: "jsstring option"
  tl_has_suggestion :: bool
  tl_suggestion_status :: "suggestion_status option"

record poll_response =
  pr_changes :: "comment_change list"
  pr_server_time :: jsstring

text \<open>The provider object over its state \<open>'s\<close>; a rejected promise is \<open>Inl\<close> of the message.\<close>

type_synonym ('s, 'a) provider_call = "'s \<Rightarrow> (jsstring + 'a) \<times> 's"

record 's comments_provider =
  cp_capabilities :: "('s, comments_capabilities) provider_call"
  cp_listCommentThreads :: "jsstring \<Rightarrow> ('s, thread_list_entry list) provider_call"
  cp_getCommentThread :: "jsstring \<Rightarrow> jsstring \<Rightarrow> ('s, comment_thread option) provider_call"
  cp_createCommentThread :: "jsstring \<Rightarrow> create_thread_request option \<Rightarrow> ('s, comment_thread) provider_call"
  cp_addReply :: "jsstring \<Rightarrow> jsstring \<Rightarrow> new_comment option \<Rightarrow> ('s, comment) provider_call"
  cp_updateThreadStatus ::
    "jsstring \<Rightarrow> jsstring \<Rightarrow> update_thread_status_request option \<Rightarrow> ('s, comment_thread) provider_call"
  cp_deleteCommentThread :: "jsstring \<Rightarrow> jsstring \<Rightarrow> ('s, unit) provider_call"
  cp_updateComment ::
    "(jsstring \<Rightarrow> jsstring \<Rightarrow> jsstring \<Rightarrow> update_comment_request option \<Rightarrow> ('s, comment) provider_call) option"
  cp_deleteComment :: "(jsstring \<Rightarrow> jsstring \<Rightarrow> jsstring \<Rightarrow> ('s, unit) provider_call) option"
  cp_addReaction :: "(jsstring \<Rightarrow> jsstring \<Rightarrow> reaction_request option \<Rightarrow> ('s, unit) provider_call) option"
  cp_removeReaction :: "(jsstring \<Rightarrow> jsstring \<Rightarrow> reaction_request option \<Rightarrow> ('s, unit) provider_call) option"
  cp_decideSuggestion ::
    "(jsstring \<Rightarrow> jsstring \<Rightarrow> suggestion_decision_request option \<Rightarrow> ('s, comment_thread) provider_call) option"
  cp_searchMentions :: "(jsstring \<Rightarrow> jsstring \<Rightarrow> int \<Rightarrow> ('s, mention_candidate list) provider_call) option"
  cp_pollCommentChanges :: "(jsstring \<Rightarrow> jsstring \<Rightarrow> ('s, poll_response) provider_call) option"

text \<open>The request body in the shape each handler hands on.\<close>

record comments_body =
  bd_create :: create_thread_request
  bd_reply :: new_comment
  bd_status :: update_thread_status_request
  bd_edit :: update_comment_request
  bd_reaction :: reaction_request
  bd_decision :: suggestion_decision_request

datatype comments_reply =
    Capabilities_Reply comments_capabilities
  | Threads_Reply "thread_list_entry list"
  | Thread_Reply comment_thread
  | Comment_Reply comment
  | Candidates_Reply "mention_candidate list"
  | Poll_Reply poll_response
  | Empty_Reply

section \<open>Routes\<close>

datatype comments_handler =
    Capabilities_Route | List_Threads_Route | Create_Thread_Route
  | Search_Mentions_Route | Poll_Route | Get_Thread_Route | Reply_Route | Thread_Status_Route
  | Delete_Thread_Route | Edit_Comment_Route | Delete_Comment_Route | Add_Reaction_Route
  | Remove_Reaction_Route | Decide_Route

definition comments_routes :: "'s comments_provider \<Rightarrow> comments_handler route list" where
  "comments_routes P =
     [(GET, js ''/capabilities'', Capabilities_Route),
      (GET, js ''/documents/comments'', List_Threads_Route),
      (POST, js ''/documents/comments'', Create_Thread_Route)]
     @ (if cp_searchMentions P \<noteq> None
        then [(GET, js ''/documents/comments/mentions/search'', Search_Mentions_Route)] else [])
     @ (if cp_pollCommentChanges P \<noteq> None
        then [(GET, js ''/documents/comments/poll'', Poll_Route)] else [])
     @ [(GET, js ''/documents/comments/:threadId'', Get_Thread_Route),
        (POST, js ''/documents/comments/:threadId/replies'', Reply_Route),
        (PATCH, js ''/documents/comments/:threadId'', Thread_Status_Route),
        (DELETE, js ''/documents/comments/:threadId'', Delete_Thread_Route)]
     @ (if cp_updateComment P \<noteq> None
        then [(PATCH, js ''/documents/comments/:threadId/comments/:commentId'', Edit_Comment_Route)]
        else [])
     @ (if cp_deleteComment P \<noteq> None
        then [(DELETE, js ''/documents/comments/:threadId/comments/:commentId'', Delete_Comment_Route)]
        else [])
     @ (if cp_addReaction P \<noteq> None
        then [(POST, js ''/documents/comments/:threadId/reactions'', Add_Reaction_Route)] else [])
     @ (if cp_removeReaction P \<noteq> None
        then [(DELETE, js ''/documents/comments/:threadId/reactions'', Remove_Reaction_Route)] else [])
     @ (if cp_decideSuggestion P \<noteq> None
        then [(POST, js ''/documents/comments/:threadId/suggestion/decision'', Decide_Route)] else [])"

text \<open>\<open>Number.parseInt(s, 10)\<close>: optional white space and sign, then the longest run of digits;
  \<open>None\<close> (\<open>NaN\<close>) without a digit. \<open>parseInt(limit ?? '10', 10) || 10\<close> maps \<open>NaN\<close> and 0 to 10.\<close>

definition is_digit :: "code_unit \<Rightarrow> bool" where
  "is_digit c \<longleftrightarrow> 48 \<le> unat c \<and> unat c \<le> 57"

definition digits_value :: "jsstring \<Rightarrow> int" where
  "digits_value ds = foldl (\<lambda>n c. 10 * n + (int (unat c) - 48)) 0 ds"

definition parseInt10 :: "jsstring \<Rightarrow> int option" where
  "parseInt10 s =
     (let t = dropWhile (\<lambda>c. c \<in> {9, 10, 11, 12, 13, 32, 160}) s;
          neg = (t \<noteq> [] \<and> hd t = 45);
          u = (if t \<noteq> [] \<and> hd t \<in> {43, 45} then tl t else t);
          ds = takeWhile is_digit u
      in if ds = [] then None else Some (if neg then - digits_value ds else digits_value ds))"

definition limit_of :: "query \<Rightarrow> int" where
  "limit_of q =
     (case parseInt10 (case q (js ''limit'') of None \<Rightarrow> js ''10'' | Some s \<Rightarrow> s) of
        None \<Rightarrow> 10 | Some n \<Rightarrow> if n = 0 then 10 else n)"

definition query_or_empty :: "query \<Rightarrow> string \<Rightarrow> jsstring" where
  "query_or_empty q name = (case q (js name) of None \<Rightarrow> [] | Some s \<Rightarrow> s)"

text \<open>\<open>limit: '256kb'\<close> in bytes.\<close>

definition comments_limit :: "nat option" where
  "comments_limit = Some (256 * 1024)"

fun comments_handle ::
  "('w, comments_body) json_parser \<Rightarrow> 's comments_provider \<Rightarrow> comments_handler \<Rightarrow> path_params
     \<Rightarrow> 'w http_request \<Rightarrow> 's \<Rightarrow> (jsstring + comments_reply) http_response \<times> 's" where
  "comments_handle J P Capabilities_Route ps rq s =
     answer (\<lambda>r. json_ok 200 (Capabilities_Reply r)) (cp_capabilities P s)"
| "comments_handle J P List_Threads_Route ps rq s =
     require_query (rq_query rq) ''path''
       (\<lambda>d s. answer (\<lambda>r. json_ok 200 (Threads_Reply r)) (cp_listCommentThreads P d s)) s"
| "comments_handle J P Create_Thread_Route ps rq s =
     json_middleware J comments_limit (rq_body rq) (\<lambda>body s.
       require_query (rq_query rq) ''path''
         (\<lambda>d s. answer (\<lambda>r. json_ok 201 (Thread_Reply r))
            (cp_createCommentThread P d (map_option bd_create body) s)) s) s"
| "comments_handle J P Search_Mentions_Route ps rq s =
     require_query (rq_query rq) ''path''
       (\<lambda>d s. answer (\<lambda>r. json_ok 200 (Candidates_Reply r))
          (the (cp_searchMentions P) d (query_or_empty (rq_query rq) ''q'') (limit_of (rq_query rq)) s)) s"
| "comments_handle J P Poll_Route ps rq s =
     require_query (rq_query rq) ''path''
       (\<lambda>d s. answer (\<lambda>r. json_ok 200 (Poll_Reply r))
          (the (cp_pollCommentChanges P) d (query_or_empty (rq_query rq) ''since'') s)) s"
| "comments_handle J P Get_Thread_Route ps rq s =
     require_query (rq_query rq) ''path''
       (\<lambda>d s. answer
          (\<lambda>r. case r of
                 None \<Rightarrow> json_error 404 (js ''thread not found'')
               | Some t \<Rightarrow> json_ok 200 (Thread_Reply t))
          (cp_getCommentThread P d (ps (js ''threadId'')) s)) s"
| "comments_handle J P Reply_Route ps rq s =
     json_middleware J comments_limit (rq_body rq) (\<lambda>body s.
       require_query (rq_query rq) ''path''
         (\<lambda>d s. answer (\<lambda>r. json_ok 201 (Comment_Reply r))
            (cp_addReply P d (ps (js ''threadId'')) (map_option bd_reply body) s)) s) s"
| "comments_handle J P Thread_Status_Route ps rq s =
     json_middleware J comments_limit (rq_body rq) (\<lambda>body s.
       require_query (rq_query rq) ''path''
         (\<lambda>d s. answer (\<lambda>r. json_ok 200 (Thread_Reply r))
            (cp_updateThreadStatus P d (ps (js ''threadId'')) (map_option bd_status body) s)) s) s"
| "comments_handle J P Delete_Thread_Route ps rq s =
     require_query (rq_query rq) ''path''
       (\<lambda>d s. answer (\<lambda>_. json_ok 204 Empty_Reply)
          (cp_deleteCommentThread P d (ps (js ''threadId'')) s)) s"
| "comments_handle J P Edit_Comment_Route ps rq s =
     json_middleware J comments_limit (rq_body rq) (\<lambda>body s.
       require_query (rq_query rq) ''path''
         (\<lambda>d s. answer (\<lambda>r. json_ok 200 (Comment_Reply r))
            (the (cp_updateComment P) d (ps (js ''threadId'')) (ps (js ''commentId''))
               (map_option bd_edit body) s)) s) s"
| "comments_handle J P Delete_Comment_Route ps rq s =
     require_query (rq_query rq) ''path''
       (\<lambda>d s. answer (\<lambda>_. json_ok 204 Empty_Reply)
          (the (cp_deleteComment P) d (ps (js ''threadId'')) (ps (js ''commentId'')) s)) s"
| "comments_handle J P Add_Reaction_Route ps rq s =
     json_middleware J comments_limit (rq_body rq) (\<lambda>body s.
       require_query (rq_query rq) ''path''
         (\<lambda>d s. answer (\<lambda>_. json_ok 204 Empty_Reply)
            (the (cp_addReaction P) d (ps (js ''threadId'')) (map_option bd_reaction body) s)) s) s"
| "comments_handle J P Remove_Reaction_Route ps rq s =
     json_middleware J comments_limit (rq_body rq) (\<lambda>body s.
       require_query (rq_query rq) ''path''
         (\<lambda>d s. answer (\<lambda>_. json_ok 204 Empty_Reply)
            (the (cp_removeReaction P) d (ps (js ''threadId'')) (map_option bd_reaction body) s)) s) s"
| "comments_handle J P Decide_Route ps rq s =
     json_middleware J comments_limit (rq_body rq) (\<lambda>body s.
       require_query (rq_query rq) ''path''
         (\<lambda>d s. answer (\<lambda>r. json_ok 200 (Thread_Reply r))
            (the (cp_decideSuggestion P) d (ps (js ''threadId'')) (map_option bd_decision body) s)) s) s"


section \<open>What the endpoints promise\<close>



text \<open>The one call of the provider behind each endpoint, with its arguments.\<close>

fun provider_call ::
  "'s comments_provider \<Rightarrow> comments_handler \<Rightarrow> path_params \<Rightarrow> query \<Rightarrow> comments_body option \<Rightarrow> 's
     \<Rightarrow> call_outcome \<times> 's" where
  "provider_call P Capabilities_Route ps q body s = apfst outcome_of (cp_capabilities P s)"
| "provider_call P List_Threads_Route ps q body s =
     apfst outcome_of (cp_listCommentThreads P (the (q (js ''path''))) s)"
| "provider_call P Create_Thread_Route ps q body s =
     apfst outcome_of (cp_createCommentThread P (the (q (js ''path''))) (map_option bd_create body) s)"
| "provider_call P Search_Mentions_Route ps q body s =
     apfst outcome_of (the (cp_searchMentions P) (the (q (js ''path''))) (query_or_empty q ''q'') (limit_of q) s)"
| "provider_call P Poll_Route ps q body s =
     apfst outcome_of (the (cp_pollCommentChanges P) (the (q (js ''path''))) (query_or_empty q ''since'') s)"
| "provider_call P Get_Thread_Route ps q body s =
     apfst outcome_of_option (cp_getCommentThread P (the (q (js ''path''))) (ps (js ''threadId'')) s)"
| "provider_call P Reply_Route ps q body s =
     apfst outcome_of (cp_addReply P (the (q (js ''path''))) (ps (js ''threadId'')) (map_option bd_reply body) s)"
| "provider_call P Thread_Status_Route ps q body s =
     apfst outcome_of (cp_updateThreadStatus P (the (q (js ''path''))) (ps (js ''threadId''))
       (map_option bd_status body) s)"
| "provider_call P Delete_Thread_Route ps q body s =
     apfst outcome_of (cp_deleteCommentThread P (the (q (js ''path''))) (ps (js ''threadId'')) s)"
| "provider_call P Edit_Comment_Route ps q body s =
     apfst outcome_of (the (cp_updateComment P) (the (q (js ''path''))) (ps (js ''threadId''))
       (ps (js ''commentId'')) (map_option bd_edit body) s)"
| "provider_call P Delete_Comment_Route ps q body s =
     apfst outcome_of (the (cp_deleteComment P) (the (q (js ''path''))) (ps (js ''threadId''))
       (ps (js ''commentId'')) s)"
| "provider_call P Add_Reaction_Route ps q body s =
     apfst outcome_of (the (cp_addReaction P) (the (q (js ''path''))) (ps (js ''threadId''))
       (map_option bd_reaction body) s)"
| "provider_call P Remove_Reaction_Route ps q body s =
     apfst outcome_of (the (cp_removeReaction P) (the (q (js ''path''))) (ps (js ''threadId''))
       (map_option bd_reaction body) s)"
| "provider_call P Decide_Route ps q body s =
     apfst outcome_of (the (cp_decideSuggestion P) (the (q (js ''path''))) (ps (js ''threadId''))
       (map_option bd_decision body) s)"

section \<open>Properties\<close>









text \<open>A collision of ids reported by the provider is answered 500: the router does not distinguish it,
  while the request types ask for 409 and the editor takes 409 for a success.\<close>

theorem collision_answered_500:
  assumes "cp_createCommentThread P d body s = (Inl e, s')" "rq_query rq (js ''path'') = Some d" "d \<noteq> []"
    and "J comments_limit (rq_body rq) = Parsed b" "body = Some (bd_create b)"
  shows "comments_handle J P Create_Thread_Route ps rq s = (json_error 500 e, s')"
proof -
  have "\<not> blank (rq_query rq) ''path''" using assms(2,3) by (simp add: blank_def)
  then show ?thesis using assms by (simp add: json_middleware_def require_query_present answer_def)
qed

text \<open>Documented routing of literal patterns: each matches its own path, and no literal pattern of
  the table matches the path of another.\<close>

definition literal_patterns :: "jsstring list" where
  "literal_patterns =
     [js ''/capabilities'', js ''/documents/comments'', js ''/documents/comments/mentions/search'',
      js ''/documents/comments/poll'']"

definition literal_routing :: "path_match \<Rightarrow> bool" where
  "literal_routing matches \<longleftrightarrow>
     (\<forall>a \<in> set literal_patterns. \<forall>b \<in> set literal_patterns. (matches a b \<noteq> None) = (a = b))"

lemma literal_miss:
  "literal_routing matches \<Longrightarrow> a \<in> set literal_patterns \<Longrightarrow> b \<in> set literal_patterns \<Longrightarrow> a \<noteq> b \<Longrightarrow>
   matches a b = None"
  unfolding literal_routing_def by metis

lemma literal_hit:
  "literal_routing matches \<Longrightarrow> a \<in> set literal_patterns \<Longrightarrow> \<exists>ps. matches a a = Some ps"
  unfolding literal_routing_def by (metis not_None_eq)

lemma literals_distinct: "distinct literal_patterns"
  by code_simp

text \<open>When the provider implements polling, a poll request reaches the poll handler although
  \<open>poll\<close> would also fit the thread-id pattern; the same holds for the mentions search. When polling
  is not implemented, a poll request that fits the thread-id pattern is taken for a thread lookup.\<close>

theorem static_routes_not_shadowed:
  assumes "literal_routing matches"
  shows "(cp_pollCommentChanges P \<noteq> None \<longrightarrow>
      map_option fst (find_route matches (comments_routes P) GET (js ''/documents/comments/poll'')) =
        Some Poll_Route)
    \<and> (cp_searchMentions P \<noteq> None \<longrightarrow>
      map_option fst (find_route matches (comments_routes P) GET
        (js ''/documents/comments/mentions/search'')) = Some Search_Mentions_Route)
    \<and> (cp_pollCommentChanges P = None \<longrightarrow>
      matches (js ''/documents/comments/:threadId'') (js ''/documents/comments/poll'') = Some ps \<longrightarrow>
      find_route matches (comments_routes P) GET (js ''/documents/comments/poll'') =
        Some (Get_Thread_Route, ps))"
proof -
  let ?c = "js ''/capabilities''" and ?l = "js ''/documents/comments''"
  let ?m = "js ''/documents/comments/mentions/search''" and ?p = "js ''/documents/comments/poll''"
  have "?c \<noteq> ?m" "?l \<noteq> ?m" "?c \<noteq> ?p" "?l \<noteq> ?p" "?m \<noteq> ?p"
    using literals_distinct by (auto simp: literal_patterns_def)
  then have miss: "matches ?c ?m = None" "matches ?l ?m = None" "matches ?c ?p = None"
    "matches ?l ?p = None" "matches ?m ?p = None"
    using literal_miss [OF assms] by (simp_all add: literal_patterns_def)
  obtain pm pp where hit: "matches ?m ?m = Some pm" "matches ?p ?p = Some pp"
    using literal_hit [OF assms, of ?m] literal_hit [OF assms, of ?p]
    by (auto simp: literal_patterns_def)
  note facts = miss hit comments_routes_def
  show ?thesis
    by (intro conjI impI; cases "cp_searchMentions P"; cases "cp_pollCommentChanges P")
      (simp_all add: facts)
qed

text \<open>Equality of strings is such a matching, with every thread-id pattern left out.\<close>

definition exact_match :: path_match where
  "exact_match pat path = (if pat = path then Some (\<lambda>_. []) else None)"

definition sample_comments_provider :: "unit comments_provider" where
  "sample_comments_provider =
     \<lparr>cp_capabilities = (\<lambda>s. (Inl [], s)), cp_listCommentThreads = (\<lambda>d s. (Inr [], s)),
      cp_getCommentThread = (\<lambda>d t s. (Inr None, s)), cp_createCommentThread = (\<lambda>d r s. (Inl [], s)),
      cp_addReply = (\<lambda>d t r s. (Inl [], s)), cp_updateThreadStatus = (\<lambda>d t r s. (Inl [], s)),
      cp_deleteCommentThread = (\<lambda>d t s. (Inr (), s)), cp_updateComment = None,
      cp_deleteComment = None, cp_addReaction = None, cp_removeReaction = None,
      cp_decideSuggestion = None, cp_searchMentions = None,
      cp_pollCommentChanges = Some (\<lambda>d since s. (Inr \<lparr>pr_changes = [], pr_server_time = []\<rparr>, s))\<rparr>"

theorem static_routes_not_shadowed_witness:
  "map_option fst (find_route exact_match (comments_routes sample_comments_provider) GET
     (js ''/documents/comments/poll'')) = Some Poll_Route"
proof -
  have "literal_routing exact_match" by (simp add: literal_routing_def exact_match_def)
  from static_routes_not_shadowed [OF this, of sample_comments_provider]
  show ?thesis by (simp add: sample_comments_provider_def)
qed

end
