(* ===== verification/Comment_Anchor.thy ===== *)
theory Comment_Anchor
  imports Comment_Types Base64
begin

text \<open>
  The text side of \<open>frontend/src/collab/comment-engine.ts\<close>: the stored form of a thread, anchors and
  their resolution against the live text, the size limit of comments in UTF-8 bytes, and mention
  tokens. The shared text and its relative positions (\<open>yjs\<close>) are parameters. Shown: a resolved
  anchor lies inside the text; without relative positions an anchor is lost exactly when the thread
  is orphaned, and otherwise covers the quoted text; mention tokens written into a comment are
  found again.
\<close>

section \<open>Stored threads\<close>

record stored_thread =
  st_anchor :: comment_anchor
  st_start_rel :: "jsstring option"
  st_end_rel :: "jsstring option"
  st_status :: thread_status
  st_resolvedBy :: "jsstring option"
  st_resolvedAt :: "jsstring option"
  st_suggestion :: "suggestion option"
  st_comments :: "comment list"
  st_reactions :: "reaction list option"
  st_createdAt :: jsstring

section \<open>Anchors\<close>

text \<open>
  The shared text \<open>'t\<close>: its string, the encoded relative position of an index, and the absolute
  index an encoded relative position has now (\<open>Inl\<close>: decoding throws; \<open>Inr None\<close>: it does not
  resolve, or not to this text).
\<close>

record 't anchor_text =
  tx_toString :: "'t \<Rightarrow> jsstring"
  tx_encodeRelative :: "'t \<Rightarrow> int \<Rightarrow> byte list"
  tx_resolveRelative :: "'t \<Rightarrow> byte list \<Rightarrow> jsstring + nat option"

definition base64Encode :: "byte list \<Rightarrow> jsstring" where
  "base64Encode bytes = base64_encode bytes"

definition base64Decode :: "jsstring \<Rightarrow> jsstring + byte list" where
  "base64Decode s =
     (case atob s of None \<Rightarrow> Inl (js ''InvalidCharacterError'') | Some bytes \<Rightarrow> Inr bytes)"

definition createAnchor ::
  "'t anchor_text \<Rightarrow> 't \<Rightarrow> int \<Rightarrow> int \<Rightarrow> comment_anchor \<times> byte list \<times> byte list" where
  "createAnchor X t f u =
     (\<lparr>ca_start = f, ca_end = u, ca_quoted_text = js_slice (tx_toString X t) f u\<rparr>,
      tx_encodeRelative X t f, tx_encodeRelative X t u)"

text \<open>The position a stored relative position has; both must be present and not empty.\<close>

definition relative_range ::
  "'t anchor_text \<Rightarrow> 't \<Rightarrow> stored_thread \<Rightarrow> jsstring + (nat option \<times> nat option)" where
  "relative_range X t thread =
     (case (st_start_rel thread, st_end_rel thread) of
        (Some (a # as), Some (b # bs)) \<Rightarrow>
          bind_res (base64Decode (a # as)) (\<lambda>sbytes.
          bind_res (base64Decode (b # bs)) (\<lambda>ebytes.
          bind_res (tx_resolveRelative X t sbytes) (\<lambda>s.
          bind_res (tx_resolveRelative X t ebytes) (\<lambda>e. Inr (s, e)))))
      | _ \<Rightarrow> Inr (None, None))"

text \<open>The fallbacks: the first occurrence of the quoted text, or the stored offsets clamped to the
  text when nothing is quoted.\<close>

definition fallback_range :: "jsstring \<Rightarrow> comment_anchor \<Rightarrow> (int \<times> int) option" where
  "fallback_range txt anchor =
     (if length (ca_quoted_text anchor) > 0 then
        (case js_indexOf txt (ca_quoted_text anchor) 0 of
           Some idx \<Rightarrow> Some (int idx, int (idx + length (ca_quoted_text anchor)))
         | None \<Rightarrow> None)
      else
        (let len = int (length txt); storedStart = max 0 (min (ca_start anchor) len)
         in Some (storedStart, max storedStart (min (ca_end anchor) len))))"

definition resolveAnchor ::
  "'t anchor_text \<Rightarrow> 't \<Rightarrow> stored_thread \<Rightarrow> jsstring + (int \<times> int) option" where
  "resolveAnchor X t thread =
     bind_res (relative_range X t thread) (\<lambda>r.
       case r of
         (Some s, Some e) \<Rightarrow>
           if s \<le> e \<and> e \<le> length (tx_toString X t) then Inr (Some (int s, int e))
           else Inr (fallback_range (tx_toString X t) (st_anchor thread))
       | _ \<Rightarrow> Inr (fallback_range (tx_toString X t) (st_anchor thread)))"

definition thread_orphaned :: "jsstring \<Rightarrow> stored_thread \<Rightarrow> bool" where
  "thread_orphaned txt thread =
     (if length (ca_quoted_text (st_anchor thread)) = 0 then False
      else \<not> js_includes txt (ca_quoted_text (st_anchor thread)))"

section \<open>Size limit\<close>

text \<open>\<open>new TextEncoder().encode(s).length\<close>: a surrogate pair takes four bytes, a lone surrogate is
  replaced by U+FFFD (three bytes).\<close>

definition high_surrogate :: "code_unit \<Rightarrow> bool" where
  "high_surrogate c \<longleftrightarrow> 0xD800 \<le> unat c \<and> unat c < 0xDC00"

definition low_surrogate :: "code_unit \<Rightarrow> bool" where
  "low_surrogate c \<longleftrightarrow> 0xDC00 \<le> unat c \<and> unat c < 0xE000"

fun utf8_length :: "jsstring \<Rightarrow> nat" where
  "utf8_length [] = 0"
| "utf8_length [c] = (if unat c < 0x80 then 1 else if unat c < 0x800 then 2 else 3)"
| "utf8_length (c # d # cs) =
     (if high_surrogate c \<and> low_surrogate d then 4 + utf8_length cs
      else (if unat c < 0x80 then 1 else if unat c < 0x800 then 2 else 3) + utf8_length (d # cs))"

definition comment_limit :: "comments_capabilities option \<Rightarrow> int" where
  "comment_limit caps = (case caps of None \<Rightarrow> 10 * 1024 | Some c \<Rightarrow> cc_max_comment_size c)"

definition size_ok :: "comments_capabilities option \<Rightarrow> jsstring \<Rightarrow> bool" where
  "size_ok caps content \<longleftrightarrow> int (utf8_length content) \<le> comment_limit caps"

section \<open>Mentions\<close>

text \<open>\<open>/@\[([^\]]+)\]\(([^)]+)\)/g\<close>: the character classes exclude the delimiter that must follow,
  so at a given start there is at most one match. The code units are \<open>@\<close> 64, \<open>[\<close> 91, \<open>]\<close> 93,
  \<open>(\<close> 40, \<open>)\<close> 41.\<close>

definition mention_at :: "jsstring \<Rightarrow> (mention \<times> jsstring) option" where
  "mention_at s =
     (case s of
        a # b # r \<Rightarrow>
          if a = 64 \<and> b = 91 then
            (let name = takeWhile (\<lambda>c. c \<noteq> 93) r
             in case dropWhile (\<lambda>c. c \<noteq> 93) r of
                  c # d # r' \<Rightarrow>
                    if name \<noteq> [] \<and> d = 40 then
                      (let uid = takeWhile (\<lambda>c. c \<noteq> 41) r'
                       in case dropWhile (\<lambda>c. c \<noteq> 41) r' of
                            e # rest \<Rightarrow>
                              if uid \<noteq> [] then
                                Some (\<lparr>mn_user_id = uid, mn_display_name = name\<rparr>, rest)
                              else None
                          | [] \<Rightarrow> None)
                    else None
                | _ \<Rightarrow> None)
          else None
      | _ \<Rightarrow> None)"

lemma mention_at_shorter: "mention_at s = Some (m, rest) \<Longrightarrow> length rest < length s"
proof -
  assume "mention_at s = Some (m, rest)"
  then obtain r c d r' e where s: "s = 64 # 91 # r" "dropWhile (\<lambda>c. c \<noteq> 93) r = c # d # r'"
    "dropWhile (\<lambda>c. c \<noteq> 41) r' = e # rest"
    by (auto simp: mention_at_def Let_def split: list.splits if_splits)
  have "length (c # d # r') \<le> length r" "length (e # rest) \<le> length r'"
    using length_dropWhile_le [of "\<lambda>c. c \<noteq> 93" r] length_dropWhile_le [of "\<lambda>c. c \<noteq> 41" r'] s(2,3)
    by simp_all
  then show ?thesis by (simp add: s(1))
qed

function extractMentions :: "jsstring \<Rightarrow> mention list" where
  "extractMentions s =
     (case s of
        [] \<Rightarrow> []
      | c # cs \<Rightarrow>
          (case mention_at s of
             Some (m, rest) \<Rightarrow> m # extractMentions rest
           | None \<Rightarrow> extractMentions cs))"
  by pat_completeness auto
termination
  by (relation "measure length") (auto dest: mention_at_shorter)

declare extractMentions.simps [simp del]

section \<open>Lemmas\<close>

lemma fallback_range_bounds:
  assumes "fallback_range txt a = Some (f, u)"
  shows "0 \<le> f \<and> f \<le> u \<and> u \<le> int (length txt)"
proof (cases "ca_quoted_text a = []")
  case True
  then show ?thesis using assms by (auto simp: fallback_range_def Let_def)
next
  case False
  then obtain k where k: "js_indexOf txt (ca_quoted_text a) 0 = Some k"
    "f = int k" "u = int (k + length (ca_quoted_text a))"
    using assms by (auto simp: fallback_range_def split: option.splits)
  then show ?thesis using js_indexOf_Some(2) [OF k(1)] by auto
qed

lemma fallback_range_None_iff:
  "fallback_range txt (st_anchor th) = None \<longleftrightarrow> thread_orphaned txt th"
  by (auto simp: fallback_range_def thread_orphaned_def js_includes_def Let_def split: option.splits)

lemma fallback_range_quoted:
  assumes "fallback_range txt a = Some (f, u)" "ca_quoted_text a \<noteq> []"
  shows "js_slice txt f u = ca_quoted_text a"
proof -
  obtain k where k: "js_indexOf txt (ca_quoted_text a) 0 = Some k"
    "f = int k" "u = int (k + length (ca_quoted_text a))"
    using assms by (auto simp: fallback_range_def split: option.splits)
  show ?thesis unfolding k(2,3) using js_indexOf_Some(2,3) [OF k(1)]
    by (simp add: js_slice_nat_le del: of_nat_add)
qed

lemma extractMentions_Nil [simp]: "extractMentions [] = []"
  by (subst extractMentions.simps) simp

lemma extractMentions_plain: "c \<noteq> 64 \<Longrightarrow> extractMentions (c # cs) = extractMentions cs"
proof -
  assume "c \<noteq> 64"
  then have "mention_at (c # cs) = None" by (simp add: mention_at_def split: list.split)
  then show ?thesis by (subst extractMentions.simps) simp
qed

lemma extractMentions_text: "64 \<notin> set t \<Longrightarrow> extractMentions (t @ cs) = extractMentions cs"
  by (induction t) (simp_all add: extractMentions_plain)

text \<open>A mention as the editor writes it.\<close>

definition mention_token :: "mention \<Rightarrow> jsstring" where
  "mention_token m = [64, 91] @ mn_display_name m @ [93, 40] @ mn_user_id m @ [41]"

definition token_safe :: "mention \<Rightarrow> bool" where
  "token_safe m \<longleftrightarrow> mn_display_name m \<noteq> [] \<and> 93 \<notin> set (mn_display_name m)
     \<and> mn_user_id m \<noteq> [] \<and> 41 \<notin> set (mn_user_id m)"

lemma mention_at_token: "token_safe m \<Longrightarrow> mention_at (mention_token m @ r) = Some (m, r)"
proof -
  assume "token_safe m"
  then have safe: "mn_display_name m \<noteq> []" "\<forall>c \<in> set (mn_display_name m). c \<noteq> 93"
    "mn_user_id m \<noteq> []" "\<forall>c \<in> set (mn_user_id m). c \<noteq> 41"
    by (auto simp: token_safe_def)
  have tw: "takeWhile (\<lambda>c. c \<noteq> 93) (mn_display_name m @ 93 # xs) = mn_display_name m"
    "dropWhile (\<lambda>c. c \<noteq> 93) (mn_display_name m @ 93 # xs) = 93 # xs" for xs
    using safe(2) by (auto simp: takeWhile_append2 dropWhile_append2)
  have ui: "takeWhile (\<lambda>c. c \<noteq> 41) (mn_user_id m @ 41 # xs) = mn_user_id m"
    "dropWhile (\<lambda>c. c \<noteq> 41) (mn_user_id m @ 41 # xs) = 41 # xs" for xs
    using safe(4) by (auto simp: takeWhile_append2 dropWhile_append2)
  show ?thesis
    by (simp add: mention_at_def mention_token_def tw ui safe(1,3) Let_def)
qed

lemma extractMentions_token:
  "token_safe m \<Longrightarrow> extractMentions (mention_token m @ r) = m # extractMentions r"
  using mention_at_token [of m r]
  by (subst extractMentions.simps) (simp add: mention_token_def split: option.split)

section \<open>Properties\<close>

text \<open>C36: A resolved anchor is a range inside the text. A thread without relative positions resolves
  to nothing exactly when it is orphaned; when it resolves and quotes text, the range holds exactly
  the quoted text.\<close>

theorem resolve_anchor_sound:
  "(case resolveAnchor X t th of
      Inr (Some (f, u)) \<Rightarrow> 0 \<le> f \<and> f \<le> u \<and> u \<le> int (length (tx_toString X t))
    | _ \<Rightarrow> True)
   \<and> (let r = resolveAnchor X t (th\<lparr>st_start_rel := None\<rparr>)
      in (r = Inr None) = thread_orphaned (tx_toString X t) th
         \<and> (case r of
              Inr (Some (f, u)) \<Rightarrow> ca_quoted_text (st_anchor th)
                \<in> {[], js_slice (tx_toString X t) f u}
            | Inr None \<Rightarrow> True
            | Inl _ \<Rightarrow> False))"
proof -
  let ?s = "tx_toString X t"
  have none: "resolveAnchor X t (th\<lparr>st_start_rel := None\<rparr>) = Inr (fallback_range ?s (st_anchor th))"
    by (simp add: resolveAnchor_def relative_range_def bind_res_def)
  have "0 \<le> f \<and> f \<le> u \<and> u \<le> int (length ?s)" if "resolveAnchor X t th = Inr (Some (f, u))" for f u
    using that fallback_range_bounds [of ?s "st_anchor th" f u]
    by (auto simp: resolveAnchor_def bind_res_def split: sum.splits prod.splits option.splits if_splits)
  moreover have "ca_quoted_text (st_anchor th) \<in> {[], js_slice ?s f u}"
    if "fallback_range ?s (st_anchor th) = Some (f, u)" for f u
    using fallback_range_quoted [OF that] by (cases "ca_quoted_text (st_anchor th) = []") simp_all
  ultimately show ?thesis
    unfolding none Let_def
    by (auto simp: fallback_range_None_iff split: sum.split option.split)
qed

text \<open>Mentions survive being written and read back: from a comment made of texts without \<open>@\<close>
  and mention tokens (names without \<open>]\<close>, ids without \<open>)\<close>, exactly the mentions are extracted, in
  order.\<close>

theorem mentions_roundtrip:
  assumes "\<And>t m. (t, m) \<in> set pieces \<Longrightarrow> 64 \<notin> set t \<and> token_safe m" "64 \<notin> set tail"
  shows "extractMentions (concat (map (\<lambda>(t, m). t @ mention_token m) pieces) @ tail) = map snd pieces"
  using assms(1)
proof (induction pieces)
  case Nil
  show ?case using extractMentions_text [of tail "[]"] assms(2) by simp
next
  case (Cons p pieces)
  obtain t m where p: "p = (t, m)" by (cases p)
  from Cons.prems [of t m] have tm: "64 \<notin> set t" "token_safe m" by (simp_all add: p)
  have IH: "extractMentions (concat (map (\<lambda>(t, m). t @ mention_token m) pieces) @ tail) = map snd pieces"
    by (rule Cons.IH) (use Cons.prems in auto)
  show ?case
    by (simp only: p list.map concat.simps split append_assoc extractMentions_text [OF tm(1)]
        extractMentions_token [OF tm(2)] IH snd_conv)
qed

theorem mentions_roundtrip_witness:
  "extractMentions (concat (map (\<lambda>(t, m). t @ mention_token m)
      [(js ''hi '', \<lparr>mn_user_id = js ''u1'', mn_display_name = js ''Ann''\<rparr>)]) @ js ''!'') =
    [\<lparr>mn_user_id = js ''u1'', mn_display_name = js ''Ann''\<rparr>]"
  using mentions_roundtrip
    [of "[(js ''hi '', \<lparr>mn_user_id = js ''u1'', mn_display_name = js ''Ann''\<rparr>)]" "js ''!''"]
  by (simp add: token_safe_def js_defs)

end
