(* ===== verification/Comment_Engine.thy ===== *)
theory Comment_Engine
  imports Comment_Anchor
begin

text \<open>
  \<open>frontend/src/collab/comment-engine.ts\<close>, the store: threads in the shared map, the observer that
  marks changed threads dirty and notifies listeners, and the operations of the user interface. The
  shared map (\<open>Y.Map\<close>) is a parameter with the documented laws of a map; identifiers and the clock
  are arguments of the operations that read them. Shown: what every operation leaves unchanged, the
  size limit, and the behaviour of reactions and decisions.
\<close>

section \<open>The shared map\<close>

text \<open>A value of the map is a thread or something else (\<open>asStoredThread\<close> refuses it).\<close>

datatype map_value = Thread_Value stored_thread | Other_Value

record 'm ymap_ops =
  ym_get :: "'m \<Rightarrow> jsstring \<Rightarrow> map_value option"
  ym_set :: "'m \<Rightarrow> jsstring \<Rightarrow> map_value \<Rightarrow> 'm"
  ym_delete :: "'m \<Rightarrow> jsstring \<Rightarrow> 'm"
  ym_entries :: "'m \<Rightarrow> (jsstring \<times> map_value) list"

definition ymap_laws :: "'m ymap_ops \<Rightarrow> bool" where
  "ymap_laws M \<longleftrightarrow>
     (\<forall>m k v k'. ym_get M (ym_set M m k v) k' = (if k' = k then Some v else ym_get M m k')) \<and>
     (\<forall>m k k'. ym_get M (ym_delete M m k) k' = (if k' = k then None else ym_get M m k')) \<and>
     (\<forall>m. distinct (map fst (ym_entries M m)) \<and> map_of (ym_entries M m) = ym_get M m)"

lemma ymap_get_set:
  "ymap_laws M \<Longrightarrow> ym_get M (ym_set M m k v) k' = (if k' = k then Some v else ym_get M m k')"
  and ymap_get_delete:
  "ymap_laws M \<Longrightarrow> ym_get M (ym_delete M m k) k' = (if k' = k then None else ym_get M m k')"
  and ymap_entries:
  "ymap_laws M \<Longrightarrow> distinct (map fst (ym_entries M m)) \<and> map_of (ym_entries M m) = ym_get M m"
  by (simp_all add: ymap_laws_def)

text \<open>An association list is such a map once its keys are distinct; a list keeps them so.\<close>

definition alist_map :: "(jsstring \<times> map_value) list ymap_ops" where
  "alist_map =
     \<lparr>ym_get = map_of, ym_set = (\<lambda>m k v. AList.update k v m), ym_delete = (\<lambda>m k. AList.delete k m),
      ym_entries = AList.clearjunk\<rparr>"

lemma alist_map_laws: "ymap_laws alist_map"
  by (simp add: ymap_laws_def alist_map_def map_of_clearjunk distinct_clearjunk)

section \<open>The engine\<close>

record ('t, 'm) comment_env =
  en_text :: "'t anchor_text"
  en_map :: "'m ymap_ops"
  en_localeCompare :: "jsstring \<Rightarrow> jsstring \<Rightarrow> int"

text \<open>The timers are flags; \<open>ce_notified\<close> logs the calls of listeners, \<open>ce_gaveUp\<close> the keys for
  which \<open>console.error\<close> reports that persistence has been given up.\<close>

record ('t, 'm) engine =
  ce_text :: 't
  ce_map :: 'm
  ce_documentId :: jsstring
  ce_userId :: jsstring
  ce_userName :: jsstring
  ce_persistEnabled :: bool
  ce_pollIntervalMs :: int
  ce_capabilities :: "comments_capabilities option"
  ce_listeners :: "nat jsset"
  ce_dirty :: "jsstring jsset"
  ce_lastPersisted :: "(jsstring, stored_thread) jsmap"
  ce_retryCount :: "(jsstring, nat) jsmap"
  ce_persistTimer :: bool
  ce_pollTimer :: bool
  ce_lastPollAt :: "jsstring option"
  ce_notified :: "(nat \<times> comment_thread list) list"
  ce_gaveUp :: "jsstring list"

definition new_engine ::
  "'t \<Rightarrow> 'm \<Rightarrow> jsstring \<Rightarrow> jsstring \<Rightarrow> jsstring \<Rightarrow> comments_capabilities option \<Rightarrow> int option
     \<Rightarrow> bool option \<Rightarrow> ('t, 'm) engine" where
  "new_engine ytext ymap documentId userId userName caps pollIntervalMs persistEnabled =
     \<lparr>ce_text = ytext, ce_map = ymap, ce_documentId = documentId, ce_userId = userId,
      ce_userName = userName,
      ce_persistEnabled = (case persistEnabled of None \<Rightarrow> True | Some b \<Rightarrow> b),
      ce_pollIntervalMs = (case pollIntervalMs of None \<Rightarrow> 30000 | Some n \<Rightarrow> n),
      ce_capabilities = caps, ce_listeners = [], ce_dirty = [], ce_lastPersisted = [],
      ce_retryCount = [], ce_persistTimer = False, ce_pollTimer = False, ce_lastPollAt = None,
      ce_notified = [], ce_gaveUp = []\<rparr>"

definition asStoredThread :: "map_value option \<Rightarrow> stored_thread option" where
  "asStoredThread raw = (case raw of Some (Thread_Value t) \<Rightarrow> Some t | _ \<Rightarrow> None)"

definition readThread :: "('t, 'm) comment_env \<Rightarrow> ('t, 'm) engine \<Rightarrow> jsstring \<Rightarrow> stored_thread option"
  where
  "readThread E e threadId = asStoredThread (ym_get (en_map E) (ce_map e) threadId)"

definition toWireThread :: "jsstring \<Rightarrow> stored_thread \<Rightarrow> jsstring \<Rightarrow> comment_thread" where
  "toWireThread threadId stored documentId =
     \<lparr>ct_id = threadId, ct_document_id = documentId, ct_anchor = st_anchor stored,
      ct_status = st_status stored, ct_created_at = st_createdAt stored,
      ct_resolved_at = st_resolvedAt stored, ct_resolved_by = st_resolvedBy stored,
      ct_comments = st_comments stored, ct_reactions = st_reactions stored,
      ct_suggestion = st_suggestion stored\<rparr>"

text \<open>A stable sort by a comparator.\<close>

fun insert_by :: "('a \<Rightarrow> 'a \<Rightarrow> int) \<Rightarrow> 'a \<Rightarrow> 'a list \<Rightarrow> 'a list" where
  "insert_by cmp x [] = [x]"
| "insert_by cmp x (y # ys) = (if cmp x y \<le> 0 then x # y # ys else y # insert_by cmp x ys)"

definition sort_by :: "('a \<Rightarrow> 'a \<Rightarrow> int) \<Rightarrow> 'a list \<Rightarrow> 'a list" where
  "sort_by cmp xs = foldr (insert_by cmp) xs []"

definition getThreads :: "('t, 'm) comment_env \<Rightarrow> ('t, 'm) engine \<Rightarrow> comment_thread list" where
  "getThreads E e =
     sort_by (\<lambda>a b. en_localeCompare E (ct_created_at a) (ct_created_at b))
       (List.map_filter
          (\<lambda>(threadId, raw). map_option (\<lambda>t. toWireThread threadId t (ce_documentId e))
             (asStoredThread (Some raw)))
          (ym_entries (en_map E) (ce_map e)))"

definition notifyListeners :: "('t, 'm) comment_env \<Rightarrow> ('t, 'm) engine \<Rightarrow> ('t, 'm) engine" where
  "notifyListeners E e =
     (if ce_listeners e = [] then e
      else e\<lparr>ce_notified := ce_notified e @ map (\<lambda>cb. (cb, getThreads E e)) (ce_listeners e)\<rparr>)"

definition schedulePersist :: "('t, 'm) engine \<Rightarrow> ('t, 'm) engine" where
  "schedulePersist e = e\<lparr>ce_persistTimer := True\<rparr>"

text \<open>The observer of the map: a change that does not come from polling marks its keys dirty and
  schedules persistence; every change notifies the listeners.\<close>

definition observe_map ::
  "('t, 'm) comment_env \<Rightarrow> bool \<Rightarrow> jsstring list \<Rightarrow> ('t, 'm) engine \<Rightarrow> ('t, 'm) engine" where
  "observe_map E poll_origin keys e =
     (let e1 = (if poll_origin then e else e\<lparr>ce_dirty := fold js_add keys (ce_dirty e)\<rparr>);
          e2 = notifyListeners E e1
      in if \<not> poll_origin \<and> ce_persistEnabled e2 then schedulePersist e2 else e2)"

definition map_set ::
  "('t, 'm) comment_env \<Rightarrow> bool \<Rightarrow> jsstring \<Rightarrow> stored_thread \<Rightarrow> ('t, 'm) engine \<Rightarrow> ('t, 'm) engine"
  where
  "map_set E poll_origin threadId t e =
     observe_map E poll_origin [threadId]
       (e\<lparr>ce_map := ym_set (en_map E) (ce_map e) threadId (Thread_Value t)\<rparr>)"

definition map_delete ::
  "('t, 'm) comment_env \<Rightarrow> bool \<Rightarrow> jsstring \<Rightarrow> ('t, 'm) engine \<Rightarrow> ('t, 'm) engine" where
  "map_delete E poll_origin threadId e =
     (if ym_get (en_map E) (ce_map e) threadId = None then e
      else observe_map E poll_origin [threadId]
             (e\<lparr>ce_map := ym_delete (en_map E) (ce_map e) threadId\<rparr>))"

section \<open>Operations\<close>

text \<open>A mutator returns \<open>None\<close> where the source returns its argument (no write follows).\<close>

definition mutateThread ::
  "('t, 'm) comment_env \<Rightarrow> jsstring \<Rightarrow> (stored_thread \<Rightarrow> stored_thread option) \<Rightarrow> ('t, 'm) engine
     \<Rightarrow> ('t, 'm) engine" where
  "mutateThread E threadId mutator e =
     (case readThread E e threadId of
        None \<Rightarrow> e
      | Some existing \<Rightarrow>
          (case mutator existing of None \<Rightarrow> e | Some next_t \<Rightarrow> map_set E False threadId next_t e))"

definition size_error :: "('t, 'm) engine \<Rightarrow> jsstring" where
  "size_error e =
     js ''comment exceeds max size of '' @ js_of_int (comment_limit (ce_capabilities e)) @ js '' bytes''"

definition new_reply :: "jsstring \<Rightarrow> jsstring \<Rightarrow> jsstring \<Rightarrow> jsstring \<Rightarrow> ('t, 'm) engine \<Rightarrow> comment" where
  "new_reply commentId threadId content now e =
     \<lparr>cm_id = commentId, cm_thread_id = threadId, cm_author_id = ce_userId e,
      cm_author_name = ce_userName e, cm_content = content,
      cm_mentions = Some (extractMentions content), cm_reactions = None, cm_created_at = now,
      cm_updated_at = None, cm_deleted_at = None\<rparr>"

text \<open>\<open>threadId\<close> and \<open>commentId\<close> are the ids \<open>makeId\<close> returns, \<open>now\<close> the time read. A suggestion is
  stored as given: its status is always set.\<close>

definition createThread ::
  "('t, 'm) comment_env \<Rightarrow> jsstring \<Rightarrow> jsstring \<Rightarrow> jsstring \<Rightarrow> comment_anchor \<Rightarrow> byte list \<Rightarrow> byte list
     \<Rightarrow> jsstring option \<Rightarrow> suggestion option \<Rightarrow> ('t, 'm) engine \<Rightarrow> jsstring + ('t, 'm) engine" where
  "createThread E threadId commentId now anchor startRel endRel content suggestion e =
     (if \<not> size_ok (ce_capabilities e) (case content of None \<Rightarrow> [] | Some c \<Rightarrow> c) then Inl (size_error e)
      else if (case suggestion of
                 Some s \<Rightarrow> (case sg_author_note s of
                              Some (n # ns) \<Rightarrow> \<not> size_ok (ce_capabilities e) (n # ns)
                            | _ \<Rightarrow> False)
               | None \<Rightarrow> False) then Inl (size_error e)
      else Inr (map_set E False threadId
        \<lparr>st_anchor = anchor, st_start_rel = Some (base64Encode startRel),
         st_end_rel = Some (base64Encode endRel), st_status = Open_Thread,
         st_resolvedBy = None, st_resolvedAt = None, st_suggestion = suggestion,
         st_comments = (case content of
                          Some (c # cs) \<Rightarrow> [new_reply commentId threadId (c # cs) now e]
                        | _ \<Rightarrow> []),
         st_reactions = Some [], st_createdAt = now\<rparr> e))"

definition commitSuggestion ::
  "('t, 'm) comment_env \<Rightarrow> jsstring \<Rightarrow> jsstring \<Rightarrow> jsstring \<Rightarrow> suggestion_payload \<Rightarrow> ('t, 'm) engine
     \<Rightarrow> jsstring + ('t, 'm) engine" where
  "commitSuggestion E threadId commentId now payload e =
     createThread E threadId commentId now (sp_anchor payload)
       (tx_encodeRelative (en_text E) (ce_text e) (ca_start (sp_anchor payload)))
       (tx_encodeRelative (en_text E) (ce_text e) (ca_end (sp_anchor payload))) None
       (Some \<lparr>sg_yjs_payload = sp_yjs_payload payload, sg_human_readable = sp_view payload,
              sg_author_id = ce_userId e, sg_author_name = ce_userName e,
              sg_author_note = sp_author_note payload, sg_status = Pending, sg_decided_by = None,
              sg_decided_by_name = None, sg_decided_at = None, sg_applied_version_id = None\<rparr>) e"

definition addReply ::
  "('t, 'm) comment_env \<Rightarrow> jsstring \<Rightarrow> jsstring \<Rightarrow> jsstring \<Rightarrow> jsstring \<Rightarrow> ('t, 'm) engine
     \<Rightarrow> jsstring + (comment option \<times> ('t, 'm) engine)" where
  "addReply E commentId now threadId content e =
     (if \<not> size_ok (ce_capabilities e) content then Inl (size_error e)
      else case readThread E e threadId of
             None \<Rightarrow> Inr (None, e)
           | Some thread \<Rightarrow>
               (let reply = new_reply commentId threadId content now e
                in Inr (Some reply,
                        map_set E False threadId
                          (thread\<lparr>st_comments := st_comments thread @ [reply]\<rparr>) e)))"

definition resolveThread ::
  "('t, 'm) comment_env \<Rightarrow> jsstring \<Rightarrow> jsstring \<Rightarrow> ('t, 'm) engine \<Rightarrow> ('t, 'm) engine" where
  "resolveThread E now threadId e =
     mutateThread E threadId (\<lambda>t. Some (t\<lparr>st_status := Resolved_Thread,
       st_resolvedBy := Some (ce_userId e), st_resolvedAt := Some now\<rparr>)) e"

definition reopenThread ::
  "('t, 'm) comment_env \<Rightarrow> jsstring \<Rightarrow> ('t, 'm) engine \<Rightarrow> ('t, 'm) engine" where
  "reopenThread E threadId e =
     mutateThread E threadId (\<lambda>t. Some (t\<lparr>st_status := Open_Thread,
       st_resolvedBy := None, st_resolvedAt := None\<rparr>)) e"

definition deleted_key :: "jsstring \<Rightarrow> jsstring" where
  "deleted_key threadId = js ''__deleted__:'' @ threadId"

definition deleteThread ::
  "('t, 'm) comment_env \<Rightarrow> jsstring \<Rightarrow> ('t, 'm) engine \<Rightarrow> ('t, 'm) engine" where
  "deleteThread E threadId e =
     (let e1 = map_delete E False threadId e;
          e2 = e1\<lparr>ce_dirty := js_add (deleted_key threadId) (ce_dirty e1)\<rparr>
      in if ce_persistEnabled e2 then schedulePersist e2 else e2)"

definition editComment ::
  "('t, 'm) comment_env \<Rightarrow> jsstring \<Rightarrow> jsstring \<Rightarrow> jsstring \<Rightarrow> jsstring \<Rightarrow> ('t, 'm) engine
     \<Rightarrow> jsstring + ('t, 'm) engine" where
  "editComment E now threadId commentId content e =
     (if (case ce_capabilities e of None \<Rightarrow> True | Some c \<Rightarrow> \<not> cc_comment_edit c) then Inr e
      else if \<not> size_ok (ce_capabilities e) content then Inl (size_error e)
      else Inr (mutateThread E threadId (\<lambda>t. Some (t\<lparr>st_comments :=
        map (\<lambda>c. if cm_id c = commentId
                 then c\<lparr>cm_content := content, cm_mentions := Some (extractMentions content),
                        cm_updated_at := Some now\<rparr>
                 else c) (st_comments t)\<rparr>)) e))"

definition deleteComment ::
  "('t, 'm) comment_env \<Rightarrow> jsstring \<Rightarrow> jsstring \<Rightarrow> jsstring \<Rightarrow> ('t, 'm) engine \<Rightarrow> ('t, 'm) engine"
  where
  "deleteComment E now threadId commentId e =
     (if (case ce_capabilities e of None \<Rightarrow> True | Some c \<Rightarrow> \<not> cc_comment_delete c) then e
      else mutateThread E threadId (\<lambda>t. Some (t\<lparr>st_comments :=
        map (\<lambda>c. if cm_id c = commentId
                 then c\<lparr>cm_content := [], cm_mentions := Some [], cm_deleted_at := Some now\<rparr>
                 else c) (st_comments t)\<rparr>)) e)"

definition has_reaction :: "jsstring \<Rightarrow> jsstring \<Rightarrow> reaction list option \<Rightarrow> bool" where
  "has_reaction uid emoji rs =
     (\<exists>r \<in> set (case rs of None \<Rightarrow> [] | Some l \<Rightarrow> l). re_user_id r = uid \<and> re_emoji r = emoji)"

definition push_reaction :: "reaction \<Rightarrow> reaction list option \<Rightarrow> reaction list option" where
  "push_reaction r rs = Some ((case rs of None \<Rightarrow> [] | Some l \<Rightarrow> l) @ [r])"

definition drop_reaction :: "jsstring \<Rightarrow> jsstring \<Rightarrow> reaction list option \<Rightarrow> reaction list option" where
  "drop_reaction uid emoji rs =
     Some (filter (\<lambda>r. \<not> (re_user_id r = uid \<and> re_emoji r = emoji))
       (case rs of None \<Rightarrow> [] | Some l \<Rightarrow> l))"

definition addReaction ::
  "('t, 'm) comment_env \<Rightarrow> jsstring \<Rightarrow> jsstring \<Rightarrow> jsstring option \<Rightarrow> jsstring \<Rightarrow> ('t, 'm) engine
     \<Rightarrow> ('t, 'm) engine" where
  "addReaction E now threadId commentId emoji e =
     (if (case ce_capabilities e of None \<Rightarrow> True | Some c \<Rightarrow> emoji \<notin> set (cc_reactions c)) then e
      else let reaction = \<lparr>re_user_id = ce_userId e, re_user_name = ce_userName e,
                           re_emoji = emoji, re_created_at = now\<rparr>
           in mutateThread E threadId (\<lambda>t.
                case commentId of
                  None \<Rightarrow>
                    if has_reaction (ce_userId e) emoji (st_reactions t) then None
                    else Some (t\<lparr>st_reactions := push_reaction reaction (st_reactions t)\<rparr>)
                | Some cid \<Rightarrow>
                    Some (t\<lparr>st_comments :=
                      map (\<lambda>c. if cm_id c = cid \<and> \<not> has_reaction (ce_userId e) emoji (cm_reactions c)
                               then c\<lparr>cm_reactions := push_reaction reaction (cm_reactions c)\<rparr>
                               else c) (st_comments t)\<rparr>)) e)"

definition removeReaction ::
  "('t, 'm) comment_env \<Rightarrow> jsstring \<Rightarrow> jsstring option \<Rightarrow> jsstring \<Rightarrow> ('t, 'm) engine
     \<Rightarrow> ('t, 'm) engine" where
  "removeReaction E threadId commentId emoji e =
     mutateThread E threadId (\<lambda>t.
       case commentId of
         None \<Rightarrow> Some (t\<lparr>st_reactions := drop_reaction (ce_userId e) emoji (st_reactions t)\<rparr>)
       | Some cid \<Rightarrow>
           Some (t\<lparr>st_comments :=
             map (\<lambda>c. if cm_id c = cid
                      then c\<lparr>cm_reactions := drop_reaction (ce_userId e) emoji (cm_reactions c)\<rparr>
                      else c) (st_comments t)\<rparr>)) e"

definition decideSuggestion ::
  "('t, 'm) comment_env \<Rightarrow> jsstring \<Rightarrow> jsstring \<Rightarrow> suggestion_status \<Rightarrow> jsstring option
     \<Rightarrow> ('t, 'm) engine \<Rightarrow> ('t, 'm) engine" where
  "decideSuggestion E now threadId decision appliedVersionId e =
     mutateThread E threadId (\<lambda>t.
       case st_suggestion t of
         None \<Rightarrow> None
       | Some s \<Rightarrow>
           Some (t\<lparr>st_status := Resolved_Thread, st_resolvedBy := Some (ce_userId e),
             st_resolvedAt := Some now,
             st_suggestion := Some (s\<lparr>sg_status := decision, sg_decided_by := Some (ce_userId e),
               sg_decided_by_name := Some (ce_userName e), sg_decided_at := Some now,
               sg_applied_version_id := appliedVersionId\<rparr>)\<rparr>)) e"

section \<open>Reads and subscriptions\<close>

definition resolveAnchorById ::
  "('t, 'm) comment_env \<Rightarrow> ('t, 'm) engine \<Rightarrow> jsstring \<Rightarrow> jsstring + (int \<times> int) option" where
  "resolveAnchorById E e threadId =
     (case readThread E e threadId of
        None \<Rightarrow> Inr None
      | Some t \<Rightarrow> resolveAnchor (en_text E) (ce_text e) t)"

definition isThreadOrphaned :: "('t, 'm) comment_env \<Rightarrow> ('t, 'm) engine \<Rightarrow> jsstring \<Rightarrow> bool" where
  "isThreadOrphaned E e threadId =
     (case readThread E e threadId of
        None \<Rightarrow> False
      | Some t \<Rightarrow> thread_orphaned (tx_toString (en_text E) (ce_text e)) t)"

record overlay_region =
  ov_threadId :: jsstring
  ov_start :: int
  ov_end :: int
  ov_afterText :: jsstring
  ov_operations :: "operation_summary list"
  ov_authorColor :: jsstring
  ov_status :: suggestion_status

fun overlay_regions ::
  "('t, 'm) comment_env \<Rightarrow> (jsstring \<Rightarrow> jsstring) \<Rightarrow> ('t, 'm) engine \<Rightarrow> (jsstring \<times> map_value) list
     \<Rightarrow> jsstring + overlay_region list" where
  "overlay_regions E userColor e [] = Inr []"
| "overlay_regions E userColor e ((threadId, raw) # rest) =
     (case asStoredThread (Some raw) of
        None \<Rightarrow> overlay_regions E userColor e rest
      | Some thread \<Rightarrow>
          (case st_suggestion thread of
             None \<Rightarrow> overlay_regions E userColor e rest
           | Some s \<Rightarrow>
               if sg_status s \<noteq> Pending then overlay_regions E userColor e rest
               else bind_res (resolveAnchor (en_text E) (ce_text e) thread) (\<lambda>resolved.
                      case resolved of
                        None \<Rightarrow> overlay_regions E userColor e rest
                      | Some (f, u) \<Rightarrow>
                          bind_res (overlay_regions E userColor e rest) (\<lambda>regions.
                            Inr (\<lparr>ov_threadId = threadId, ov_start = f, ov_end = u,
                                  ov_afterText = sv_after_text (sg_human_readable s),
                                  ov_operations = sv_operations (sg_human_readable s),
                                  ov_authorColor = userColor (sg_author_id s),
                                  ov_status = sg_status s\<rparr> # regions)))))"

definition getSuggestionOverlays ::
  "('t, 'm) comment_env \<Rightarrow> (jsstring \<Rightarrow> jsstring) \<Rightarrow> ('t, 'm) engine
     \<Rightarrow> jsstring + overlay_region list" where
  "getSuggestionOverlays E userColor e =
     overlay_regions E userColor e (ym_entries (en_map E) (ce_map e))"

definition onThreadsChange :: "nat \<Rightarrow> ('t, 'm) engine \<Rightarrow> ('t, 'm) engine" where
  "onThreadsChange cb e = e\<lparr>ce_listeners := js_add cb (ce_listeners e)\<rparr>"

definition offThreadsChange :: "nat \<Rightarrow> ('t, 'm) engine \<Rightarrow> ('t, 'm) engine" where
  "offThreadsChange cb e = e\<lparr>ce_listeners := js_remove cb (ce_listeners e)\<rparr>"

text \<open>\<open>resp\<close> is the parsed body of a successful answer (\<open>None\<close>: the answer is not ok); no request
  is made without the capability.\<close>

definition searchMentions ::
  "mention_candidate list option option \<Rightarrow> ('t, 'm) engine \<Rightarrow> mention_candidate list" where
  "searchMentions resp e =
     (if (case ce_capabilities e of None \<Rightarrow> True | Some c \<Rightarrow> \<not> cc_mentions c) then []
      else case resp of Some (Some candidates) \<Rightarrow> candidates | _ \<Rightarrow> [])"

definition fetchCapabilities ::
  "comments_capabilities option \<Rightarrow> ('t, 'm) engine \<Rightarrow> comments_capabilities option \<times> ('t, 'm) engine"
  where
  "fetchCapabilities resp e = (resp, e\<lparr>ce_capabilities := resp\<rparr>)"

section \<open>All operations of the user\<close>

datatype comment_op =
    Op_Create jsstring jsstring jsstring comment_anchor "byte list" "byte list"
      "jsstring option" "suggestion option"
  | Op_Commit jsstring jsstring jsstring suggestion_payload
  | Op_Reply jsstring jsstring jsstring jsstring
  | Op_Resolve jsstring jsstring
  | Op_Reopen jsstring
  | Op_Delete_Thread jsstring
  | Op_Edit jsstring jsstring jsstring jsstring
  | Op_Delete_Comment jsstring jsstring jsstring
  | Op_React jsstring jsstring "jsstring option" jsstring
  | Op_Unreact jsstring "jsstring option" jsstring
  | Op_Decide jsstring jsstring suggestion_status "jsstring option"

fun op_thread :: "comment_op \<Rightarrow> jsstring" where
  "op_thread (Op_Create i _ _ _ _ _ _ _) = i"
| "op_thread (Op_Commit i _ _ _) = i"
| "op_thread (Op_Reply _ _ i _) = i"
| "op_thread (Op_Resolve _ i) = i"
| "op_thread (Op_Reopen i) = i"
| "op_thread (Op_Delete_Thread i) = i"
| "op_thread (Op_Edit _ i _ _) = i"
| "op_thread (Op_Delete_Comment _ i _) = i"
| "op_thread (Op_React _ i _ _) = i"
| "op_thread (Op_Unreact i _ _) = i"
| "op_thread (Op_Decide _ i _ _) = i"

text \<open>The engine after an operation; one that throws has no effect.\<close>

definition after :: "('t, 'm) engine \<Rightarrow> jsstring + ('t, 'm) engine \<Rightarrow> ('t, 'm) engine" where
  "after e r = (case r of Inl _ \<Rightarrow> e | Inr e' \<Rightarrow> e')"

fun run_op :: "('t, 'm) comment_env \<Rightarrow> comment_op \<Rightarrow> ('t, 'm) engine \<Rightarrow> ('t, 'm) engine" where
  "run_op E (Op_Create i c n a s u content sg) e = after e (createThread E i c n a s u content sg e)"
| "run_op E (Op_Commit i c n pl) e = after e (commitSuggestion E i c n pl e)"
| "run_op E (Op_Reply c n i content) e =
     (case addReply E c n i content e of Inl _ \<Rightarrow> e | Inr (_, e') \<Rightarrow> e')"
| "run_op E (Op_Resolve n i) e = resolveThread E n i e"
| "run_op E (Op_Reopen i) e = reopenThread E i e"
| "run_op E (Op_Delete_Thread i) e = deleteThread E i e"
| "run_op E (Op_Edit n i c content) e = after e (editComment E n i c content e)"
| "run_op E (Op_Delete_Comment n i c) e = deleteComment E n i c e"
| "run_op E (Op_React n i c emoji) e = addReaction E n i c emoji e"
| "run_op E (Op_Unreact i c emoji) e = removeReaction E i c emoji e"
| "run_op E (Op_Decide n i d v) e = decideSuggestion E n i d v e"

section \<open>Lemmas\<close>

lemma notify_fields [simp]:
  "ce_map (notifyListeners E e) = ce_map e" "ce_dirty (notifyListeners E e) = ce_dirty e"
  "ce_lastPersisted (notifyListeners E e) = ce_lastPersisted e"
  "ce_retryCount (notifyListeners E e) = ce_retryCount e"
  "ce_persistEnabled (notifyListeners E e) = ce_persistEnabled e"
  "ce_persistTimer (notifyListeners E e) = ce_persistTimer e"
  "ce_gaveUp (notifyListeners E e) = ce_gaveUp e" "ce_userId (notifyListeners E e) = ce_userId e"
  by (simp_all add: notifyListeners_def)

lemma schedule_fields [simp]:
  "ce_map (schedulePersist e) = ce_map e" "ce_dirty (schedulePersist e) = ce_dirty e"
  "ce_lastPersisted (schedulePersist e) = ce_lastPersisted e"
  "ce_retryCount (schedulePersist e) = ce_retryCount e"
  "ce_persistEnabled (schedulePersist e) = ce_persistEnabled e"
  "ce_persistTimer (schedulePersist e)" "ce_gaveUp (schedulePersist e) = ce_gaveUp e"
  "ce_userId (schedulePersist e) = ce_userId e"
  by (simp_all add: schedulePersist_def)

lemma observe_fields [simp]:
  "ce_map (observe_map E p ks e) = ce_map e"
  "set (ce_dirty (observe_map E p ks e)) = (if p then {} else set ks) \<union> set (ce_dirty e)"
  "ce_lastPersisted (observe_map E p ks e) = ce_lastPersisted e"
  "ce_retryCount (observe_map E p ks e) = ce_retryCount e"
  "ce_persistEnabled (observe_map E p ks e) = ce_persistEnabled e"
  "ce_persistTimer (observe_map E p ks e) =
     (ce_persistTimer e \<or> \<not> p \<and> ce_persistEnabled e)"
  "ce_gaveUp (observe_map E p ks e) = ce_gaveUp e" "ce_userId (observe_map E p ks e) = ce_userId e"
  by (auto simp: observe_map_def Let_def)

lemma map_set_fields [simp]:
  "set (ce_dirty (map_set E p k t e)) = (if p then {} else {k}) \<union> set (ce_dirty e)"
  "ce_lastPersisted (map_set E p k t e) = ce_lastPersisted e"
  "ce_retryCount (map_set E p k t e) = ce_retryCount e"
  "ce_persistEnabled (map_set E p k t e) = ce_persistEnabled e"
  "ce_persistTimer (map_set E p k t e) = (ce_persistTimer e \<or> \<not> p \<and> ce_persistEnabled e)"
  "ce_gaveUp (map_set E p k t e) = ce_gaveUp e" "ce_userId (map_set E p k t e) = ce_userId e"
  by (auto simp: map_set_def)

lemma readThread_cong: "ce_map e' = ce_map e \<Longrightarrow> readThread E e' = readThread E e"
  by (simp add: readThread_def fun_eq_iff)

lemma readThread_map_set [simp]:
  "ymap_laws (en_map E) \<Longrightarrow>
   readThread E (map_set E p k t e) k' = (if k' = k then Some t else readThread E e k')"
  by (simp add: readThread_def map_set_def ymap_get_set asStoredThread_def)

lemma readThread_map_delete [simp]:
  "ymap_laws (en_map E) \<Longrightarrow>
   readThread E (map_delete E p k e) k' = (if k' = k then None else readThread E e k')"
  by (auto simp: readThread_def map_delete_def ymap_get_delete asStoredThread_def)

text \<open>What every write of the user has in common: one thread changes, it becomes dirty, and
  persistence is scheduled.\<close>

definition local_write ::
  "('t, 'm) comment_env \<Rightarrow> jsstring \<Rightarrow> ('t, 'm) engine \<Rightarrow> ('t, 'm) engine \<Rightarrow> bool" where
  "local_write E k e e' \<longleftrightarrow>
     (\<forall>k'. k' \<noteq> k \<longrightarrow> readThread E e' k' = readThread E e k')
     \<and> set (ce_dirty e) \<subseteq> set (ce_dirty e')
     \<and> (readThread E e' k \<noteq> readThread E e k \<longrightarrow> k \<in> set (ce_dirty e'))
     \<and> set (ce_dirty e') \<subseteq> set (ce_dirty e) \<union> {k, deleted_key k}
     \<and> (deleted_key k \<in> set (ce_dirty e') - set (ce_dirty e) \<longrightarrow> readThread E e' k = None)
     \<and> ce_lastPersisted e' = ce_lastPersisted e \<and> ce_gaveUp e' = ce_gaveUp e
     \<and> ce_persistEnabled e' = ce_persistEnabled e
     \<and> (ce_persistEnabled e \<longrightarrow> (ce_persistTimer e \<or> set (ce_dirty e') \<noteq> set (ce_dirty e)
          \<longrightarrow> ce_persistTimer e'))"

lemma deleted_key_neq [simp]: "deleted_key k \<noteq> k" "k \<noteq> deleted_key k"
proof -
  have "length (deleted_key k) \<noteq> length k" by (simp add: deleted_key_def js_def)
  then show "deleted_key k \<noteq> k" "k \<noteq> deleted_key k" by metis+
qed

lemma local_write_refl [simp]: "local_write E k e e"
  by (auto simp: local_write_def)

lemma after_simps [simp]: "after e (Inl x) = e" "after e (Inr e') = e'"
  by (simp_all add: after_def)

lemma local_write_map_set [simp]:
  "ymap_laws (en_map E) \<Longrightarrow> local_write E k e (map_set E False k t e)"
  by (auto simp: local_write_def)

lemma local_write_mutate [simp]:
  "ymap_laws (en_map E) \<Longrightarrow> local_write E k e (mutateThread E k f e)"
  by (simp add: mutateThread_def split: option.split)

lemma local_write_delete:
  assumes "ymap_laws (en_map E)"
  shows "local_write E k e (deleteThread E k e)"
proof -
  let ?d = "deleteThread E k e"
  have m: "ce_map ?d = ce_map (map_delete E False k e)"
    by (simp add: deleteThread_def Let_def)
  have "readThread E ?d = readThread E (map_delete E False k e)" by (rule readThread_cong [OF m])
  moreover have "set (ce_dirty ?d) = insert (deleted_key k)
      (if ym_get (en_map E) (ce_map e) k = None then set (ce_dirty e) else insert k (set (ce_dirty e)))"
    by (auto simp: deleteThread_def map_delete_def Let_def)
  moreover have "ce_lastPersisted ?d = ce_lastPersisted e" "ce_gaveUp ?d = ce_gaveUp e"
    "ce_persistEnabled ?d = ce_persistEnabled e" "ce_persistEnabled e \<longrightarrow> ce_persistTimer ?d"
    by (simp_all add: deleteThread_def map_delete_def Let_def)
  moreover have "ym_get (en_map E) (ce_map e) k = None \<Longrightarrow> readThread E e k = None"
    by (simp add: readThread_def asStoredThread_def)
  ultimately show ?thesis using assms by (auto simp: local_write_def)
qed

lemma local_write_create:
  "ymap_laws (en_map E) \<Longrightarrow> local_write E i e (after e (createThread E i c n a s u content sg e))"
  by (simp add: createThread_def)

lemma run_op_local_write: "ymap_laws (en_map E) \<Longrightarrow> local_write E (op_thread oper) e (run_op E oper e)"
  by (cases oper)
    (simp_all add: local_write_create local_write_delete commitSuggestion_def addReply_def
      resolveThread_def reopenThread_def editComment_def deleteComment_def addReaction_def
      removeReaction_def decideSuggestion_def Let_def split: option.split)

section \<open>Reactions\<close>

text \<open>Each user has at most one reaction of each kind on a thread and on a comment.\<close>

definition reaction_keys :: "reaction list option \<Rightarrow> (jsstring \<times> jsstring) list" where
  "reaction_keys rs = map (\<lambda>r. (re_user_id r, re_emoji r)) (case rs of None \<Rightarrow> [] | Some l \<Rightarrow> l)"

definition reactions_once :: "stored_thread \<Rightarrow> bool" where
  "reactions_once t \<longleftrightarrow>
     distinct (reaction_keys (st_reactions t))
     \<and> (\<forall>c \<in> set (st_comments t). distinct (reaction_keys (cm_reactions c)))"

lemma has_reaction_iff: "has_reaction u x rs \<longleftrightarrow> (u, x) \<in> set (reaction_keys rs)"
  by (auto simp: has_reaction_def reaction_keys_def)

lemma reaction_keys_push:
  "reaction_keys (push_reaction r rs) = reaction_keys rs @ [(re_user_id r, re_emoji r)]"
  by (simp add: push_reaction_def reaction_keys_def)

lemma reaction_keys_drop:
  "reaction_keys (drop_reaction u x rs) = filter (\<lambda>k. k \<noteq> (u, x)) (reaction_keys rs)"
  by (simp add: drop_reaction_def reaction_keys_def filter_map o_def)

lemma reaction_keys_None [simp]: "reaction_keys None = []" "reaction_keys (Some []) = []"
  by (simp_all add: reaction_keys_def)

text \<open>A property of threads that every operation preserves holds of the whole map.\<close>

lemma mutateThread_preserves:
  assumes "ymap_laws (en_map E)" "\<And>t. readThread E e k = Some t \<Longrightarrow> Q t"
    and "\<And>t t'. Q t \<Longrightarrow> f t = Some t' \<Longrightarrow> Q t'"
  shows "readThread E (mutateThread E k f e) k = Some t \<Longrightarrow> Q t"
  using assms by (auto simp: mutateThread_def split: option.splits)

lemma mutate_once:
  assumes "ymap_laws (en_map E)" "\<And>t. readThread E e k = Some t \<Longrightarrow> reactions_once t"
    and "readThread E (mutateThread E k f e) k = Some t"
    and "\<And>t t'. reactions_once t \<Longrightarrow> f t = Some t' \<Longrightarrow> reactions_once t'"
  shows "reactions_once t"
  using assms mutateThread_preserves [where Q = reactions_once and E = E and e = e and k = k
      and f = f and t = t] by blast

lemma create_once:
  assumes "ymap_laws (en_map E)" "\<And>t. readThread E e i = Some t \<Longrightarrow> reactions_once t"
    and "readThread E (after e (createThread E i c n a s u content sg e)) i = Some t"
  shows "reactions_once t"
  using assms by (auto simp: createThread_def reactions_once_def new_reply_def
      split: if_splits option.splits list.splits)

lemma add_reaction_once:
  assumes "reactions_once t" "re_user_id r = u" "re_emoji r = x"
  shows "\<not> has_reaction u x (st_reactions t) \<Longrightarrow>
      reactions_once (t\<lparr>st_reactions := push_reaction r (st_reactions t)\<rparr>)"
    and "reactions_once (t\<lparr>st_comments :=
      map (\<lambda>c. if cm_id c = cid \<and> \<not> has_reaction u x (cm_reactions c)
               then c\<lparr>cm_reactions := push_reaction r (cm_reactions c)\<rparr> else c) (st_comments t)\<rparr>)"
  using assms by (auto simp: reactions_once_def has_reaction_iff reaction_keys_push)

lemma run_op_reactions_once:
  assumes M: "ymap_laws (en_map E)"
    and pre: "\<And>t. readThread E e (op_thread oper) = Some t \<Longrightarrow> reactions_once t"
    and post: "readThread E (run_op E oper e) (op_thread oper) = Some t"
  shows "reactions_once t"
proof (cases oper)
  case (Op_Create i c n a s u content sg)
  show ?thesis by (rule create_once [OF M]) (use pre post Op_Create in auto)
next
  case (Op_Commit i c n pl)
  show ?thesis
    by (rule create_once [OF M _ post [unfolded Op_Commit run_op.simps op_thread.simps commitSuggestion_def]])
      (use pre Op_Commit in auto)
next
  case (Op_Reply c n i content)
  then show ?thesis using pre post M
    by (auto simp: addReply_def Let_def reactions_once_def new_reply_def
        split: if_splits option.splits)
next
  case (Op_Delete_Thread i)
  have "readThread E (deleteThread E i e) = readThread E (map_delete E False i e)"
    by (rule readThread_cong) (simp add: deleteThread_def Let_def)
  then show ?thesis using post M Op_Delete_Thread by simp
next
  case (Op_React n i c emoji)
  show ?thesis
  proof (cases "case ce_capabilities e of None \<Rightarrow> True | Some c \<Rightarrow> emoji \<notin> set (cc_reactions c)")
    case True
    then show ?thesis using pre post Op_React by (simp add: addReaction_def)
  next
    case False
    note post' = post [unfolded Op_React run_op.simps op_thread.simps addReaction_def if_not_P [OF False] Let_def]
    show ?thesis
      by (rule mutate_once [OF M _ post'])
        (use pre Op_React in \<open>auto intro: add_reaction_once split: option.splits if_splits\<close>)
  qed
next
  case (Op_Unreact i c emoji)
  show ?thesis
    by (rule mutate_once [OF M _ post [unfolded Op_Unreact run_op.simps op_thread.simps removeReaction_def]])
      (use pre Op_Unreact in \<open>auto simp: reactions_once_def reaction_keys_drop split: option.splits\<close>)
next
  case (Op_Resolve n i)
  show ?thesis
    by (rule mutate_once [OF M _ post [unfolded Op_Resolve run_op.simps op_thread.simps resolveThread_def]])
      (use pre Op_Resolve in \<open>auto simp: reactions_once_def\<close>)
next
  case (Op_Reopen i)
  show ?thesis
    by (rule mutate_once [OF M _ post [unfolded Op_Reopen run_op.simps op_thread.simps reopenThread_def]])
      (use pre Op_Reopen in \<open>auto simp: reactions_once_def\<close>)
next
  case (Op_Decide n i d v)
  show ?thesis
    by (rule mutate_once [OF M _ post [unfolded Op_Decide run_op.simps op_thread.simps decideSuggestion_def]])
      (use pre Op_Decide in \<open>auto simp: reactions_once_def split: option.splits\<close>)
next
  case (Op_Edit n i c content)
  show ?thesis
  proof (cases "editComment E n i c content e")
    case (Inl x)
    then show ?thesis using pre post Op_Edit by simp
  next
    case (Inr e')
    then consider "e' = e" | f where "e' = mutateThread E i f e"
        "\<And>t t'. reactions_once t \<Longrightarrow> f t = Some t' \<Longrightarrow> reactions_once t'"
      by (fastforce simp: editComment_def reactions_once_def split: if_splits)
    then show ?thesis using pre post Op_Edit Inr by cases (auto intro: mutate_once [OF M])
  qed
next
  case (Op_Delete_Comment n i c)
  show ?thesis
  proof (cases "case ce_capabilities e of None \<Rightarrow> True | Some c \<Rightarrow> \<not> cc_comment_delete c")
    case True
    then show ?thesis using pre post Op_Delete_Comment by (simp add: deleteComment_def)
  next
    case False
    show ?thesis
      by (rule mutate_once [OF M _ post [unfolded Op_Delete_Comment run_op.simps op_thread.simps
              deleteComment_def if_not_P [OF False]]])
        (use pre Op_Delete_Comment in \<open>auto simp: reactions_once_def\<close>)
  qed
qed

section \<open>Properties\<close>

text \<open>C26: Every operation of the user touches at most one thread; if it changes that thread, the
  thread becomes dirty, and (when persistence is enabled) a new dirty mark arms the persistence
  timer; the record of what has been persisted is not touched.\<close>

theorem user_operation_effect:
  assumes "ymap_laws (en_map E)"
  shows "local_write E (op_thread oper) e (run_op E oper e)"
  using assms by (rule run_op_local_write)

text \<open>Whatever operations run, a user never has two reactions with the same emoji on one thread
  or one comment.\<close>

theorem reactions_stay_unique:
  assumes M: "ymap_laws (en_map E)"
    and "\<And>k t. readThread E e k = Some t \<Longrightarrow> reactions_once t"
  shows "readThread E (fold (run_op E) ops e) k = Some t \<Longrightarrow> reactions_once t"
  using assms(2)
proof (induction ops arbitrary: e)
  case Nil
  then show ?case by simp
next
  case (Cons oper ops)
  have "reactions_once t" if "readThread E (run_op E oper e) k = Some t" for k t
  proof (cases "k = op_thread oper")
    case True
    show ?thesis by (rule run_op_reactions_once [OF M _ that [unfolded True]]) (rule Cons.prems(2))
  next
    case False
    with that have "readThread E e k = Some t"
      using run_op_local_write [OF M, of oper e] by (simp add: local_write_def)
    then show ?thesis by (rule Cons.prems(2))
  qed
  from Cons.IH [OF _ this] Cons.prems(1) show ?case by simp
qed

definition sample_env :: "(jsstring, (jsstring \<times> map_value) list) comment_env" where
  "sample_env =
     \<lparr>en_text = \<lparr>tx_toString = (\<lambda>t. t), tx_encodeRelative = (\<lambda>t i. [of_int i]),
        tx_resolveRelative = (\<lambda>t bs. Inr (case bs of [b] \<Rightarrow> Some (unat b) | _ \<Rightarrow> None))\<rparr>,
      en_map = alist_map, en_localeCompare = (\<lambda>a b. 0)\<rparr>"

definition sample_caps :: comments_capabilities where
  "sample_caps =
     \<lparr>cc_comment_edit = True, cc_comment_delete = True, cc_reactions = [js ''+''], cc_mentions = True,
      cc_suggestions = True, cc_max_comment_size = 100, cc_poll_supported = True\<rparr>"

definition sample_engine :: "(jsstring, (jsstring \<times> map_value) list) engine" where
  "sample_engine =
     new_engine (js ''hello'') [] (js ''doc'') (js ''u1'') (js ''Ann'') (Some sample_caps) None None"

definition sample_create :: comment_op where
  "sample_create =
     Op_Create (js ''t1'') (js ''c1'') (js ''now'')
       \<lparr>ca_start = 0, ca_end = 5, ca_quoted_text = js ''hello''\<rparr> [0] [5] None None"

lemma sample_env_laws: "ymap_laws (en_map sample_env)"
  by (simp add: sample_env_def alist_map_laws)

lemma sample_engine_empty: "readThread sample_env sample_engine k = None"
  by (simp add: readThread_def sample_env_def sample_engine_def new_engine_def alist_map_def
      asStoredThread_def)

theorem user_operation_effect_witness:
  "local_write sample_env (js ''t1'') sample_engine (run_op sample_env sample_create sample_engine)"
  using user_operation_effect [OF sample_env_laws, of sample_create sample_engine]
  by (simp add: sample_create_def)

theorem reactions_stay_unique_witness:
  "\<exists>t. readThread sample_env (fold (run_op sample_env)
      [sample_create, Op_React (js ''now'') (js ''t1'') None (js ''+''),
       Op_React (js ''now'') (js ''t1'') None (js ''+'')] sample_engine) (js ''t1'') = Some t
    \<and> reactions_once t"
proof -
  let ?ops = "[sample_create, Op_React (js ''now'') (js ''t1'') None (js ''+''),
       Op_React (js ''now'') (js ''t1'') None (js ''+'')]"
  have "readThread sample_env (fold (run_op sample_env) ?ops sample_engine) (js ''t1'') \<noteq> None"
    by code_simp
  then obtain t where
    t: "readThread sample_env (fold (run_op sample_env) ?ops sample_engine) (js ''t1'') = Some t"
    by blast
  with reactions_stay_unique [OF sample_env_laws _ t] show ?thesis
    by (simp add: sample_engine_empty)
qed

end
