(* ===== verification/Comment_Sync.thy ===== *)
theory Comment_Sync
  imports Comment_Engine Comments_Router
begin

text \<open>
  \<open>frontend/src/collab/comment-engine.ts\<close>, the synchronisation with the comments provider: the
  debounced flush of dirty threads with its retries, the initial load, and polling. A flush is
  split where it waits for an answer, so that other operations can run in between. Requests are
  values; the bodies are those of theory Comments_Router. Snapshots are compared as thread values:
  \<open>JSON.parse\<close> undoes \<open>JSON.stringify\<close> on them. Shown: that no change is
  forgotten but for stated exceptions (which are real), the requests that each operation of the user
  leads to, how retries end, that polling keeps local decisions; and the changes that are never sent.
\<close>

section \<open>Requests\<close>

datatype api_call =
    Create_Call create_thread_request
  | Reply_Call jsstring new_comment
  | Status_Call jsstring update_thread_status_request
  | Decision_Call jsstring suggestion_decision_request
  | Delete_Call jsstring

text \<open>The answer to a request: the promise rejects, or a response arrives with a status.\<close>

datatype fetch_answer = Network_Error | Response_Status nat

definition resp_ok :: "nat \<Rightarrow> bool" where
  "resp_ok status \<longleftrightarrow> 200 \<le> status \<and> status < 300"

text \<open>An answer lets the flush go on: 409 counts as success for a creation only.\<close>

fun call_accepted :: "api_call \<Rightarrow> fetch_answer \<Rightarrow> bool" where
  "call_accepted c Network_Error = False"
| "call_accepted (Create_Call r) (Response_Status s) = (resp_ok s \<or> s = 409)"
| "call_accepted _ (Response_Status s) = resp_ok s"

definition to_new_comment :: "comment \<Rightarrow> new_comment" where
  "to_new_comment c =
     \<lparr>nc_id = cm_id c, nc_author_id = cm_author_id c, nc_author_name = cm_author_name c,
      nc_content = cm_content c,
      nc_mentions = Some (case cm_mentions c of None \<Rightarrow> [] | Some ms \<Rightarrow> ms)\<rparr>"

definition create_call :: "jsstring \<Rightarrow> stored_thread \<Rightarrow> api_call" where
  "create_call key stored =
     Create_Call \<lparr>cr_id = key, cr_anchor = st_anchor stored,
       cr_comment = (case st_comments stored of [] \<Rightarrow> None | c # _ \<Rightarrow> Some (to_new_comment c)),
       cr_suggestion = st_suggestion stored\<rparr>"

definition reply_calls :: "jsstring \<Rightarrow> stored_thread \<Rightarrow> stored_thread \<Rightarrow> api_call list" where
  "reply_calls key prev stored =
     map (\<lambda>c. Reply_Call key (to_new_comment c))
       (filter (\<lambda>c. cm_id c \<notin> cm_id ` set (st_comments prev) \<and> cm_deleted_at c = None)
          (st_comments stored))"

definition status_calls :: "jsstring \<Rightarrow> stored_thread \<Rightarrow> stored_thread \<Rightarrow> api_call list" where
  "status_calls key prev stored =
     (if st_status prev \<noteq> st_status stored then
        [Status_Call key \<lparr>us_status = st_status stored, us_resolved_by = st_resolvedBy stored\<rparr>]
      else [])"

definition decision_calls :: "jsstring \<Rightarrow> stored_thread \<Rightarrow> stored_thread \<Rightarrow> api_call list" where
  "decision_calls key prev stored =
     (case st_suggestion stored of
        None \<Rightarrow> []
      | Some s \<Rightarrow>
          if sg_status s \<noteq> Pending \<and> map_option sg_status (st_suggestion prev) \<noteq> Some (sg_status s) then
            [Decision_Call key \<lparr>sd_decision = sg_status s,
               sd_decided_by = (case sg_decided_by s of None \<Rightarrow> [] | Some d \<Rightarrow> d),
               sd_applied_version_id = sg_applied_version_id s\<rparr>]
          else [])"

text \<open>The requests for a thread, given what was persisted last.\<close>

definition thread_calls :: "jsstring \<Rightarrow> stored_thread option \<Rightarrow> stored_thread \<Rightarrow> api_call list" where
  "thread_calls key lastP stored =
     (case lastP of
        None \<Rightarrow> [create_call key stored]
      | Some prev \<Rightarrow>
          reply_calls key prev stored @ status_calls key prev stored @ decision_calls key prev stored)"

section \<open>The flush\<close>

definition deleted_prefix :: jsstring where
  "deleted_prefix = js ''__deleted__:''"

definition is_deleted_key :: "jsstring \<Rightarrow> bool" where
  "is_deleted_key key \<longleftrightarrow> take (length deleted_prefix) key = deleted_prefix"

definition deleted_id :: "jsstring \<Rightarrow> jsstring" where
  "deleted_id key = drop (length deleted_prefix) key"

text \<open>What a key of the flush needs: nothing, or requests and then a note of what is persisted.\<close>

datatype key_work =
    Nothing_To_Do
  | Delete_Work jsstring
  | Persist_Work stored_thread "api_call list"

definition work_of_key ::
  "('t, 'm) comment_env \<Rightarrow> ('t, 'm) engine \<Rightarrow> jsstring \<Rightarrow> key_work" where
  "work_of_key E e key =
     (if is_deleted_key key then Delete_Work (deleted_id key)
      else case readThread E e key of
             None \<Rightarrow> Nothing_To_Do
           | Some stored \<Rightarrow>
               if jm_get (ce_lastPersisted e) key = Some stored then Nothing_To_Do
               else Persist_Work stored (thread_calls key (jm_get (ce_lastPersisted e) key) stored))"

fun work_calls :: "key_work \<Rightarrow> api_call list" where
  "work_calls Nothing_To_Do = []"
| "work_calls (Delete_Work i) = [Delete_Call i]"
| "work_calls (Persist_Work _ calls) = calls"

definition MAX_PERSIST_RETRIES :: nat where
  "MAX_PERSIST_RETRIES = 5"

text \<open>All requests of the key were accepted (or it needed none).\<close>

definition key_succeeded :: "jsstring \<Rightarrow> key_work \<Rightarrow> ('t, 'm) engine \<Rightarrow> ('t, 'm) engine" where
  "key_succeeded key work e =
     (let e1 = (case work of
                  Nothing_To_Do \<Rightarrow> e
                | Delete_Work i \<Rightarrow> e\<lparr>ce_lastPersisted := jm_delete i (ce_lastPersisted e)\<rparr>
                | Persist_Work snapshot _ \<Rightarrow>
                    e\<lparr>ce_lastPersisted := jm_set key snapshot (ce_lastPersisted e)\<rparr>)
      in e1\<lparr>ce_retryCount := jm_delete key (ce_retryCount e1)\<rparr>)"

text \<open>A request of the key failed: count the attempt, or give up. The flag says whether the key is
  to be queued again.\<close>

definition key_failed :: "jsstring \<Rightarrow> ('t, 'm) engine \<Rightarrow> bool \<times> ('t, 'm) engine" where
  "key_failed key e =
     (let attempts = (case jm_get (ce_retryCount e) key of None \<Rightarrow> 0 | Some n \<Rightarrow> n) + 1
      in if attempts \<ge> MAX_PERSIST_RETRIES then
           (False, e\<lparr>ce_retryCount := jm_delete key (ce_retryCount e),
                     ce_gaveUp := ce_gaveUp e @ [key]\<rparr>)
         else (True, e\<lparr>ce_retryCount := jm_set key attempts (ce_retryCount e)\<rparr>))"

text \<open>A running flush: the keys still to do, the key in work with the requests not yet answered (the
  first of them is on the wire), and the keys to queue again.\<close>

record flush =
  fl_ids :: "jsstring list"
  fl_current :: "(jsstring \<times> key_work \<times> api_call list) option"
  fl_failed :: "jsstring list"



text \<open>The answer to the request on the wire arrives.\<close>

definition flush_answer ::
  "fetch_answer \<Rightarrow> flush \<Rightarrow> ('t, 'm) engine \<Rightarrow> flush \<times> ('t, 'm) engine" where
  "flush_answer a fl e =
     (case fl_current fl of
        Some (key, work, c # calls) \<Rightarrow>
          if call_accepted c a then
            (if calls = [] then (fl\<lparr>fl_current := None\<rparr>, key_succeeded key work e)
             else (fl\<lparr>fl_current := Some (key, work, calls)\<rparr>, e))
          else (case key_failed key e of
                  (again, e') \<Rightarrow>
                    (fl\<lparr>fl_current := None,
                        fl_failed := (if again then fl_failed fl @ [key] else fl_failed fl)\<rparr>, e'))
      | _ \<Rightarrow> (fl, e))"

definition flush_end :: "flush \<Rightarrow> ('t, 'm) engine \<Rightarrow> ('t, 'm) engine" where
  "flush_end fl e =
     (if fl_failed fl = [] then e
      else schedulePersist (e\<lparr>ce_dirty := fold js_add (fl_failed fl) (ce_dirty e)\<rparr>))"

text \<open>The whole of \<open>_persist\<close> when nothing else runs, against a server that answers each request.\<close>

fun run_calls ::
  "(api_call \<Rightarrow> 'w \<Rightarrow> fetch_answer \<times> 'w) \<Rightarrow> api_call list \<Rightarrow> 'w \<Rightarrow> bool \<times> 'w" where
  "run_calls send [] w = (True, w)"
| "run_calls send (c # calls) w =
     (case send c w of
        (a, w') \<Rightarrow> if call_accepted c a then run_calls send calls w' else (False, w'))"

fun persist_keys ::
  "('t, 'm) comment_env \<Rightarrow> (api_call \<Rightarrow> 'w \<Rightarrow> fetch_answer \<times> 'w) \<Rightarrow> jsstring list
     \<Rightarrow> ('t, 'm) engine \<times> 'w \<Rightarrow> jsstring list \<times> ('t, 'm) engine \<times> 'w" where
  "persist_keys E send [] (e, w) = ([], e, w)"
| "persist_keys E send (key # ids) (e, w) =
     (let work = work_of_key E e key
      in case run_calls send (work_calls work) w of
           (True, w') \<Rightarrow> persist_keys E send ids (key_succeeded key work e, w')
         | (False, w') \<Rightarrow>
             (case key_failed key e of
                (again, e') \<Rightarrow>
                  (case persist_keys E send ids (e', w') of
                     (failed, r) \<Rightarrow> (if again then key # failed else failed, r))))"

definition persist ::
  "('t, 'm) comment_env \<Rightarrow> (api_call \<Rightarrow> 'w \<Rightarrow> fetch_answer \<times> 'w) \<Rightarrow> ('t, 'm) engine \<times> 'w
     \<Rightarrow> ('t, 'm) engine \<times> 'w" where
  "persist E send st =
     (case st of (e, w) \<Rightarrow>
        if ce_dirty e = [] then (e, w)
        else (case persist_keys E send (ce_dirty e) (e\<lparr>ce_dirty := []\<rparr>, w) of
                (failed, e', w') \<Rightarrow>
                  (flush_end \<lparr>fl_ids = [], fl_current = None, fl_failed = failed\<rparr> e', w')))"

definition flushNow ::
  "('t, 'm) comment_env \<Rightarrow> (api_call \<Rightarrow> 'w \<Rightarrow> fetch_answer \<times> 'w) \<Rightarrow> ('t, 'm) engine \<times> 'w
     \<Rightarrow> ('t, 'm) engine \<times> 'w" where
  "flushNow E send st = (case st of (e, w) \<Rightarrow> persist E send (e\<lparr>ce_persistTimer := False\<rparr>, w))"

definition engine_destroy :: "('t, 'm) engine \<Rightarrow> ('t, 'm) engine" where
  "engine_destroy e =
     e\<lparr>ce_pollTimer := False, ce_persistTimer := False, ce_listeners := [], ce_dirty := [],
       ce_lastPersisted := [], ce_retryCount := []\<rparr>"

section \<open>Polling and loading\<close>

definition startPolling :: "('t, 'm) engine \<Rightarrow> ('t, 'm) engine" where
  "startPolling e =
     (if (case ce_capabilities e of None \<Rightarrow> True | Some c \<Rightarrow> \<not> cc_poll_supported c) then e
      else if ce_pollIntervalMs e \<le> 0 then e else e\<lparr>ce_pollTimer := True\<rparr>)"

definition stopPolling :: "('t, 'm) engine \<Rightarrow> ('t, 'm) engine" where
  "stopPolling e = e\<lparr>ce_pollTimer := False\<rparr>"

text \<open>A local decision that the wire does not know yet is kept.\<close>

definition keeps_decision :: "stored_thread option \<Rightarrow> comment_thread \<Rightarrow> bool" where
  "keeps_decision existing thread \<longleftrightarrow>
     (case existing of
        None \<Rightarrow> False
      | Some t \<Rightarrow> (case st_suggestion t of None \<Rightarrow> False | Some s \<Rightarrow> sg_status s \<noteq> Pending))
     \<and> (case ct_suggestion thread of None \<Rightarrow> True | Some w \<Rightarrow> sg_status w = Pending)"

definition wire_thread :: "comment_thread \<Rightarrow> stored_thread" where
  "wire_thread thread =
     \<lparr>st_anchor = ct_anchor thread, st_start_rel = None, st_end_rel = None,
      st_status = ct_status thread, st_resolvedBy = ct_resolved_by thread,
      st_resolvedAt = ct_resolved_at thread, st_suggestion = ct_suggestion thread,
      st_comments = ct_comments thread, st_reactions = ct_reactions thread,
      st_createdAt = ct_created_at thread\<rparr>"

text \<open>Both callers pass \<open>markDirty = false\<close>; the write carries the polling origin.\<close>

definition insertThreadFromWire ::
  "('t, 'm) comment_env \<Rightarrow> comment_thread \<Rightarrow> ('t, 'm) engine \<Rightarrow> ('t, 'm) engine" where
  "insertThreadFromWire E thread e =
     (let existing = readThread E e (ct_id thread);
          keep = keeps_decision existing thread;
          stored = (if keep
                    then (wire_thread thread)\<lparr>st_suggestion := st_suggestion (the existing)\<rparr>
                    else wire_thread thread);
          e1 = map_set E True (ct_id thread) stored e;
          e2 = e1\<lparr>ce_lastPersisted := jm_set (ct_id thread) (wire_thread thread) (ce_lastPersisted e1),
                  ce_dirty := js_remove (ct_id thread) (ce_dirty e1)\<rparr>
      in if keep then
           (let e3 = e2\<lparr>ce_dirty := js_add (ct_id thread) (ce_dirty e2)\<rparr>
            in if ce_persistEnabled e3 then schedulePersist e3 else e3)
         else e2)"

text \<open>\<open>detail\<close> is the thread the provider returns for the change (\<open>None\<close>: the answer is not ok).\<close>

definition reconcileChange ::
  "('t, 'm) comment_env \<Rightarrow> (jsstring \<Rightarrow> comment_thread option) \<Rightarrow> comment_change \<Rightarrow> ('t, 'm) engine
     \<Rightarrow> ('t, 'm) engine" where
  "reconcileChange E detail change e =
     (if ch_action change = Ch_Deleted then map_delete E True (ch_thread_id change) e
      else case detail (ch_thread_id change) of
             None \<Rightarrow> e
           | Some thread \<Rightarrow> insertThreadFromWire E thread e)"

text \<open>One poll: skipped without focus; a failed answer changes nothing; else the time of the server
  (or the local clock) is remembered and every change is reconciled.\<close>

definition pollOnce ::
  "('t, 'm) comment_env \<Rightarrow> bool \<Rightarrow> (comment_change list option \<times> jsstring option) option \<Rightarrow> jsstring
     \<Rightarrow> (jsstring \<Rightarrow> comment_thread option) \<Rightarrow> ('t, 'm) engine
     \<Rightarrow> comment_change list \<times> ('t, 'm) engine" where
  "pollOnce E focused resp now detail e =
     (if \<not> focused then ([], e)
      else case resp of
             None \<Rightarrow> ([], e)
           | Some (changes, server_time) \<Rightarrow>
               (let e1 = e\<lparr>ce_lastPollAt := Some (case server_time of None \<Rightarrow> now | Some s \<Rightarrow> s)\<rparr>;
                    cs = (case changes of None \<Rightarrow> [] | Some l \<Rightarrow> l)
                in (cs, fold (reconcileChange E detail) cs e1)))"

definition load_entry ::
  "('t, 'm) comment_env \<Rightarrow> (jsstring \<Rightarrow> comment_thread option) \<Rightarrow> thread_list_entry
     \<Rightarrow> ('t, 'm) engine \<Rightarrow> ('t, 'm) engine" where
  "load_entry E detail entry e =
     (if ym_get (en_map E) (ce_map e) (tl_id entry) \<noteq> None then e
      else case detail (tl_id entry) of
             None \<Rightarrow> e
           | Some thread \<Rightarrow> insertThreadFromWire E thread e)"

text \<open>Threads without a comment and without a suggestion are swept.\<close>

definition is_empty_thread :: "map_value \<Rightarrow> bool" where
  "is_empty_thread raw =
     (case asStoredThread (Some raw) of
        None \<Rightarrow> False | Some t \<Rightarrow> st_comments t = [] \<and> st_suggestion t = None)"

definition sweep_empty :: "('t, 'm) comment_env \<Rightarrow> ('t, 'm) engine \<Rightarrow> ('t, 'm) engine" where
  "sweep_empty E e =
     fold (\<lambda>(i, raw) e. if is_empty_thread raw then deleteThread E i e else e)
       (ym_entries (en_map E) (ce_map e)) e"

definition loadFromSPI ::
  "('t, 'm) comment_env \<Rightarrow> thread_list_entry list option option \<Rightarrow> (jsstring \<Rightarrow> comment_thread option)
     \<Rightarrow> ('t, 'm) engine \<Rightarrow> ('t, 'm) engine" where
  "loadFromSPI E resp detail e =
     (case resp of
        None \<Rightarrow> e
      | Some entries \<Rightarrow>
          sweep_empty E (fold (load_entry E detail) (case entries of None \<Rightarrow> [] | Some l \<Rightarrow> l) e))"

section \<open>No change is forgotten\<close>




definition flush_keys :: "flush \<Rightarrow> jsstring set" where
  "flush_keys fl = set (fl_ids fl) \<union> set (fl_failed fl) \<union> fst ` set_option (fl_current fl)"



fun is_creation :: "comment_op \<Rightarrow> bool" where
  "is_creation (Op_Create _ _ _ _ _ _ _ _) = True"
| "is_creation (Op_Commit _ _ _ _) = True"
| "is_creation _ = False"







definition unsynced :: "('t, 'm) comment_env \<Rightarrow> ('t, 'm) engine \<Rightarrow> jsstring \<Rightarrow> bool" where
  "unsynced E e k \<longleftrightarrow> readThread E e k \<noteq> None \<and> readThread E e k \<noteq> map_of (ce_lastPersisted e) k"





lemma is_deleted_key_deleted [simp]: "is_deleted_key (deleted_key k)" "deleted_id (deleted_key k) = k"
  by (simp_all add: is_deleted_key_def deleted_key_def deleted_prefix_def deleted_id_def)


lemma deleted_key_inj [simp]: "deleted_key a = deleted_key b \<longleftrightarrow> a = b"
  by (simp add: deleted_key_def)











lemma key_succeeded_fields [simp]:
  "ce_map (key_succeeded k w e) = ce_map e" "ce_dirty (key_succeeded k w e) = ce_dirty e"
  "ce_gaveUp (key_succeeded k w e) = ce_gaveUp e"
  "ce_persistEnabled (key_succeeded k w e) = ce_persistEnabled e"
  "ce_persistTimer (key_succeeded k w e) = ce_persistTimer e"
  by (simp_all add: key_succeeded_def Let_def split: key_work.split)

lemma readThread_key_succeeded [simp]: "readThread E (key_succeeded k w e) = readThread E e"
  by (rule readThread_cong) simp

lemma key_succeeded_last:
  "map_of (ce_lastPersisted (key_succeeded k w e)) k' =
     (case w of
        Nothing_To_Do \<Rightarrow> map_of (ce_lastPersisted e) k'
      | Delete_Work i \<Rightarrow> if k' = i then None else map_of (ce_lastPersisted e) k'
      | Persist_Work s _ \<Rightarrow> if k' = k then Some s else map_of (ce_lastPersisted e) k')"
  by (simp add: key_succeeded_def Let_def split: key_work.split)










lemma insert_wire_fields:
  fixes e th E
  defines "e' \<equiv> insertThreadFromWire E th e"
    and "keep \<equiv> keeps_decision (readThread E e (ct_id th)) th"
  shows "ce_lastPersisted e' = AList.update (ct_id th) (wire_thread th) (ce_lastPersisted e)"
    "set (ce_dirty e') = (if keep then insert (ct_id th) (set (ce_dirty e))
       else set (ce_dirty e) - {ct_id th})"
    "ce_gaveUp e' = ce_gaveUp e" "ce_persistEnabled e' = ce_persistEnabled e"
    "ce_persistTimer e' = (ce_persistTimer e \<or> keep \<and> ce_persistEnabled e)"
  by (auto simp: insertThreadFromWire_def Let_def e'_def keep_def)

lemma insert_wire_read:
  assumes "ymap_laws (en_map E)"
  shows "readThread E (insertThreadFromWire E th e) k =
    (if k = ct_id th then
       Some (if keeps_decision (readThread E e (ct_id th)) th
             then (wire_thread th)\<lparr>st_suggestion := st_suggestion (the (readThread E e (ct_id th)))\<rparr>
             else wire_thread th)
     else readThread E e k)"
proof -
  let ?s = "if keeps_decision (readThread E e (ct_id th)) th
       then (wire_thread th)\<lparr>st_suggestion := st_suggestion (the (readThread E e (ct_id th)))\<rparr>
       else wire_thread th"
  have "readThread E (insertThreadFromWire E th e) = readThread E (map_set E True (ct_id th) ?s e)"
    by (rule readThread_cong) (simp add: insertThreadFromWire_def Let_def)
  then show ?thesis using assms by simp
qed








text \<open>The exceptions are real. A thread polled while its requests are on the wire ends up with a
  record of what was persisted that is neither the thread nor waiting to be corrected: the poll
  replaces the thread and clears the dirty mark, the answer then records the older snapshot.\<close>

theorem poll_in_flight_forgets:
  assumes M: "ymap_laws (en_map E)" and cur: "fl_current fl = Some (ct_id th, Persist_Work s cs, [c])"
    and acc: "call_accepted c a" and "\<not> keeps_decision (readThread E e (ct_id th)) th"
    and "s \<noteq> wire_thread th" "ct_id th \<notin> set (fl_ids fl) \<union> set (fl_failed fl)"
  shows "let (fl', e') = flush_answer a fl (insertThreadFromWire E th e)
    in readThread E e' (ct_id th) = Some (wire_thread th)
       \<and> map_of (ce_lastPersisted e') (ct_id th) = Some s
       \<and> unsynced E e' (ct_id th)
       \<and> ct_id th \<notin> set (ce_dirty e') \<and> ct_id th \<notin> flush_keys fl'"
  using assms
  by (simp add: flush_answer_def Let_def unsynced_def insert_wire_read [OF M] key_succeeded_last
      insert_wire_fields flush_keys_def)

text \<open>Two flushes at once: the second one takes a thread that changed while the first waits for its
  answer; when the second is answered before the first, the older snapshot is recorded last.\<close>

theorem overlapping_flushes_forget:
  assumes "fl_current fl1 = Some (k, Persist_Work s1 cs1, [c1])"
    and "fl_current fl2 = Some (k, Persist_Work s2 cs2, [c2])"
    and "call_accepted c1 a1" "call_accepted c2 a2" "readThread E e k = Some s2" "s1 \<noteq> s2"
    and "k \<notin> set (ce_dirty e)"
    and "k \<notin> set (fl_ids fl1) \<union> set (fl_failed fl1) \<union> set (fl_ids fl2) \<union> set (fl_failed fl2)"
  shows "let (fl2', e2) = flush_answer a2 fl2 e; (fl1', e1) = flush_answer a1 fl1 e2
    in unsynced E e1 k \<and> map_of (ce_lastPersisted e1) k = Some s1
       \<and> k \<notin> set (ce_dirty e1) \<union> flush_keys fl1' \<union> flush_keys fl2'"
  using assms by (simp add: flush_answer_def Let_def unsynced_def key_succeeded_last flush_keys_def)

section \<open>The requests of an operation\<close>

text \<open>What each operation of the user sends, once its thread was in step with the provider
  (\<open>t\<close> is the thread before the operation).\<close>

definition creation_request ::
  "jsstring \<Rightarrow> comment_anchor \<Rightarrow> new_comment option \<Rightarrow> suggestion option \<Rightarrow> api_call list" where
  "creation_request i a c sg = [Create_Call \<lparr>cr_id = i, cr_anchor = a, cr_comment = c, cr_suggestion = sg\<rparr>]"

definition note_fits :: "('t, 'm) engine \<Rightarrow> suggestion option \<Rightarrow> bool" where
  "note_fits e sg \<longleftrightarrow>
     (case sg of
        None \<Rightarrow> True
      | Some s \<Rightarrow> (case sg_author_note s of
                     Some (n # ns) \<Rightarrow> size_ok (ce_capabilities e) (n # ns) | _ \<Rightarrow> True))"

definition sent_comment :: "('t, 'm) engine \<Rightarrow> jsstring \<Rightarrow> jsstring \<Rightarrow> new_comment" where
  "sent_comment e i content =
     \<lparr>nc_id = i, nc_author_id = ce_userId e, nc_author_name = ce_userName e, nc_content = content,
      nc_mentions = Some (extractMentions content)\<rparr>"

definition resolve_request :: "('t, 'm) engine \<Rightarrow> jsstring \<Rightarrow> stored_thread \<Rightarrow> api_call list" where
  "resolve_request e i t =
     (if st_status t = Resolved_Thread then []
      else [Status_Call i \<lparr>us_status = Resolved_Thread, us_resolved_by = Some (ce_userId e)\<rparr>])"

fun requests_of :: "('t, 'm) engine \<Rightarrow> stored_thread option \<Rightarrow> comment_op \<Rightarrow> api_call list" where
  "requests_of e _ (Op_Create i c n a s u content sg) =
     (if size_ok (ce_capabilities e) (case content of None \<Rightarrow> [] | Some x \<Rightarrow> x) \<and> note_fits e sg
      then creation_request i a
             (case content of Some (x # xs) \<Rightarrow> Some (sent_comment e c (x # xs)) | _ \<Rightarrow> None) sg
      else [])"
| "requests_of e _ (Op_Commit i c n pl) =
     (let sg = Some \<lparr>sg_yjs_payload = sp_yjs_payload pl, sg_human_readable = sp_view pl,
              sg_author_id = ce_userId e, sg_author_name = ce_userName e,
              sg_author_note = sp_author_note pl, sg_status = Pending, sg_decided_by = None,
              sg_decided_by_name = None, sg_decided_at = None, sg_applied_version_id = None\<rparr>
      in if size_ok (ce_capabilities e) [] \<and> note_fits e sg
         then creation_request i (sp_anchor pl) None sg else [])"
| "requests_of e None (Op_Reply c n i content) = []"
| "requests_of e (Some t) (Op_Reply c n i content) =
     (if size_ok (ce_capabilities e) content \<and> c \<notin> cm_id ` set (st_comments t)
      then [Reply_Call i (sent_comment e c content)] else [])"
| "requests_of e None (Op_Resolve n i) = []"
| "requests_of e (Some t) (Op_Resolve n i) = resolve_request e i t"
| "requests_of e None (Op_Reopen i) = []"
| "requests_of e (Some t) (Op_Reopen i) =
     (if st_status t = Open_Thread then []
      else [Status_Call i \<lparr>us_status = Open_Thread, us_resolved_by = None\<rparr>])"
| "requests_of e _ (Op_Delete_Thread i) = [Delete_Call i]"
| "requests_of e None (Op_Decide n i d v) = []"
| "requests_of e (Some t) (Op_Decide n i d v) =
     (case st_suggestion t of
        None \<Rightarrow> []
      | Some s \<Rightarrow> resolve_request e i t @
          (if d = Pending \<or> d = sg_status s then []
           else [Decision_Call i \<lparr>sd_decision = d, sd_decided_by = ce_userId e,
                   sd_applied_version_id = v\<rparr>]))"
| "requests_of e _ (Op_Edit n i c content) = []"
| "requests_of e _ (Op_Delete_Comment n i c) = []"
| "requests_of e _ (Op_React n i c emoji) = []"
| "requests_of e _ (Op_Unreact i c emoji) = []"

lemma nc_id_new [simp]: "nc_id (to_new_comment c) = cm_id c"
  by (simp add: to_new_comment_def)

text \<open>A provider that accepts every request, and the requests it has seen.\<close>

definition accept_all :: "api_call \<Rightarrow> api_call list \<Rightarrow> fetch_answer \<times> api_call list" where
  "accept_all c w = (Response_Status 200, w @ [c])"

lemma accepted_200 [simp]: "call_accepted c (Response_Status 200)"
  by (cases c) (simp_all add: resp_ok_def)

lemma run_calls_accept [simp]: "run_calls accept_all calls w = (True, w @ calls)"
  by (induction calls arbitrary: w) (simp_all add: accept_all_def)

lemma work_of_key_cong:
  "ce_map e' = ce_map e \<Longrightarrow> ce_lastPersisted e' = ce_lastPersisted e \<Longrightarrow>
   work_of_key E e' k = work_of_key E e k"
  using readThread_cong [of e' e E] by (simp add: work_of_key_def split: option.split)

text \<open>The flush of one thread.\<close>

definition update_calls ::
  "('t, 'm) comment_env \<Rightarrow> ('t, 'm) engine \<Rightarrow> jsstring \<Rightarrow> api_call list" where
  "update_calls E e k =
     (case readThread E e k of
        None \<Rightarrow> []
      | Some t \<Rightarrow> if map_of (ce_lastPersisted e) k = Some t then []
                  else thread_calls k (map_of (ce_lastPersisted e) k) t)"

lemma flush_one:
  assumes plain: "\<not> is_deleted_key k" and dirty: "ce_dirty e = [] \<or> ce_dirty e = [k]"
    and clean: "ce_dirty e = [] \<Longrightarrow> map_of (ce_lastPersisted e) k = readThread E e k"
    and gone: "readThread E e k = None \<Longrightarrow> map_of (ce_lastPersisted e) k = None"
  shows "\<exists>e'. persist E accept_all (e, []) = (e', update_calls E e k)
    \<and> ce_dirty e' = [] \<and> readThread E e' k = readThread E e k
    \<and> map_of (ce_lastPersisted e') k = readThread E e k"
proof (cases "ce_dirty e = []")
  case True
  then show ?thesis using clean
    by (auto simp: persist_def update_calls_def split: option.split)
next
  case False
  then have d: "ce_dirty e = [k]" using dirty by simp
  let ?e = "e\<lparr>ce_dirty := []\<rparr>"
  have w: "work_of_key E ?e k = work_of_key E e k" by (rule work_of_key_cong) simp_all
  have r: "readThread E ?e = readThread E e" by (rule readThread_cong) simp
  have "persist E accept_all (e, []) = (key_succeeded k (work_of_key E e k) ?e, work_calls (work_of_key E e k))"
    by (simp add: persist_def d w flush_end_def Let_def)
  moreover have "work_calls (work_of_key E e k) = update_calls E e k"
    using plain by (simp add: work_of_key_def update_calls_def split: option.split)
  moreover have "map_of (ce_lastPersisted (key_succeeded k (work_of_key E e k) ?e)) k = readThread E e k"
    using plain gone by (auto simp: key_succeeded_last work_of_key_def split: option.split)
  ultimately show ?thesis by (simp add: r)
qed

lemma dirty_map_set: "ce_dirty (map_set E False k t e) = js_add k (ce_dirty e)"
  by (simp add: map_set_def observe_map_def Let_def)

lemma dirty_mutate:
  "ce_dirty e = [] \<Longrightarrow> ce_dirty (mutateThread E k f e) = [] \<or> ce_dirty (mutateThread E k f e) = [k]"
  by (simp add: mutateThread_def dirty_map_set js_add_def split: option.split)

lemma dirty_run_op:
  assumes "ce_dirty e = []" "\<And>i. oper \<noteq> Op_Delete_Thread i"
  shows "ce_dirty (run_op E oper e) = [] \<or> ce_dirty (run_op E oper e) = [op_thread oper]"
  using assms
  by (cases oper)
    (auto simp: commitSuggestion_def createThread_def addReply_def resolveThread_def reopenThread_def
      editComment_def deleteComment_def addReaction_def removeReaction_def decideSuggestion_def
      dirty_mutate dirty_map_set js_add_def Let_def split: option.split)

text \<open>The thread after each kind of operation, as the requests see it.\<close>

lemma update_calls_written:
  assumes "readThread E e' k = Some t'" "map_of (ce_lastPersisted e') k = Some t"
  shows "update_calls E e' k =
    reply_calls k t t' @ status_calls k t t' @ decision_calls k t t'"
proof (cases "t' = t")
  case True
  have "reply_calls k t t = []" "status_calls k t t = []" "decision_calls k t t = []"
    by (auto simp: reply_calls_def status_calls_def decision_calls_def filter_empty_conv
        split: option.split)
  then show ?thesis using assms True by (simp add: update_calls_def)
next
  case False
  then show ?thesis using assms by (simp add: update_calls_def thread_calls_def)
qed

lemma no_new_replies:
  "cm_id ` set (st_comments t') \<subseteq> cm_id ` set (st_comments t) \<Longrightarrow> reply_calls k t t' = []"
  by (auto simp: reply_calls_def filter_empty_conv)

lemma reply_calls_append:
  assumes "st_comments t' = st_comments t @ [c]" "cm_deleted_at c = None"
  shows "reply_calls k t t' =
    (if cm_id c \<in> cm_id ` set (st_comments t) then [] else [Reply_Call k (to_new_comment c)])"
  using assms by (auto simp: reply_calls_def filter_empty_conv)

text \<open>Operations that change neither the ids of the comments, nor the status, nor the decision.\<close>

lemma silent_update:
  assumes "readThread E e' k = Some t'" "map_of (ce_lastPersisted e') k = Some t"
    and "map cm_id (st_comments t') = map cm_id (st_comments t)" "st_status t' = st_status t"
    and "st_suggestion t' = st_suggestion t"
  shows "update_calls E e' k = []"
proof -
  have "cm_id ` set (st_comments t') = cm_id ` set (st_comments t)"
    using assms(3) by (metis list.set_map)
  then show ?thesis using assms
    by (auto simp: update_calls_written no_new_replies status_calls_def decision_calls_def
        split: option.split)
qed

lemma silent_mutate:
  assumes M: "ymap_laws (en_map E)" and "map_of (ce_lastPersisted e) k = readThread E e k"
    and "\<And>t t'. f t = Some t' \<Longrightarrow> map cm_id (st_comments t') = map cm_id (st_comments t)
      \<and> st_status t' = st_status t \<and> st_suggestion t' = st_suggestion t"
  shows "update_calls E (mutateThread E k f e) k = []"
proof (cases "\<exists>t t'. readThread E e k = Some t \<and> f t = Some t'")
  case True
  then obtain t t' where t: "readThread E e k = Some t" "f t = Some t'" by blast
  then have m: "mutateThread E k f e = map_set E False k t' e" by (simp add: mutateThread_def)
  show ?thesis unfolding m by (rule silent_update [where t = t and t' = t']) (use assms t M in auto)
next
  case False
  then have "mutateThread E k f e = e" by (auto simp: mutateThread_def split: option.split)
  then show ?thesis using assms(2) by (auto simp: update_calls_def split: option.split)
qed

lemma in_step_silent:
  "map_of (ce_lastPersisted e) k = readThread E e k \<Longrightarrow> update_calls E e k = []"
  by (auto simp: update_calls_def split: option.split)

lemma creation_update:
  assumes M: "ymap_laws (en_map E)" and "map_of (ce_lastPersisted e) i = None" "readThread E e i = None"
  shows "update_calls E (after e (createThread E i c n a s u content sg e)) i =
    requests_of e t0 (Op_Create i c n a s u content sg)"
proof (cases "size_ok (ce_capabilities e) (case content of None \<Rightarrow> [] | Some x \<Rightarrow> x) \<and> note_fits e sg")
  case True
  then have fits: "\<not> (case sg of
                 Some s \<Rightarrow> (case sg_author_note s of
                              Some (n # ns) \<Rightarrow> \<not> size_ok (ce_capabilities e) (n # ns)
                            | _ \<Rightarrow> False)
               | None \<Rightarrow> False)"
    by (auto simp: note_fits_def split: option.splits list.splits)
  show ?thesis using True fits assms(2)
    by (auto simp: createThread_def update_calls_def M thread_calls_def create_call_def
        creation_request_def sent_comment_def to_new_comment_def new_reply_def
        split: option.split list.split)
next
  case False
  then have "after e (createThread E i c n a s u content sg e) = e"
    by (auto simp: createThread_def note_fits_def split: option.splits list.splits)
  then show ?thesis using False assms(2,3) by (auto simp: in_step_silent)
qed

lemma operation_update:
  assumes M: "ymap_laws (en_map E)" and sync: "map_of (ce_lastPersisted e) (op_thread oper) = readThread E e (op_thread oper)"
    and fresh: "is_creation oper \<Longrightarrow> readThread E e (op_thread oper) = None"
    and keep: "\<And>i. oper \<noteq> Op_Delete_Thread i"
  shows "update_calls E (run_op E oper e) (op_thread oper) = requests_of e (readThread E e (op_thread oper)) oper"
proof (cases oper)
  case (Op_Create i c n a s u content sg)
  then show ?thesis using creation_update [OF M] sync fresh by simp
next
  case (Op_Commit i c n pl)
  then show ?thesis using creation_update [OF M, where content = None] sync fresh
    by (simp add: commitSuggestion_def Let_def)
next
  case (Op_Reply c n i content)
  show ?thesis
  proof (cases "readThread E e i")
    case None
    then show ?thesis using sync by (simp add: Op_Reply addReply_def in_step_silent)
  next
    case (Some t)
    then show ?thesis using sync M
      by (auto simp: Op_Reply addReply_def Let_def in_step_silent update_calls_written
          reply_calls_append [where t = t] new_reply_def status_calls_def decision_calls_def
          to_new_comment_def sent_comment_def split: option.split)
  qed
next
  case (Op_Resolve n i)
  then show ?thesis using sync M
    by (cases "readThread E e i")
      (auto simp: resolveThread_def mutateThread_def in_step_silent update_calls_written
        no_new_replies status_calls_def decision_calls_def resolve_request_def split: option.split)
next
  case (Op_Reopen i)
  then show ?thesis using sync M
    by (cases "readThread E e i")
      (auto simp: reopenThread_def mutateThread_def in_step_silent update_calls_written
        no_new_replies status_calls_def decision_calls_def split: option.split)
next
  case (Op_Decide n i d v)
  then show ?thesis using sync M
    by (cases "readThread E e i")
      (auto simp: decideSuggestion_def mutateThread_def in_step_silent update_calls_written
        no_new_replies status_calls_def decision_calls_def resolve_request_def split: option.split)
next
  case (Op_Edit n i c content)
  then show ?thesis using sync
    by (auto simp: editComment_def in_step_silent intro!: silent_mutate [OF M])
next
  case (Op_Delete_Comment n i c)
  then show ?thesis using sync
    by (auto simp: deleteComment_def in_step_silent intro!: silent_mutate [OF M])
next
  case (Op_React n i c emoji)
  then show ?thesis using sync
    by (auto simp: addReaction_def Let_def in_step_silent intro!: silent_mutate [OF M]
        split: option.splits if_splits)
next
  case (Op_Unreact i c emoji)
  then show ?thesis using sync
    by (auto simp: removeReaction_def in_step_silent intro!: silent_mutate [OF M] split: option.splits)
qed (use keep in simp)

lemma run_op_keeps:
  assumes "ymap_laws (en_map E)" "\<And>i. oper \<noteq> Op_Delete_Thread i"
    and "readThread E e (op_thread oper) \<noteq> None"
  shows "readThread E (run_op E oper e) (op_thread oper) \<noteq> None"
  using assms
  by (cases oper)
    (auto simp: commitSuggestion_def createThread_def addReply_def resolveThread_def reopenThread_def
      editComment_def deleteComment_def addReaction_def removeReaction_def decideSuggestion_def
      mutateThread_def Let_def split: option.splits if_splits)

lemma delete_flush:
  assumes M: "ymap_laws (en_map E)" and plain: "\<not> is_deleted_key k" and "ce_dirty e = []"
  shows "\<exists>e'. persist E accept_all (deleteThread E k e, []) = (e', [Delete_Call k])
    \<and> ce_dirty e' = [] \<and> readThread E e' k = None \<and> map_of (ce_lastPersisted e') k = None"
proof -
  let ?e = "deleteThread E k e" and ?f = "\<lambda>e. e\<lparr>ce_dirty := []\<rparr>"
  have d: "ce_dirty ?e = [deleted_key k] \<or> ce_dirty ?e = [k, deleted_key k]"
    using assms(3)
    by (auto simp: deleteThread_def Let_def map_delete_def observe_map_def js_add_def)
  have "readThread E ?e = readThread E (map_delete E False k e)"
    by (rule readThread_cong) (simp add: deleteThread_def Let_def)
  moreover have "readThread E (?f ?e) = readThread E ?e" by (rule readThread_cong) simp
  ultimately have r: "readThread E (?f ?e) k = None" using M by simp
  then have w: "work_of_key E (?f ?e) k = Nothing_To_Do" using plain by (simp add: work_of_key_def)
  have dw: "work_of_key E x (deleted_key k) = Delete_Work k" for x by (simp add: work_of_key_def)
  from d show ?thesis
    by (elim disjE) (simp_all add: persist_def w dw flush_end_def Let_def key_succeeded_last r)
qed

section \<open>Properties\<close>


text \<open>C25: What an operation of the user sends. When a thread is in step with what was persisted last
  and nothing is dirty, then after any operation on it a flush whose requests are all accepted sends
  exactly these requests: one creation with the first comment and the suggestion for a new thread; one
  reply with its id, author, text and mentions; one change of status where the status changes; a
  decision (after the change of status) where the decision changes; one deletion. It sends nothing for
  an operation that is refused, and nothing for edits and deletions of single comments and for
  reactions. Afterwards the thread is in step again and nothing is dirty. A creation takes a fresh id,
  and ids do not start with the prefix of deletion keys.\<close>

theorem operation_requests:
  assumes M: "ymap_laws (en_map E)" and plain: "\<not> is_deleted_key (op_thread oper)"
    and clean: "ce_dirty e = []"
    and sync: "map_of (ce_lastPersisted e) (op_thread oper) = readThread E e (op_thread oper)"
    and fresh: "is_creation oper \<Longrightarrow> readThread E e (op_thread oper) = None"
  shows "\<exists>e'. persist E accept_all (run_op E oper e, []) =
      (e', requests_of e (readThread E e (op_thread oper)) oper)
    \<and> ce_dirty e' = []
    \<and> readThread E e' (op_thread oper) = readThread E (run_op E oper e) (op_thread oper)
    \<and> map_of (ce_lastPersisted e') (op_thread oper) = readThread E e' (op_thread oper)"
proof (cases "\<exists>i. oper = Op_Delete_Thread i")
  case True
  then obtain i where o: "oper = Op_Delete_Thread i" by blast
  have "readThread E (deleteThread E i e) = readThread E (map_delete E False i e)"
    by (rule readThread_cong) (simp add: deleteThread_def Let_def)
  then show ?thesis using delete_flush [OF M plain clean] M by (auto simp: o)
next
  case False
  let ?k = "op_thread oper" and ?e = "run_op E oper e"
  have lw: "local_write E ?k e ?e" using M by (rule run_op_local_write)
  have last: "ce_lastPersisted ?e = ce_lastPersisted e" using lw by (simp add: local_write_def)
  have same: "ce_dirty ?e = [] \<Longrightarrow> readThread E ?e ?k = readThread E e ?k"
    using lw by (auto simp: local_write_def)
  have gone: "readThread E ?e ?k = None \<Longrightarrow> readThread E e ?k = None"
    using run_op_keeps [OF M] False fresh by metis
  have "\<exists>e'. persist E accept_all (?e, []) = (e', update_calls E ?e ?k) \<and> ce_dirty e' = []
      \<and> readThread E e' ?k = readThread E ?e ?k \<and> map_of (ce_lastPersisted e') ?k = readThread E ?e ?k"
    by (rule flush_one) (use plain dirty_run_op [OF clean] False same gone sync last in auto)
  then show ?thesis using operation_update [OF M sync fresh] False by auto
qed

text \<open>What the creation request leaves out is never sent: after the flush that created the
  thread, a flush has nothing to do for it, and when it changes again no later flush sends a reply
  that was in the thread at its creation.\<close>

theorem dropped_replies_never_sent:
  assumes "readThread E e k = Some stored" "\<not> is_deleted_key k"
    and "map_of (ce_lastPersisted e) k = None"
  shows "let e' = key_succeeded k (work_of_key E e k) e
    in work_of_key E e' k = Nothing_To_Do
       \<and> (\<forall>later c. c \<in> set (st_comments stored) \<longrightarrow>
            Reply_Call k (to_new_comment c) \<notin> set (thread_calls k (map_of (ce_lastPersisted e') k) later))"
proof -
  let ?e = "key_succeeded k (work_of_key E e k) e"
  have w: "work_of_key E e k = Persist_Work stored (thread_calls k None stored)"
    using assms by (simp add: work_of_key_def)
  have last: "map_of (ce_lastPersisted ?e) k = Some stored" by (simp add: w key_succeeded_last)
  have "work_of_key E ?e k = Nothing_To_Do" using assms last by (simp add: work_of_key_def)
  moreover have "Reply_Call k (to_new_comment c) \<notin> set (thread_calls k (Some stored) later)"
    if "c \<in> set (st_comments stored)" for later c
  proof
    assume "Reply_Call k (to_new_comment c) \<in> set (thread_calls k (Some stored) later)"
    then obtain d where "to_new_comment d = to_new_comment c" "cm_id d \<notin> cm_id ` set (st_comments stored)"
      by (auto simp: thread_calls_def reply_calls_def status_calls_def decision_calls_def
          split: option.splits if_splits)
    then show False using that by (metis imageI nc_id_new)
  qed
  ultimately show ?thesis by (simp add: Let_def last)
qed

text \<open>The text of an edited comment is never sent: for a thread already on the provider, changing
  contents, mentions or reactions alone needs no request, and the flush records the thread as
  persisted.\<close>

theorem comment_edits_not_sent:
  assumes "readThread E e k = Some (prev\<lparr>st_comments := map g (st_comments prev), st_reactions := rs\<rparr>)"
    and "map_of (ce_lastPersisted e) k = Some prev" "\<not> is_deleted_key k" "\<And>c. cm_id (g c) = cm_id c"
  shows "work_calls (work_of_key E e k) = []"
proof -
  let ?t = "prev\<lparr>st_comments := map g (st_comments prev), st_reactions := rs\<rparr>"
  have "reply_calls k prev ?t = []" using assms(4) by (auto simp: reply_calls_def filter_empty_conv)
  moreover have "status_calls k prev ?t = []" "decision_calls k prev ?t = []"
    by (auto simp: status_calls_def decision_calls_def split: option.split)
  ultimately show ?thesis using assms(1-3) by (simp add: work_of_key_def thread_calls_def)
qed

text \<open>Polling does not lose a decision: when a thread arrives whose suggestion the provider still
  reports as pending while it is decided locally, the local decision stays, the thread is dirty, and
  the next flush sends the decision.\<close>

theorem poll_keeps_local_decision:
  assumes "ymap_laws (en_map E)" "readThread E e (ct_id th) = Some t" "st_suggestion t = Some s"
    and "sg_status s \<noteq> Pending" "\<not> is_deleted_key (ct_id th)"
    and "case ct_suggestion th of None \<Rightarrow> True | Some w \<Rightarrow> sg_status w = Pending"
  shows "let e' = insertThreadFromWire E th e
    in (\<exists>t'. readThread E e' (ct_id th) = Some t' \<and> st_suggestion t' = Some s)
       \<and> ct_id th \<in> set (ce_dirty e')
       \<and> (\<exists>r. sd_decision r = sg_status s
            \<and> Decision_Call (ct_id th) r \<in> set (work_calls (work_of_key E e' (ct_id th))))"
proof -
  let ?e = "insertThreadFromWire E th e" and ?i = "ct_id th"
  have keep: "keeps_decision (readThread E e ?i) th" using assms(2-4,6) by (simp add: keeps_decision_def)
  have r: "readThread E ?e ?i = Some ((wire_thread th)\<lparr>st_suggestion := Some s\<rparr>)"
    using keep assms(2,3) by (simp add: insert_wire_read [OF assms(1)])
  have l: "map_of (ce_lastPersisted ?e) ?i = Some (wire_thread th)"
    by (simp add: insert_wire_fields(1))
  have d: "map_option sg_status (st_suggestion (wire_thread th)) \<noteq> Some (sg_status s)"
    using assms(4,6) by (cases "ct_suggestion th") (simp_all add: wire_thread_def)
  then have neq: "wire_thread th \<noteq> (wire_thread th)\<lparr>st_suggestion := Some s\<rparr>"
    by (metis option.simps(9) stored_thread.select_convs(7) stored_thread.surjective
        stored_thread.update_convs(7))
  have "work_calls (work_of_key E ?e ?i) =
      thread_calls ?i (Some (wire_thread th)) ((wire_thread th)\<lparr>st_suggestion := Some s\<rparr>)"
    using r l neq assms(5) by (simp add: work_of_key_def)
  moreover have "\<exists>r. sd_decision r = sg_status s \<and> Decision_Call ?i r
      \<in> set (thread_calls ?i (Some (wire_thread th)) ((wire_thread th)\<lparr>st_suggestion := Some s\<rparr>))"
    using d assms(4) by (simp add: thread_calls_def decision_calls_def)
      (metis suggestion_decision_request.select_convs(1))
  moreover have "?i \<in> set (ce_dirty ?e)" using keep by (simp add: insert_wire_fields(2))
  ultimately show ?thesis using r by (simp add: Let_def)
qed

text \<open>Polling loses replies that are not sent yet: when a polled thread has no pending local
  decision, the local thread becomes the polled one, is no longer dirty, and needs no flush, whatever
  comments it had.\<close>

theorem poll_drops_unsent_replies:
  assumes "ymap_laws (en_map E)" "\<not> keeps_decision (readThread E e (ct_id th)) th"
    and "\<not> is_deleted_key (ct_id th)"
  shows "let e' = insertThreadFromWire E th e
    in map_option st_comments (readThread E e' (ct_id th)) = Some (ct_comments th)
       \<and> ct_id th \<notin> set (ce_dirty e') \<and> work_of_key E e' (ct_id th) = Nothing_To_Do"
proof -
  let ?e = "insertThreadFromWire E th e"
  have r: "readThread E ?e (ct_id th) = Some (wire_thread th)"
    using assms(2) by (simp add: insert_wire_read [OF assms(1)])
  moreover have "map_of (ce_lastPersisted ?e) (ct_id th) = Some (wire_thread th)"
    by (simp add: insert_wire_fields(1))
  ultimately show ?thesis using assms(2,3)
    by (simp add: Let_def work_of_key_def insert_wire_fields(2)) (simp add: wire_thread_def)
qed

section \<open>Retries\<close>

definition always_fails :: "api_call \<Rightarrow> unit \<Rightarrow> fetch_answer \<times> unit" where
  "always_fails c w = (Network_Error, w)"

lemma run_calls_fail: "calls \<noteq> [] \<Longrightarrow> run_calls always_fails calls () = (False, ())"
  by (cases calls) (simp_all add: always_fails_def)

lemma persist_fails:
  assumes "ce_dirty e = [k]" "work_calls (work_of_key E (e\<lparr>ce_dirty := []\<rparr>) k) \<noteq> []"
  shows "persist E always_fails (e, ()) =
    (let n = (case map_of (ce_retryCount e) k of None \<Rightarrow> 0 | Some n \<Rightarrow> n) + 1
     in (if n \<ge> 5
         then e\<lparr>ce_dirty := [], ce_retryCount := AList.delete k (ce_retryCount e),
                ce_gaveUp := ce_gaveUp e @ [k]\<rparr>
         else e\<lparr>ce_dirty := [k], ce_retryCount := AList.update k n (ce_retryCount e),
                ce_persistTimer := True\<rparr>, ()))"
  using assms
  by (simp add: persist_def run_calls_fail key_failed_def MAX_PERSIST_RETRIES_def flush_end_def
      Let_def schedulePersist_def js_add_def)

lemma persist_fails_n:
  assumes "ce_dirty e = [k]" "map_of (ce_retryCount e) k = None"
    and "work_calls (work_of_key E e k) \<noteq> []"
  shows "n \<le> 4 \<Longrightarrow> \<exists>e'. (persist E always_fails ^^ n) (e, ()) = (e', ()) \<and> ce_dirty e' = [k]
    \<and> ce_map e' = ce_map e \<and> ce_lastPersisted e' = ce_lastPersisted e \<and> ce_gaveUp e' = ce_gaveUp e
    \<and> (case map_of (ce_retryCount e') k of None \<Rightarrow> 0 | Some n \<Rightarrow> n) = n"
proof (induction n)
  case 0
  then show ?case using assms(1,2) by simp
next
  case (Suc n)
  then obtain e' where e': "(persist E always_fails ^^ n) (e, ()) = (e', ())" "ce_dirty e' = [k]"
    "ce_map e' = ce_map e" "ce_lastPersisted e' = ce_lastPersisted e" "ce_gaveUp e' = ce_gaveUp e"
    "(case map_of (ce_retryCount e') k of None \<Rightarrow> 0 | Some n \<Rightarrow> n) = n" by auto
  have "work_of_key E (e'\<lparr>ce_dirty := []\<rparr>) k = work_of_key E e k"
    by (rule work_of_key_cong) (simp_all add: e')
  with assms(3) e'(2) show ?case using persist_fails [of e' k E] Suc.prems e'
    by (simp add: Let_def)
qed

text \<open>A key whose requests keep failing is tried five times: after each of the first four failed
  flushes it is dirty again; after the fifth it is dropped and reported as given up, while the
  thread stays as it is and is not recorded as persisted.\<close>

theorem gives_up_after_five:
  assumes "ce_dirty e = [k]" "map_of (ce_retryCount e) k = None"
    and "work_calls (work_of_key E e k) \<noteq> []"
  shows "ce_dirty (fst ((persist E always_fails ^^ n) (e, ()))) = (if n \<le> 4 then [k] else [])
    \<and> (let e5 = fst ((persist E always_fails ^^ 5) (e, ()))
       in ce_gaveUp e5 = ce_gaveUp e @ [k] \<and> ce_map e5 = ce_map e
          \<and> ce_lastPersisted e5 = ce_lastPersisted e)"
proof -
  obtain e4 where e4: "(persist E always_fails ^^ 4) (e, ()) = (e4, ())" "ce_dirty e4 = [k]"
    "ce_map e4 = ce_map e" "ce_lastPersisted e4 = ce_lastPersisted e" "ce_gaveUp e4 = ce_gaveUp e"
    "(case map_of (ce_retryCount e4) k of None \<Rightarrow> 0 | Some n \<Rightarrow> n) = 4"
    using persist_fails_n [OF assms, of 4] by auto
  have "work_of_key E (e4\<lparr>ce_dirty := []\<rparr>) k = work_of_key E e k"
    by (rule work_of_key_cong) (simp_all add: e4)
  with assms(3) e4 have e5: "persist E always_fails (e4, ()) =
      (e4\<lparr>ce_dirty := [], ce_retryCount := AList.delete k (ce_retryCount e4),
          ce_gaveUp := ce_gaveUp e4 @ [k]\<rparr>, ())"
    using persist_fails [of e4 k E] by (simp add: Let_def)
  have five: "(persist E always_fails ^^ 5) (e, ()) = persist E always_fails (e4, ())"
    using funpow.simps(2) [of 4 "persist E always_fails"] e4(1)
    by (simp add: numeral_eq_Suc)
  have idle: "(persist E always_fails ^^ m) (x, ()) = (x, ())" if "ce_dirty x = []" for m x
    by (induction m) (simp_all add: persist_def that)
  have "ce_dirty (fst ((persist E always_fails ^^ n) (e, ()))) = []" if "\<not> n \<le> 4"
  proof -
    have "(persist E always_fails ^^ n) (e, ()) =
        (persist E always_fails ^^ (n - 5)) ((persist E always_fails ^^ 5) (e, ()))"
      using that funpow_add [of "n - 5" 5 "persist E always_fails"] by (simp add: o_def)
    then show ?thesis by (simp add: five e5 idle)
  qed
  moreover have "ce_dirty (fst ((persist E always_fails ^^ n) (e, ()))) = [k]" if "n \<le> 4"
    using persist_fails_n [OF assms that] by auto
  ultimately show ?thesis by (simp add: five e5 e4 Let_def)
qed

section \<open>Witnesses\<close>

definition sample_thread :: stored_thread where
  "sample_thread =
     \<lparr>st_anchor = \<lparr>ca_start = 0, ca_end = 1, ca_quoted_text = []\<rparr>, st_start_rel = None,
      st_end_rel = None, st_status = Open_Thread, st_resolvedBy = None, st_resolvedAt = None,
      st_suggestion = None, st_comments = [], st_reactions = None, st_createdAt = []\<rparr>"

definition sample_comment :: "string \<Rightarrow> comment" where
  "sample_comment i =
     \<lparr>cm_id = js i, cm_thread_id = js ''t1'', cm_author_id = js ''u1'', cm_author_name = js ''Ann'',
      cm_content = js ''x'', cm_mentions = None, cm_reactions = None, cm_created_at = [],
      cm_updated_at = None, cm_deleted_at = None\<rparr>"

definition sample_suggestion :: "suggestion_status \<Rightarrow> suggestion" where
  "sample_suggestion st =
     \<lparr>sg_yjs_payload = None,
      sg_human_readable = \<lparr>sv_summary = [], sv_before_text = [], sv_after_text = [], sv_operations = []\<rparr>,
      sg_author_id = js ''u1'', sg_author_name = js ''Ann'', sg_author_note = None, sg_status = st,
      sg_decided_by = None, sg_decided_by_name = None, sg_decided_at = None,
      sg_applied_version_id = None\<rparr>"

definition sample_wire :: comment_thread where
  "sample_wire = toWireThread (js ''t1'') sample_thread (js ''doc'')"

text \<open>The engine after a write of the thread \<open>t1\<close>.\<close>

definition holding :: "stored_thread \<Rightarrow> (jsstring, (jsstring \<times> map_value) list) engine" where
  "holding t = map_set sample_env False (js ''t1'') t sample_engine"

lemma t1_plain: "\<not> is_deleted_key (js ''t1'')"
  by (simp add: is_deleted_key_def deleted_prefix_def js_def)

lemma holding_read: "readThread sample_env (holding t) (js ''t1'') = Some t"
  by (simp add: holding_def sample_env_laws)

lemma holding_last: "ce_lastPersisted (holding t) = []"
  by (simp add: holding_def sample_engine_def new_engine_def)

lemma holding_dirty: "ce_dirty (holding t) = [js ''t1'']"
  by (simp add: holding_def map_set_def observe_map_def notifyListeners_def schedulePersist_def
      Let_def sample_engine_def new_engine_def js_add_def)



text \<open>The thread \<open>t1\<close> in step with what was persisted.\<close>

definition in_step :: "stored_thread \<Rightarrow> (jsstring, (jsstring \<times> map_value) list) engine" where
  "in_step t = (holding t)\<lparr>ce_dirty := [], ce_lastPersisted := [(js ''t1'', t)]\<rparr>"

lemma in_step_read: "readThread sample_env (in_step t) (js ''t1'') = Some t"
proof -
  have "readThread sample_env (in_step t) = readThread sample_env (holding t)"
    by (rule readThread_cong) (simp add: in_step_def)
  then show ?thesis by (simp add: holding_read)
qed

theorem operation_requests_witness:
  "\<exists>e'. persist sample_env accept_all
      (run_op sample_env (Op_Resolve (js ''now'') (js ''t1'')) (in_step sample_thread), []) =
    (e', [Status_Call (js ''t1'') \<lparr>us_status = Resolved_Thread, us_resolved_by = Some (js ''u1'')\<rparr>])"
proof -
  let ?op = "Op_Resolve (js ''now'') (js ''t1'')" and ?e = "in_step sample_thread"
  have "ce_userId ?e = js ''u1''" by (simp add: in_step_def holding_def sample_engine_def new_engine_def)
  then have "requests_of ?e (Some sample_thread) ?op =
      [Status_Call (js ''t1'') \<lparr>us_status = Resolved_Thread, us_resolved_by = Some (js ''u1'')\<rparr>]"
    by (simp add: resolve_request_def sample_thread_def)
  moreover have "ce_dirty ?e = []" "map_of (ce_lastPersisted ?e) (js ''t1'') = Some sample_thread"
    by (simp_all add: in_step_def)
  ultimately show ?thesis
    using operation_requests [OF sample_env_laws, of ?op ?e] by (auto simp: t1_plain in_step_read)
qed

theorem poll_in_flight_forgets_witness:
  "unsynced sample_env (snd (flush_answer (Response_Status 200)
      \<lparr>fl_ids = [], fl_current = Some (js ''t1'',
          Persist_Work (sample_thread\<lparr>st_status := Resolved_Thread\<rparr>) [], [Delete_Call []]), fl_failed = []\<rparr>
      (insertThreadFromWire sample_env sample_wire (holding sample_thread)))) (js ''t1'')"
proof -
  let ?fl = "\<lparr>fl_ids = [], fl_current = Some (js ''t1'',
      Persist_Work (sample_thread\<lparr>st_status := Resolved_Thread\<rparr>) [], [Delete_Call []]), fl_failed = []\<rparr>"
  have i: "ct_id sample_wire = js ''t1''" by (simp add: sample_wire_def toWireThread_def)
  have "sample_thread\<lparr>st_status := Resolved_Thread\<rparr> \<noteq> wire_thread sample_wire"
    by (simp add: sample_wire_def wire_thread_def toWireThread_def sample_thread_def)
  moreover have "\<not> keeps_decision (readThread sample_env (holding sample_thread) (ct_id sample_wire)) sample_wire"
    by (simp add: i holding_read keeps_decision_def sample_thread_def)
  ultimately show ?thesis
    using poll_in_flight_forgets [OF sample_env_laws _ accepted_200, of ?fl sample_wire
        "sample_thread\<lparr>st_status := Resolved_Thread\<rparr>" "[]" "Delete_Call []" "holding sample_thread"]
    by (simp add: i split: prod.splits)
qed

theorem dropped_replies_never_sent_witness:
  "let t = sample_thread\<lparr>st_comments := [sample_comment ''c1'', sample_comment ''c2'']\<rparr>;
       e = key_succeeded (js ''t1'') (work_of_key sample_env (holding t) (js ''t1'')) (holding t)
   in work_of_key sample_env e (js ''t1'') = Nothing_To_Do
      \<and> Reply_Call (js ''t1'') (to_new_comment (sample_comment ''c2''))
          \<notin> set (thread_calls (js ''t1'') (map_of (ce_lastPersisted e) (js ''t1'')) t)"
  using dropped_replies_never_sent [OF holding_read t1_plain,
      of "sample_thread\<lparr>st_comments := [sample_comment ''c1'', sample_comment ''c2'']\<rparr>"]
  by (simp add: Let_def holding_last)

theorem comment_edits_not_sent_witness:
  "work_calls (work_of_key sample_env
     (holding (sample_thread\<lparr>st_comments := [(sample_comment ''c1'')\<lparr>cm_content := js ''y''\<rparr>],
        st_reactions := None\<rparr>)
       \<lparr>ce_lastPersisted := [(js ''t1'', sample_thread\<lparr>st_comments := [sample_comment ''c1'']\<rparr>)]\<rparr>)
     (js ''t1'')) = []"
proof (rule comment_edits_not_sent
    [where prev = "sample_thread\<lparr>st_comments := [sample_comment ''c1'']\<rparr>"
       and g = "\<lambda>c. c\<lparr>cm_content := js ''y''\<rparr>" and rs = None])
  let ?t = "sample_thread\<lparr>st_comments := [(sample_comment ''c1'')\<lparr>cm_content := js ''y''\<rparr>],
        st_reactions := None\<rparr>"
  let ?l = "[(js ''t1'', sample_thread\<lparr>st_comments := [sample_comment ''c1'']\<rparr>)]"
  have "readThread sample_env (holding ?t\<lparr>ce_lastPersisted := ?l\<rparr>) = readThread sample_env (holding ?t)"
    by (rule readThread_cong) simp
  then show "readThread sample_env (holding ?t\<lparr>ce_lastPersisted := ?l\<rparr>) (js ''t1'') =
      Some (sample_thread\<lparr>st_comments := [sample_comment ''c1'']\<rparr>
        \<lparr>st_comments := map (\<lambda>c. c\<lparr>cm_content := js ''y''\<rparr>)
           (st_comments (sample_thread\<lparr>st_comments := [sample_comment ''c1'']\<rparr>)),
         st_reactions := None\<rparr>)"
    by (simp add: holding_read)
qed (simp_all add: t1_plain)

theorem poll_keeps_local_decision_witness:
  "js ''t1'' \<in> set (ce_dirty (insertThreadFromWire sample_env sample_wire
     (holding (sample_thread\<lparr>st_suggestion := Some (sample_suggestion Accepted)\<rparr>))))"
  using poll_keeps_local_decision [OF sample_env_laws,
      of "holding (sample_thread\<lparr>st_suggestion := Some (sample_suggestion Accepted)\<rparr>)" sample_wire
         "sample_thread\<lparr>st_suggestion := Some (sample_suggestion Accepted)\<rparr>" "sample_suggestion Accepted"]
  by (simp add: Let_def sample_wire_def toWireThread_def holding_read t1_plain sample_suggestion_def)
    (simp add: sample_thread_def)

theorem poll_drops_unsent_replies_witness:
  "map_option st_comments (readThread sample_env (insertThreadFromWire sample_env sample_wire
     (holding (sample_thread\<lparr>st_comments := [sample_comment ''c1'']\<rparr>))) (js ''t1'')) = Some []"
proof -
  let ?e = "holding (sample_thread\<lparr>st_comments := [sample_comment ''c1'']\<rparr>)"
  have i: "ct_id sample_wire = js ''t1''" "ct_comments sample_wire = []"
    by (simp_all add: sample_wire_def toWireThread_def sample_thread_def)
  have "\<not> keeps_decision (readThread sample_env ?e (ct_id sample_wire)) sample_wire"
    by (simp add: i holding_read keeps_decision_def sample_thread_def)
  from poll_drops_unsent_replies [OF sample_env_laws this] show ?thesis
    by (simp add: i t1_plain Let_def)
qed

theorem gives_up_after_five_witness:
  "ce_gaveUp (fst ((persist sample_env always_fails ^^ 5) (holding sample_thread, ()))) = [js ''t1'']"
proof -
  have "work_calls (work_of_key sample_env (holding sample_thread) (js ''t1'')) \<noteq> []"
    by (simp add: work_of_key_def t1_plain holding_read holding_last thread_calls_def)
  moreover have "ce_retryCount (holding sample_thread) = []" "ce_gaveUp (holding sample_thread) = []"
    by (simp_all add: holding_def sample_engine_def new_engine_def)
  ultimately show ?thesis
    using gives_up_after_five [OF holding_dirty, of sample_thread sample_env 5]
    by (simp add: Let_def)
qed

end
