(* ===== verification/Blame_Engine.thy ===== *)
theory Blame_Engine
  imports Blame_Segments
begin

text \<open>
  \<open>frontend/src/collab/blame-engine.ts\<close>: authorship of the live text, read off the chain of items
  inside \<open>Y.Text\<close>, the colour of a user, and the log of live edits. The chain of items is the input.
  Shown: the segments tile the visible text and name, for every character, the user of the client
  that inserted it; the colour hash is the polynomial with base 31 modulo \<open>2 ^ 32\<close> and always selects a
  palette entry; the log never exceeds the quota and keeps a most recent part.
\<close>

section \<open>The item chain\<close>

record y_item =
  yi_client :: int
  yi_length :: nat
  yi_deleted :: bool
  yi_content :: bool

text \<open>The items that count: not deleted, with content.\<close>

definition visible_item :: "y_item \<Rightarrow> bool" where
  "visible_item it \<longleftrightarrow> \<not> yi_deleted it \<and> yi_content it"

text \<open>The client of every visible character.\<close>

definition char_clients :: "y_item list \<Rightarrow> int list" where
  "char_clients items =
     concat (map (\<lambda>it. replicate (yi_length it) (yi_client it)) (filter visible_item items))"

definition items_ok :: "y_item list \<Rightarrow> bool" where
  "items_ok items \<longleftrightarrow> (\<forall>it \<in> set items. visible_item it \<longrightarrow> 0 < yi_length it)"

section \<open>Live blame\<close>

definition user_of :: "(int \<Rightarrow> jsstring option) \<Rightarrow> int \<Rightarrow> jsstring" where
  "user_of clientToUser client =
     (case clientToUser client of Some u \<Rightarrow> u | None \<Rightarrow> js ''user-'' @ js_of_int client)"

fun blame_items ::
  "(int \<Rightarrow> jsstring option) \<Rightarrow> y_item list \<Rightarrow> blame_segment list \<Rightarrow> nat \<Rightarrow> blame_segment list" where
  "blame_items clientToUser [] segments offset = segments"
| "blame_items clientToUser (it # items) segments offset =
     (if visible_item it then
        blame_items clientToUser items
          (push_segment segments offset (yi_length it) (user_of clientToUser (yi_client it)))
          (offset + yi_length it)
      else blame_items clientToUser items segments offset)"

definition extractBlameFromText ::
  "(int \<Rightarrow> jsstring option) \<Rightarrow> y_item list \<Rightarrow> blame_segment list" where
  "extractBlameFromText clientToUser items = blame_items clientToUser items [] 0"

text \<open>\<open>getClientToUserMap\<close>: the awareness states with a user name (\<open>None\<close>: no awareness); a name is
  taken when it is not empty.\<close>

fun client_names :: "(int \<times> jsstring option) list \<Rightarrow> (int, jsstring) jsmap \<Rightarrow> (int, jsstring) jsmap" where
  "client_names [] m = m"
| "client_names ((client, name) # states) m =
     (case name of
        Some (c # cs) \<Rightarrow> client_names states (jm_set client (c # cs) m)
      | _ \<Rightarrow> client_names states m)"

definition getClientToUserMap :: "(int \<times> jsstring option) list option \<Rightarrow> (int, jsstring) jsmap" where
  "getClientToUserMap states = (case states of None \<Rightarrow> [] | Some l \<Rightarrow> client_names l [])"

definition getLiveBlame ::
  "(int \<times> jsstring option) list option \<Rightarrow> y_item list \<Rightarrow> blame_segment list" where
  "getLiveBlame states items = extractBlameFromText (map_of (getClientToUserMap states)) items"

section \<open>Colours\<close>

definition PALETTE :: "string list" where
  "PALETTE =
     [''#e06c75'', ''#61afef'', ''#98c379'', ''#d19a66'', ''#c678dd'', ''#56b6c2'', ''#e5c07b'',
      ''#be5046'', ''#528bff'', ''#7c8fa6'', ''#f5a623'', ''#50e3c2'', ''#b8e986'', ''#bd10e0'',
      ''#4a90d9'']"

text \<open>\<open>hash = ((hash << 5) - hash + code) | 0\<close> on 32-bit integers.\<close>

definition hash_step :: "32 word \<Rightarrow> code_unit \<Rightarrow> 32 word" where
  "hash_step h c = push_bit 5 h - h + ucast c"

definition name_hash :: "jsstring \<Rightarrow> 32 word" where
  "name_hash userName = foldl hash_step 0 userName"

definition colour_index :: "jsstring \<Rightarrow> nat" where
  "colour_index userName = nat (\<bar>sint (name_hash userName)\<bar> mod int (length PALETTE))"

text \<open>Out of range, \<open>PALETTE[i]\<close> is \<open>undefined\<close>.\<close>

definition assignColor :: "jsstring \<Rightarrow> string option" where
  "assignColor userName =
     (if colour_index userName < length PALETTE then Some (PALETTE ! colour_index userName) else None)"

section \<open>The live log\<close>

record live_blame_entry =
  lb_userName :: jsstring
  lb_timestamp :: int

datatype update_origin = Named_Origin jsstring | Other_Origin

text \<open>\<open>_resolveUserName\<close>: the origin when it is a string, else the local user's name when there is
  one, else \<open>unknown\<close>.\<close>

definition resolveUserName :: "jsstring option \<Rightarrow> update_origin \<Rightarrow> jsstring" where
  "resolveUserName localName orig =
     (case orig of
        Named_Origin s \<Rightarrow> s
      | Other_Origin \<Rightarrow> (case localName of Some (c # cs) \<Rightarrow> c # cs | _ \<Rightarrow> js ''unknown''))"

text \<open>The engine's log: whether the observer is attached, and the stored entries. \<open>fits\<close> says whether
  storage accepts a list of entries (\<open>setItem\<close> throws when the quota is exceeded).\<close>

record live_log =
  ll_observing :: bool
  ll_entries :: "live_blame_entry list"

definition startLiveBlame :: "live_log \<Rightarrow> live_log" where
  "startLiveBlame l = (if ll_observing l then l else l\<lparr>ll_observing := True\<rparr>)"

definition stopLiveBlame :: "live_log \<Rightarrow> live_log" where
  "stopLiveBlame l = l\<lparr>ll_observing := False, ll_entries := []\<rparr>"

definition log_update ::
  "(live_blame_entry list \<Rightarrow> bool) \<Rightarrow> live_blame_entry \<Rightarrow> live_log \<Rightarrow> live_log" where
  "log_update fits entry l =
     (if \<not> ll_observing l then l
      else let existing = ll_entries l @ [entry];
               half = drop (length existing div 2) existing
           in if fits existing then l\<lparr>ll_entries := existing\<rparr>
              else if fits half then l\<lparr>ll_entries := half\<rparr> else l)"

section \<open>Lemmas\<close>

lemma char_clients_Cons:
  "char_clients (it # items) =
     (if visible_item it then replicate (yi_length it) (yi_client it) else []) @ char_clients items"
  by (simp add: char_clients_def)

lemma blame_items_spec:
  assumes "tiling 0 segs off" "items_ok items"
  shows "tiling 0 (blame_items f items segs off) (off + length (char_clients items))
    \<and> char_authors (blame_items f items segs off) =
        char_authors segs @ map (user_of f) (char_clients items)"
  using assms
proof (induction f items segs off rule: blame_items.induct)
  case (1 f segs off)
  then show ?case by (simp add: char_clients_def)
next
  case (2 f it items segs off)
  have ok: "items_ok items" using 2(4) by (simp add: items_ok_def)
  show ?case
  proof (cases "visible_item it")
    case True
    then have len: "0 < yi_length it" using 2(4) by (simp add: items_ok_def)
    let ?s = "push_segment segs off (yi_length it) (user_of f (yi_client it))"
    have t: "tiling 0 ?s (off + yi_length it)"
      using 2(3) len by (rule push_segment_tiling)
    have a: "char_authors ?s = char_authors segs @ replicate (yi_length it) (user_of f (yi_client it))"
      using push_segment_authors [OF 2(3)] by simp
    show ?thesis using 2(1) [OF True t ok] True a
      by (simp add: char_clients_Cons add.assoc)
  next
    case False
    then show ?thesis using 2(2) [OF False 2(3) ok] by (simp add: char_clients_Cons)
  qed
qed

lemma hash_step_31: "hash_step h c = 31 * h + ucast c"
  by (simp add: hash_step_def push_bit_eq_mult)

lemma foldl_hash:
  "foldl hash_step h cs =
     of_nat (foldl (\<lambda>n c. 31 * n + unat c) n cs) + 31 ^ length cs * (h - of_nat n)"
proof (induction cs arbitrary: h n)
  case Nil
  show ?case by simp
next
  case (Cons c cs)
  have "(ucast c :: 32 word) = of_nat (unat c)" by simp
  then show ?case
    using Cons [of "hash_step h c" "31 * n + unat c"]
    by (simp add: hash_step_31 algebra_simps)
qed

section \<open>Properties\<close>

text \<open>C39: Live blame tiles the visible text: the segments are contiguous, non-empty and maximal from
  0 to its length, and every character is attributed to the user of the client that inserted it (or
  to \<open>user-<client>\<close> when no name is known).\<close>

theorem live_blame_exact:
  assumes "items_ok items"
  shows "tiling 0 (extractBlameFromText f items) (length (char_clients items))
    \<and> char_authors (extractBlameFromText f items) = map (user_of f) (char_clients items)"
  using blame_items_spec [of "[]" 0 items f] assms by (simp add: extractBlameFromText_def)

theorem live_blame_exact_witness:
  "char_authors (extractBlameFromText (\<lambda>c. if c = 1 then Some (js ''ann'') else None)
     [\<lparr>yi_client = 1, yi_length = 2, yi_deleted = False, yi_content = True\<rparr>,
      \<lparr>yi_client = 9, yi_length = 5, yi_deleted = True, yi_content = True\<rparr>,
      \<lparr>yi_client = 1, yi_length = 1, yi_deleted = False, yi_content = True\<rparr>]) =
   [js ''ann'', js ''ann'', js ''ann'']"
  using live_blame_exact
    [of "[\<lparr>yi_client = 1, yi_length = 2, yi_deleted = False, yi_content = True\<rparr>,
      \<lparr>yi_client = 9, yi_length = 5, yi_deleted = True, yi_content = True\<rparr>,
      \<lparr>yi_client = 1, yi_length = 1, yi_deleted = False, yi_content = True\<rparr>]"
      "\<lambda>c. if c = 1 then Some (js ''ann'') else None"]
  by (simp add: items_ok_def visible_item_def char_clients_def user_of_def numeral_2_eq_2)

text \<open>Every user has a colour of the palette, whatever the name: the index is in range (also for
  the most negative hash), and the hash is the base-31 polynomial of the code units modulo 2 to the
  32.\<close>

theorem colour_always_defined:
  "assignColor userName = Some (PALETTE ! colour_index userName)
   \<and> unat (name_hash userName) = foldl (\<lambda>n c. 31 * n + unat c) 0 userName mod 2 ^ 32"
proof -
  have "\<bar>sint (name_hash userName)\<bar> mod 15 < 15" "0 \<le> \<bar>sint (name_hash userName)\<bar> mod 15"
    by simp_all
  moreover have "length PALETTE = 15" by (simp add: PALETTE_def)
  ultimately have "colour_index userName < length PALETTE"
    by (simp add: colour_index_def nat_less_iff)
  moreover have "name_hash userName = of_nat (foldl (\<lambda>n c. 31 * n + unat c) 0 userName)"
    using foldl_hash [of 0 userName 0] by (simp add: name_hash_def)
  ultimately show ?thesis by (simp add: assignColor_def unat_of_nat take_bit_eq_mod)
qed

text \<open>The log after any sequence of updates is within the quota once it was, and each stored list
  ends with the newest entry or is unchanged.\<close>

lemma log_update_fits: "fits (ll_entries l) \<Longrightarrow> fits (ll_entries (log_update fits entry l))"
  by (simp add: log_update_def Let_def)

lemma log_update_newest:
  "ll_entries (log_update fits entry l) = ll_entries l
   \<or> (\<exists>n. ll_entries (log_update fits entry l) = drop n (ll_entries l) @ [entry])"
proof -
  let ?x = "ll_entries l @ [entry]"
  have "length ?x div 2 \<le> length (ll_entries l)" by simp
  then have "drop (length ?x div 2) ?x = drop (length ?x div 2) (ll_entries l) @ [entry]"
    by (simp only: drop_append) simp
  then show ?thesis
    by (auto simp: log_update_def Let_def intro: exI [of _ "0 :: nat"])
qed

end
