(* ===== verification/Position_Map.thy ===== *)
theory Position_Map
  imports Blame_Engine
begin

text \<open>
  \<open>frontend/src/collab/pm-position-map.ts\<close>: the map from offsets of the shared source text to
  positions of the rich-text document, its use in both directions, and the detection of formatting
  edits. The text nodes that \<open>doc.descendants\<close> visits, in document order, are the input. Shown: a
  mapped offset holds the character found at its position; offsets and positions grow together; the
  two projections pick exactly the visible characters of a range and fit each other; a formatting
  override is reported only for text of one user between delimiters of another.
\<close>

section \<open>The map\<close>

record text_node =
  tn_pos :: nat
  tn_text :: jsstring
  tn_marks :: "jsstring list"

text \<open>\<open>for (i ...) map.set(idx + i, pos + i)\<close>.\<close>

fun set_range :: "nat \<Rightarrow> nat \<Rightarrow> nat \<Rightarrow> (nat, nat) jsmap \<Rightarrow> (nat, nat) jsmap" where
  "set_range idx pos 0 m = m"
| "set_range idx pos (Suc n) m = set_range (Suc idx) (Suc pos) n (jm_set idx pos m)"

fun place_nodes :: "jsstring \<Rightarrow> text_node list \<Rightarrow> nat \<Rightarrow> (nat, nat) jsmap \<Rightarrow> (nat, nat) jsmap" where
  "place_nodes yText [] cursor m = m"
| "place_nodes yText (node # nodes) cursor m =
     (if length (tn_text node) = 0 then place_nodes yText nodes cursor m
      else case js_indexOf yText (tn_text node) cursor of
             None \<Rightarrow> place_nodes yText nodes cursor m
           | Some idx \<Rightarrow>
               place_nodes yText nodes (idx + length (tn_text node))
                 (set_range idx (tn_pos node) (length (tn_text node)) m))"

definition buildPositionMap :: "text_node list \<Rightarrow> jsstring \<Rightarrow> (nat, nat) jsmap" where
  "buildPositionMap nodes yText = place_nodes yText nodes 0 []"

section \<open>From the document to the source\<close>

text \<open>The loop over the entries in the order of offsets: \<open>break\<close> at the first position past the
  selection, skip positions before it, remember the first and the last offset.\<close>

fun scan_entries ::
  "nat \<Rightarrow> nat \<Rightarrow> (nat \<times> nat) list \<Rightarrow> (nat \<times> nat) option \<Rightarrow> (nat \<times> nat) option" where
  "scan_entries fromPM toPM [] acc = acc"
| "scan_entries fromPM toPM ((yOff, pmPos) # rest) acc =
     (if pmPos \<ge> toPM then acc
      else if pmPos < fromPM then scan_entries fromPM toPM rest acc
      else scan_entries fromPM toPM rest
             (Some (case acc of None \<Rightarrow> yOff | Some (s, _) \<Rightarrow> s, yOff)))"

definition pmRangeToYText ::
  "text_node list \<Rightarrow> jsstring \<Rightarrow> nat \<Rightarrow> nat \<Rightarrow> (nat \<times> nat) option" where
  "pmRangeToYText nodes yText fromPM toPM =
     (if toPM \<le> fromPM then None
      else case scan_entries fromPM toPM (sort_key fst (buildPositionMap nodes yText)) None of
             None \<Rightarrow> None
           | Some (s, lastYOff) \<Rightarrow> Some (s, lastYOff + 1))"

section \<open>From the source to the document\<close>

definition sortedKeys :: "(nat, nat) jsmap \<Rightarrow> nat list" where
  "sortedKeys m = sort (map fst m)"

definition snap_start :: "nat \<Rightarrow> nat \<Rightarrow> (nat, nat) jsmap \<Rightarrow> (nat \<times> nat) option" where
  "snap_start a b m =
     (case jm_get m a of
        Some p \<Rightarrow> Some (a, p)
      | None \<Rightarrow>
          (case filter (\<lambda>k. a \<le> k) (sortedKeys m) of
             [] \<Rightarrow> None
           | k # _ \<Rightarrow> if k \<ge> b then None else map_option (\<lambda>p. (k, p)) (jm_get m k)))"

definition snap_end :: "nat \<Rightarrow> nat \<Rightarrow> (nat, nat) jsmap \<Rightarrow> nat option" where
  "snap_end fromKey b m =
     (case jm_get m (b - 1) of
        Some p \<Rightarrow> Some p
      | None \<Rightarrow>
          (case filter (\<lambda>k. k \<le> b - 1) (rev (sortedKeys m)) of
             [] \<Rightarrow> None
           | k # _ \<Rightarrow> if k < fromKey then None else jm_get m k))"

text \<open>\<open>None\<close> is the result without fields.\<close>

definition snapRange :: "nat \<Rightarrow> nat \<Rightarrow> (nat, nat) jsmap \<Rightarrow> (nat \<times> nat) option" where
  "snapRange a b m =
     (if b \<le> a then None else if m = [] then None
      else case snap_start a b m of
             None \<Rightarrow> None
           | Some (fromKey, fromPos) \<Rightarrow>
               (case snap_end fromKey b m of
                  None \<Rightarrow> None
                | Some lastPos \<Rightarrow> Some (fromPos, lastPos + 1)))"

section \<open>Formatting authorship\<close>

record delimiter_pattern =
  dp_mark :: jsstring
  dp_open :: jsstring
  dp_close :: jsstring

definition pattern :: "string \<Rightarrow> string \<Rightarrow> string \<Rightarrow> delimiter_pattern" where
  "pattern m a b = \<lparr>dp_mark = js m, dp_open = js a, dp_close = js b\<rparr>"

definition DEFAULT_DELIMITERS :: "delimiter_pattern list" where
  "DEFAULT_DELIMITERS =
     [pattern ''bold'' ''**'' ''**'', pattern ''bold'' ''__'' ''__'',
      pattern ''bold'' ''<strong>'' ''</strong>'', pattern ''bold'' ''<b>'' ''</b>'',
      pattern ''italic'' ''*'' ''*'', pattern ''italic'' ''_'' ''_'',
      pattern ''italic'' ''<em>'' ''</em>'', pattern ''italic'' ''<i>'' ''</i>'',
      pattern ''strike'' ''~~'' ''~~'', pattern ''strike'' ''<s>'' ''</s>'',
      pattern ''strike'' ''<del>'' ''</del>'', pattern ''code'' ''`'' ''`'',
      pattern ''code'' ''<code>'' ''</code>'', pattern ''strong'' ''**'' ''**'',
      pattern ''strong'' ''<strong>'' ''</strong>'', pattern ''em'' ''*'' ''*'',
      pattern ''em'' ''<em>'' ''</em>'', pattern ''s'' ''~~'' ''~~'',
      pattern ''s'' ''<s>'' ''</s>'']"

record formatting_override =
  fo_from :: nat
  fo_to :: nat
  fo_delimiterUser :: jsstring
  fo_textUser :: jsstring

definition findYTextStartForPMPos :: "(nat, nat) jsmap \<Rightarrow> nat \<Rightarrow> nat option" where
  "findYTextStartForPMPos posMap pmPos = map_option fst (List.find (\<lambda>e. snd e = pmPos) posMap)"

fun collect_clients :: "y_item list \<Rightarrow> nat \<Rightarrow> nat \<Rightarrow> nat \<Rightarrow> int jsset \<Rightarrow> int jsset" where
  "collect_clients [] a b offset clients = clients"
| "collect_clients (it # items) a b offset clients =
     (if visible_item it then
        collect_clients items a b (offset + yi_length it)
          (if offset < b \<and> offset + yi_length it > a then js_add (yi_client it) clients else clients)
      else collect_clients items a b offset clients)"

definition collectClientsInRange :: "y_item list \<Rightarrow> nat \<Rightarrow> nat \<Rightarrow> int jsset" where
  "collectClientsInRange items a b = collect_clients items a b 0 []"

text \<open>\<open>substring(i, j)\<close> for \<open>i \<le> j\<close>.\<close>

definition substring :: "jsstring \<Rightarrow> nat \<Rightarrow> nat \<Rightarrow> jsstring" where
  "substring s i j = take (j - i) (drop i s)"

text \<open>One pattern at a marked text of offsets \<open>[startOffset, endOffset)\<close>; the \<open>continue\<close>s of the
  source are \<open>None\<close>.\<close>

definition try_pattern ::
  "jsstring \<Rightarrow> y_item list \<Rightarrow> (int \<Rightarrow> jsstring option) \<Rightarrow> (nat, nat) jsmap \<Rightarrow> nat \<Rightarrow> nat
     \<Rightarrow> delimiter_pattern \<Rightarrow> formatting_override option" where
  "try_pattern yTextStr items clientToUser posMap startOffset endOffset p =
     (let openLen = length (dp_open p); closeLen = length (dp_close p) in
      if startOffset < openLen then None
      else if substring yTextStr (startOffset - openLen) startOffset \<noteq> dp_open p then None
      else if substring yTextStr endOffset (endOffset + closeLen) \<noteq> dp_close p then None
      else
        let openClients = collectClientsInRange items (startOffset - openLen) startOffset;
            closeClients = collectClientsInRange items endOffset (endOffset + closeLen);
            delimClients = fold js_add closeClients (fold js_add openClients []);
            textClients = collectClientsInRange items startOffset endOffset
        in case (delimClients, textClients) of
             ([delimClient], [textClient]) \<Rightarrow>
               if delimClient = textClient then None
               else (case (clientToUser delimClient, clientToUser textClient) of
                       (Some (d # ds), Some (t # ts)) \<Rightarrow>
                         if d # ds = t # ts then None
                         else (case snapRange startOffset endOffset posMap of
                                 Some (f, u) \<Rightarrow>
                                   Some \<lparr>fo_from = f, fo_to = u, fo_delimiterUser = d # ds,
                                         fo_textUser = t # ts\<rparr>
                               | None \<Rightarrow> None)
                     | _ \<Rightarrow> None)
           | _ \<Rightarrow> None)"

text \<open>The first pattern of the mark that qualifies.\<close>

fun first_some :: "('a \<Rightarrow> 'b option) \<Rightarrow> 'a list \<Rightarrow> 'b option" where
  "first_some f [] = None"
| "first_some f (x # xs) = (case f x of Some y \<Rightarrow> Some y | None \<Rightarrow> first_some f xs)"

definition node_overrides ::
  "jsstring \<Rightarrow> y_item list \<Rightarrow> (int \<Rightarrow> jsstring option) \<Rightarrow> delimiter_pattern list \<Rightarrow> (nat, nat) jsmap
     \<Rightarrow> text_node \<Rightarrow> formatting_override list" where
  "node_overrides yTextStr items clientToUser patterns posMap node =
     (if length (tn_text node) = 0 then []
      else case findYTextStartForPMPos posMap (tn_pos node) of
             None \<Rightarrow> []
           | Some startOffset \<Rightarrow>
               List.map_filter
                 (\<lambda>mark. first_some
                    (try_pattern yTextStr items clientToUser posMap startOffset
                       (startOffset + length (tn_text node)))
                    (filter (\<lambda>p. dp_mark p = mark) patterns))
                 (tn_marks node))"

definition findFormattingOverrides ::
  "text_node list \<Rightarrow> jsstring \<Rightarrow> y_item list \<Rightarrow> (int \<Rightarrow> jsstring option) \<Rightarrow> delimiter_pattern list
     \<Rightarrow> formatting_override list" where
  "findFormattingOverrides nodes yTextStr items clientToUser patterns =
     concat (map (node_overrides yTextStr items clientToUser patterns
                    (buildPositionMap nodes yTextStr)) nodes)"

section \<open>The map is sound and ordered\<close>

lemma set_range_append:
  "(\<And>k. k \<in> fst ` set m \<Longrightarrow> k < idx) \<Longrightarrow>
   set_range idx pos n m = m @ map (\<lambda>i. (idx + i, pos + i)) [0..<n]"
proof (induction n arbitrary: idx pos m)
  case 0
  show ?case by simp
next
  case (Suc n)
  have "idx \<notin> fst ` set m" using Suc.prems [of idx] by auto
  then have "AList.update idx pos m = m @ [(idx, pos)]" by (rule jm_set_fresh)
  moreover have "set_range (Suc idx) (Suc pos) n (m @ [(idx, pos)]) =
      (m @ [(idx, pos)]) @ map (\<lambda>i. (Suc idx + i, Suc pos + i)) [0..<n]"
    by (rule Suc.IH) (use Suc.prems in \<open>auto simp: less_Suc_eq\<close>)
  moreover have "map (\<lambda>i. (idx + i, pos + i)) [0..<Suc n] =
      (idx, pos) # map (\<lambda>i. (Suc idx + i, Suc pos + i)) [0..<n]"
    by (simp add: upt_conv_Cons map_Suc_upt [symmetric] o_def del: upt_Suc)
  ultimately show ?case by simp
qed

text \<open>The nodes stand in document order.\<close>

fun nodes_ordered :: "nat \<Rightarrow> text_node list \<Rightarrow> bool" where
  "nodes_ordered lo [] = True"
| "nodes_ordered lo (node # nodes) =
     (lo \<le> tn_pos node \<and> nodes_ordered (tn_pos node + length (tn_text node)) nodes)"

definition entry_less :: "nat \<times> nat \<Rightarrow> nat \<times> nat \<Rightarrow> bool" where
  "entry_less x y \<longleftrightarrow> fst x < fst y \<and> snd x < snd y"

definition char_ok :: "jsstring \<Rightarrow> text_node list \<Rightarrow> nat \<times> nat \<Rightarrow> bool" where
  "char_ok yText nodes e \<longleftrightarrow> fst e < length yText
     \<and> (\<exists>node \<in> set nodes. \<exists>i < length (tn_text node).
          snd e = tn_pos node + i \<and> yText ! fst e = tn_text node ! i)"

lemma place_nodes_sound:
  assumes "\<And>e. e \<in> set m \<Longrightarrow> fst e < cursor \<and> char_ok yText all e" "set nodes \<subseteq> set all"
    and "cursor \<le> length yText"
  shows "e \<in> set (place_nodes yText nodes cursor m) \<Longrightarrow> char_ok yText all e"
  using assms
proof (induction yText nodes cursor m rule: place_nodes.induct)
  case (1 yText cursor m)
  then show ?case by auto
next
  case (2 yText node nodes cursor m)
  show ?case
  proof (cases "length (tn_text node) = 0 \<or> js_indexOf yText (tn_text node) cursor = None")
    case True
    then show ?thesis using 2 by (auto split: option.splits)
  next
    case False
    then obtain idx where idx: "js_indexOf yText (tn_text node) cursor = Some idx" by auto
    let ?n = "length (tn_text node)"
    have n: "?n \<noteq> 0" using False by simp
    note is_at = js_indexOf_Some [OF idx]
    have ge: "cursor \<le> idx" using js_indexOf_ge [OF idx] 2(7) by simp
    have set: "set_range idx (tn_pos node) ?n m = m @ map (\<lambda>i. (idx + i, tn_pos node + i)) [0..<?n]"
      by (rule set_range_append) (use 2(5) ge in force)
    have old: "fst e < idx + ?n \<and> char_ok yText all e"
      if "e \<in> set (set_range idx (tn_pos node) ?n m)" for e
    proof -
      from that consider "e \<in> set m" | i where "i < ?n" "e = (idx + i, tn_pos node + i)"
        by (auto simp: set)
      then show ?thesis
      proof cases
        case 1
        then show ?thesis using 2(5) [of e] ge by simp
      next
        case i: 2
        have "yText ! (idx + i) = tn_text node ! i"
          using is_at(2,3) i(1) by (metis (no_types, lifting) add_lessD1 add.commute le_add1
              length_drop nth_drop nth_take order_less_le_trans add_leD1)
        then have "char_ok yText all (idx + i, tn_pos node + i)"
          using i(1) 2(6) is_at(2) by (auto simp: char_ok_def intro!: bexI [of _ node] exI [of _ i])
        then show ?thesis using i by simp
      qed
    qed
    show ?thesis
      using 2(3) [OF _ idx] 2(4) False idx old 2(6) is_at(2) by simp
  qed
qed

lemma sorted_wrt_set_range:
  "sorted_wrt entry_less (map (\<lambda>i. (idx + i, pos + i)) [0..<n])"
  by (simp add: sorted_wrt_map entry_less_def sorted_wrt_upt [unfolded strict_sorted_iff])

lemma place_nodes_ordered:
  assumes "sorted_wrt entry_less m" "\<And>e. e \<in> set m \<Longrightarrow> fst e < cursor \<and> snd e < lo"
    and "nodes_ordered lo nodes" "cursor \<le> length yText"
  shows "sorted_wrt entry_less (place_nodes yText nodes cursor m)"
  using assms
proof (induction yText nodes cursor m arbitrary: lo rule: place_nodes.induct)
  case (1 yText cursor m)
  then show ?case by simp
next
  case (2 yText node nodes cursor m)
  let ?n = "length (tn_text node)" and ?p = "tn_pos node"
  from 2(6) have lo: "lo \<le> ?p" "nodes_ordered (?p + ?n) nodes" by auto
  have m_lo: "fst e < cursor \<and> snd e < ?p + ?n" if "e \<in> set m" for e
    using 2(5) [OF that] lo(1) by simp
  show ?case
  proof (cases "length (tn_text node) = 0 \<or> js_indexOf yText (tn_text node) cursor = None")
    case True
    then show ?thesis using 2(1) [OF _ 2(4) m_lo lo(2) 2(7)] 2(2) [OF _ _ 2(4) m_lo lo(2) 2(7)]
      by (auto split: option.splits)
  next
    case False
    then obtain idx where idx: "js_indexOf yText (tn_text node) cursor = Some idx" by auto
    have ge: "cursor \<le> idx" using js_indexOf_ge [OF idx] 2(7) by simp
    let ?r = "map (\<lambda>i. (idx + i, ?p + i)) [0..<?n]"
    have set: "set_range idx ?p ?n m = m @ ?r"
      by (rule set_range_append) (use 2(5) ge in force)
    have "entry_less x y" if "x \<in> set m" "y \<in> set ?r" for x y
      using 2(5) [OF that(1)] that(2) ge lo(1) by (auto simp: entry_less_def)
    then have "sorted_wrt entry_less (m @ ?r)"
      using 2(4) sorted_wrt_set_range [of idx ?p ?n] by (simp add: sorted_wrt_append)
    moreover have "fst e < idx + ?n \<and> snd e < ?p + ?n" if "e \<in> set (m @ ?r)" for e
      using that 2(5) ge lo(1) False by fastforce
    ultimately show ?thesis
      using 2(3) [OF _ idx, of "?p + ?n"] False idx lo(2) js_indexOf_Some(2) [OF idx] by (simp add: set)
  qed
qed

lemma buildPositionMap_ordered:
  "nodes_ordered 0 nodes \<Longrightarrow> sorted_wrt entry_less (buildPositionMap nodes yText)"
  unfolding buildPositionMap_def by (rule place_nodes_ordered) auto

text \<open>What an ordered map gives.\<close>

lemma ordered_distinct: "sorted_wrt entry_less m \<Longrightarrow> distinct (map fst m) \<and> sorted (map fst m)"
  by (induction m) (auto simp: entry_less_def less_imp_le)

lemma ordered_lookup:
  "sorted_wrt entry_less m \<Longrightarrow> map_of m k = Some p \<longleftrightarrow> (k, p) \<in> set m"
  using ordered_distinct [of m] by simp

lemma ordered_mono:
  assumes "sorted_wrt entry_less m" "(a, p) \<in> set m" "(b, q) \<in> set m" "a < b"
  shows "p < q"
  using assms by (induction m) (auto simp: entry_less_def)

lemma ordered_mono_le:
  "sorted_wrt entry_less m \<Longrightarrow> (a, p) \<in> set m \<Longrightarrow> (b, q) \<in> set m \<Longrightarrow> a \<le> b \<Longrightarrow> p \<le> q"
  using ordered_mono [of m a p b q] ordered_lookup [of m a p] ordered_lookup [of m a q]
  by (cases "a = b") auto

lemma ordered_sortedKeys: "sorted_wrt entry_less m \<Longrightarrow> sortedKeys m = map fst m"
  using ordered_distinct [of m] by (simp add: sortedKeys_def sorted_sort_id)

lemma ordered_sort_entries: "sorted_wrt entry_less m \<Longrightarrow> sort_key fst m = m"
proof -
  have "sorted (map f xs) \<Longrightarrow> sort_key f xs = xs" for f :: "nat \<times> nat \<Rightarrow> nat" and xs
    by (induction xs) (simp_all add: insort_is_Cons)
  then show "sorted_wrt entry_less m \<Longrightarrow> ?thesis" using ordered_distinct [of m] by simp
qed

section \<open>The two projections\<close>

text \<open>The offsets a range of the source shows in the document.\<close>

definition shown_in :: "(nat, nat) jsmap \<Rightarrow> nat \<Rightarrow> nat \<Rightarrow> nat \<times> nat \<Rightarrow> bool" where
  "shown_in m a b e \<longleftrightarrow> e \<in> set m \<and> a \<le> fst e \<and> fst e < b"

lemma snap_start_spec:
  assumes m: "sorted_wrt entry_less m" and ab: "a < b"
  shows "case snap_start a b m of
      None \<Rightarrow> \<forall>e. \<not> shown_in m a b e
    | Some e \<Rightarrow> shown_in m a b e \<and> (\<forall>e'. shown_in m a b e' \<longrightarrow> fst e \<le> fst e')"
proof (cases "map_of m a")
  case (Some p)
  then show ?thesis using ab ordered_lookup [OF m, of a p] by (simp add: snap_start_def shown_in_def)
next
  case None
  then have a: "a \<notin> fst ` set m" by (simp add: map_of_eq_None_iff)
  let ?ks = "filter (\<lambda>k. a \<le> k) (map fst m)"
  have sorted: "sorted ?ks" using ordered_distinct [OF m] by (simp add: sorted_wrt_filter)
  have mem: "fst e \<in> set ?ks" if "e \<in> set m" "a \<le> fst e" for e using that by simp
  show ?thesis
  proof (cases ?ks)
    case Nil
    then have "\<not> shown_in m a b e" for e using mem [of e] by (auto simp: shown_in_def)
    then show ?thesis using None Nil by (simp add: snap_start_def ordered_sortedKeys [OF m])
  next
    case (Cons k ks)
    then have least: "k \<le> fst e" if "e \<in> set m" "a \<le> fst e" for e
      using mem [OF that] sorted by auto
    have "k \<in> set ?ks" by (simp add: Cons)
    then obtain p where p: "(k, p) \<in> set m" "a \<le> k" by auto
    then have "map_of m k = Some p" using ordered_lookup [OF m] by simp
    then show ?thesis using None Cons p least ab
      by (fastforce simp: snap_start_def ordered_sortedKeys [OF m] shown_in_def)
  qed
qed

lemma snap_end_spec:
  assumes m: "sorted_wrt entry_less m" and e: "shown_in m a b (k0, p0)"
  shows "\<exists>k p. snap_end k0 b m = Some p \<and> shown_in m a b (k, p)
    \<and> (\<forall>e'. shown_in m a b e' \<longrightarrow> fst e' \<le> k)"
proof (cases "map_of m (b - 1)")
  case (Some p)
  then have "(b - 1, p) \<in> set m" using ordered_lookup [OF m] by simp
  moreover have "a \<le> b - 1" "0 < b" using e by (auto simp: shown_in_def)
  ultimately show ?thesis using Some
    by (intro exI [of _ "b - 1"] exI [of _ p]) (auto simp: snap_end_def shown_in_def)
next
  case None
  let ?ks = "filter (\<lambda>k. k \<le> b - 1) (rev (map fst m))"
  have "rev ?ks = filter (\<lambda>k. k \<le> b - 1) (map fst m)" by (metis rev_filter rev_rev_ident)
  then have "sorted (rev ?ks)" using ordered_distinct [OF m] by (simp add: sorted_wrt_filter)
  have k0: "(k0, p0) \<in> set m" "a \<le> k0" "k0 < b" using e by (auto simp: shown_in_def)
  then have "k0 \<in> set ?ks" by force
  then have "?ks \<noteq> []" by (metis empty_iff empty_set)
  then obtain k ks where ks: "?ks = k # ks" by (meson neq_Nil_conv)
  have "sorted (rev (k # ks))" using \<open>sorted (rev ?ks)\<close> by (simp only: ks)
  then have ge: "x \<le> k" if "x \<in> set ?ks" for x using that unfolding ks by (auto simp: sorted_append)
  have "k \<in> set ?ks" unfolding ks by simp
  then obtain p where p: "(k, p) \<in> set m" "k \<le> b - 1" by auto
  have "k0 \<le> k" by (rule ge) fact
  moreover have "map_of m k = Some p" using p ordered_lookup [OF m] by simp
  ultimately have "snap_end k0 b m = Some p"
    using None ks by (simp add: snap_end_def ordered_sortedKeys [OF m])
  moreover have "fst e' \<le> k" if "shown_in m a b e'" for e'
    using that by (intro ge) (force simp: shown_in_def)
  moreover have "shown_in m a b (k, p)" using p k0 \<open>k0 \<le> k\<close> by (auto simp: shown_in_def)
  ultimately show ?thesis by blast
qed

lemma snapRange_spec:
  assumes m: "sorted_wrt entry_less m"
  shows "case snapRange a b m of
      None \<Rightarrow> \<forall>e. \<not> shown_in m a b e
    | Some (f, u) \<Rightarrow> f < u \<and> (\<forall>e. shown_in m a b e \<longrightarrow> f \<le> snd e \<and> snd e < u)
        \<and> (\<exists>e e'. shown_in m a b e \<and> snd e = f \<and> shown_in m a b e' \<and> snd e' + 1 = u)"
proof (cases "b \<le> a \<or> m = []")
  case True
  then show ?thesis by (auto simp: snapRange_def shown_in_def)
next
  case False
  then have ab: "a < b" by simp
  show ?thesis
  proof (cases "snap_start a b m")
    case None
    then show ?thesis using snap_start_spec [OF m ab] False by (simp add: snapRange_def)
  next
    case (Some kp)
    obtain k0 p0 where kp: "kp = (k0, p0)" by (cases kp)
    have first: "shown_in m a b (k0, p0)" "\<And>e'. shown_in m a b e' \<Longrightarrow> k0 \<le> fst e'"
      using snap_start_spec [OF m ab] Some kp by auto
    obtain k p where last: "snap_end k0 b m = Some p" "shown_in m a b (k, p)"
      "\<And>e'. shown_in m a b e' \<Longrightarrow> fst e' \<le> k"
      using snap_end_spec [OF m first(1)] by blast
    have in_range: "p0 \<le> snd e \<and> snd e < p + 1" if "shown_in m a b e" for e
      using that first last ordered_mono_le [OF m] by (cases e) (auto simp: shown_in_def less_Suc_eq_le)
    have "snapRange a b m = Some (p0, p + 1)"
      using False Some kp last(1) by (simp add: snapRange_def)
    moreover have "p0 < p + 1" using in_range [OF first(1)] by simp
    moreover have "\<exists>e e'. shown_in m a b e \<and> snd e = p0 \<and> shown_in m a b e' \<and> snd e' + 1 = p + 1"
      using first(1) last(2) by (metis snd_conv)
    moreover have "\<forall>e. shown_in m a b e \<longrightarrow> p0 \<le> snd e \<and> snd e < p + 1" using in_range by blast
    ultimately show ?thesis by simp
  qed
qed

text \<open>The scan over ordered entries: below the selection, inside it, above it.\<close>

lemma scan_inside:
  assumes "sorted_wrt entry_less m" "\<And>e. e \<in> set m \<Longrightarrow> s \<le> fst e \<and> f \<le> snd e"
  shows "scan_entries f u m (Some (s, l)) =
    Some (s, last (l # map fst (filter (\<lambda>e. snd e < u) m)))"
  using assms
proof (induction m arbitrary: l)
  case Nil
  show ?case by simp
next
  case (Cons e m)
  obtain y p where e: "e = (y, p)" by (cases e)
  show ?case
  proof (cases "p < u")
    case True
    have "f \<le> p" using Cons.prems(2) [of e] by (simp add: e)
    then show ?thesis using True Cons.IH [of y] Cons.prems by (simp add: e)
  next
    case False
    then have "filter (\<lambda>e. snd e < u) m = []"
      using Cons.prems(1) by (auto simp: e filter_empty_conv entry_less_def)
    then show ?thesis using False by (simp add: e)
  qed
qed

lemma scan_spec:
  assumes "sorted_wrt entry_less m"
  shows "scan_entries f u m None =
    (case filter (\<lambda>e. f \<le> snd e \<and> snd e < u) m of
       [] \<Rightarrow> None
     | e # es \<Rightarrow> Some (fst e, last (fst e # map fst es)))"
  using assms
proof (induction m)
  case Nil
  show ?case by simp
next
  case (Cons e m)
  obtain y p where e: "e = (y, p)" by (cases e)
  have above: "y \<le> fst x \<and> p < snd x" if "x \<in> set m" for x
    using Cons.prems that by (auto simp: e entry_less_def)
  show ?case
  proof (cases "p < f")
    case True
    then show ?thesis using Cons by (cases "u \<le> p")
        (auto simp: e filter_empty_conv dest: above split: list.split)
  next
    case inside: False
    show ?thesis
    proof (cases "p < u")
      case True
      have "scan_entries f u m (Some (y, y)) =
          Some (y, last (y # map fst (filter (\<lambda>e. snd e < u) m)))"
        using Cons.prems above inside by (intro scan_inside) (force simp: e)+
      moreover have "filter (\<lambda>e. f \<le> snd e \<and> snd e < u) m = filter (\<lambda>e. snd e < u) m"
        using above inside by (intro filter_cong) force+
      ultimately show ?thesis using True inside by (simp add: e)
    next
      case False
      then have "filter (\<lambda>e. f \<le> snd e \<and> snd e < u) m = []"
        using above by (force simp: filter_empty_conv)
      then show ?thesis using False inside by (simp add: e)
    qed
  qed
qed

text \<open>The entries a selection of the document covers.\<close>

definition selected :: "(nat, nat) jsmap \<Rightarrow> nat \<Rightarrow> nat \<Rightarrow> nat \<times> nat \<Rightarrow> bool" where
  "selected m f u e \<longleftrightarrow> e \<in> set m \<and> f \<le> snd e \<and> snd e < u"

lemma sorted_le_last: "sorted xs \<Longrightarrow> x \<in> set xs \<Longrightarrow> x \<le> last xs"
  by (induction xs) auto

lemma scan_selected:
  assumes m: "sorted_wrt entry_less m"
  shows "case scan_entries f u m None of
      None \<Rightarrow> \<forall>e. \<not> selected m f u e
    | Some (a, l) \<Rightarrow> (\<forall>e. selected m f u e \<longrightarrow> a \<le> fst e \<and> fst e \<le> l)
        \<and> (\<exists>e e'. selected m f u e \<and> fst e = a \<and> selected m f u e' \<and> fst e' = l)"
proof -
  let ?es = "filter (\<lambda>e. f \<le> snd e \<and> snd e < u) m"
  have sel: "selected m f u e \<longleftrightarrow> e \<in> set ?es" for e by (auto simp: selected_def)
  show ?thesis
  proof (cases ?es)
    case Nil
    then show ?thesis by (simp add: scan_spec [OF m] sel)
  next
    case (Cons e es)
    have "sorted_wrt entry_less (e # es)" using m sorted_wrt_filter [of entry_less m] by (metis Cons)
    then have srt: "sorted (map fst (e # es))" using ordered_distinct by blast
    let ?l = "last (map fst (e # es))"
    have "fst x \<le> ?l" if "x \<in> set (e # es)" for x
    proof (rule sorted_le_last [OF srt])
      show "fst x \<in> set (map fst (e # es))" using that by auto
    qed
    then have up: "selected m f u x \<Longrightarrow> fst x \<le> ?l" for x unfolding sel Cons by blast
    have "fst e \<le> fst x" if "x \<in> set (e # es)" for x using srt that by auto
    then have low: "selected m f u x \<Longrightarrow> fst e \<le> fst x" for x unfolding sel Cons by blast
    have "?l \<in> fst ` set (e # es)" using last_in_set [of "map fst (e # es)"] by simp
    then obtain e' where "e' \<in> set (e # es)" and l: "fst e' = ?l" by (metis imageE)
    then have e': "selected m f u e'" "selected m f u e" unfolding sel Cons by simp_all
    have scan: "scan_entries f u m None = Some (fst e, ?l)" by (simp add: scan_spec [OF m] Cons)
    show ?thesis unfolding scan option.case split using up low e' l by blast
  qed
qed

section \<open>Clients of a range\<close>

lemma collect_clients_spec:
  "items_ok items \<Longrightarrow> a < b \<Longrightarrow>
   set (collect_clients items a b off cs) =
     set cs \<union> {char_clients items ! i | i. i < length (char_clients items) \<and> a \<le> off + i \<and> off + i < b}"
proof (induction items a b off cs rule: collect_clients.induct)
  case (1 a b off cs)
  show ?case by (simp add: char_clients_def)
next
  case (2 it items a b off cs)
  have ok: "items_ok items" using 2(3) by (simp add: items_ok_def)
  show ?case
  proof (cases "visible_item it")
    case False
    then show ?thesis using 2(2) [OF False ok 2(4)] by (simp add: char_clients_Cons)
  next
    case True
    let ?n = "yi_length it" and ?c = "yi_client it" and ?cs = "char_clients items"
    let ?here = "{?c | i. i < ?n \<and> a \<le> off + i \<and> off + i < b}"
    let ?rest = "{?cs ! i | i. i < length ?cs \<and> a \<le> off + ?n + i \<and> off + ?n + i < b}"
    have pos: "0 < ?n" using 2(3) True by (simp add: items_ok_def)
    have "{(replicate ?n ?c @ ?cs) ! i | i. i < ?n + length ?cs \<and> a \<le> off + i \<and> off + i < b} = ?here \<union> ?rest"
      (is "?all = _")
    proof
      show "?all \<subseteq> ?here \<union> ?rest"
      proof
        fix x assume "x \<in> ?all"
        then obtain i where i: "x = (replicate ?n ?c @ ?cs) ! i" "i < ?n + length ?cs" "a \<le> off + i" "off + i < b"
          by blast
        show "x \<in> ?here \<union> ?rest"
        proof (cases "i < ?n")
          case False
          then have "x = ?cs ! (i - ?n)" "i - ?n < length ?cs" "off + ?n + (i - ?n) = off + i"
            using i by (auto simp: nth_append)
          then have "x \<in> ?rest" using i by (auto intro!: exI [of _ "i - ?n"])
          then show ?thesis by simp
        qed (use i in \<open>auto simp: nth_append\<close>)
      qed
      show "?here \<union> ?rest \<subseteq> ?all"
      proof -
        have "?c \<in> ?all" if "i < ?n" "a \<le> off + i" "off + i < b" for i
          using that by (auto simp: nth_append intro!: exI [of _ i])
        moreover have "?cs ! i \<in> ?all" if "i < length ?cs" "a \<le> off + ?n + i" "off + ?n + i < b" for i
          using that by (auto simp: nth_append intro!: exI [of _ "?n + i"])
        ultimately show ?thesis by auto
      qed
    qed
    moreover have "?here = (if off < b \<and> a < off + ?n then {?c} else {})"
      using 2(4) pos by (auto intro!: exI [of _ "max a off - off"] simp: max_def)
    ultimately show ?thesis
      using 2(1) [OF True ok 2(4)] True by (auto simp: char_clients_Cons)
  qed
qed

lemma collectClients_owner:
  assumes "items_ok items" "a \<le> i" "i < b" "i < length (char_clients items)"
  shows "char_clients items ! i \<in> set (collectClientsInRange items a b)"
  using collect_clients_spec [OF assms(1), of a b 0 "[]"] assms
  by (auto simp: collectClientsInRange_def)

lemma first_some_Some: "first_some f xs = Some y \<Longrightarrow> \<exists>x \<in> set xs. f x = Some y"
  by (induction xs) (auto split: option.splits)

lemma map_filter_set: "y \<in> set (List.map_filter f xs) \<Longrightarrow> \<exists>x \<in> set xs. f x = Some y"
  by (auto simp: List.map_filter_def)

text \<open>All visible characters of a range belong to one client.\<close>

definition owned :: "y_item list \<Rightarrow> nat \<Rightarrow> nat \<Rightarrow> int \<Rightarrow> bool" where
  "owned items a b c \<longleftrightarrow>
     (\<forall>i. a \<le> i \<and> i < b \<and> i < length (char_clients items) \<longrightarrow> char_clients items ! i = c)"

lemma owned_single:
  assumes "items_ok items" "set (collectClientsInRange items a b) \<subseteq> {c}"
  shows "owned items a b c"
  using collectClients_owner [OF assms(1)] assms(2) by (auto simp: owned_def)

lemma try_pattern_sound:
  assumes "items_ok items" "try_pattern y items f m s e p = Some ov"
  shows "\<exists>c d. c \<noteq> d \<and> substring y (s - length (dp_open p)) s = dp_open p
    \<and> substring y e (e + length (dp_close p)) = dp_close p
    \<and> owned items (s - length (dp_open p)) s c \<and> owned items e (e + length (dp_close p)) c
    \<and> owned items s e d \<and> f c = Some (fo_delimiterUser ov) \<and> f d = Some (fo_textUser ov)
    \<and> fo_delimiterUser ov \<noteq> fo_textUser ov \<and> snapRange s e m = Some (fo_from ov, fo_to ov)"
proof -
  let ?o = "collectClientsInRange items (s - length (dp_open p)) s"
  let ?c = "collectClientsInRange items e (e + length (dp_close p))"
  obtain c d where cd: "fold js_add ?c (fold js_add ?o []) = [c]" "collectClientsInRange items s e = [d]"
    and rest: "c \<noteq> d" "substring y (s - length (dp_open p)) s = dp_open p"
      "substring y e (e + length (dp_close p)) = dp_close p"
      "f c = Some (fo_delimiterUser ov)" "f d = Some (fo_textUser ov)"
      "fo_delimiterUser ov \<noteq> fo_textUser ov" "snapRange s e m = Some (fo_from ov, fo_to ov)"
    using assms(2) unfolding try_pattern_def Let_def
    by (auto split: if_splits list.splits option.splits prod.splits)
  have "set ?o \<union> set ?c = {c}"
    using arg_cong [OF cd(1), of set] by auto
  then have "owned items (s - length (dp_open p)) s c" "owned items e (e + length (dp_close p)) c"
    by (auto intro: owned_single [OF assms(1)])
  moreover have "owned items s e d" using owned_single [OF assms(1), of s e d] cd(2) by simp
  ultimately show ?thesis using rest by blast
qed

section \<open>Properties\<close>

text \<open>The position map never points at a wrong character: a mapped offset of the source holds the
  very character that stands at its position in the document; and when the text nodes are given in
  document order, larger offsets have larger positions.\<close>

theorem position_map_sound:
  assumes "nodes_ordered 0 nodes" "map_of (buildPositionMap nodes yText) y = Some p"
  shows "char_ok yText nodes (y, p)
    \<and> (\<forall>z q. map_of (buildPositionMap nodes yText) z = Some q \<longrightarrow> y < z \<longrightarrow> p < q)"
proof -
  let ?m = "buildPositionMap nodes yText"
  have m: "sorted_wrt entry_less ?m" using assms(1) by (rule buildPositionMap_ordered)
  have "(y, p) \<in> set ?m" using assms(2) by (rule map_of_SomeD)
  then have "char_ok yText nodes (y, p)"
    unfolding buildPositionMap_def by (rule place_nodes_sound [rotated -1]) auto
  moreover have "p < q" if "map_of ?m z = Some q" "y < z" for z q
    using ordered_mono [OF m \<open>(y, p) \<in> set ?m\<close> map_of_SomeD [OF that(1)] that(2)] .
  ultimately show ?thesis by blast
qed

text \<open>C17: A decoration covers exactly the visible characters of a source range: the snapped range is
  empty only if no character of the range is shown, and otherwise runs from the position of the
  first shown character to just after that of the last one.\<close>

theorem snap_range_exact:
  assumes "nodes_ordered 0 nodes"
  shows "let m = buildPositionMap nodes yText in
    case snapRange a b m of
      None \<Rightarrow> \<forall>e. \<not> shown_in m a b e
    | Some (f, u) \<Rightarrow> f < u \<and> (\<forall>e. shown_in m a b e \<longrightarrow> f \<le> snd e \<and> snd e < u)
        \<and> (\<exists>e e'. shown_in m a b e \<and> snd e = f \<and> shown_in m a b e' \<and> snd e' + 1 = u)"
  unfolding Let_def using assms by (intro snapRange_spec buildPositionMap_ordered)

text \<open>A selection survives being stored: the source range of a selection contains every selected
  visible character and starts and ends with one; projected back, it stays inside the selection.\<close>

theorem selection_roundtrip:
  assumes "nodes_ordered 0 nodes" "pmRangeToYText nodes yText f u = Some (a, b)"
  shows "(\<forall>e. selected (buildPositionMap nodes yText) f u e \<longrightarrow> a \<le> fst e \<and> fst e < b)
    \<and> (\<exists>f' u'. snapRange a b (buildPositionMap nodes yText) = Some (f', u') \<and> f \<le> f' \<and> f' < u' \<and> u' \<le> u)"
proof -
  let ?m = "buildPositionMap nodes yText"
  have m: "sorted_wrt entry_less ?m" using assms(1) by (rule buildPositionMap_ordered)
  obtain l where scan: "scan_entries f u ?m None = Some (a, l)" "b = l + 1"
    using assms(2) by (auto simp: pmRangeToYText_def ordered_sort_entries [OF m] split: if_splits option.splits)
  have "(\<forall>x. selected ?m f u x \<longrightarrow> a \<le> fst x \<and> fst x \<le> l)
      \<and> (\<exists>e e'. selected ?m f u e \<and> fst e = a \<and> selected ?m f u e' \<and> fst e' = l)"
    using scan_selected [OF m, of f u] unfolding scan(1) option.case split .
  then obtain e e' where sel: "\<And>x. selected ?m f u x \<Longrightarrow> a \<le> fst x \<and> fst x \<le> l"
    "selected ?m f u e" "fst e = a" "selected ?m f u e'" "fst e' = l" by metis
  have al: "a \<le> l" using sel(1) [OF sel(2)] sel(3) by simp
  have inside: "f \<le> snd x \<and> snd x < u" if "shown_in ?m a b x" for x
  proof -
    have x: "(fst x, snd x) \<in> set ?m" "a \<le> fst x" "fst x \<le> l" using that scan(2) by (auto simp: shown_in_def)
    have ends: "(a, snd e) \<in> set ?m" "(l, snd e') \<in> set ?m"
      using sel by (auto simp: selected_def)
    have "snd e \<le> snd x" "snd x \<le> snd e'"
      using ordered_mono_le [OF m ends(1) x(1) x(2)] ordered_mono_le [OF m x(1) ends(2) x(3)] by auto
    then show ?thesis using sel(2,4) by (auto simp: selected_def)
  qed
  have "shown_in ?m a b e" using sel al scan(2) by (auto simp: shown_in_def selected_def)
  then obtain f' u' where "snapRange a b ?m = Some (f', u')" "f' < u'"
    "\<exists>x x'. shown_in ?m a b x \<and> snd x = f' \<and> shown_in ?m a b x' \<and> snd x' + 1 = u'"
    using snapRange_spec [OF m, of a b] by (cases "snapRange a b ?m") (auto, metis prod.collapse)
  moreover from this inside have "f \<le> f'" "u' \<le> u" by fastforce+
  ultimately show ?thesis using sel(1) scan(2) by fastforce
qed

text \<open>A formatting override is reported only for a marked text between delimiters of one of the
  mark's patterns, where all characters of the delimiters were inserted by one client and all of the
  text by another, with two different known user names; its range is a non-empty range of shown
  characters.\<close>

theorem formatting_override_sound:
  assumes "items_ok items" "nodes_ordered 0 nodes"
    and "ov \<in> set (findFormattingOverrides nodes yText items f patterns)"
  shows "fo_from ov < fo_to ov \<and> fo_delimiterUser ov \<noteq> fo_textUser ov
    \<and> (\<exists>node \<in> set nodes. \<exists>p \<in> set patterns. \<exists>s c d. dp_mark p \<in> set (tn_marks node) \<and> c \<noteq> d
        \<and> substring yText (s - length (dp_open p)) s = dp_open p
        \<and> owned items (s - length (dp_open p)) s c
        \<and> owned items (s + length (tn_text node)) (s + length (tn_text node) + length (dp_close p)) c
        \<and> owned items s (s + length (tn_text node)) d
        \<and> f c = Some (fo_delimiterUser ov) \<and> f d = Some (fo_textUser ov))"
proof -
  let ?m = "buildPositionMap nodes yText"
  from assms(3) obtain node where node: "node \<in> set nodes"
    "ov \<in> set (node_overrides yText items f patterns ?m node)"
    by (auto simp: findFormattingOverrides_def)
  then obtain s where s: "ov \<in> set (List.map_filter (\<lambda>mark. first_some
      (try_pattern yText items f ?m s (s + length (tn_text node)))
      (filter (\<lambda>p. dp_mark p = mark) patterns)) (tn_marks node))"
    by (auto simp: node_overrides_def split: if_splits option.splits)
  from map_filter_set [OF this] obtain mark where mark: "mark \<in> set (tn_marks node)"
    "first_some (try_pattern yText items f ?m s (s + length (tn_text node)))
       (filter (\<lambda>p. dp_mark p = mark) patterns) = Some ov" by blast
  from first_some_Some [OF this(2)] obtain p where p: "p \<in> set patterns" "dp_mark p = mark"
    "try_pattern yText items f ?m s (s + length (tn_text node)) p = Some ov" by auto
  note sound = try_pattern_sound [OF assms(1) p(3)]
  then have "snapRange s (s + length (tn_text node)) ?m = Some (fo_from ov, fo_to ov)" by blast
  then have "fo_from ov < fo_to ov"
    using snapRange_spec [OF buildPositionMap_ordered [OF assms(2), of yText],
        where a = s and b = "s + length (tn_text node)"]
    by simp
  then show ?thesis using sound node(1) p(1,2) mark(1) by blast
qed

section \<open>Witnesses\<close>

text \<open>The document of \<open>a**b**\<close>, the bold markers typed by client 2.\<close>

definition sample_nodes :: "text_node list" where
  "sample_nodes =
     [\<lparr>tn_pos = 1, tn_text = js ''a'', tn_marks = []\<rparr>,
      \<lparr>tn_pos = 2, tn_text = js ''b'', tn_marks = [js ''bold'']\<rparr>]"

definition sample_items :: "y_item list" where
  "sample_items =
     [\<lparr>yi_client = 1, yi_length = 1, yi_deleted = False, yi_content = True\<rparr>,
      \<lparr>yi_client = 2, yi_length = 2, yi_deleted = False, yi_content = True\<rparr>,
      \<lparr>yi_client = 1, yi_length = 1, yi_deleted = False, yi_content = True\<rparr>,
      \<lparr>yi_client = 2, yi_length = 2, yi_deleted = False, yi_content = True\<rparr>]"

definition sample_users :: "int \<Rightarrow> jsstring option" where
  "sample_users c = (if c = 1 then Some (js ''ann'') else if c = 2 then Some (js ''bob'') else None)"

lemma sample_nodes_ordered: "nodes_ordered 0 sample_nodes"
  by (simp add: sample_nodes_def js_defs)

lemma sample_map: "buildPositionMap sample_nodes (js ''a**b**'') = [(0, 1), (3, 2)]"
  by code_simp

theorem position_map_sound_witness:
  "char_ok (js ''a**b**'') sample_nodes (3, 2)"
  using position_map_sound [OF sample_nodes_ordered, of "js ''a**b**''" 3 2] by (simp add: sample_map)

theorem snap_range_exact_witness:
  "snapRange 1 6 (buildPositionMap sample_nodes (js ''a**b**'')) = Some (2, 3)
   \<and> shown_in (buildPositionMap sample_nodes (js ''a**b**'')) 1 6 (3, 2)"
proof -
  have "snapRange 1 6 (buildPositionMap sample_nodes (js ''a**b**'')) = Some (2, 3)"
    unfolding sample_map by code_simp
  moreover from this snap_range_exact [OF sample_nodes_ordered,
      where a = 1 and b = 6 and yText = "js ''a**b**''"]
  have "\<exists>e. shown_in (buildPositionMap sample_nodes (js ''a**b**'')) 1 6 e \<and> snd e = 2"
    by (auto simp: Let_def)
  ultimately show ?thesis by (auto simp: sample_map shown_in_def)
qed

theorem selection_roundtrip_witness:
  "\<exists>f u. snapRange 3 4 (buildPositionMap sample_nodes (js ''a**b**'')) = Some (f, u)
    \<and> 2 \<le> f \<and> f < u \<and> u \<le> 9"
proof -
  have "pmRangeToYText sample_nodes (js ''a**b**'') 2 9 = Some (3, 4)" by code_simp
  from selection_roundtrip [OF sample_nodes_ordered this] show ?thesis by blast
qed

theorem formatting_override_sound_witness:
  "\<exists>ov. ov \<in> set (findFormattingOverrides sample_nodes (js ''a**b**'') sample_items sample_users
      [pattern ''bold'' ''**'' ''**'']) \<and> fo_from ov < fo_to ov"
proof -
  let ?ov = "\<lparr>fo_from = 2, fo_to = 3, fo_delimiterUser = js ''bob'', fo_textUser = js ''ann''\<rparr>"
  have ov: "?ov \<in> set (findFormattingOverrides sample_nodes (js ''a**b**'') sample_items sample_users
      [pattern ''bold'' ''**'' ''**''])" by code_simp
  have "items_ok sample_items" by (simp add: items_ok_def sample_items_def)
  from formatting_override_sound [OF this sample_nodes_ordered ov] ov show ?thesis by blast
qed

end
