(* ===== verification/Text_Binding.thy ===== *)
theory Text_Binding
  imports String_Diff
begin

text \<open>
  The two-way binding between a \<open>Y.Text\<close> and the rich-text editor: \<open>TextBinding\<close> of
  \<open>frontend/src/collab/text-binding.ts\<close>, with the content handlers of \<open>frontend/src/handlers\<close>. The
  editor (Tiptap) is a parameter: what \<open>setContent\<close> makes of a text, what the two serializers
  return, whether a replaced content raises an \<open>update\<close> event. The shared texts live in a store
  indexed by their identity, so that retargeting, and writes of other parties to a text the binding
  no longer uses, are visible. Every handler, callback, timer and microtask is one event.

  Shown: what the binding writes and when (no echo), what an edit of the user does, that editor and
  text agree whenever nothing is pending, and the four situations in which they do not.
\<close>

section \<open>Content handlers\<close>

datatype content_type = Markdown_Content | Html_Content | Text_Content

record editor_content =
  ec_type :: content_type
  ec_content :: jsstring

record content_handler =
  ch_supportedMimeTypes :: "jsstring list"
  ch_parse :: "jsstring \<Rightarrow> editor_content"
  ch_serialize :: "jsstring \<Rightarrow> jsstring"

definition MarkdownContentHandler :: content_handler where
  "MarkdownContentHandler =
     \<lparr>ch_supportedMimeTypes = [js ''text/markdown''],
      ch_parse = (\<lambda>text. \<lparr>ec_type = Markdown_Content, ec_content = text\<rparr>),
      ch_serialize = (\<lambda>editorOutput. editorOutput)\<rparr>"

definition HtmlContentHandler :: content_handler where
  "HtmlContentHandler =
     \<lparr>ch_supportedMimeTypes = [js ''text/html''],
      ch_parse = (\<lambda>text. \<lparr>ec_type = Html_Content, ec_content = text\<rparr>),
      ch_serialize = (\<lambda>editorOutput. editorOutput)\<rparr>"

definition PlainTextContentHandler :: content_handler where
  "PlainTextContentHandler =
     \<lparr>ch_supportedMimeTypes = map js
        [''text/plain'', ''text/javascript'', ''text/typescript'', ''text/jsx'', ''text/tsx'',
         ''text/x-python'', ''text/css'', ''text/yaml'', ''text/x-go'', ''text/x-rust'',
         ''text/x-java'', ''application/json'', ''application/xml''],
      ch_parse = (\<lambda>text. \<lparr>ec_type = Text_Content, ec_content = text\<rparr>),
      ch_serialize = (\<lambda>editorOutput. editorOutput)\<rparr>"

section \<open>The editor\<close>

text \<open>\<open>ed_setContent\<close> is the document after \<open>setContent(text, contentType)\<close> (the flag says
  \<open>markdown\<close>), which replaces the whole document; \<open>ed_emits\<close> says whether the replacement of the
  first document by the second fires \<open>update\<close> with a changed document; \<open>getMarkdown\<close> is an optional
  method.\<close>

record 'e editor_ops =
  ed_setContent :: "bool \<Rightarrow> jsstring \<Rightarrow> 'e"
  ed_emits :: "'e \<Rightarrow> 'e \<Rightarrow> bool"
  ed_getMarkdown :: "('e \<Rightarrow> jsstring) option"
  ed_getHTML :: "'e \<Rightarrow> jsstring"

record ('e, 't) binding_env =
  be_text :: "'t ytext_ops"
  be_editor :: "'e editor_ops"
  be_handler :: content_handler

section \<open>The binding\<close>

text \<open>\<open>tb_timer\<close> says that a write-back is scheduled, \<open>tb_pending\<close> that the microtask of the
  observer is queued; \<open>tb_observed\<close> is the text the observer is attached to and \<open>tb_listening\<close> says
  that the editor's \<open>update\<close> event reaches the binding. The texts come from \<open>doc.getText\<close>, so their
  length is the length of their string and they belong to a document.\<close>

record ('e, 't) text_binding =
  tb_editor :: 'e
  tb_texts :: "nat \<Rightarrow> 't"
  tb_ytext :: nat
  tb_observed :: "nat option"
  tb_listening :: bool
  tb_timer :: bool
  tb_lastAppliedFromYText :: jsstring
  tb_applyingFromYText :: bool
  tb_paused :: bool
  tb_pending :: bool

definition target_string :: "('e, 't) binding_env \<Rightarrow> ('e, 't) text_binding \<Rightarrow> jsstring" where
  "target_string B s = yt_toString (be_text B) (tb_texts s (tb_ytext s))"

definition getSerializedContent :: "('e, 't) binding_env \<Rightarrow> 'e \<Rightarrow> jsstring" where
  "getSerializedContent B e =
     (if ec_type (ch_parse (be_handler B) []) = Markdown_Content
      then (case ed_getMarkdown (be_editor B) of
              Some md \<Rightarrow> md e
            | None \<Rightarrow> ed_getHTML (be_editor B) e)
      else ed_getHTML (be_editor B) e)"

text \<open>The observer: \<open>own\<close> says that the transaction carries the binding's own origin.\<close>

definition on_ytext_change :: "bool \<Rightarrow> ('e, 't) text_binding \<Rightarrow> ('e, 't) text_binding" where
  "on_ytext_change own s = (if own \<or> tb_paused s then s else s\<lparr>tb_pending := True\<rparr>)"

text \<open>A transaction that leaves text \<open>i\<close> as \<open>t\<close>, with the observer called at its end.\<close>

definition write_text ::
  "bool \<Rightarrow> nat \<Rightarrow> 't \<Rightarrow> ('e, 't) text_binding \<Rightarrow> ('e, 't) text_binding" where
  "write_text own i t s =
     (let s' = s\<lparr>tb_texts := (tb_texts s)(i := t)\<rparr>
      in if tb_observed s = Some i then on_ytext_change own s' else s')"

definition on_editor_update :: "bool \<Rightarrow> ('e, 't) text_binding \<Rightarrow> ('e, 't) text_binding" where
  "on_editor_update docChanged s =
     (if \<not> docChanged \<or> tb_paused s \<or> tb_applyingFromYText s then s else s\<lparr>tb_timer := True\<rparr>)"

text \<open>The document the editor shows becomes \<open>e\<close>; the \<open>update\<close> event reaches the listener.\<close>

definition editor_changes :: "bool \<Rightarrow> 'e \<Rightarrow> ('e, 't) text_binding \<Rightarrow> ('e, 't) text_binding" where
  "editor_changes fires e s =
     (let s' = s\<lparr>tb_editor := e\<rparr>
      in if fires \<and> tb_listening s then on_editor_update True s' else s')"

definition rendered :: "('e, 't) binding_env \<Rightarrow> jsstring \<Rightarrow> 'e" where
  "rendered B text =
     ed_setContent (be_editor B) (ec_type (ch_parse (be_handler B) text) = Markdown_Content) text"

definition applyContentToEditor ::
  "('e, 't) binding_env \<Rightarrow> jsstring \<Rightarrow> ('e, 't) text_binding \<Rightarrow> ('e, 't) text_binding" where
  "applyContentToEditor B text s =
     editor_changes (ed_emits (be_editor B) (tb_editor s) (rendered B text)) (rendered B text) s"

definition applyYTextToEditor ::
  "('e, 't) binding_env \<Rightarrow> ('e, 't) text_binding \<Rightarrow> ('e, 't) text_binding" where
  "applyYTextToEditor B s =
     (let text = target_string B s
      in if text = [] then s
         else (let s1 = s\<lparr>tb_timer := False, tb_applyingFromYText := True\<rparr>;
                   s2 = applyContentToEditor B text s1;
                   s3 = s2\<lparr>tb_applyingFromYText := False\<rparr>
               in s3\<lparr>tb_lastAppliedFromYText := getSerializedContent B (tb_editor s3)\<rparr>))"

definition applyEditorToYText ::
  "('e, 't) binding_env \<Rightarrow> ('e, 't) text_binding \<Rightarrow> ('e, 't) text_binding" where
  "applyEditorToYText B s =
     (let serialized = getSerializedContent B (tb_editor s);
          current = target_string B s
      in if serialized = current then s
         else if serialized = tb_lastAppliedFromYText s then s
         else write_text True (tb_ytext s)
                (applyStringDiff (be_text B) (tb_texts s (tb_ytext s)) current serialized) s)"

definition new_binding ::
  "('e, 't) binding_env \<Rightarrow> 'e \<Rightarrow> (nat \<Rightarrow> 't) \<Rightarrow> nat \<Rightarrow> ('e, 't) text_binding" where
  "new_binding B e texts i =
     (let s = \<lparr>tb_editor = e, tb_texts = texts, tb_ytext = i, tb_observed = None,
               tb_listening = False, tb_timer = False, tb_lastAppliedFromYText = [],
               tb_applyingFromYText = False, tb_paused = False, tb_pending = False\<rparr>;
          s1 = (if length (target_string B s) > 0 then applyYTextToEditor B s else s)
      in s1\<lparr>tb_listening := True, tb_pending := False, tb_observed := Some i\<rparr>)"

definition loadInitialContent ::
  "('e, 't) binding_env \<Rightarrow> jsstring \<Rightarrow> ('e, 't) text_binding \<Rightarrow> ('e, 't) text_binding" where
  "loadInitialContent B text s =
     (if length (target_string B s) > 0 then applyYTextToEditor B s
      else (let s1 = write_text True (tb_ytext s)
                       (yt_insert (be_text B) (tb_texts s (tb_ytext s)) 0 text) s;
                s2 = applyContentToEditor B text s1
            in s2\<lparr>tb_lastAppliedFromYText := getSerializedContent B (tb_editor s2)\<rparr>))"

definition setPaused ::
  "('e, 't) binding_env \<Rightarrow> bool \<Rightarrow> ('e, 't) text_binding \<Rightarrow> ('e, 't) text_binding" where
  "setPaused B paused s =
     (let s1 = s\<lparr>tb_paused := paused\<rparr>
      in if paused then s1\<lparr>tb_timer := False\<rparr> else applyYTextToEditor B s1)"

definition retargetYText ::
  "('e, 't) binding_env \<Rightarrow> nat \<Rightarrow> ('e, 't) text_binding \<Rightarrow> ('e, 't) text_binding" where
  "retargetYText B newYText s =
     (if newYText = tb_ytext s then s
      else (let currentContent = getSerializedContent B (tb_editor s);
                newContent = yt_toString (be_text B) (tb_texts s newYText);
                s1 = s\<lparr>tb_timer := False, tb_ytext := newYText,
                       tb_observed := Some newYText\<rparr>
            in if currentContent \<noteq> newContent then applyYTextToEditor B s1 else s1))"

definition binding_destroy :: "('e, 't) text_binding \<Rightarrow> ('e, 't) text_binding" where
  "binding_destroy s = s\<lparr>tb_timer := False, tb_listening := False, tb_observed := None\<rparr>"

section \<open>Events\<close>

text \<open>Another party changes a text, the user edits the document, a transaction without change
  happens in the editor, the queued microtask or the armed timer runs, or a method is called.\<close>

datatype ('e, 't) binding_event =
    Peer_Change nat 't
  | User_Edit 'e
  | Meta_Transaction
  | Run_Microtask
  | Run_Timer
  | Set_Paused bool
  | Retarget nat
  | Load_Initial jsstring
  | Destroy_Binding

fun binding_step ::
  "('e, 't) binding_env \<Rightarrow> ('e, 't) binding_event \<Rightarrow> ('e, 't) text_binding \<Rightarrow> ('e, 't) text_binding" where
  "binding_step B (Peer_Change i t) s = write_text False i t s"
| "binding_step B (User_Edit e) s = editor_changes True e s"
| "binding_step B Meta_Transaction s =
     (if tb_listening s then on_editor_update False s else s)"
| "binding_step B Run_Microtask s =
     (if tb_pending s then applyYTextToEditor B (s\<lparr>tb_pending := False\<rparr>) else s)"
| "binding_step B Run_Timer s =
     (if tb_timer s then applyEditorToYText B (s\<lparr>tb_timer := False\<rparr>) else s)"
| "binding_step B (Set_Paused p) s = setPaused B p s"
| "binding_step B (Retarget i) s = retargetYText B i s"
| "binding_step B (Load_Initial text) s = loadInitialContent B text s"
| "binding_step B Destroy_Binding s = binding_destroy s"

section \<open>What the operations do\<close>

lemma write_text_own [simp]:
  "write_text True i t s = s\<lparr>tb_texts := (tb_texts s)(i := t)\<rparr>"
  by (simp add: write_text_def on_ytext_change_def Let_def)

text \<open>Applying a non-empty text leaves the editor with its rendering and nothing scheduled.\<close>

lemma applyYTextToEditor_eq:
  "applyYTextToEditor B s =
     (if target_string B s = [] then s
      else s\<lparr>tb_editor := rendered B (target_string B s), tb_timer := False,
             tb_applyingFromYText := False,
             tb_lastAppliedFromYText := getSerializedContent B (rendered B (target_string B s))\<rparr>)"
  by (simp add: applyYTextToEditor_def applyContentToEditor_def editor_changes_def
      on_editor_update_def Let_def)

lemma target_string_simps [simp]:
  "target_string B (s\<lparr>tb_editor := e\<rparr>) = target_string B s"
  "target_string B (s\<lparr>tb_timer := b\<rparr>) = target_string B s"
  "target_string B (s\<lparr>tb_pending := b\<rparr>) = target_string B s"
  "target_string B (s\<lparr>tb_paused := b\<rparr>) = target_string B s"
  "target_string B (s\<lparr>tb_lastAppliedFromYText := l\<rparr>) = target_string B s"
  "target_string B (s\<lparr>tb_applyingFromYText := b\<rparr>) = target_string B s"
  "target_string B (s\<lparr>tb_listening := b\<rparr>) = target_string B s"
  "target_string B (s\<lparr>tb_observed := obs\<rparr>) = target_string B s"
  "target_string B (s\<lparr>tb_texts := (tb_texts s)(tb_ytext s := t)\<rparr>) = yt_toString (be_text B) t"
  "i \<noteq> tb_ytext s \<Longrightarrow> target_string B (s\<lparr>tb_texts := (tb_texts s)(i := t)\<rparr>) = target_string B s"
  by (simp_all add: target_string_def)

lemma loadInitialContent_eq:
  "loadInitialContent B text s =
     (if target_string B s \<noteq> [] then applyYTextToEditor B s
      else s\<lparr>tb_texts := (tb_texts s)(tb_ytext s :=
               yt_insert (be_text B) (tb_texts s (tb_ytext s)) 0 text),
             tb_editor := rendered B text,
             tb_timer := tb_timer s \<or> (ed_emits (be_editor B) (tb_editor s) (rendered B text)
               \<and> tb_listening s \<and> \<not> tb_paused s \<and> \<not> tb_applyingFromYText s),
             tb_lastAppliedFromYText := getSerializedContent B (rendered B text)\<rparr>)"
  by (cases s) (auto simp: loadInitialContent_def applyContentToEditor_def editor_changes_def
      on_editor_update_def Let_def)

section \<open>Writes of the binding\<close>

text \<open>What the other parties, and \<open>loadInitialContent\<close> on an empty text, make of the texts; the
  second component follows the text the binding is attached to.\<close>

fun peer_effect ::
  "('e, 't) binding_env \<Rightarrow> ('e, 't) binding_event \<Rightarrow> (nat \<Rightarrow> 't) \<times> nat \<Rightarrow> (nat \<Rightarrow> 't) \<times> nat" where
  "peer_effect B (Peer_Change j t) (texts, i) = (texts(j := t), i)"
| "peer_effect B (Retarget j) (texts, i) = (texts, j)"
| "peer_effect B (Load_Initial text) (texts, i) =
     (if yt_toString (be_text B) (texts i) = []
      then (texts(i := yt_insert (be_text B) (texts i) 0 text), i) else (texts, i))"
| "peer_effect B _ (texts, i) = (texts, i)"

fun user_edit :: "('e, 't) binding_event \<Rightarrow> bool" where
  "user_edit (User_Edit e) = True"
| "user_edit _ = False"

text \<open>Without an edit of the user a scheduled write-back has nothing to write.\<close>

definition echo_safe :: "('e, 't) binding_env \<Rightarrow> ('e, 't) text_binding \<Rightarrow> bool" where
  "echo_safe B s \<longleftrightarrow>
     (tb_timer s \<longrightarrow> getSerializedContent B (tb_editor s) = tb_lastAppliedFromYText s)"

lemma new_binding_echo_safe [simp]: "echo_safe B (new_binding B e texts i)"
  by (simp add: echo_safe_def new_binding_def applyYTextToEditor_eq Let_def)

lemma new_binding_state [simp]:
  "tb_texts (new_binding B e texts i) = texts" "tb_ytext (new_binding B e texts i) = i"
  by (simp_all add: new_binding_def applyYTextToEditor_eq Let_def)

lemma quiet_step:
  assumes "echo_safe B s" "\<not> user_edit ev"
  shows "echo_safe B (binding_step B ev s) \<and>
    (tb_texts (binding_step B ev s), tb_ytext (binding_step B ev s)) =
      peer_effect B ev (tb_texts s, tb_ytext s)"
proof (cases ev)
  case (Peer_Change i t)
  then show ?thesis using assms by (simp add: echo_safe_def write_text_def on_ytext_change_def Let_def)
next
  case Run_Timer
  then show ?thesis using assms by (simp add: echo_safe_def applyEditorToYText_def Let_def)
next
  case (Load_Initial x)
  then show ?thesis using assms
    by (simp add: echo_safe_def loadInitialContent_eq applyYTextToEditor_eq)
      (simp add: target_string_def)
qed (use assms in \<open>simp_all add: echo_safe_def on_editor_update_def applyYTextToEditor_eq setPaused_def
      retargetYText_def binding_destroy_def Let_def\<close>)

lemma quiet_run:
  assumes "echo_safe B s" "\<forall>ev \<in> set evs. \<not> user_edit ev"
  shows "(tb_texts (fold (binding_step B) evs s), tb_ytext (fold (binding_step B) evs s)) =
    fold (peer_effect B) evs (tb_texts s, tb_ytext s)"
  using assms
proof (induction evs arbitrary: s)
  case (Cons ev evs)
  then have "echo_safe B (binding_step B ev s)"
    "(tb_texts (binding_step B ev s), tb_ytext (binding_step B ev s)) =
      peer_effect B ev (tb_texts s, tb_ytext s)"
    using quiet_step [of B s ev] by auto
  with Cons show ?case by simp
qed simp

text \<open>A write-back makes the text show the serialized document.\<close>

lemma applyEditorToYText_target:
  assumes "ytext_laws (be_text B)"
  shows "target_string B (applyEditorToYText B s) =
    (if getSerializedContent B (tb_editor s) = tb_lastAppliedFromYText s then target_string B s
     else getSerializedContent B (tb_editor s))"
  by (auto simp: applyEditorToYText_def Let_def applyStringDiff_toString [OF assms]
      simp flip: target_string_def)

lemma applyEditorToYText_frame [simp]:
  "tb_editor (applyEditorToYText B s) = tb_editor s"
  "tb_ytext (applyEditorToYText B s) = tb_ytext s"
  "tb_timer (applyEditorToYText B s) = tb_timer s"
  "tb_pending (applyEditorToYText B s) = tb_pending s"
  "tb_paused (applyEditorToYText B s) = tb_paused s"
  "tb_listening (applyEditorToYText B s) = tb_listening s"
  "tb_observed (applyEditorToYText B s) = tb_observed s"
  "tb_applyingFromYText (applyEditorToYText B s) = tb_applyingFromYText s"
  "tb_lastAppliedFromYText (applyEditorToYText B s) = tb_lastAppliedFromYText s"
  "j \<noteq> tb_ytext s \<Longrightarrow> tb_texts (applyEditorToYText B s) j = tb_texts s j"
  by (simp_all add: applyEditorToYText_def Let_def)

section \<open>Agreement of editor and text\<close>

text \<open>The editor shows the text: it serializes to it, or holds its rendering.\<close>

definition in_agreement :: "('e, 't) binding_env \<Rightarrow> ('e, 't) text_binding \<Rightarrow> bool" where
  "in_agreement B s \<longleftrightarrow>
     getSerializedContent B (tb_editor s) = target_string B s
     \<or> tb_editor s = rendered B (target_string B s)"

definition settled :: "('e, 't) text_binding \<Rightarrow> bool" where
  "settled s \<longleftrightarrow> \<not> tb_paused s \<and> \<not> tb_pending s \<and> \<not> tb_timer s"

text \<open>
  The events for which agreement is kept. Microtasks run before the next timer or input event, and
  a hidden editor is not edited. Excluded are: a peer emptying the text, an edit that restores the
  content applied last, pausing with a write-back scheduled for an empty text, retargeting to an
  empty text, and the end of the binding.
\<close>

fun regular_event ::
  "('e, 't) binding_env \<Rightarrow> ('e, 't) text_binding \<Rightarrow> ('e, 't) binding_event \<Rightarrow> bool" where
  "regular_event B s (Peer_Change i t) \<longleftrightarrow> (i = tb_ytext s \<longrightarrow> yt_toString (be_text B) t \<noteq> [])"
| "regular_event B s (User_Edit e) \<longleftrightarrow> \<not> tb_pending s \<and> \<not> tb_paused s
     \<and> getSerializedContent B e \<noteq> tb_lastAppliedFromYText s"
| "regular_event B s Run_Timer \<longleftrightarrow> \<not> tb_pending s"
| "regular_event B s (Set_Paused p) \<longleftrightarrow> (p \<and> tb_timer s \<longrightarrow> target_string B s \<noteq> [])"
| "regular_event B s (Retarget i) \<longleftrightarrow> i = tb_ytext s \<or> yt_toString (be_text B) (tb_texts s i) \<noteq> []"
| "regular_event B s Destroy_Binding \<longleftrightarrow> False"
| "regular_event B s _ \<longleftrightarrow> True"

fun regular_run ::
  "('e, 't) binding_env \<Rightarrow> ('e, 't) binding_event list \<Rightarrow> ('e, 't) text_binding \<Rightarrow> bool" where
  "regular_run B [] s \<longleftrightarrow> True"
| "regular_run B (ev # evs) s \<longleftrightarrow> regular_event B s ev \<and> regular_run B evs (binding_step B ev s)"

definition agreement_inv :: "('e, 't) binding_env \<Rightarrow> ('e, 't) text_binding \<Rightarrow> bool" where
  "agreement_inv B s \<longleftrightarrow>
     \<not> tb_applyingFromYText s \<and> tb_listening s \<and> tb_observed s = Some (tb_ytext s)
     \<and> (tb_pending s \<longrightarrow> target_string B s \<noteq> [])
     \<and> (tb_paused s \<longrightarrow> \<not> tb_timer s \<and> (in_agreement B s \<or> target_string B s \<noteq> []))
     \<and> (settled s \<longrightarrow> in_agreement B s)
     \<and> (tb_timer s \<and> \<not> tb_pending s \<longrightarrow>
          in_agreement B s \<or> getSerializedContent B (tb_editor s) \<noteq> tb_lastAppliedFromYText s)"

lemmas agreement_defs = agreement_inv_def in_agreement_def settled_def

lemma new_binding_agreement:
  assumes "yt_toString (be_text B) (texts i) \<noteq> [] \<or> getSerializedContent B e = []"
  shows "agreement_inv B (new_binding B e texts i)"
  using assms by (auto simp: agreement_defs new_binding_def applyYTextToEditor_eq Let_def target_string_def)

lemma apply_agreement:
  assumes "agreement_inv B s"
  shows "agreement_inv B (applyYTextToEditor B s)"
  using assms by (auto simp: agreement_defs applyYTextToEditor_eq)

lemma agreement_step:
  assumes Y: "ytext_laws (be_text B)" and I: "agreement_inv B s" and "regular_event B s ev"
  shows "agreement_inv B (binding_step B ev s)"
proof (cases ev)
  case (Peer_Change i t)
  then show ?thesis using assms
    by (auto simp: agreement_defs write_text_def on_ytext_change_def Let_def)
next
  case (User_Edit e)
  then show ?thesis using assms
    by (auto simp: agreement_defs editor_changes_def on_editor_update_def Let_def)
next
  case Meta_Transaction
  then show ?thesis using I by (simp add: on_editor_update_def)
next
  case Run_Microtask
  then show ?thesis using I by (auto simp: agreement_defs applyYTextToEditor_eq)
next
  case Run_Timer
  then show ?thesis using assms
    by (auto simp: agreement_defs applyEditorToYText_target [OF Y])
next
  case (Set_Paused p)
  then show ?thesis using assms
    by (auto simp: agreement_defs setPaused_def applyYTextToEditor_eq Let_def)
next
  case (Retarget i)
  then show ?thesis using assms
    by (auto simp: agreement_defs retargetYText_def applyYTextToEditor_eq Let_def target_string_def)
next
  case (Load_Initial x)
  have "yt_toString (be_text B) (yt_insert (be_text B) (tb_texts s (tb_ytext s)) 0 x) = x"
    if "target_string B s = []"
    using that ytext_insert [OF Y, of 0 "tb_texts s (tb_ytext s)" x] by (simp add: target_string_def)
  then show ?thesis using Load_Initial I apply_agreement [OF I]
    by (auto simp: agreement_defs loadInitialContent_eq target_string_def)
next
  case Destroy_Binding
  then show ?thesis using assms by simp
qed

lemma agreement_run:
  assumes "ytext_laws (be_text B)"
  shows "agreement_inv B s \<Longrightarrow> regular_run B evs s \<Longrightarrow> agreement_inv B (fold (binding_step B) evs s)"
  by (induction evs arbitrary: s) (auto intro: agreement_step [OF assms])

section \<open>Properties\<close>

text \<open>An editor whose document is its serialized text.\<close>

definition sample_binding :: "(jsstring, jsstring) binding_env" where
  "sample_binding =
     \<lparr>be_text = plain_text,
      be_editor = \<lparr>ed_setContent = (\<lambda>_ text. text), ed_emits = (\<noteq>),
                   ed_getMarkdown = Some (\<lambda>e. e), ed_getHTML = (\<lambda>e. e)\<rparr>,
      be_handler = MarkdownContentHandler\<rparr>"

lemma sample_binding_simps [simp]:
  "be_text sample_binding = plain_text" "getSerializedContent sample_binding e = e"
  "rendered sample_binding x = x" "yt_toString plain_text x = x"
  "target_string sample_binding s = tb_texts s (tb_ytext s)"
  by (simp_all add: sample_binding_def getSerializedContent_def rendered_def plain_text_def
      target_string_def MarkdownContentHandler_def)

text \<open>C27: The binding does not echo: as long as the user does not edit the rich text, whatever
  changes of peers, microtasks, timers, pauses, retargetings and loads happen, the shared texts are
  what the peers made of them (and an initial content loaded into an empty text); the normalised
  serialization of the editor is never written back.\<close>

theorem no_echo:
  assumes "\<forall>ev \<in> set evs. \<not> user_edit ev"
  shows "tb_texts (fold (binding_step B) evs (new_binding B e texts i)) =
    fst (fold (peer_effect B) evs (texts, i))"
  using quiet_run [OF new_binding_echo_safe assms, where e1 = e and texts1 = texts and i1 = i]
  by (metis fst_conv new_binding_state)

theorem no_echo_witness:
  "tb_texts (fold (binding_step sample_binding)
     [Load_Initial (js ''a''), Run_Timer, Peer_Change 0 (js ''b''), Run_Microtask, Retarget 1, Run_Timer]
     (new_binding sample_binding [] (\<lambda>_. []) 0)) 0 = js ''b''"
  by (subst no_echo) (simp_all add: js_defs plain_text_def)

text \<open>An edit of the user reaches the text the binding is attached to, and only that text: when
  the write-back runs, the text shows the serialized document, unless the document serializes to
  what was last applied from the text; then the text is left as it is.\<close>

theorem user_edit_written:
  assumes "ytext_laws (be_text B)" "tb_listening s" "\<not> tb_paused s" "\<not> tb_applyingFromYText s"
  shows "let s' = binding_step B Run_Timer (binding_step B (User_Edit e) s)
    in tb_editor s' = e \<and> \<not> tb_timer s'
       \<and> target_string B s' = (if getSerializedContent B e = tb_lastAppliedFromYText s
           then target_string B s else getSerializedContent B e)
       \<and> (\<forall>j. j \<noteq> tb_ytext s \<longrightarrow> tb_texts s' j = tb_texts s j)"
  using assms(2-4)
  by (simp add: editor_changes_def on_editor_update_def applyEditorToYText_target [OF assms(1)] Let_def)

theorem user_edit_written_witness:
  "let s = new_binding sample_binding [] (\<lambda>_. js ''a'') 0;
       s' = binding_step sample_binding Run_Timer (binding_step sample_binding (User_Edit (js ''ab'')) s)
   in tb_texts s' 0 = js ''ab'' \<and> tb_texts s' 1 = js ''a''"
proof -
  let ?s = "new_binding sample_binding [] (\<lambda>_. js ''a'') 0"
  have "tb_listening ?s" "\<not> tb_paused ?s" "\<not> tb_applyingFromYText ?s"
    "tb_lastAppliedFromYText ?s = js ''a''"
    by (simp_all add: new_binding_def applyYTextToEditor_eq Let_def js_def)
  then show ?thesis using user_edit_written [of sample_binding ?s "js ''ab''"]
    by (simp add: plain_text_laws Let_def js_def)
      (simp add: editor_changes_def on_editor_update_def Let_def)
qed

text \<open>C28: Editor and text agree when nothing is pending: after any run of regular events, a binding
  that is not paused and has neither a microtask queued nor a write-back scheduled shows its text:
  the document serializes to the text, or is the rendering of the text.\<close>

theorem settled_binding_agrees:
  assumes "ytext_laws (be_text B)"
    and "yt_toString (be_text B) (texts i) \<noteq> [] \<or> getSerializedContent B e = []"
    and "regular_run B evs (new_binding B e texts i)"
    and "settled (fold (binding_step B) evs (new_binding B e texts i))"
  shows "in_agreement B (fold (binding_step B) evs (new_binding B e texts i))"
proof -
  have "agreement_inv B (new_binding B e texts i)"
    using assms(2) by (rule new_binding_agreement)
  from agreement_run [OF assms(1) this assms(3)] assms(4) show ?thesis
    by (simp add: agreement_inv_def)
qed

theorem settled_binding_agrees_witness:
  "in_agreement sample_binding (fold (binding_step sample_binding)
     [Load_Initial (js ''a''), User_Edit (js ''ab''), Run_Timer, Peer_Change 0 (js ''c''), Run_Microtask,
      Set_Paused True, Peer_Change 0 (js ''d''), Set_Paused False]
     (new_binding sample_binding [] (\<lambda>_. []) 0))"
  by (rule settled_binding_agrees) (simp_all add: plain_text_laws, code_simp+)

text \<open>Undoing an edit is not written back: when the user changes the document, the write-back
  runs, and the user then restores what was applied from the text before, the next write-back is
  taken for an echo; editor and text differ although nothing is pending.\<close>

theorem reverted_edit_not_written:
  assumes "ytext_laws (be_text B)" "tb_listening s" "\<not> tb_paused s" "\<not> tb_applyingFromYText s"
    and "getSerializedContent B e \<noteq> tb_lastAppliedFromYText s"
    and "getSerializedContent B e' = tb_lastAppliedFromYText s"
  shows "let s' = fold (binding_step B) [User_Edit e, Run_Timer, User_Edit e', Run_Timer] s
    in tb_editor s' = e' \<and> target_string B s' = getSerializedContent B e \<and> \<not> tb_timer s'"
  using assms(2-6)
  by (simp add: editor_changes_def on_editor_update_def applyEditorToYText_target [OF assms(1)] Let_def)

theorem reverted_edit_not_written_witness:
  "let s' = fold (binding_step sample_binding)
       [User_Edit (js ''ab''), Run_Timer, User_Edit (js ''a''), Run_Timer]
       (new_binding sample_binding [] (\<lambda>_. js ''a'') 0)
   in tb_editor s' = js ''a'' \<and> target_string sample_binding s' = js ''ab'' \<and> \<not> tb_timer s'"
  using reverted_edit_not_written [of sample_binding "new_binding sample_binding [] (\<lambda>_. js ''a'') 0"
      "js ''ab''" "js ''a''"]
  by (simp add: plain_text_laws new_binding_def applyYTextToEditor_eq Let_def js_def)

text \<open>Three more ways in which an edit or a change does not arrive: a change of a peer, or a switch
  to the source editor, before the write-back runs discards what the user typed; a peer that empties
  the text leaves the old document in the editor.\<close>

lemma pending_edit_discarded:
  assumes "tb_observed s = Some (tb_ytext s)" "tb_listening s" "\<not> tb_paused s"
    "yt_toString (be_text B) t \<noteq> []"
  shows "let s' = fold (binding_step B) [User_Edit e, Peer_Change (tb_ytext s) t, Run_Microtask, Run_Timer] s
    in tb_editor s' = rendered B (yt_toString (be_text B) t) \<and> tb_texts s' (tb_ytext s) = t"
  using assms
  by (simp add: editor_changes_def on_editor_update_def write_text_def on_ytext_change_def
      applyYTextToEditor_eq Let_def target_string_def)

lemma paused_edit_discarded:
  assumes "tb_listening s" "\<not> tb_paused s" "\<not> tb_pending s" "target_string B s \<noteq> []"
  shows "let s' = fold (binding_step B) [User_Edit e, Set_Paused True, Set_Paused False, Run_Timer] s
    in tb_editor s' = rendered B (target_string B s) \<and> tb_texts s' = tb_texts s"
  using assms
  by (simp add: editor_changes_def on_editor_update_def setPaused_def applyYTextToEditor_eq Let_def)

lemma remote_clear_ignored:
  assumes "tb_observed s = Some (tb_ytext s)" "\<not> tb_paused s" "yt_toString (be_text B) t = []"
  shows "tb_editor (fold (binding_step B) [Peer_Change (tb_ytext s) t, Run_Microtask] s) = tb_editor s"
  using assms
  by (simp add: write_text_def on_ytext_change_def applyYTextToEditor_eq Let_def)

end
