(* ===== verification/Editor_Bindings.thy ===== *)
theory Editor_Bindings
  imports Text_Binding Blame_Segments
begin

text \<open>
  The editor bindings of \<open>frontend/src/bindings\<close>: the building blocks \<open>SourceEditorInstance\<close>,
  \<open>WysiwygEditorInstance\<close> and \<open>PreviewRendererInstance\<close>, the three bindings \<open>DualModeBinding\<close>,
  \<open>PreviewSourceBinding\<close> and \<open>SourceOnlyBinding\<close>, and \<open>collab-helpers.ts\<close>. CodeMirror with its
  \<open>yCollab\<close> extension and Tiptap are parameters. A binding carries the store of shared texts, so
  that what reaches a shared text is visible; the rich-text side in collaboration is the text
  binding of \<open>Text_Binding\<close>. Container elements and the sets of registered callbacks are left out,
  and so is the Mermaid dialog.

  Shown: the invariant of the binding's mode, what survives a switch of modes, and what
  \<open>setContent\<close> does to a shared text.
\<close>

section \<open>Environment\<close>

datatype editor_mode = Wysiwyg_Mode | Source_Mode | Preview_Mode

text \<open>\<open>hv_attach d t\<close>: what CodeMirror shows after \<open>yCollab\<close> is attached to a text showing \<open>t\<close> while
  the document is \<open>d\<close>; \<open>hv_follow d t\<close>: what it shows after the attached text changed to \<open>t\<close>;
  \<open>hv_initial\<close>: the document of a new Tiptap editor.\<close>

record ('e, 't) host_env =
  hv_env :: "('e, 't) binding_env"
  hv_attach :: "jsstring \<Rightarrow> jsstring \<Rightarrow> jsstring"
  hv_follow :: "jsstring \<Rightarrow> jsstring \<Rightarrow> jsstring"
  hv_initial :: 'e

definition text_of :: "('e, 't) host_env \<Rightarrow> 't \<Rightarrow> jsstring" where
  "text_of H t = yt_toString (be_text (hv_env H)) t"

text \<open>What the bindings rely on: an attached CodeMirror follows its text, and attaching it to a text
  it already shows changes nothing.\<close>

definition ycollab_laws :: "('e, 't) host_env \<Rightarrow> bool" where
  "ycollab_laws H \<longleftrightarrow> (\<forall>d t. hv_follow H d t = t) \<and> (\<forall>t. hv_attach H t t = t)"

section \<open>Source editor\<close>

text \<open>\<open>se_blame\<close> and \<open>se_shown\<close> are the data the extensions show (\<open>None\<close>: the extension is not
  installed); \<open>'c\<close> is the comment state pushed to an editor.\<close>

record 'c source_editor =
  se_doc :: jsstring
  se_language :: jsstring
  se_readonly :: bool
  se_ytext :: "nat option"
  se_awareness :: bool
  se_blame :: "blame_segment list option"
  se_lastCommentState :: 'c
  se_shown :: "'c option"

record mount_options =
  mo_readonly :: bool
  mo_language :: jsstring

definition new_source_editor ::
  "('e, 't) host_env \<Rightarrow> mount_options \<Rightarrow> nat option \<Rightarrow> (nat \<Rightarrow> 't) \<Rightarrow> 'c \<Rightarrow> 'c source_editor" where
  "new_source_editor H opts collab texts noComments =
     \<lparr>se_doc = (case collab of None \<Rightarrow> [] | Some i \<Rightarrow> hv_attach H [] (text_of H (texts i))),
      se_language = mo_language opts, se_readonly = mo_readonly opts, se_ytext = collab,
      se_awareness = (collab \<noteq> None), se_blame = None, se_lastCommentState = noComments,
      se_shown = None\<rparr>"

definition se_setContent :: "jsstring \<Rightarrow> 'c source_editor \<Rightarrow> 'c source_editor" where
  "se_setContent text e = e\<lparr>se_doc := text\<rparr>"

definition se_setLanguage :: "jsstring \<Rightarrow> 'c source_editor \<Rightarrow> 'c source_editor" where
  "se_setLanguage language e = e\<lparr>se_language := language\<rparr>"

definition se_setReadonly :: "bool \<Rightarrow> 'c source_editor \<Rightarrow> 'c source_editor" where
  "se_setReadonly readonly e = e\<lparr>se_readonly := readonly\<rparr>"

definition se_rebindSharedText ::
  "('e, 't) host_env \<Rightarrow> (nat \<Rightarrow> 't) \<Rightarrow> nat \<Rightarrow> 'c source_editor \<Rightarrow> 'c source_editor" where
  "se_rebindSharedText H texts newText e =
     (if \<not> se_awareness e \<or> se_ytext e = Some newText then e
      else (let newContent = text_of H (texts newText);
                e1 = e\<lparr>se_ytext := Some newText\<rparr>;
                e2 = (if se_doc e1 \<noteq> newContent then e1\<lparr>se_doc := newContent\<rparr> else e1)
            in e2\<lparr>se_doc := hv_attach H (se_doc e2) newContent\<rparr>))"

definition se_enableBlame :: "blame_segment list \<Rightarrow> 'c source_editor \<Rightarrow> 'c source_editor" where
  "se_enableBlame segments e = e\<lparr>se_blame := Some segments\<rparr>"

definition se_disableBlame :: "'c source_editor \<Rightarrow> 'c source_editor" where
  "se_disableBlame e = e\<lparr>se_blame := None\<rparr>"

definition se_updateBlame :: "blame_segment list \<Rightarrow> 'c source_editor \<Rightarrow> 'c source_editor" where
  "se_updateBlame segments e =
     (if se_blame e \<noteq> None then e\<lparr>se_blame := Some segments\<rparr> else e)"

definition se_enableComments :: "'c source_editor \<Rightarrow> 'c source_editor" where
  "se_enableComments e =
     (if se_shown e \<noteq> None then e else e\<lparr>se_shown := Some (se_lastCommentState e)\<rparr>)"

definition se_disableComments :: "'c source_editor \<Rightarrow> 'c source_editor" where
  "se_disableComments e = e\<lparr>se_shown := None\<rparr>"

definition se_updateComments :: "'c \<Rightarrow> 'c source_editor \<Rightarrow> 'c source_editor" where
  "se_updateComments c e =
     (let e1 = e\<lparr>se_lastCommentState := c\<rparr>
      in if se_shown e1 \<noteq> None then e1\<lparr>se_shown := Some c\<rparr> else e1)"

section \<open>Rich-text editor\<close>

record ('e, 'c) wysiwyg_editor =
  we_doc :: 'e
  we_readonly :: bool
  we_blame :: "blame_segment list option"
  we_lastCommentState :: 'c
  we_shown :: "'c option"

definition new_wysiwyg_editor ::
  "('e, 't) host_env \<Rightarrow> mount_options \<Rightarrow> 'c \<Rightarrow> ('e, 'c) wysiwyg_editor" where
  "new_wysiwyg_editor H opts noComments =
     \<lparr>we_doc = hv_initial H, we_readonly = mo_readonly opts, we_blame = None,
      we_lastCommentState = noComments, we_shown = None\<rparr>"

definition we_getContent :: "('e, 't) host_env \<Rightarrow> ('e, 'c) wysiwyg_editor \<Rightarrow> jsstring" where
  "we_getContent H e = getSerializedContent (hv_env H) (we_doc e)"

definition we_setContent ::
  "('e, 't) host_env \<Rightarrow> jsstring \<Rightarrow> ('e, 'c) wysiwyg_editor \<Rightarrow> ('e, 'c) wysiwyg_editor" where
  "we_setContent H text e = e\<lparr>we_doc := rendered (hv_env H) text\<rparr>"

definition we_setReadonly :: "bool \<Rightarrow> ('e, 'c) wysiwyg_editor \<Rightarrow> ('e, 'c) wysiwyg_editor" where
  "we_setReadonly readonly e = e\<lparr>we_readonly := readonly\<rparr>"

definition we_enableBlame ::
  "blame_segment list \<Rightarrow> ('e, 'c) wysiwyg_editor \<Rightarrow> ('e, 'c) wysiwyg_editor" where
  "we_enableBlame segments e = e\<lparr>we_blame := Some segments\<rparr>"

definition we_disableBlame :: "('e, 'c) wysiwyg_editor \<Rightarrow> ('e, 'c) wysiwyg_editor" where
  "we_disableBlame e = e\<lparr>we_blame := None\<rparr>"

definition we_updateBlame ::
  "blame_segment list \<Rightarrow> ('e, 'c) wysiwyg_editor \<Rightarrow> ('e, 'c) wysiwyg_editor" where
  "we_updateBlame segments e =
     (if we_blame e \<noteq> None then e\<lparr>we_blame := Some segments\<rparr> else e)"

definition we_enableComments :: "('e, 'c) wysiwyg_editor \<Rightarrow> ('e, 'c) wysiwyg_editor" where
  "we_enableComments e =
     (if we_shown e \<noteq> None then e else e\<lparr>we_shown := Some (we_lastCommentState e)\<rparr>)"

definition we_disableComments :: "('e, 'c) wysiwyg_editor \<Rightarrow> ('e, 'c) wysiwyg_editor" where
  "we_disableComments e = e\<lparr>we_shown := None\<rparr>"

definition we_updateComments ::
  "'c \<Rightarrow> ('e, 'c) wysiwyg_editor \<Rightarrow> ('e, 'c) wysiwyg_editor" where
  "we_updateComments c e =
     (let e1 = e\<lparr>we_lastCommentState := c\<rparr>
      in if we_shown e1 \<noteq> None then e1\<lparr>we_shown := Some c\<rparr> else e1)"

section \<open>Preview renderer\<close>

text \<open>\<open>pr_posted\<close> lists the codes posted to the frame, the latest last. An empty pending code is
  falsy and not posted when the frame becomes ready.\<close>

record preview_renderer =
  pr_ready :: bool
  pr_pendingCode :: "jsstring option"
  pr_posted :: "jsstring list"

definition new_preview :: preview_renderer where
  "new_preview = \<lparr>pr_ready = False, pr_pendingCode = None, pr_posted = []\<rparr>"

definition pr_render :: "jsstring \<Rightarrow> preview_renderer \<Rightarrow> preview_renderer" where
  "pr_render code r =
     (if \<not> pr_ready r then r\<lparr>pr_pendingCode := Some code\<rparr>
      else r\<lparr>pr_posted := pr_posted r @ [code]\<rparr>)"

definition pr_ready_message :: "preview_renderer \<Rightarrow> preview_renderer" where
  "pr_ready_message r =
     (let r1 = r\<lparr>pr_ready := True\<rparr>
      in case pr_pendingCode r1 of
           Some code \<Rightarrow> if code \<noteq> [] then r1\<lparr>pr_posted := pr_posted r1 @ [code], pr_pendingCode := None\<rparr>
                        else r1
         | None \<Rightarrow> r1)"

section \<open>Bindings\<close>

datatype binding_kind = Dual_Mode | Preview_Source | Source_Only

record ('e, 't, 'c) editor_binding =
  eb_kind :: binding_kind
  eb_language :: jsstring
  eb_activeMode :: "editor_mode option"
  eb_mounted :: bool
  eb_source :: "'c source_editor option"
  eb_wysiwyg :: "('e, 'c) wysiwyg_editor option"
  eb_previewContainer :: bool
  eb_preview :: "preview_renderer option"
  eb_collab :: "nat option"
  eb_textBinding :: "('e, 't) text_binding option"
  eb_texts :: "nat \<Rightarrow> 't"

fun supportedModes :: "binding_kind \<Rightarrow> editor_mode list" where
  "supportedModes Dual_Mode = [Wysiwyg_Mode, Source_Mode]"
| "supportedModes Preview_Source = [Preview_Mode, Source_Mode]"
| "supportedModes Source_Only = [Source_Mode]"

definition new_editor_binding ::
  "binding_kind \<Rightarrow> jsstring \<Rightarrow> (nat \<Rightarrow> 't) \<Rightarrow> ('e, 't, 'c) editor_binding" where
  "new_editor_binding kind language texts =
     \<lparr>eb_kind = kind, eb_language = language, eb_activeMode = None, eb_mounted = False,
      eb_source = None, eb_wysiwyg = None, eb_previewContainer = False,
      eb_preview = None, eb_collab = None,
      eb_textBinding = None, eb_texts = texts\<rparr>"

text \<open>The callback \<open>PreviewSourceBinding\<close> registers on its source editor.\<close>

definition on_source_update :: "jsstring \<Rightarrow> ('e, 't, 'c) editor_binding \<Rightarrow> ('e, 't, 'c) editor_binding" where
  "on_source_update content b =
     (case eb_preview b of
        Some r \<Rightarrow> if eb_kind b = Preview_Source \<and> eb_activeMode b = Some Preview_Mode
                  then b\<lparr>eb_preview := Some (pr_render content r)\<rparr> else b
      | None \<Rightarrow> b)"

text \<open>Apply an operation to the source editor, if there is one; \<open>fires\<close> says for which editors it is
  a document change.\<close>

definition update_source ::
  "('c source_editor \<Rightarrow> bool) \<Rightarrow> ('c source_editor \<Rightarrow> 'c source_editor) \<Rightarrow>
   ('e, 't, 'c) editor_binding \<Rightarrow> ('e, 't, 'c) editor_binding" where
  "update_source fires f b =
     (case eb_source b of
        None \<Rightarrow> b
      | Some e \<Rightarrow> (let b' = b\<lparr>eb_source := Some (f e)\<rparr>
                  in if fires e then on_source_update (se_doc (f e)) b' else b'))"

definition update_wysiwyg ::
  "(('e, 'c) wysiwyg_editor \<Rightarrow> ('e, 'c) wysiwyg_editor) \<Rightarrow>
   ('e, 't, 'c) editor_binding \<Rightarrow> ('e, 't, 'c) editor_binding" where
  "update_wysiwyg f b = b\<lparr>eb_wysiwyg := map_option f (eb_wysiwyg b)\<rparr>"

text \<open>Run an operation of the text binding on the rich-text editor and the texts.\<close>

definition on_text_binding ::
  "(('e, 't) text_binding \<Rightarrow> ('e, 't) text_binding) \<Rightarrow>
   ('e, 't, 'c) editor_binding \<Rightarrow> ('e, 't, 'c) editor_binding" where
  "on_text_binding f b =
     (case (eb_textBinding b, eb_wysiwyg b) of
        (Some tb, Some w) \<Rightarrow>
          (let tb' = f (tb\<lparr>tb_editor := we_doc w, tb_texts := eb_texts b\<rparr>)
           in b\<lparr>eb_textBinding := Some tb', eb_wysiwyg := Some (w\<lparr>we_doc := tb_editor tb'\<rparr>),
                eb_texts := tb_texts tb'\<rparr>)
      | _ \<Rightarrow> b)"

text \<open>A transaction of another origin leaves text \<open>i\<close> as \<open>t\<close>: the text binding's observer is called
  and an attached source editor follows.\<close>

definition shared_change ::
  "('e, 't) host_env \<Rightarrow> nat \<Rightarrow> 't \<Rightarrow> ('e, 't, 'c) editor_binding \<Rightarrow> ('e, 't, 'c) editor_binding" where
  "shared_change H i t b =
     update_source (\<lambda>e. se_ytext e = Some i)
       (\<lambda>e. if se_ytext e = Some i then e\<lparr>se_doc := hv_follow H (se_doc e) (text_of H t)\<rparr> else e)
       (on_text_binding (write_text False i t) (b\<lparr>eb_texts := (eb_texts b)(i := t)\<rparr>))"

text \<open>\<open>setCollabContent\<close>; inserting nothing is no change.\<close>

definition setCollabContent ::
  "('e, 't) host_env \<Rightarrow> nat \<Rightarrow> jsstring \<Rightarrow> ('e, 't, 'c) editor_binding \<Rightarrow> bool \<times> ('e, 't, 'c) editor_binding" where
  "setCollabContent H sharedText text b =
     (let t = eb_texts b sharedText; Y = be_text (hv_env H)
      in if length (text_of H t) > 0 then (False, b)
         else (let t1 = (if length (text_of H t) > 0 then yt_delete Y t 0 (length (text_of H t)) else t);
                   t2 = yt_insert Y t1 0 text
               in (True, if text = [] then b else shared_change H sharedText t2 b)))"

section \<open>Operations of the bindings\<close>

datatype binding_error = Unsupported_Mode editor_mode

definition mount ::
  "('e, 't) host_env \<Rightarrow> 'c \<Rightarrow> editor_mode \<Rightarrow> bool \<Rightarrow> nat option \<Rightarrow>
   ('e, 't, 'c) editor_binding \<Rightarrow> binding_error + ('e, 't, 'c) editor_binding" where
  "mount H noComments mode readonly collab b =
     (if mode \<notin> set (supportedModes (eb_kind b)) then Inl (Unsupported_Mode mode)
      else (let opts = \<lparr>mo_readonly = readonly, mo_language = eb_language b\<rparr>;
                b1 = b\<lparr>eb_collab := collab, eb_previewContainer := (eb_kind b = Preview_Source),
                       eb_source := Some (new_source_editor H opts collab (eb_texts b) noComments)\<rparr>;
                b2 = (case eb_kind b of
                        Dual_Mode \<Rightarrow>
                          (let w = new_wysiwyg_editor H opts noComments;
                               b3 = b1\<lparr>eb_wysiwyg := Some w\<rparr>
                           in case collab of
                                None \<Rightarrow> b3
                              | Some i \<Rightarrow>
                                  (let tb = new_binding (hv_env H) (we_doc w) (eb_texts b) i;
                                       b4 = b3\<lparr>eb_textBinding := Some tb,
                                               eb_wysiwyg := Some (w\<lparr>we_doc := tb_editor tb\<rparr>)\<rparr>
                                   in if mode = Source_Mode
                                      then on_text_binding (setPaused (hv_env H) True) b4 else b4))
                      | Preview_Source \<Rightarrow>
                          (if mode = Preview_Mode
                           then (let content = se_doc (the (eb_source b1));
                                     r = pr_ready_message new_preview
                                 in b1\<lparr>eb_preview := Some (if content \<noteq> [] then pr_render content r else r)\<rparr>)
                           else b1)
                      | Source_Only \<Rightarrow> b1)
            in Inr (b2\<lparr>eb_mounted := True, eb_activeMode := Some mode\<rparr>)))"

definition unmount :: "('e, 't, 'c) editor_binding \<Rightarrow> ('e, 't, 'c) editor_binding" where
  "unmount b = b\<lparr>eb_textBinding := None, eb_source := None, eb_wysiwyg := None, eb_preview := None,
                 eb_mounted := False, eb_activeMode := None\<rparr>"

definition source_content :: "('e, 't, 'c) editor_binding \<Rightarrow> jsstring" where
  "source_content b = (case eb_source b of None \<Rightarrow> [] | Some e \<Rightarrow> se_doc e)"

definition eb_getContent :: "('e, 't) host_env \<Rightarrow> ('e, 't, 'c) editor_binding \<Rightarrow> jsstring" where
  "eb_getContent H b =
     (case eb_wysiwyg b of
        Some w \<Rightarrow> if eb_kind b = Dual_Mode \<and> eb_activeMode b = Some Wysiwyg_Mode
                  then we_getContent H w else source_content b
      | None \<Rightarrow> source_content b)"

definition set_source_content ::
  "jsstring \<Rightarrow> ('e, 't, 'c) editor_binding \<Rightarrow> ('e, 't, 'c) editor_binding" where
  "set_source_content text = update_source (\<lambda>e. se_doc e \<noteq> [] \<or> text \<noteq> []) (se_setContent text)"

definition eb_setContent ::
  "('e, 't) host_env \<Rightarrow> jsstring \<Rightarrow> ('e, 't, 'c) editor_binding \<Rightarrow> ('e, 't, 'c) editor_binding" where
  "eb_setContent H text b =
     (case eb_collab b of
        Some i \<Rightarrow> snd (setCollabContent H i text b)
      | None \<Rightarrow> if eb_kind b = Dual_Mode \<and> eb_activeMode b = Some Wysiwyg_Mode
                then update_wysiwyg (we_setContent H text) b
                else set_source_content text b)"

definition eb_setReadonly :: "bool \<Rightarrow> ('e, 't, 'c) editor_binding \<Rightarrow> ('e, 't, 'c) editor_binding" where
  "eb_setReadonly readonly b =
     update_wysiwyg (we_setReadonly readonly) (update_source (\<lambda>_. False) (se_setReadonly readonly) b)"

definition dual_switchMode ::
  "('e, 't) host_env \<Rightarrow> editor_mode \<Rightarrow> ('e, 't, 'c) editor_binding \<Rightarrow> ('e, 't, 'c) editor_binding" where
  "dual_switchMode H mode b =
     (let b1 = (if eb_collab b \<noteq> None then b
                else if eb_activeMode b = Some Wysiwyg_Mode \<and> mode = Source_Mode
                then set_source_content
                       (case eb_wysiwyg b of None \<Rightarrow> [] | Some w \<Rightarrow> we_getContent H w) b
                else if eb_activeMode b = Some Source_Mode \<and> mode = Wysiwyg_Mode
                then update_wysiwyg (we_setContent H (source_content b)) b
                else b);
          b2 = on_text_binding (setPaused (hv_env H) (mode = Source_Mode)) b1
      in b2\<lparr>eb_activeMode := Some mode\<rparr>)"

definition preview_switchMode ::
  "editor_mode \<Rightarrow> ('e, 't, 'c) editor_binding \<Rightarrow> ('e, 't, 'c) editor_binding" where
  "preview_switchMode mode b =
     (let b1 = (if mode = Preview_Mode
                then (let r = (case eb_preview b of
                                 Some r \<Rightarrow> Some r
                               | None \<Rightarrow> if eb_previewContainer b then Some (pr_ready_message new_preview) else None)
                      in b\<lparr>eb_preview := map_option (pr_render (source_content b)) r\<rparr>)
                else b)
      in b1\<lparr>eb_activeMode := Some mode\<rparr>)"

definition switchMode ::
  "('e, 't) host_env \<Rightarrow> editor_mode \<Rightarrow> ('e, 't, 'c) editor_binding \<Rightarrow>
   binding_error + ('e, 't, 'c) editor_binding" where
  "switchMode H mode b =
     (if mode \<notin> set (supportedModes (eb_kind b)) then Inl (Unsupported_Mode mode)
      else if eb_activeMode b = Some mode then Inr b
      else case eb_kind b of
             Dual_Mode \<Rightarrow> Inr (dual_switchMode H mode b)
           | Preview_Source \<Rightarrow> Inr (preview_switchMode mode b)
           | Source_Only \<Rightarrow> Inr b)"

definition eb_rebindSharedText ::
  "('e, 't) host_env \<Rightarrow> nat \<Rightarrow> ('e, 't, 'c) editor_binding \<Rightarrow> ('e, 't, 'c) editor_binding" where
  "eb_rebindSharedText H yText b =
     (if eb_collab b = None then b
      else on_text_binding (retargetYText (hv_env H) yText)
             (update_source (\<lambda>e. se_awareness e \<and> se_ytext e \<noteq> Some yText
                   \<and> se_doc e \<noteq> text_of H (eb_texts b yText))
                (se_rebindSharedText H (eb_texts b) yText) b))"

definition eb_getCurrentSerialized :: "('e, 't) host_env \<Rightarrow> ('e, 't, 'c) editor_binding \<Rightarrow> jsstring" where
  "eb_getCurrentSerialized H b = eb_getContent H b"

definition eb_enableBlame ::
  "blame_segment list \<Rightarrow> ('e, 't, 'c) editor_binding \<Rightarrow> ('e, 't, 'c) editor_binding" where
  "eb_enableBlame segments b =
     update_wysiwyg (we_enableBlame segments) (update_source (\<lambda>_. False) (se_enableBlame segments) b)"

definition eb_disableBlame :: "('e, 't, 'c) editor_binding \<Rightarrow> ('e, 't, 'c) editor_binding" where
  "eb_disableBlame b =
     update_wysiwyg we_disableBlame (update_source (\<lambda>_. False) se_disableBlame b)"

definition eb_updateBlame ::
  "blame_segment list \<Rightarrow> ('e, 't, 'c) editor_binding \<Rightarrow> ('e, 't, 'c) editor_binding" where
  "eb_updateBlame segments b =
     update_wysiwyg (we_updateBlame segments) (update_source (\<lambda>_. False) (se_updateBlame segments) b)"

definition eb_enableComments :: "('e, 't, 'c) editor_binding \<Rightarrow> ('e, 't, 'c) editor_binding" where
  "eb_enableComments b =
     update_wysiwyg we_enableComments (update_source (\<lambda>_. False) se_enableComments b)"

definition eb_disableComments :: "('e, 't, 'c) editor_binding \<Rightarrow> ('e, 't, 'c) editor_binding" where
  "eb_disableComments b =
     update_wysiwyg we_disableComments (update_source (\<lambda>_. False) se_disableComments b)"

definition eb_updateComments ::
  "'c \<Rightarrow> ('e, 't, 'c) editor_binding \<Rightarrow> ('e, 't, 'c) editor_binding" where
  "eb_updateComments c b =
     update_wysiwyg (we_updateComments c) (update_source (\<lambda>_. False) (se_updateComments c) b)"

section \<open>Calls and runs\<close>

text \<open>A call of a method of the interface, a change of a shared text, or an event of the text
  binding (a write of the text binding reaches the source editor like any other change). A call that
  throws leaves the binding as it is.\<close>

datatype ('e, 't, 'c) binding_call =
    Mount 'c editor_mode bool "nat option"
  | Unmount
  | Set_Content jsstring
  | Set_Readonly bool
  | Switch_Mode editor_mode
  | Rebind nat
  | Enable_Blame "blame_segment list"
  | Disable_Blame
  | Update_Blame "blame_segment list"
  | Enable_Comments
  | Disable_Comments
  | Update_Comments 'c
  | Shared_Change nat 't
  | Text_Event "('e, 't) binding_event"

definition eb_text_event ::
  "('e, 't) host_env \<Rightarrow> ('e, 't) binding_event \<Rightarrow> ('e, 't, 'c) editor_binding \<Rightarrow> ('e, 't, 'c) editor_binding" where
  "eb_text_event H ev b =
     (let b' = on_text_binding (binding_step (hv_env H) ev) b;
          changed = (\<lambda>e. case se_ytext e of None \<Rightarrow> False
                       | Some i \<Rightarrow> text_of H (eb_texts b' i) \<noteq> text_of H (eb_texts b i))
      in update_source changed
           (\<lambda>e. if changed e
                 then e\<lparr>se_doc := hv_follow H (se_doc e) (text_of H (eb_texts b' (the (se_ytext e))))\<rparr>
                 else e) b')"

definition returned :: "'a \<Rightarrow> 'x + 'a \<Rightarrow> 'a" where
  "returned b r = (case r of Inl _ \<Rightarrow> b | Inr b' \<Rightarrow> b')"

fun run_call ::
  "('e, 't) host_env \<Rightarrow> ('e, 't, 'c) binding_call \<Rightarrow> ('e, 't, 'c) editor_binding \<Rightarrow> ('e, 't, 'c) editor_binding" where
  "run_call H (Mount c mode ro collab) b = returned b (mount H c mode ro collab b)"
| "run_call H Unmount b = unmount b"
| "run_call H (Set_Content text) b = eb_setContent H text b"
| "run_call H (Set_Readonly ro) b = eb_setReadonly ro b"
| "run_call H (Switch_Mode mode) b = returned b (switchMode H mode b)"
| "run_call H (Rebind i) b = eb_rebindSharedText H i b"
| "run_call H (Enable_Blame s) b = eb_enableBlame s b"
| "run_call H Disable_Blame b = eb_disableBlame b"
| "run_call H (Update_Blame s) b = eb_updateBlame s b"
| "run_call H Enable_Comments b = eb_enableComments b"
| "run_call H Disable_Comments b = eb_disableComments b"
| "run_call H (Update_Comments c) b = eb_updateComments c b"
| "run_call H (Shared_Change i t) b = shared_change H i t b"
| "run_call H (Text_Event ev) b = eb_text_event H ev b"

section \<open>What the helpers keep\<close>

text \<open>The part of a binding that only mounting and switching change.\<close>

definition frame_of :: "('e, 't, 'c) editor_binding \<Rightarrow>
    binding_kind \<times> editor_mode option \<times> bool \<times> bool \<times> bool \<times> bool \<times> bool \<times> nat option" where
  "frame_of b = (eb_kind b, eb_activeMode b, eb_mounted b, eb_source b \<noteq> None, eb_wysiwyg b \<noteq> None,
     eb_previewContainer b, eb_preview b \<noteq> None, eb_collab b)"

lemma frame_on_source_update [simp]: "frame_of (on_source_update c b) = frame_of b"
  by (auto simp: frame_of_def on_source_update_def split: option.splits)

lemma frame_update_source [simp]: "frame_of (update_source fires f b) = frame_of b"
  by (auto simp: update_source_def Let_def split: option.splits) (simp_all add: frame_of_def)

lemma frame_update_wysiwyg [simp]: "frame_of (update_wysiwyg f b) = frame_of b"
  by (simp add: frame_of_def update_wysiwyg_def)

lemma frame_on_text_binding [simp]: "frame_of (on_text_binding f b) = frame_of b"
  by (auto simp: frame_of_def on_text_binding_def Let_def split: option.splits)

lemma frame_shared_change [simp]: "frame_of (shared_change H i t b) = frame_of b"
  by (simp add: shared_change_def) (simp add: frame_of_def)

lemma frame_setContent [simp]: "frame_of (eb_setContent H text b) = frame_of b"
  by (simp add: eb_setContent_def setCollabContent_def set_source_content_def Let_def split: option.splits)

lemma frame_eqD:
  assumes "frame_of b' = frame_of b"
  shows "eb_kind b' = eb_kind b" "eb_activeMode b' = eb_activeMode b" "eb_mounted b' = eb_mounted b"
    "eb_source b' = None \<longleftrightarrow> eb_source b = None" "eb_wysiwyg b' = None \<longleftrightarrow> eb_wysiwyg b = None"
    "eb_preview b' = None \<longleftrightarrow> eb_preview b = None" "eb_collab b' = eb_collab b"
    "eb_previewContainer b' = eb_previewContainer b"
  using assms by (simp_all add: frame_of_def del: not_None_eq)

definition mode_inv :: "('e, 't, 'c) editor_binding \<Rightarrow> bool" where
  "mode_inv b \<longleftrightarrow>
     (\<forall>m. eb_activeMode b = Some m \<longrightarrow> m \<in> set (supportedModes (eb_kind b)))
     \<and> (eb_mounted b \<longrightarrow> eb_activeMode b \<noteq> None \<and> eb_source b \<noteq> None
          \<and> (eb_kind b = Dual_Mode \<longrightarrow> eb_wysiwyg b \<noteq> None)
          \<and> (eb_kind b = Preview_Source \<longrightarrow> eb_previewContainer b)
          \<and> (eb_activeMode b = Some Preview_Mode \<longrightarrow> eb_preview b \<noteq> None))"

lemma mode_inv_frame: "frame_of b' = frame_of b \<Longrightarrow> mode_inv b' \<longleftrightarrow> mode_inv b"
  by (simp add: mode_inv_def frame_eqD [of b' b] del: not_None_eq)

lemma mount_mode_inv:
  assumes "mount H c mode ro collab b = Inr b'"
  shows "mode_inv b'"
proof -
  obtain k where k: "eb_kind b = k" by blast
  show ?thesis
    using assms k
    by (cases k) (auto simp: mount_def mode_inv_def Let_def on_text_binding_def split: if_splits option.splits)
qed

lemma dual_switch_frame:
  "\<exists>b2. dual_switchMode H mode b = b2\<lparr>eb_activeMode := Some mode\<rparr> \<and> frame_of b2 = frame_of b"
  unfolding dual_switchMode_def Let_def
  by (rule exI, rule conjI, rule refl) (simp add: set_source_content_def)

lemma switch_mode_inv:
  assumes "switchMode H mode b = Inr b'" "mode_inv b"
  shows "mode_inv b'"
proof (cases "eb_activeMode b = Some mode")
  case True
  with assms show ?thesis by (auto simp: switchMode_def split: if_splits)
next
  case False
  from assms(1) have m: "mode \<in> set (supportedModes (eb_kind b))"
    by (simp add: switchMode_def split: if_splits)
  show ?thesis
  proof (cases "eb_kind b")
    case Dual_Mode
    obtain b2 where b2: "dual_switchMode H mode b = b2\<lparr>eb_activeMode := Some mode\<rparr>" "frame_of b2 = frame_of b"
      using dual_switch_frame by blast
    have "switchMode H mode b = Inr (b2\<lparr>eb_activeMode := Some mode\<rparr>)"
      using False m Dual_Mode by (simp add: switchMode_def b2(1))
    with assms(1) have "b' = b2\<lparr>eb_activeMode := Some mode\<rparr>" by simp
    then show ?thesis using assms(2) m Dual_Mode
      by (auto simp: mode_inv_def frame_eqD [OF b2(2)])
  next
    case Preview_Source
    then show ?thesis using assms False m
      by (auto simp: switchMode_def preview_switchMode_def mode_inv_def Let_def split: option.splits if_splits)
  next
    case Source_Only
    then show ?thesis using assms False m by (auto simp: switchMode_def)
  qed
qed

lemma run_call_frame:
  assumes "case call of Mount _ _ _ _ \<Rightarrow> False | Unmount \<Rightarrow> False | Switch_Mode _ \<Rightarrow> False | _ \<Rightarrow> True"
  shows "frame_of (run_call H call b) = frame_of b"
  using assms
  by (cases call) (simp_all add: eb_setReadonly_def eb_rebindSharedText_def eb_enableBlame_def
      eb_disableBlame_def eb_updateBlame_def eb_enableComments_def eb_disableComments_def
      eb_updateComments_def eb_text_event_def Let_def)

lemma run_call_mode_inv:
  assumes "mode_inv b"
  shows "mode_inv (run_call H call b)"
proof (cases call)
  case (Mount c mode ro collab)
  then show ?thesis using assms mount_mode_inv [of H c mode ro collab b]
    by (auto simp: returned_def split: sum.splits)
next
  case Unmount
  then show ?thesis by (simp add: unmount_def mode_inv_def)
next
  case (Switch_Mode mode)
  then show ?thesis using assms switch_mode_inv [of H mode b]
    by (auto simp: returned_def split: sum.splits)
qed (use assms mode_inv_frame [OF run_call_frame [of call H b]] in simp_all)

lemma run_calls_mode_inv: "mode_inv b \<Longrightarrow> mode_inv (fold (run_call H) calls b)"
  by (induction calls arbitrary: b) (simp_all add: run_call_mode_inv)

lemma kind_simps:
  "eb_kind (update_source fires f b) = eb_kind b" "eb_kind (update_wysiwyg g b) = eb_kind b"
  "eb_kind (on_text_binding h b) = eb_kind b" "eb_kind (set_source_content text b) = eb_kind b"
  unfolding set_source_content_def by (rule frame_eqD, simp)+

section \<open>The preview follows the source\<close>

definition renders :: "preview_renderer \<Rightarrow> jsstring \<Rightarrow> bool" where
  "renders r content \<longleftrightarrow>
     (if pr_posted r = [] then content = [] else last (pr_posted r) = content)"

definition preview_inv :: "('e, 't, 'c) editor_binding \<Rightarrow> bool" where
  "preview_inv b \<longleftrightarrow>
     (\<forall>r. eb_preview b = Some r \<longrightarrow> pr_ready r
        \<and> (eb_kind b = Preview_Source \<and> eb_activeMode b = Some Preview_Mode \<longrightarrow>
             renders r (source_content b)))"

lemma pr_render_renders: "pr_ready r \<Longrightarrow> pr_ready (pr_render c r) \<and> renders (pr_render c r) c"
  by (simp add: pr_render_def renders_def)

lemma new_preview_ready:
  "pr_ready (pr_ready_message new_preview)" "renders (pr_ready_message new_preview) c \<longleftrightarrow> c = []"
  by (auto simp: pr_ready_message_def new_preview_def renders_def)

lemma preview_update_source:
  assumes "preview_inv b" "\<And>e. \<not> fires e \<Longrightarrow> se_doc (f e) = se_doc e"
  shows "preview_inv (update_source fires f b)"
proof (cases "eb_source b")
  case None
  then show ?thesis using assms by (simp add: update_source_def)
next
  case (Some e)
  have ready: "eb_preview b = Some r \<Longrightarrow> pr_ready r" for r
    using assms(1) by (simp add: preview_inv_def)
  show ?thesis
  proof (cases "fires e")
    case True
    then show ?thesis using Some assms(1) ready pr_render_renders [of _ "se_doc (f e)"]
      by (auto simp: update_source_def on_source_update_def preview_inv_def source_content_def Let_def
          split: option.splits if_splits)
  next
    case False
    then show ?thesis using Some assms
      by (simp add: update_source_def preview_inv_def source_content_def)
  qed
qed

lemma preview_update_wysiwyg [simp]: "preview_inv (update_wysiwyg f b) \<longleftrightarrow> preview_inv b"
  by (simp add: preview_inv_def update_wysiwyg_def source_content_def)

lemma preview_on_text_binding [simp]: "preview_inv (on_text_binding f b) \<longleftrightarrow> preview_inv b"
  by (auto simp: preview_inv_def on_text_binding_def source_content_def Let_def split: option.splits)

lemma preview_texts [simp]: "preview_inv (b\<lparr>eb_texts := t\<rparr>) \<longleftrightarrow> preview_inv b"
  by (simp add: preview_inv_def source_content_def)

lemma preview_shared_change: "preview_inv b \<Longrightarrow> preview_inv (shared_change H i t b)"
  unfolding shared_change_def by (rule preview_update_source) simp_all

lemma preview_set_source: "preview_inv b \<Longrightarrow> preview_inv (set_source_content text b)"
  unfolding set_source_content_def by (rule preview_update_source) (simp_all add: se_setContent_def)

lemma preview_setContent: "preview_inv b \<Longrightarrow> preview_inv (eb_setContent H text b)"
  by (simp add: eb_setContent_def setCollabContent_def Let_def preview_shared_change
      preview_set_source split: option.splits)

lemma se_rebind_doc:
  assumes "ycollab_laws H"
  shows "se_doc (se_rebindSharedText H texts i e) =
    (if \<not> se_awareness e \<or> se_ytext e = Some i then se_doc e else text_of H (texts i))"
  using assms by (simp add: se_rebindSharedText_def Let_def ycollab_laws_def)

lemma preview_rebind:
  assumes "ycollab_laws H" "preview_inv b"
  shows "preview_inv (eb_rebindSharedText H i b)"
proof -
  have "preview_inv (update_source (\<lambda>e. se_awareness e \<and> se_ytext e \<noteq> Some i
      \<and> se_doc e \<noteq> text_of H (eb_texts b i)) (se_rebindSharedText H (eb_texts b) i) b)"
    using assms(2) by (rule preview_update_source) (auto simp: se_rebind_doc [OF assms(1)])
  then show ?thesis using assms(2) by (simp add: eb_rebindSharedText_def)
qed

lemma preview_text_event:
  assumes "preview_inv b"
  shows "preview_inv (eb_text_event H ev b)"
  unfolding eb_text_event_def Let_def by (rule preview_update_source) (simp_all add: assms)

lemma preview_quiet_source:
  "preview_inv b \<Longrightarrow> (\<And>e. se_doc (f e) = se_doc e) \<Longrightarrow> preview_inv (update_source (\<lambda>_. False) f b)"
  by (rule preview_update_source) simp_all

lemma preview_mount:
  assumes "preview_inv b" "mount H c mode ro collab b = Inr b'"
  shows "preview_inv b'"
proof (cases "eb_kind b")
  case Preview_Source
  then show ?thesis using assms new_preview_ready
      pr_render_renders [OF new_preview_ready(1)]
    by (auto simp: mount_def preview_inv_def source_content_def Let_def split: if_splits)
qed (use assms in \<open>auto simp: mount_def preview_inv_def Let_def on_text_binding_def
       split: if_splits option.splits\<close>)

lemma preview_preview_switch:
  assumes "preview_inv b"
  shows "preview_inv (preview_switchMode mode b)"
proof (cases "eb_preview b")
  case None
  then show ?thesis using pr_render_renders [OF new_preview_ready(1)]
    by (auto simp: preview_switchMode_def preview_inv_def source_content_def)
next
  case (Some r)
  then have "pr_ready r" using assms by (simp add: preview_inv_def)
  then show ?thesis using Some pr_render_renders [OF \<open>pr_ready r\<close>]
    by (auto simp: preview_switchMode_def preview_inv_def source_content_def)
qed

lemma preview_switch:
  assumes "preview_inv b" "switchMode H mode b = Inr b'"
  shows "preview_inv b'"
proof (cases "eb_kind b")
  case Dual_Mode
  have set_mode: "preview_inv (b2\<lparr>eb_activeMode := Some mode\<rparr>)"
    if "preview_inv b2" "eb_kind b2 = Dual_Mode" for b2 :: "('a, 'b, 'c) editor_binding"
    using that by (simp add: preview_inv_def)
  have "preview_inv (dual_switchMode H mode b)"
    unfolding dual_switchMode_def Let_def
    by (rule set_mode) (use assms(1) Dual_Mode in \<open>simp_all add: preview_set_source kind_simps\<close>)
  then show ?thesis using assms Dual_Mode by (auto simp: switchMode_def split: if_splits)
next
  case Preview_Source
  then show ?thesis using assms preview_preview_switch [OF assms(1), of mode]
    by (auto simp: switchMode_def split: if_splits)
next
  case Source_Only
  then show ?thesis using assms by (auto simp: switchMode_def split: if_splits)
qed

lemma preview_run_call:
  assumes "ycollab_laws H" "preview_inv b"
  shows "preview_inv (run_call H call b)"
proof (cases call)
  case (Mount c mode ro collab)
  then show ?thesis using assms preview_mount [of b H c mode ro collab]
    by (auto simp: returned_def split: sum.splits)
next
  case (Switch_Mode mode)
  then show ?thesis using assms preview_switch [of b H mode]
    by (auto simp: returned_def split: sum.splits)
next
  case Unmount
  then show ?thesis by (simp add: unmount_def preview_inv_def)
qed (use assms in \<open>simp_all add: preview_setContent preview_rebind preview_shared_change
      preview_text_event preview_quiet_source eb_setReadonly_def eb_enableBlame_def eb_disableBlame_def
      eb_updateBlame_def eb_enableComments_def eb_disableComments_def eb_updateComments_def
      se_setReadonly_def se_enableBlame_def se_disableBlame_def se_updateBlame_def
      se_enableComments_def se_disableComments_def se_updateComments_def Let_def\<close>)

lemma preview_run_calls:
  "ycollab_laws H \<Longrightarrow> preview_inv b \<Longrightarrow> preview_inv (fold (run_call H) calls b)"
  by (induction calls arbitrary: b) (simp_all add: preview_run_call)

section \<open>Content\<close>

lemma source_content_update:
  "source_content (update_source fires f b) =
     (case eb_source b of None \<Rightarrow> [] | Some e \<Rightarrow> se_doc (f e))"
  by (auto simp: update_source_def source_content_def on_source_update_def Let_def split: option.splits)

lemma update_source_fields [simp]:
  "eb_wysiwyg (update_source fires f b) = eb_wysiwyg b" "eb_texts (update_source fires f b) = eb_texts b"
  "eb_textBinding (update_source fires f b) = eb_textBinding b"
  "eb_activeMode (update_source fires f b) = eb_activeMode b"
  "eb_collab (update_source fires f b) = eb_collab b"
  by (auto simp: update_source_def on_source_update_def Let_def split: option.splits)

lemma update_wysiwyg_fields [simp]:
  "eb_source (update_wysiwyg f b) = eb_source b" "eb_texts (update_wysiwyg f b) = eb_texts b"
  "eb_wysiwyg (update_wysiwyg f b) = map_option f (eb_wysiwyg b)"
  "eb_textBinding (update_wysiwyg f b) = eb_textBinding b"
  by (simp_all add: update_wysiwyg_def)

lemma on_text_binding_source [simp]:
  "eb_source (on_text_binding f b) = eb_source b" "eb_collab (on_text_binding f b) = eb_collab b"
  "source_content (on_text_binding f b) = source_content b"
  by (auto simp: on_text_binding_def source_content_def Let_def split: option.splits)

lemma on_text_binding_none [simp]: "eb_textBinding b = None \<Longrightarrow> on_text_binding f b = b"
  by (simp add: on_text_binding_def)

text \<open>Operations of the text binding that leave the texts as they are.\<close>

lemma applyYTextToEditor_texts [simp]: "tb_texts (applyYTextToEditor B s) = tb_texts s"
  by (simp add: applyYTextToEditor_eq)

lemma setPaused_texts [simp]: "tb_texts (setPaused B p s) = tb_texts s"
  by (simp add: setPaused_def Let_def)

lemma retarget_texts [simp]: "tb_texts (retargetYText B i s) = tb_texts s"
  by (simp add: retargetYText_def Let_def)

lemma on_text_binding_texts:
  "(\<And>s. tb_texts (f s) = tb_texts s) \<Longrightarrow> eb_texts (on_text_binding f b) = eb_texts b"
  by (auto simp: on_text_binding_def Let_def split: option.splits)

lemma shared_change_texts:
  "eb_texts (shared_change H i t b) = (eb_texts b)(i := t)"
  by (auto simp: shared_change_def on_text_binding_def write_text_def on_ytext_change_def Let_def
      split: option.splits)

lemma set_source_content_get:
  "eb_source b \<noteq> None \<Longrightarrow> source_content (set_source_content text b) = text"
  by (auto simp: set_source_content_def source_content_update se_setContent_def)

lemma mount_kind:
  "mount H c mode ro collab b = Inr b' \<Longrightarrow> eb_kind b' = eb_kind b"
  by (cases "eb_kind b"; cases collab)
    (simp_all add: mount_def Let_def kind_simps split: if_splits, auto simp: kind_simps)

lemma switch_kind:
  assumes "switchMode H mode b = Inr b'"
  shows "eb_kind b' = eb_kind b"
proof -
  obtain x where x: "dual_switchMode H mode b = x\<lparr>eb_activeMode := Some mode\<rparr>" "frame_of x = frame_of b"
    using dual_switch_frame by blast
  then have "eb_kind (dual_switchMode H mode b) = eb_kind b" by (simp add: frame_eqD(1) [OF x(2)])
  moreover have "eb_kind (preview_switchMode mode b) = eb_kind b"
    by (simp add: preview_switchMode_def Let_def)
  ultimately show ?thesis using assms
    by (auto simp: switchMode_def split: if_splits binding_kind.splits)
qed

lemma returned_keeps:
  "(\<And>b'. r = Inr b' \<Longrightarrow> P b') \<Longrightarrow> P b \<Longrightarrow> P (returned b r)"
  by (cases r) (simp_all add: returned_def)

lemma run_call_kind: "eb_kind (run_call H call b) = eb_kind b"
proof (cases call)
  case (Mount c mode ro collab)
  show ?thesis unfolding Mount run_call.simps by (rule returned_keeps) (auto dest: mount_kind)
next
  case (Switch_Mode m)
  show ?thesis unfolding Switch_Mode run_call.simps by (rule returned_keeps) (auto dest: switch_kind)
next
  case Unmount
  then show ?thesis by (simp add: unmount_def)
qed (rule frame_eqD(1), rule run_call_frame, simp)+

lemma source_content_mode [simp]: "source_content (b\<lparr>eb_activeMode := m\<rparr>) = source_content b"
  by (simp add: source_content_def)

lemma set_source_fields [simp]:
  "eb_wysiwyg (set_source_content text b) = eb_wysiwyg b"
  "eb_textBinding (set_source_content text b) = eb_textBinding b"
  by (simp_all add: set_source_content_def)

lemma getContent_source:
  "eb_activeMode b \<noteq> Some Wysiwyg_Mode \<Longrightarrow> eb_getContent H b = source_content b"
  by (simp add: eb_getContent_def split: option.splits)

lemma getContent_wysiwyg:
  "eb_kind b = Dual_Mode \<Longrightarrow> eb_activeMode b = Some Wysiwyg_Mode \<Longrightarrow> eb_wysiwyg b = Some w \<Longrightarrow>
   eb_getContent H b = getSerializedContent (hv_env H) (we_doc w)"
  by (simp add: eb_getContent_def we_getContent_def)

section \<open>Properties\<close>

definition sample_host :: "(jsstring, jsstring) host_env" where
  "sample_host = \<lparr>hv_env = sample_binding, hv_attach = (\<lambda>d t. t), hv_follow = (\<lambda>d t. t), hv_initial = []\<rparr>"

lemma sample_host_laws: "ycollab_laws sample_host"
  by (simp add: ycollab_laws_def sample_host_def)

text \<open>C34: Whatever calls are made, in whatever order, a binding is only ever in one of its supported
  modes; while it is mounted it has a mode and a source editor, and the rich-text editor or preview
  its mode needs.\<close>

theorem binding_modes_well_formed:
  "mode_inv (fold (run_call H) calls (new_editor_binding kind language texts))"
  by (rule run_calls_mode_inv) (simp add: mode_inv_def new_editor_binding_def)

text \<open>The preview shows the source: after any calls and changes of shared texts, a binding in
  preview mode has posted its current source text last (or nothing at all, while the source is
  empty).\<close>

theorem preview_shows_source:
  assumes "ycollab_laws H"
    and "b = fold (run_call H) calls (new_editor_binding Preview_Source language texts)"
    and "eb_activeMode b = Some Preview_Mode" "eb_preview b = Some r"
  shows "renders r (source_content b)"
proof -
  have "preview_inv b" unfolding assms(2)
    by (rule preview_run_calls [OF assms(1)]) (simp add: preview_inv_def new_editor_binding_def)
  moreover have "eb_kind b = Preview_Source"
  proof -
    have "eb_kind (fold (run_call H) cs x) = eb_kind x" for cs and x :: "('a, 'b, 'c) editor_binding"
      by (induction cs arbitrary: x) (simp_all add: run_call_kind)
    then show ?thesis by (simp add: assms(2) new_editor_binding_def)
  qed
  ultimately show ?thesis using assms(3,4) by (simp add: preview_inv_def)
qed

text \<open>Outside collaboration, switching a binding between rich text and source hands the content
  over: the source editor gets the serialized document, the rich-text editor the rendering of the
  source; switching to the mode it is in changes nothing.\<close>

theorem switch_hands_content_over:
  assumes "eb_kind b = Dual_Mode" "eb_mounted b" "mode_inv b" "eb_collab b = None"
    and "eb_textBinding b = None" "switchMode H mode b = Inr b'"
  shows "eb_getContent H b' =
    (if eb_activeMode b = Some Source_Mode \<and> mode = Wysiwyg_Mode
     then getSerializedContent (hv_env H) (rendered (hv_env H) (eb_getContent H b))
     else eb_getContent H b)"
proof -
  obtain w where w: "eb_wysiwyg b = Some w" using assms(1-3) by (auto simp: mode_inv_def)
  have src: "eb_source b \<noteq> None" using assms(2,3) by (simp add: mode_inv_def)
  have m: "mode = Wysiwyg_Mode \<or> mode = Source_Mode"
    using assms(1,6) by (auto simp: switchMode_def split: if_splits)
  have a: "eb_activeMode b = Some Wysiwyg_Mode \<or> eb_activeMode b = Some Source_Mode"
    using assms(1-3) by (auto simp: mode_inv_def)
  show ?thesis
    using a m
  proof (elim disjE)
    assume "eb_activeMode b = Some Wysiwyg_Mode" "mode = Source_Mode"
    then show ?thesis using assms src w
      by (auto simp: switchMode_def dual_switchMode_def getContent_source getContent_wysiwyg
          we_getContent_def set_source_content_get)
  next
    assume "eb_activeMode b = Some Source_Mode" "mode = Wysiwyg_Mode"
    then show ?thesis using assms src w
      by (auto simp: switchMode_def dual_switchMode_def getContent_source getContent_wysiwyg
          we_setContent_def kind_simps)
  qed (use assms in \<open>auto simp: switchMode_def\<close>)
qed

lemma collab_setContent:
  assumes "eb_collab b = Some i" "ytext_laws (be_text (hv_env H))"
  shows "text_of H (eb_texts b i) \<noteq> [] \<Longrightarrow> eb_setContent H text b = b"
    and "text_of H (eb_texts b i) = [] \<Longrightarrow> text_of H (eb_texts (eb_setContent H text b) i) = text"
    and "j \<noteq> i \<Longrightarrow> eb_texts (eb_setContent H text b) j = eb_texts b j"
  using assms ytext_insert [OF assms(2), of 0 "eb_texts b i" "text"]
  by (auto simp: eb_setContent_def setCollabContent_def shared_change_texts text_of_def Let_def)

text \<open>In collaboration \<open>setContent\<close> never replaces shared content: with a non-empty shared text it
  does nothing at all, to the texts or to the editors; with an empty one it writes the given text
  into it. After the editors have been rebound to another text it still concerns the text the
  binding was mounted with: the text the user sees is not changed.\<close>

theorem collab_setContent_guard:
  assumes "ytext_laws (be_text (hv_env H))" "eb_collab b = Some i"
  shows "(text_of H (eb_texts b i) \<noteq> [] \<longrightarrow> eb_setContent H text b = b)
    \<and> (text_of H (eb_texts b i) = [] \<longrightarrow> text_of H (eb_texts (eb_setContent H text b) i) = text)
    \<and> (j \<noteq> i \<longrightarrow> eb_texts (eb_setContent H text (eb_rebindSharedText H j b)) j = eb_texts b j)"
proof -
  have "eb_collab (eb_rebindSharedText H j b) = Some i"
    using assms(2) by (simp add: eb_rebindSharedText_def)
  moreover have "eb_texts (eb_rebindSharedText H j b) = eb_texts b"
    by (simp add: eb_rebindSharedText_def on_text_binding_texts)
  ultimately show ?thesis
    using collab_setContent [OF assms(2,1)] collab_setContent(3) [of "eb_rebindSharedText H j b" i H j "text"] assms(1)
    by simp
qed

theorem collab_setContent_guard_witness:
  "let b = returned undefined (mount sample_host () Source_Mode False (Some 0)
         (new_editor_binding Source_Only (js ''markdown'') (\<lambda>_. [])))
   in eb_collab b = Some 0 \<and> eb_texts (eb_setContent sample_host (js ''x'') b) 0 = js ''x''
      \<and> eb_texts (eb_setContent sample_host (js ''x'') (eb_rebindSharedText sample_host 1 b)) 1 = []"
proof -
  define b where "b = returned undefined (mount sample_host () Source_Mode False (Some 0)
         (new_editor_binding Source_Only (js ''markdown'') (\<lambda>_. [])))"
  have b: "eb_collab b = Some 0" "eb_texts b = (\<lambda>_. [])"
    by (simp_all add: b_def mount_def new_editor_binding_def returned_def Let_def)
  have Y: "ytext_laws (be_text (hv_env sample_host))"
    by (simp add: sample_host_def plain_text_laws)
  have "text_of sample_host t = t" for t by (simp add: text_of_def sample_host_def)
  then have "eb_collab b = Some 0 \<and> eb_texts (eb_setContent sample_host (js ''x'') b) 0 = js ''x''
      \<and> eb_texts (eb_setContent sample_host (js ''x'') (eb_rebindSharedText sample_host 1 b)) 1 = []"
    using collab_setContent_guard [OF Y b(1), of "js ''x''" 1] b by simp
  then show ?thesis by (simp add: b_def)
qed

text \<open>Rebinding shows the new text and leaves every text as it is: afterwards the source editor
  shows the new text, and in a two-mode binding the rich-text editor serializes to it or is its
  rendering (if the new text is not empty).\<close>

theorem rebind_shows_new_text:
  assumes "ycollab_laws H" "eb_collab b \<noteq> None" "eb_source b = Some e" "se_awareness e"
    and "se_ytext e \<noteq> Some j" "eb_textBinding b = Some tb" "eb_wysiwyg b = Some w"
    and "tb_ytext tb \<noteq> j" "text_of H (eb_texts b j) \<noteq> []"
  shows "let b' = eb_rebindSharedText H j b
    in source_content b' = text_of H (eb_texts b j) \<and> eb_texts b' = eb_texts b
       \<and> (\<exists>w'. eb_wysiwyg b' = Some w' \<and>
            (getSerializedContent (hv_env H) (we_doc w') = text_of H (eb_texts b j)
             \<or> we_doc w' = rendered (hv_env H) (text_of H (eb_texts b j))))"
proof -
  let ?b = "update_source (\<lambda>e. se_awareness e \<and> se_ytext e \<noteq> Some j
      \<and> se_doc e \<noteq> text_of H (eb_texts b j)) (se_rebindSharedText H (eb_texts b) j) b"
  have "source_content ?b = text_of H (eb_texts b j)"
    using assms(3-5) by (simp add: source_content_update se_rebind_doc [OF assms(1)])
  moreover have "\<exists>w'. eb_wysiwyg (on_text_binding (retargetYText (hv_env H) j) ?b) = Some w' \<and>
      (getSerializedContent (hv_env H) (we_doc w') = text_of H (eb_texts b j)
       \<or> we_doc w' = rendered (hv_env H) (text_of H (eb_texts b j)))"
    using assms(6-9)
    by (simp add: on_text_binding_def retargetYText_def Let_def applyYTextToEditor_eq target_string_def
        text_of_def)
  moreover have "eb_rebindSharedText H j b = on_text_binding (retargetYText (hv_env H) j) ?b"
    using assms(2) by (simp only: eb_rebindSharedText_def if_False)
  ultimately show ?thesis by (simp add: on_text_binding_texts Let_def)
qed

theorem switch_hands_content_over_witness:
  "let b = returned undefined (mount sample_host () Source_Mode False None
         (new_editor_binding Dual_Mode (js ''markdown'') (\<lambda>_. [])));
       b1 = eb_setContent sample_host (js ''hi'') b
   in eb_getContent sample_host (returned undefined (switchMode sample_host Wysiwyg_Mode b1)) = js ''hi''"
proof -
  define b where "b = eb_setContent sample_host (js ''hi'') (returned undefined
      (mount sample_host () Source_Mode False None (new_editor_binding Dual_Mode (js ''markdown'') (\<lambda>_. []))))"
  have b: "eb_kind b = Dual_Mode" "eb_mounted b" "eb_collab b = None" "eb_textBinding b = None"
    "eb_activeMode b = Some Source_Mode" "mode_inv b" "eb_getContent sample_host b = js ''hi''"
    by (simp_all add: b_def mount_def new_editor_binding_def returned_def eb_setContent_def
        set_source_content_def update_source_def on_source_update_def se_setContent_def mode_inv_def
        eb_getContent_def source_content_def js_def Let_def)
  have "switchMode sample_host Wysiwyg_Mode b = Inr (dual_switchMode sample_host Wysiwyg_Mode b)"
    using b by (simp add: switchMode_def)
  from switch_hands_content_over [OF b(1,2,6,3,4) this] b(5,7) this
  have "eb_getContent sample_host (returned undefined (switchMode sample_host Wysiwyg_Mode b)) = js ''hi''"
    by (simp add: returned_def) (simp add: sample_host_def)
  then show ?thesis by (simp only: b_def Let_def)
qed

theorem preview_shows_source_witness:
  "let b = fold (run_call sample_host) [Mount () Preview_Mode False (Some 0), Shared_Change 0 (js ''x'')]
         (new_editor_binding Preview_Source (js ''jsx'') (\<lambda>_. []))
   in \<exists>r. eb_preview b = Some r \<and> renders r (js ''x'')"
proof -
  define b where "b = fold (run_call sample_host) [Mount () Preview_Mode False (Some 0), Shared_Change 0 (js ''x'')]
         (new_editor_binding Preview_Source (js ''jsx'') (\<lambda>_. []))"
  have b: "eb_activeMode b = Some Preview_Mode" "source_content b = js ''x''" "eb_preview b \<noteq> None"
    by (simp_all add: b_def mount_def new_editor_binding_def returned_def shared_change_def
        new_source_editor_def update_source_def on_source_update_def source_content_def sample_host_def
        text_of_def Let_def)
  then obtain r where r: "eb_preview b = Some r" by blast
  from preview_shows_source [OF sample_host_laws b_def b(1) r] b(2) r show ?thesis
    by (auto simp: b_def)
qed

theorem rebind_shows_new_text_witness:
  "let b = returned undefined (mount sample_host () Source_Mode False (Some 0)
         (new_editor_binding Dual_Mode (js ''markdown'') (\<lambda>i. if i = 1 then js ''y'' else js ''x'')))
   in source_content (eb_rebindSharedText sample_host 1 b) = js ''y''"
proof -
  define b where "b = returned undefined (mount sample_host () Source_Mode False (Some 0)
         (new_editor_binding Dual_Mode (js ''markdown'') (\<lambda>i. if i = 1 then js ''y'' else js ''x'')))"
  obtain e where e: "eb_source b = Some e" "se_awareness e" "se_ytext e = Some 0"
    by (simp add: b_def mount_def new_editor_binding_def returned_def new_source_editor_def Let_def)
  obtain tb w where tb: "eb_textBinding b = Some tb" "eb_wysiwyg b = Some w" "tb_ytext tb = 0"
    by (simp add: b_def mount_def new_editor_binding_def returned_def on_text_binding_def setPaused_def Let_def)
  have c: "eb_collab b \<noteq> None" "eb_texts b 1 = js ''y''"
    by (simp_all add: b_def mount_def new_editor_binding_def returned_def on_text_binding_def setPaused_def Let_def)
  have y: "text_of sample_host (js ''y'') = js ''y''" by (simp add: text_of_def sample_host_def)
  have "source_content (eb_rebindSharedText sample_host 1 b) = text_of sample_host (eb_texts b 1)"
    using rebind_shows_new_text [OF sample_host_laws c(1) e(1,2) _ tb(1,2), of 1] e(3) tb(3) c(2) y
    by (simp add: Let_def js_def)
  then have "source_content (eb_rebindSharedText sample_host 1 b) = js ''y''" by (simp only: c(2) y)
  then show ?thesis by (simp only: b_def Let_def)
qed

end
