(* ===== verification/Registry.thy ===== *)
theory Registry
  imports Editor_Bindings
begin

text \<open>
  \<open>EditorBindingFactory\<close> and \<open>registerDefaults\<close> of \<open>frontend/src/registry.ts\<close>: the map from MIME types
  to binding constructors and content handlers, with the supported modes probed once and kept. A
  constructor is the kind of binding it creates and its language.
\<close>

record binding_constructor =
  bc_kind :: binding_kind
  bc_language :: jsstring

record registration =
  rg_createBinding :: binding_constructor
  rg_contentHandler :: content_handler
  rg_supportedModes :: "editor_mode list option"

type_synonym factory = "(jsstring, registration) jsmap"

datatype registry_error = No_Binding jsstring | No_Content_Handler jsstring

definition register ::
  "jsstring \<Rightarrow> binding_constructor \<Rightarrow> content_handler \<Rightarrow> factory \<Rightarrow> factory" where
  "register mimeType createBinding contentHandler reg =
     jm_set mimeType \<lparr>rg_createBinding = createBinding, rg_contentHandler = contentHandler,
                      rg_supportedModes = None\<rparr> reg"

definition create :: "jsstring \<Rightarrow> factory \<Rightarrow> registry_error + binding_constructor" where
  "create mimeType reg =
     (case jm_get reg mimeType of
        None \<Rightarrow> Inl (No_Binding mimeType)
      | Some r \<Rightarrow> Inr (rg_createBinding r))"

definition getContentHandler :: "jsstring \<Rightarrow> factory \<Rightarrow> registry_error + content_handler" where
  "getContentHandler mimeType reg =
     (case jm_get reg mimeType of
        None \<Rightarrow> Inl (No_Content_Handler mimeType)
      | Some r \<Rightarrow> Inr (rg_contentHandler r))"

text \<open>\<open>getSupportedModes\<close> keeps what the probe binding declares in the registration.\<close>

definition getSupportedModes :: "jsstring \<Rightarrow> factory \<Rightarrow> editor_mode list \<times> factory" where
  "getSupportedModes mimeType reg =
     (case jm_get reg mimeType of
        None \<Rightarrow> ([Source_Mode], reg)
      | Some r \<Rightarrow>
          (case rg_supportedModes r of
             Some modes \<Rightarrow> (modes, reg)
           | None \<Rightarrow> (let modes = supportedModes (bc_kind (rg_createBinding r))
                     in (modes, jm_set mimeType (r\<lparr>rg_supportedModes := Some modes\<rparr>) reg))))"

definition supports :: "jsstring \<Rightarrow> editor_mode \<Rightarrow> factory \<Rightarrow> bool \<times> factory" where
  "supports mimeType mode reg =
     (let (modes, reg') = getSupportedModes mimeType reg in (mode \<in> set modes, reg'))"

definition getRegisteredMimeTypes :: "factory \<Rightarrow> jsstring list" where
  "getRegisteredMimeTypes reg = map fst reg"

definition default_bindings :: "(jsstring \<times> binding_constructor \<times> content_handler) list" where
  "default_bindings =
     [(js ''text/markdown'', \<lparr>bc_kind = Dual_Mode, bc_language = js ''markdown''\<rparr>, MarkdownContentHandler),
      (js ''text/html'', \<lparr>bc_kind = Dual_Mode, bc_language = js ''html''\<rparr>, HtmlContentHandler),
      (js ''text/jsx'', \<lparr>bc_kind = Preview_Source, bc_language = js ''jsx''\<rparr>, PlainTextContentHandler),
      (js ''text/tsx'', \<lparr>bc_kind = Preview_Source, bc_language = js ''tsx''\<rparr>, PlainTextContentHandler),
      (js ''text/javascript'', \<lparr>bc_kind = Source_Only, bc_language = js ''javascript''\<rparr>, PlainTextContentHandler),
      (js ''text/typescript'', \<lparr>bc_kind = Source_Only, bc_language = js ''typescript''\<rparr>, PlainTextContentHandler),
      (js ''text/x-python'', \<lparr>bc_kind = Source_Only, bc_language = js ''python''\<rparr>, PlainTextContentHandler),
      (js ''text/css'', \<lparr>bc_kind = Source_Only, bc_language = js ''html''\<rparr>, PlainTextContentHandler),
      (js ''application/json'', \<lparr>bc_kind = Source_Only, bc_language = js ''javascript''\<rparr>, PlainTextContentHandler),
      (js ''text/yaml'', \<lparr>bc_kind = Source_Only, bc_language = js ''markdown''\<rparr>, PlainTextContentHandler),
      (js ''text/plain'', \<lparr>bc_kind = Source_Only, bc_language = js ''markdown''\<rparr>, PlainTextContentHandler)]"

definition registerDefaults :: "factory \<Rightarrow> factory" where
  "registerDefaults reg = fold (\<lambda>(mimeType, c, h). register mimeType c h) default_bindings reg"

section \<open>The cache of modes\<close>

text \<open>A use of the factory: a registration or a question about modes.\<close>

datatype factory_call =
    Register jsstring binding_constructor content_handler
  | Ask_Modes jsstring
  | Ask_Supports jsstring editor_mode

fun factory_step :: "factory_call \<Rightarrow> factory \<Rightarrow> factory" where
  "factory_step (Register mt c h) reg = register mt c h reg"
| "factory_step (Ask_Modes mt) reg = snd (getSupportedModes mt reg)"
| "factory_step (Ask_Supports mt mode) reg = snd (supports mt mode reg)"

text \<open>What is registered, the cache left out.\<close>

fun spec_step :: "factory_call \<Rightarrow> (jsstring \<rightharpoonup> binding_constructor \<times> content_handler) \<Rightarrow>
    (jsstring \<rightharpoonup> binding_constructor \<times> content_handler)" where
  "spec_step (Register mt c h) m = m(mt \<mapsto> (c, h))"
| "spec_step _ m = m"

definition registered :: "factory \<Rightarrow> (jsstring \<rightharpoonup> binding_constructor \<times> content_handler)" where
  "registered reg mt = map_option (\<lambda>r. (rg_createBinding r, rg_contentHandler r)) (map_of reg mt)"

definition modes_coherent :: "factory \<Rightarrow> bool" where
  "modes_coherent reg \<longleftrightarrow> (\<forall>mt r ms. map_of reg mt = Some r \<longrightarrow> rg_supportedModes r = Some ms \<longrightarrow>
     ms = supportedModes (bc_kind (rg_createBinding r)))"

lemma getSupportedModes_fst:
  "modes_coherent reg \<Longrightarrow> fst (getSupportedModes mt reg) =
     (case registered reg mt of None \<Rightarrow> [Source_Mode] | Some (c, h) \<Rightarrow> supportedModes (bc_kind c))"
  by (auto simp: getSupportedModes_def modes_coherent_def registered_def Let_def split: option.splits)

lemma factory_step_spec:
  assumes "modes_coherent reg"
  shows "modes_coherent (factory_step call reg)
    \<and> registered (factory_step call reg) = spec_step call (registered reg)"
  using assms
  by (cases call)
    (auto simp: modes_coherent_def registered_def register_def supports_def getSupportedModes_def
      Let_def fun_eq_iff split: option.splits if_splits)

lemma factory_run_spec:
  assumes "modes_coherent reg"
  shows "modes_coherent (fold factory_step calls reg)
    \<and> registered (fold factory_step calls reg) = fold spec_step calls (registered reg)"
  using assms factory_step_spec by (induction calls arbitrary: reg) auto

section \<open>Properties\<close>

text \<open>The factory refines a plain map from MIME types to constructors and handlers: after any
  registrations (replacing earlier ones) and queries, \<open>create\<close> and \<open>getContentHandler\<close> return what was
  registered last, and the kept modes are those of the binding registered last; an unknown type has
  the source mode only and creates nothing.\<close>

theorem registry_refines_map:
  "let reg = fold factory_step calls []; m = fold spec_step calls Map.empty
   in create mt reg = (case m mt of None \<Rightarrow> Inl (No_Binding mt) | Some (c, h) \<Rightarrow> Inr c)
      \<and> getContentHandler mt reg = (case m mt of None \<Rightarrow> Inl (No_Content_Handler mt) | Some (c, h) \<Rightarrow> Inr h)
      \<and> fst (getSupportedModes mt reg) =
          (case m mt of None \<Rightarrow> [Source_Mode] | Some (c, h) \<Rightarrow> supportedModes (bc_kind c))"
proof -
  have "registered [] = Map.empty" by (simp add: registered_def fun_eq_iff)
  then have *: "modes_coherent (fold factory_step calls [])"
    "registered (fold factory_step calls []) = fold spec_step calls Map.empty"
    using factory_run_spec [of "[]" calls] by (simp_all add: modes_coherent_def)
  show ?thesis
    by (auto simp: Let_def getSupportedModes_fst [OF *(1)] * (2) [symmetric] create_def
        getContentHandler_def registered_def split: option.splits)
qed

text \<open>The default registrations are consistent: each registered type is declared by its content
  handler. Of the types the plain-text handler declares, Go, Rust, Java and XML are not registered,
  so \<open>create\<close> rejects them.\<close>

theorem default_registry_consistent:
  "list_all (\<lambda>(mt, r). mt \<in> set (ch_supportedMimeTypes (rg_contentHandler r))) (registerDefaults [])
   \<and> filter (\<lambda>mt. mt \<notin> set (getRegisteredMimeTypes (registerDefaults [])))
       (ch_supportedMimeTypes PlainTextContentHandler) =
     [js ''text/x-go'', js ''text/x-rust'', js ''text/x-java'', js ''application/xml'']"
  by code_simp

end
