(* ===== verification/Socketio_Provider.thy ===== *)
theory Socketio_Provider
  imports Prelude
begin

text \<open>
  \<open>SocketIOProvider\<close> of \<open>frontend/src/collab/socketio-provider.ts\<close>: the Yjs transport over Socket.io. The
  document, the awareness instance and the sync protocol (\<open>yjs\<close>, \<open>y-protocols\<close>) are parameters; a
  frame is a sync message, an awareness message, or one of another type. Sockets are numbered, since
  \<open>connect\<close> may create a second one while the first is still connecting. Every handler registered on
  a socket, the document or the awareness instance is one event.

  Shown: what is sent and that nothing received is echoed, that a server's step 1 is answered, when
  the provider reports being synced, and what a second \<open>connect\<close> does.
\<close>

section \<open>Protocol parameters\<close>

text \<open>\<open>sp_read\<close> is \<open>readSyncMessage\<close>: the reply written to the encoder, if any, the update that the document
  reports in its \<open>update\<close> event when the message changed it, and the document after it; \<open>sp_type\<close> is the
  message type it returns. \<open>aw_apply\<close> is \<open>applyAwarenessUpdate\<close>: the clients that the awareness instance
  reports as changed in its \<open>update\<close> event, if it fires one, and the instance after it.\<close>

record ('d, 'u, 'm, 'a, 'f) sync_ops =
  sp_type :: "'m \<Rightarrow> nat"
  sp_read :: "'m \<Rightarrow> 'd \<Rightarrow> 'm option \<times> 'u option \<times> 'd"
  sp_step1 :: "'d \<Rightarrow> 'm"
  sp_update :: "'u \<Rightarrow> 'm"
  sp_apply :: "'u \<Rightarrow> 'd \<Rightarrow> 'd"
  aw_encode :: "'a \<Rightarrow> nat list \<Rightarrow> 'f"
  aw_apply :: "'f \<Rightarrow> 'a \<Rightarrow> nat list option \<times> 'a"
  aw_clients :: "'a \<Rightarrow> nat list"
  aw_remove :: "nat list \<Rightarrow> 'a \<Rightarrow> 'a"
  aw_hasLocal :: "'a \<Rightarrow> bool"

text \<open>The numbers of the message types in \<open>y-protocols/sync\<close>, for a step 1, a step 2 and an update.\<close>

definition sync_type_numbers :: "('d, 'u, 'm, 'a, 'f) sync_ops \<Rightarrow> 'm \<Rightarrow> 'm \<Rightarrow> bool" where
  "sync_type_numbers P step1 step2 \<longleftrightarrow>
     sp_type P step1 = 0 \<and> sp_type P step2 = 1 \<and> (\<forall>u. sp_type P (sp_update P u) = 2)"

section \<open>The provider\<close>

datatype ('m, 'f) frame = Sync_Frame 'm | Awareness_Frame 'f | Other_Frame nat

datatype socket_status = Status_Connected | Status_Disconnected

record ('d, 'm, 'a, 'f) socketio_provider =
  sk_doc :: 'd
  sk_clientID :: nat
  sk_awareness :: 'a
  sk_wsconnected :: bool
  sk_synced :: bool
  sk_socket :: "nat option"
  sk_sockets :: nat
  sk_live :: "nat set"
  sk_open :: "nat set"
  sk_destroyed :: bool
  sk_handlers :: bool
  sk_sent :: "(nat \<times> ('m, 'f) frame) list"
  sk_statuses :: "socket_status list"
  sk_syncedEvents :: nat

text \<open>\<open>sk_live\<close> are the sockets created and not disconnected, \<open>sk_open\<close> those that are connected.\<close>

definition sk_send ::
  "('m, 'f) frame \<Rightarrow> ('d, 'm, 'a, 'f) socketio_provider \<Rightarrow> ('d, 'm, 'a, 'f) socketio_provider" where
  "sk_send x p = (case sk_socket p of None \<Rightarrow> p | Some s \<Rightarrow> p\<lparr>sk_sent := sk_sent p @ [(s, x)]\<rparr>)"

definition sk_emit_status ::
  "socket_status \<Rightarrow> ('d, 'm, 'a, 'f) socketio_provider \<Rightarrow> ('d, 'm, 'a, 'f) socketio_provider" where
  "sk_emit_status st p = p\<lparr>sk_statuses := sk_statuses p @ [st]\<rparr>"

text \<open>The \<open>update\<close> handler of the document; \<open>own\<close> says that the origin is the provider.\<close>

definition on_local_update ::
  "('d, 'u, 'm, 'a, 'f) sync_ops \<Rightarrow> bool \<Rightarrow> 'u \<Rightarrow>
   ('d, 'm, 'a, 'f) socketio_provider \<Rightarrow> ('d, 'm, 'a, 'f) socketio_provider" where
  "on_local_update P own u p =
     (if own \<or> \<not> sk_wsconnected p then p else sk_send (Sync_Frame (sp_update P u)) p)"

definition on_awareness_update ::
  "('d, 'u, 'm, 'a, 'f) sync_ops \<Rightarrow> bool \<Rightarrow> nat list \<Rightarrow>
   ('d, 'm, 'a, 'f) socketio_provider \<Rightarrow> ('d, 'm, 'a, 'f) socketio_provider" where
  "on_awareness_update P own changed p =
     (if own \<or> \<not> sk_wsconnected p then p
      else sk_send (Awareness_Frame (aw_encode P (sk_awareness p) changed)) p)"

definition sk_connect :: "('d, 'm, 'a, 'f) socketio_provider \<Rightarrow> ('d, 'm, 'a, 'f) socketio_provider" where
  "sk_connect p =
     (if (case sk_socket p of None \<Rightarrow> False | Some s \<Rightarrow> s \<in> sk_open p) then p
      else if sk_destroyed p then p
      else p\<lparr>sk_socket := Some (sk_sockets p), sk_live := insert (sk_sockets p) (sk_live p),
             sk_sockets := sk_sockets p + 1\<rparr>)"

definition new_socketio ::
  "'d \<Rightarrow> nat \<Rightarrow> 'a \<Rightarrow> bool \<Rightarrow> ('d, 'm, 'a, 'f) socketio_provider" where
  "new_socketio doc clientID awareness connect =
     (let p = \<lparr>sk_doc = doc, sk_clientID = clientID, sk_awareness = awareness, sk_wsconnected = False,
               sk_synced = False, sk_socket = None, sk_sockets = 0, sk_live = {}, sk_open = {},
               sk_destroyed = False, sk_handlers = True, sk_sent = [], sk_statuses = [],
               sk_syncedEvents = 0\<rparr>
      in if connect then sk_connect p else p)"

text \<open>The handlers every socket gets.\<close>

definition on_connect ::
  "('d, 'u, 'm, 'a, 'f) sync_ops \<Rightarrow>
   ('d, 'm, 'a, 'f) socketio_provider \<Rightarrow> ('d, 'm, 'a, 'f) socketio_provider" where
  "on_connect P p =
     (let p1 = sk_emit_status Status_Connected (p\<lparr>sk_wsconnected := True\<rparr>);
          p2 = sk_send (Sync_Frame (sp_step1 P (sk_doc p1))) p1
      in if aw_hasLocal P (sk_awareness p2)
         then sk_send (Awareness_Frame (aw_encode P (sk_awareness p2) [sk_clientID p2])) p2 else p2)"

definition on_disconnect ::
  "('d, 'u, 'm, 'a, 'f) sync_ops \<Rightarrow>
   ('d, 'm, 'a, 'f) socketio_provider \<Rightarrow> ('d, 'm, 'a, 'f) socketio_provider" where
  "on_disconnect P p =
     (let p1 = sk_emit_status Status_Disconnected (p\<lparr>sk_wsconnected := False, sk_synced := False\<rparr>);
          states = filter (\<lambda>client. client \<noteq> sk_clientID p1) (aw_clients P (sk_awareness p1))
      in on_awareness_update P True states (p1\<lparr>sk_awareness := aw_remove P states (sk_awareness p1)\<rparr>))"

definition on_connect_error ::
  "('d, 'm, 'a, 'f) socketio_provider \<Rightarrow> ('d, 'm, 'a, 'f) socketio_provider" where
  "on_connect_error p = sk_emit_status Status_Disconnected (p\<lparr>sk_wsconnected := False\<rparr>)"

text \<open>\<open>_handleMessage\<close>. While \<open>readSyncMessage\<close> and \<open>applyAwarenessUpdate\<close> run, the events of the document
  and of the awareness instance call the handlers above, with the provider as origin.\<close>

definition handleMessage ::
  "('d, 'u, 'm, 'a, 'f) sync_ops \<Rightarrow> ('m, 'f) frame \<Rightarrow>
   ('d, 'm, 'a, 'f) socketio_provider \<Rightarrow> ('d, 'm, 'a, 'f) socketio_provider" where
  "handleMessage P x p =
     (case x of
        Sync_Frame m \<Rightarrow>
          (let (reply, fired, d) = sp_read P m (sk_doc p);
               p1 = p\<lparr>sk_doc := d\<rparr>;
               p2 = (case fired of
                       Some u \<Rightarrow> if sk_handlers p1 then on_local_update P True u p1 else p1
                     | None \<Rightarrow> p1);
               p3 = (case reply of None \<Rightarrow> p2 | Some r \<Rightarrow> sk_send (Sync_Frame r) p2)
           in if sp_type P m = 2 \<and> \<not> sk_synced p3
              then p3\<lparr>sk_synced := True, sk_syncedEvents := sk_syncedEvents p3 + 1\<rparr> else p3)
      | Awareness_Frame f \<Rightarrow>
          (let (fired, a) = aw_apply P f (sk_awareness p);
               p1 = p\<lparr>sk_awareness := a\<rparr>
           in case fired of
                Some changed \<Rightarrow> if sk_handlers p1 then on_awareness_update P True changed p1 else p1
              | None \<Rightarrow> p1)
      | Other_Frame _ \<Rightarrow> p)"

text \<open>\<open>socket.disconnect()\<close> fires the socket's \<open>disconnect\<close> event when it was connected.\<close>

definition sk_disconnect ::
  "('d, 'u, 'm, 'a, 'f) sync_ops \<Rightarrow>
   ('d, 'm, 'a, 'f) socketio_provider \<Rightarrow> ('d, 'm, 'a, 'f) socketio_provider" where
  "sk_disconnect P p =
     (let p1 = (case sk_socket p of
                  None \<Rightarrow> p
                | Some s \<Rightarrow>
                    (let p2 = p\<lparr>sk_live := sk_live p - {s}, sk_open := sk_open p - {s}\<rparr>
                     in (if s \<in> sk_open p then on_disconnect P p2 else p2)\<lparr>sk_socket := None\<rparr>))
      in p1\<lparr>sk_wsconnected := False, sk_synced := False\<rparr>)"

definition sk_destroy ::
  "('d, 'u, 'm, 'a, 'f) sync_ops \<Rightarrow>
   ('d, 'm, 'a, 'f) socketio_provider \<Rightarrow> ('d, 'm, 'a, 'f) socketio_provider" where
  "sk_destroy P p =
     (if sk_destroyed p then p
      else (let p1 = p\<lparr>sk_destroyed := True,
                      sk_awareness := aw_remove P [sk_clientID p] (sk_awareness p)\<rparr>;
                p2 = sk_disconnect P (on_awareness_update P False [sk_clientID p] p1)
            in p2\<lparr>sk_handlers := False\<rparr>))"

section \<open>Events\<close>

datatype ('u, 'm, 'a, 'f) socket_event =
    Socket_Connects nat
  | Socket_Disconnects nat
  | Socket_Errors nat
  | Socket_Message nat "('m, 'f) frame"
  | Local_Update 'u
  | Awareness_Changed 'a "nat list"
  | Call_Connect
  | Call_Disconnect
  | Call_Destroy

fun socket_step ::
  "('d, 'u, 'm, 'a, 'f) sync_ops \<Rightarrow> ('u, 'm, 'a, 'f) socket_event \<Rightarrow>
   ('d, 'm, 'a, 'f) socketio_provider \<Rightarrow> ('d, 'm, 'a, 'f) socketio_provider" where
  "socket_step P (Socket_Connects s) p =
     (if s \<in> sk_live p then on_connect P (p\<lparr>sk_open := insert s (sk_open p)\<rparr>) else p)"
| "socket_step P (Socket_Disconnects s) p =
     (if s \<in> sk_open p then on_disconnect P (p\<lparr>sk_open := sk_open p - {s}\<rparr>) else p)"
| "socket_step P (Socket_Errors s) p = (if s \<in> sk_live p then on_connect_error p else p)"
| "socket_step P (Socket_Message s x) p = (if s \<in> sk_open p then handleMessage P x p else p)"
| "socket_step P (Local_Update u) p =
     (let p1 = p\<lparr>sk_doc := sp_apply P u (sk_doc p)\<rparr>
      in if sk_handlers p1 then on_local_update P False u p1 else p1)"
| "socket_step P (Awareness_Changed a changed) p =
     (let p1 = p\<lparr>sk_awareness := a\<rparr>
      in if sk_handlers p1 then on_awareness_update P False changed p1 else p1)"
| "socket_step P Call_Connect p = sk_connect p"
| "socket_step P Call_Disconnect p = sk_disconnect P p"
| "socket_step P Call_Destroy p = sk_destroy P p"

text \<open>What a connected provider has to send for a sequence of local updates, local changes of presence
  and messages of its socket, told from the document and the awareness instance alone.\<close>

datatype ('u, 'm, 'a, 'f) session_event = Typed 'u | Presence 'a "nat list" | Received "('m, 'f) frame"

fun session_event_of :: "nat \<Rightarrow> ('u, 'm, 'a, 'f) session_event \<Rightarrow> ('u, 'm, 'a, 'f) socket_event" where
  "session_event_of s (Typed u) = Local_Update u"
| "session_event_of s (Presence a changed) = Awareness_Changed a changed"
| "session_event_of s (Received x) = Socket_Message s x"

fun session_output ::
  "('d, 'u, 'm, 'a, 'f) sync_ops \<Rightarrow> ('u, 'm, 'a, 'f) session_event list \<Rightarrow> 'd \<Rightarrow> ('m, 'f) frame list" where
  "session_output P [] d = []"
| "session_output P (Typed u # evs) d =
     Sync_Frame (sp_update P u) # session_output P evs (sp_apply P u d)"
| "session_output P (Presence a changed # evs) d =
     Awareness_Frame (aw_encode P a changed) # session_output P evs d"
| "session_output P (Received (Sync_Frame m) # evs) d =
     (case fst (sp_read P m d) of None \<Rightarrow> [] | Some r \<Rightarrow> [Sync_Frame r])
     @ session_output P evs (snd (snd (sp_read P m d)))"
| "session_output P (Received x # evs) d = session_output P evs d"

definition in_session :: "nat \<Rightarrow> ('d, 'm, 'a, 'f) socketio_provider \<Rightarrow> bool" where
  "in_session s p \<longleftrightarrow> sk_socket p = Some s \<and> s \<in> sk_open p \<and> sk_wsconnected p \<and> sk_handlers p"

lemma handle_message_session:
  assumes "in_session s p"
  shows "in_session s (handleMessage P x p)
    \<and> sk_sent (handleMessage P x p) = sk_sent p @ map (Pair s) (session_output P [Received x] (sk_doc p))
    \<and> sk_doc (handleMessage P x p) =
        (case x of Sync_Frame m \<Rightarrow> snd (snd (sp_read P m (sk_doc p))) | _ \<Rightarrow> sk_doc p)"
  using assms
  by (cases x)
    (auto simp: in_session_def handleMessage_def on_local_update_def on_awareness_update_def sk_send_def
      Let_def split: option.splits prod.splits)

lemma session_step:
  assumes "in_session s p"
  shows "in_session s (socket_step P (session_event_of s ev) p)
    \<and> sk_sent (socket_step P (session_event_of s ev) p) =
        sk_sent p @ map (Pair s) (session_output P [ev] (sk_doc p))
    \<and> session_output P (ev # evs) (sk_doc p) = session_output P [ev] (sk_doc p)
        @ session_output P evs (sk_doc (socket_step P (session_event_of s ev) p))"
proof (cases ev)
  case (Received x)
  then have "socket_step P (session_event_of s ev) p = handleMessage P x p"
    using assms by (simp add: in_session_def)
  with handle_message_session [OF assms, of P x] show ?thesis
    by (cases x) (simp_all add: Received)
qed (use assms in \<open>simp_all add: in_session_def on_local_update_def on_awareness_update_def sk_send_def Let_def\<close>)

section \<open>Properties\<close>

text \<open>C35: A connected provider sends every local update and every local change of presence exactly
  once and in order, and the replies of the sync protocol, and nothing else: what it receives is applied
  to the document or the awareness instance, whose events call the provider's own handlers, but
  none of it is sent back. (\<open>in_session\<close>: the socket is the current one and connected, and the
  handlers are registered.)\<close>

theorem session_sends_local_updates:
  assumes "in_session s p"
  shows "sk_sent (fold (socket_step P) (map (session_event_of s) evs) p) =
    sk_sent p @ map (Pair s) (session_output P evs (sk_doc p))"
  using assms
proof (induction evs arbitrary: p)
  case (Cons ev evs)
  let ?q = "socket_step P (session_event_of s ev) p"
  have q: "in_session s ?q" "sk_sent ?q = sk_sent p @ map (Pair s) (session_output P [ev] (sk_doc p))"
    "session_output P (ev # evs) (sk_doc p) = session_output P [ev] (sk_doc p) @ session_output P evs (sk_doc ?q)"
    using session_step [OF Cons.prems, of P ev evs] by auto
  have "sk_sent (fold (socket_step P) (map (session_event_of s) evs) ?q) =
      sk_sent ?q @ map (Pair s) (session_output P evs (sk_doc ?q))"
    using q(1) by (rule Cons.IH)
  then show ?case by (simp only: list.map fold_simps q(2,3) map_append append_assoc)
qed simp

text \<open>Completing the handshake does not make the provider report that it is synced: receiving the
  server's step 1 and step 2, in any number and order, leaves it unsynced without an event; only the
  first update message does. The comment in the code says it is marked synced after step 2.\<close>

theorem handshake_not_reported:
  assumes "sync_type_numbers P step1 step2" "in_session s p" "\<not> sk_synced p"
    and "set ms \<subseteq> {step1, step2}"
  shows "let q = fold (socket_step P) (map (\<lambda>m. Socket_Message s (Sync_Frame m)) ms) p
    in \<not> sk_synced q \<and> sk_syncedEvents q = sk_syncedEvents p
       \<and> sk_synced (socket_step P (Socket_Message s (Sync_Frame (sp_update P u))) q)"
proof -
  have "in_session s q \<and> \<not> sk_synced q \<and> sk_syncedEvents q = sk_syncedEvents p"
    if "q = fold (socket_step P) (map (\<lambda>m. Socket_Message s (Sync_Frame m)) ms) p" for q
    using assms(2-4) unfolding that
  proof (induction ms arbitrary: p)
    case (Cons m ms)
    let ?p = "socket_step P (Socket_Message s (Sync_Frame m)) p"
    have m: "sp_type P m \<noteq> 2" using assms(1) Cons.prems(3) by (auto simp: sync_type_numbers_def)
    have "in_session s ?p \<and> \<not> sk_synced ?p \<and> sk_syncedEvents ?p = sk_syncedEvents p"
      using Cons.prems(1,2) m
      by (auto simp: in_session_def handleMessage_def on_local_update_def sk_send_def Let_def
          split: option.splits prod.splits)
    with Cons.IH [of ?p] Cons.prems(3) show ?case by simp
  qed simp
  moreover have "sp_type P (sp_update P u) = 2" using assms(1) by (simp add: sync_type_numbers_def)
  ultimately show ?thesis
    by (auto simp: Let_def in_session_def handleMessage_def on_local_update_def sk_send_def
        split: option.splits prod.splits)
qed

text \<open>A protocol on documents that are lists of updates: step 1 asks, step 2 and updates carry the
  updates to add.\<close>

datatype sample_msg = Ask | Carry "nat list" | Upd nat

definition sample_sync :: "(nat list, nat, sample_msg, unit, unit) sync_ops" where
  "sample_sync =
     \<lparr>sp_type = (\<lambda>m. case m of Ask \<Rightarrow> 0 | Carry _ \<Rightarrow> 1 | Upd _ \<Rightarrow> 2),
      sp_read = (\<lambda>m d. case m of Ask \<Rightarrow> (Some (Carry d), None, d)
                          | Carry us \<Rightarrow> (None, (case us of [] \<Rightarrow> None | u # _ \<Rightarrow> Some u), d @ us)
                          | Upd u \<Rightarrow> (None, Some u, d @ [u])),
      sp_step1 = (\<lambda>_. Ask), sp_update = Upd, sp_apply = (\<lambda>u d. d @ [u]),
      aw_encode = (\<lambda>_ _. ()), aw_apply = (\<lambda>_ a. (Some [9], a)), aw_clients = (\<lambda>_. []), aw_remove = (\<lambda>_ a. a),
      aw_hasLocal = (\<lambda>_. False)\<rparr>"

definition sample_session :: "(nat list, sample_msg, unit, unit) socketio_provider" where
  "sample_session = socket_step sample_sync (Socket_Connects 0) (new_socketio [] 7 () True)"

lemma sample_session_in: "in_session 0 sample_session"
  by (simp add: sample_session_def in_session_def new_socketio_def sk_connect_def on_connect_def
      sk_send_def sk_emit_status_def sample_sync_def Let_def)

theorem session_sends_local_updates_witness:
  "map snd (sk_sent (fold (socket_step sample_sync)
     (map (session_event_of 0) [Typed 1, Received (Sync_Frame (Upd 2)), Received (Awareness_Frame ()),
        Presence () [7], Received (Sync_Frame Ask)]) sample_session)) =
   [Sync_Frame Ask, Sync_Frame (Upd 1), Awareness_Frame (), Sync_Frame (Carry [1, 2])]"
proof -
  have "sk_sent sample_session = [(0, Sync_Frame Ask)]" "sk_doc sample_session = []"
    by (simp_all add: sample_session_def new_socketio_def sk_connect_def on_connect_def sk_send_def
        sk_emit_status_def sample_sync_def Let_def)
  then show ?thesis
    by (simp only: session_sends_local_updates [OF sample_session_in]) (simp add: sample_sync_def)
qed

theorem handshake_not_reported_witness:
  "\<not> sk_synced (fold (socket_step sample_sync)
     (map (\<lambda>m. Socket_Message 0 (Sync_Frame m)) [Ask, Carry [3]]) sample_session)"
proof -
  have "sync_type_numbers sample_sync Ask (Carry [3])" by (simp add: sync_type_numbers_def sample_sync_def)
  moreover have "\<not> sk_synced sample_session"
    by (simp add: sample_session_def new_socketio_def sk_connect_def on_connect_def sk_send_def
        sk_emit_status_def sample_sync_def Let_def)
  ultimately show ?thesis
    using handshake_not_reported [of sample_sync Ask "Carry [3]" 0 sample_session "[Ask, Carry [3]]"]
      sample_session_in by (simp add: Let_def del: fold_simps list.map)
qed

text \<open>A second \<open>connect\<close> while the first socket is still connecting leaves the first one behind: a
  later \<open>disconnect\<close> closes only the second, and when the first connects after all, the provider
  takes itself for connected while it has no socket to send on.\<close>

lemma second_connect_leaks_socket:
  assumes "sk_socket p = Some s" "s \<in> sk_live p" "s \<notin> sk_open p" "\<not> sk_destroyed p" "s < sk_sockets p"
    "sk_sockets p \<notin> sk_open p"
  shows "let q = socket_step P (Socket_Connects s) (socket_step P Call_Disconnect (socket_step P Call_Connect p))
    in sk_wsconnected q \<and> sk_socket q = None \<and> s \<in> sk_live q"
  using assms
  by (auto simp: sk_connect_def sk_disconnect_def on_connect_def sk_send_def sk_emit_status_def Let_def)

end
