(* ===== verification/Comment_Coordinator.thy ===== *)
theory Comment_Coordinator
  imports Editor_Bindings Comment_Engine Blame_Engine
begin

text \<open>
  \<open>CommentCoordinator\<close> of \<open>frontend/src/collab/comment-coordinator.ts\<close>: it shows the threads and
  suggestion overlays of a comment engine (\<open>Comment_Engine\<close>) in the editors of a binding
  (\<open>Editor_Bindings\<close>). Resolving a stored anchor can throw (\<open>Comment_Anchor\<close>); an operation returns
  the exception it lets through, if any, beside the state. Shown: as long as no operation throws,
  every editor shows the current threads, overlays and active thread, or nothing while muted.
\<close>

section \<open>Actions that may throw\<close>

type_synonym 's action = "'s \<Rightarrow> jsstring option \<times> 's"

definition quiet :: "('s \<Rightarrow> 's) \<Rightarrow> 's action" where
  "quiet f s = (None, f s)"

definition seq :: "'s action \<Rightarrow> 's action \<Rightarrow> 's action" where
  "seq a b s = (case a s of (Some err, s') \<Rightarrow> (Some err, s') | (None, s') \<Rightarrow> b s')"

lemma quiet_normal [simp]: "quiet f s = (None, s') \<longleftrightarrow> s' = f s"
  by (auto simp: quiet_def)

lemma seq_normal: "seq a b s = (None, s'') \<longleftrightarrow> (\<exists>s'. a s = (None, s') \<and> b s' = (None, s''))"
  by (auto simp: seq_def split: prod.splits option.splits)

text \<open>A run of actions that stops at the first exception.\<close>

fun run_actions :: "('x \<Rightarrow> 's action) \<Rightarrow> 'x list \<Rightarrow> 's action" where
  "run_actions f [] = quiet (\<lambda>s. s)"
| "run_actions f (x # xs) = seq (f x) (run_actions f xs)"

lemma run_actions_inv:
  assumes "\<And>x s s'. x \<in> set xs \<Longrightarrow> P s \<Longrightarrow> f x s = (None, s') \<Longrightarrow> P s'"
    and "P s" "run_actions f xs s = (None, s')"
  shows "P s'"
  using assms
proof (induction xs arbitrary: s)
  case (Cons x xs)
  from Cons.prems(3) obtain t where t: "f x s = (None, t)" and r: "run_actions f xs t = (None, s')"
    by (auto simp: seq_normal)
  have "P t" by (rule Cons.prems(1) [OF _ Cons.prems(2) t]) simp
  then show ?case by (rule Cons.IH [rotated]) (use r in \<open>auto intro: Cons.prems(1)\<close>)
qed simp

section \<open>Colours\<close>

definition DEFAULT_PALETTE :: "jsstring list" where
  "DEFAULT_PALETTE = map js
     [''#1f77b4'', ''#ff7f0e'', ''#2ca02c'', ''#d62728'',
      ''#9467bd'', ''#8c564b'', ''#e377c2'', ''#7f7f7f'']"

definition palette_step :: "32 word \<Rightarrow> code_unit \<Rightarrow> 32 word" where
  "palette_step h c = h * 31 + ucast c"

text \<open>\<open>Math.abs\<close> of the most negative 32-bit number is \<open>2\<^sup>3\<^sup>1\<close>, a number of its own in the source.\<close>

definition paletteColor :: "jsstring \<Rightarrow> jsstring" where
  "paletteColor userId =
     DEFAULT_PALETTE ! nat (\<bar>sint (foldl palette_step 0 userId)\<bar> mod int (length DEFAULT_PALETTE))"

section \<open>State\<close>

record pending_overlay =
  po_start :: int
  po_end :: int
  po_afterText :: jsstring
  po_operations :: "operation_summary list"
  po_authorColor :: jsstring

text \<open>What \<open>updateComments\<close> passes to an editor; \<open>cv_ytext\<close> is the document whose text handle is
  passed (\<open>None\<close>: \<open>undefined\<close>).\<close>

record comments_view =
  cv_threads :: "comment_thread list"
  cv_overlays :: "overlay_region list"
  cv_activeThreadId :: "jsstring option"
  cv_pending :: "pending_overlay option"
  cv_ytext :: "nat option"

definition empty_view :: "nat option \<Rightarrow> comments_view" where
  "empty_view ytext =
     \<lparr>cv_threads = [], cv_overlays = [], cv_activeThreadId = None, cv_pending = None, cv_ytext = ytext\<rparr>"

record comment_config =
  cg_commentsEnabled :: "bool option"
  cg_suggestEnabled :: "bool option"
  cg_userColor :: "(jsstring \<Rightarrow> jsstring) option"

text \<open>\<open>cx_engine\<close>, \<open>cx_binding\<close>: the coordinator holds the engine, the (capable) binding;
  \<open>cx_observing\<close>: the observer of the text is registered. The last two fields log the calls of the
  host's callbacks.\<close>

record comment_coordinator =
  cx_engine :: bool
  cx_binding :: bool
  cx_decorationsMuted :: bool
  cx_ydoc :: "nat option"
  cx_config :: comment_config
  cx_observing :: bool
  cx_activeThreadId :: "jsstring option"
  cx_commentsActive :: bool
  cx_suggestActive :: bool
  cx_pendingOverlay :: "pending_overlay option"
  cx_threadsReported :: "comment_thread list list"
  cx_activeReported :: "jsstring option list"

definition no_comment_config :: comment_config where
  "no_comment_config = \<lparr>cg_commentsEnabled = None, cg_suggestEnabled = None, cg_userColor = None\<rparr>"

definition new_comment_coordinator :: comment_coordinator where
  "new_comment_coordinator =
     \<lparr>cx_engine = False, cx_binding = False, cx_decorationsMuted = False, cx_ydoc = None,
      cx_config = no_comment_config, cx_observing = False, cx_activeThreadId = None,
      cx_commentsActive = False, cx_suggestActive = False, cx_pendingOverlay = None,
      cx_threadsReported = [], cx_activeReported = []\<rparr>"

text \<open>The key of the coordinator's listener in the engine's set of listeners.\<close>

definition coordinator_listener :: nat where
  "coordinator_listener = 0"

text \<open>The coordinator, its engine and its binding.\<close>

record ('t, 'm, 'e, 's) comment_surface =
  cs_co :: comment_coordinator
  cs_engine :: "('t, 'm) engine"
  cs_binding :: "('e, 's, comments_view) editor_binding"

section \<open>Operations\<close>

definition user_color :: "comment_coordinator \<Rightarrow> jsstring \<Rightarrow> jsstring" where
  "user_color co = (case cg_userColor (cx_config co) of None \<Rightarrow> paletteColor | Some f \<Rightarrow> f)"

definition commentsAvailable :: "comment_coordinator \<Rightarrow> bool" where
  "commentsAvailable co \<longleftrightarrow> cg_commentsEnabled (cx_config co) \<noteq> Some False \<and> cx_engine co"

definition suggestAvailable :: "comment_coordinator \<Rightarrow> ('t, 'm) engine \<Rightarrow> bool" where
  "suggestAvailable co e \<longleftrightarrow>
     commentsAvailable co \<and> cg_suggestEnabled (cx_config co) \<noteq> Some False
     \<and> (case ce_capabilities e of None \<Rightarrow> False | Some c \<Rightarrow> cc_suggestions c)"

definition pushDecorations :: "('t, 'm) comment_env \<Rightarrow> ('t, 'm, 'e, 's) comment_surface action" where
  "pushDecorations E w =
     (let co = cs_co w; e = cs_engine w; b = cs_binding w
      in if \<not> cx_engine co \<or> \<not> cx_binding co \<or> \<not> cx_commentsActive co then (None, w)
         else if cx_decorationsMuted co then
           (None, w\<lparr>cs_binding := eb_updateComments (empty_view (cx_ydoc co)) b\<rparr>)
         else case getSuggestionOverlays E (user_color co) e of
                Inl err \<Rightarrow> (Some err, w)
              | Inr overlays \<Rightarrow>
                  (None, w\<lparr>cs_binding := eb_updateComments
                     \<lparr>cv_threads = getThreads E e, cv_overlays = overlays,
                      cv_activeThreadId = cx_activeThreadId co, cv_pending = cx_pendingOverlay co,
                      cv_ytext = cx_ydoc co\<rparr> b\<rparr>))"

definition on_surface ::
  "(('e, 's, comments_view) editor_binding \<Rightarrow> ('e, 's, comments_view) editor_binding) \<Rightarrow>
   ('t, 'm, 'e, 's) comment_surface \<Rightarrow> ('t, 'm, 'e, 's) comment_surface" where
  "on_surface f w = (if cx_binding (cs_co w) then w\<lparr>cs_binding := f (cs_binding w)\<rparr> else w)"

definition comment_detach ::
  "('t, 'm, 'e, 's) comment_surface \<Rightarrow> ('t, 'm, 'e, 's) comment_surface" where
  "comment_detach w =
     (let w1 = (if cx_engine (cs_co w)
                then w\<lparr>cs_engine := offThreadsChange coordinator_listener (cs_engine w)\<rparr> else w);
          w2 = (if cx_commentsActive (cs_co w1) then on_surface eb_disableComments w1 else w1)
      in w2\<lparr>cs_co := (cs_co w2)\<lparr>cx_observing := False, cx_binding := False, cx_engine := False,
              cx_ydoc := None, cx_config := no_comment_config, cx_commentsActive := False,
              cx_suggestActive := False, cx_activeThreadId := None, cx_pendingOverlay := None\<rparr>\<rparr>)"

text \<open>\<open>engine\<close> is the engine given to \<open>attach\<close>; \<open>capable\<close> is \<open>isCommentCapable(binding)\<close>.\<close>

definition comment_attach ::
  "('t, 'm) comment_env \<Rightarrow> ('t, 'm) engine \<Rightarrow> bool \<Rightarrow> nat \<Rightarrow> comment_config \<Rightarrow>
   ('t, 'm, 'e, 's) comment_surface action" where
  "comment_attach E engine capable ydoc config w =
     (let w1 = comment_detach w;
          w2 = w1\<lparr>cs_engine := onThreadsChange coordinator_listener engine,
                  cs_co := (cs_co w1)\<lparr>cx_engine := True, cx_ydoc := Some ydoc, cx_config := config,
                             cx_binding := capable, cx_observing := True\<rparr>\<rparr>
      in if commentsAvailable (cs_co w2)
         then pushDecorations E (on_surface eb_enableComments
                (w2\<lparr>cs_co := (cs_co w2)\<lparr>cx_commentsActive := True\<rparr>\<rparr>))
         else (None, w2))"

definition comment_onModeSwitch ::
  "('t, 'm) comment_env \<Rightarrow> bool \<Rightarrow> ('t, 'm, 'e, 's) comment_surface action" where
  "comment_onModeSwitch E capable w =
     (let w1 = w\<lparr>cs_co := (cs_co w)\<lparr>cx_binding := capable\<rparr>\<rparr>
      in if cx_commentsActive (cs_co w1) then pushDecorations E (on_surface eb_enableComments w1)
         else (None, w1))"

definition setActiveThread ::
  "('t, 'm) comment_env \<Rightarrow> jsstring option \<Rightarrow> ('t, 'm, 'e, 's) comment_surface action" where
  "setActiveThread E threadId w =
     (if cx_activeThreadId (cs_co w) = threadId then (None, w)
      else pushDecorations E (w\<lparr>cs_co := (cs_co w)\<lparr>cx_activeThreadId := threadId,
             cx_activeReported := cx_activeReported (cs_co w) @ [threadId]\<rparr>\<rparr>))"

definition setPendingOverlay ::
  "('t, 'm) comment_env \<Rightarrow> pending_overlay option \<Rightarrow> ('t, 'm, 'e, 's) comment_surface action" where
  "setPendingOverlay E overlay w =
     pushDecorations E (w\<lparr>cs_co := (cs_co w)\<lparr>cx_pendingOverlay := overlay\<rparr>\<rparr>)"

definition setDecorationsMuted ::
  "('t, 'm) comment_env \<Rightarrow> bool \<Rightarrow> ('t, 'm, 'e, 's) comment_surface action" where
  "setDecorationsMuted E muted w =
     (if cx_decorationsMuted (cs_co w) = muted then (None, w)
      else pushDecorations E (w\<lparr>cs_co := (cs_co w)\<lparr>cx_decorationsMuted := muted\<rparr>\<rparr>))"

definition setSuggestActive ::
  "bool \<Rightarrow> ('t, 'm, 'e, 's) comment_surface \<Rightarrow> ('t, 'm, 'e, 's) comment_surface" where
  "setSuggestActive active w =
     w\<lparr>cs_co := (cs_co w)\<lparr>cx_suggestActive := (if suggestAvailable (cs_co w) (cs_engine w) then active else False)\<rparr>\<rparr>"

text \<open>The listener that \<open>attach\<close> registers with the engine, and the observer of the text.\<close>

definition on_threads :: "('t, 'm) comment_env \<Rightarrow> ('t, 'm, 'e, 's) comment_surface action" where
  "on_threads E w =
     pushDecorations E (w\<lparr>cs_co := (cs_co w)\<lparr>cx_threadsReported :=
       cx_threadsReported (cs_co w) @ [getThreads E (cs_engine w)]\<rparr>\<rparr>)"

definition on_text_change :: "('t, 'm) comment_env \<Rightarrow> ('t, 'm, 'e, 's) comment_surface action" where
  "on_text_change E w = (if cx_observing (cs_co w) then pushDecorations E w else (None, w))"

section \<open>What the editors show\<close>

definition shown_comments :: "('e, 's, 'c) editor_binding \<Rightarrow> 'c option list" where
  "shown_comments b =
     (case eb_source b of None \<Rightarrow> [] | Some e \<Rightarrow> [se_shown e])
     @ (case eb_wysiwyg b of None \<Rightarrow> [] | Some w \<Rightarrow> [we_shown w])"

lemma shown_update: "shown_comments (eb_updateComments c b) = map (map_option (\<lambda>_. c)) (shown_comments b)"
  and shown_disable: "shown_comments (eb_disableComments b) = map (\<lambda>_. None) (shown_comments b)"
  by (auto simp: shown_comments_def eb_updateComments_def eb_disableComments_def update_source_def
      se_updateComments_def we_updateComments_def se_disableComments_def we_disableComments_def Let_def
      split: option.splits)

lemma shown_updated:
  assumes "None \<notin> set (shown_comments b)" "v \<in> set (shown_comments (eb_updateComments c b))"
  shows "v = Some c"
  using assms by (auto simp: shown_update) (metis not_None_eq)

lemma shown_enable: "None \<notin> set (shown_comments (eb_enableComments b))"
  by (auto simp: shown_comments_def eb_enableComments_def update_source_def
      se_enableComments_def we_enableComments_def split: option.splits)

text \<open>The view that the current state of coordinator and engine calls for.\<close>

definition due_view :: "('t, 'm) comment_env \<Rightarrow> comment_coordinator \<Rightarrow> ('t, 'm) engine \<Rightarrow> comments_view option" where
  "due_view E co e =
     (if cx_decorationsMuted co then Some (empty_view (cx_ydoc co))
      else case getSuggestionOverlays E (user_color co) e of
             Inl _ \<Rightarrow> None
           | Inr overlays \<Rightarrow> Some \<lparr>cv_threads = getThreads E e, cv_overlays = overlays,
               cv_activeThreadId = cx_activeThreadId co, cv_pending = cx_pendingOverlay co,
               cv_ytext = cx_ydoc co\<rparr>)"

definition view_current :: "('t, 'm) comment_env \<Rightarrow> ('t, 'm, 'e, 's) comment_surface \<Rightarrow> bool" where
  "view_current E w \<longleftrightarrow>
     (cx_binding (cs_co w) \<longrightarrow> (\<forall>v \<in> set (shown_comments (cs_binding w)).
        v \<noteq> None \<and> v = due_view E (cs_co w) (cs_engine w)))"

definition attached_comments :: "('t, 'm, 'e, 's) comment_surface \<Rightarrow> bool" where
  "attached_comments w \<longleftrightarrow>
     cx_engine (cs_co w) \<and> cx_commentsActive (cs_co w) \<and> cx_observing (cs_co w)
     \<and> (cx_binding (cs_co w) \<longrightarrow> None \<notin> set (shown_comments (cs_binding w)))"

text \<open>What happens in a session: the engine reaches another state and notifies its listeners, or its
  text changes; the element calls the coordinator.\<close>

datatype ('t, 'm) comment_event =
    Threads_Changed "('t, 'm) engine"
  | Text_Changed 't
  | Set_Active "jsstring option"
  | Set_Pending "pending_overlay option"
  | Set_Muted bool
  | Switched_Mode bool

fun comment_event_step ::
  "('t, 'm) comment_env \<Rightarrow> ('t, 'm) comment_event \<Rightarrow> ('t, 'm, 'e, 's) comment_surface action" where
  "comment_event_step E (Threads_Changed e) w = on_threads E (w\<lparr>cs_engine := e\<rparr>)"
| "comment_event_step E (Text_Changed t) w =
     on_text_change E (w\<lparr>cs_engine := (cs_engine w)\<lparr>ce_text := t\<rparr>\<rparr>)"
| "comment_event_step E (Set_Active i) w = setActiveThread E i w"
| "comment_event_step E (Set_Pending v) w = setPendingOverlay E v w"
| "comment_event_step E (Set_Muted m) w = setDecorationsMuted E m w"
| "comment_event_step E (Switched_Mode capable) w = comment_onModeSwitch E capable w"

lemma push_fields:
  "pushDecorations E w = (r, w') \<Longrightarrow> cs_co w' = cs_co w \<and> cs_engine w' = cs_engine w"
  by (auto simp: pushDecorations_def Let_def split: if_splits sum.splits)

lemma push_current:
  assumes "attached_comments w" "pushDecorations E w = (None, w')"
  shows "attached_comments w' \<and> view_current E w'"
  using assms
  by (auto simp: attached_comments_def view_current_def pushDecorations_def due_view_def Let_def
      simp del: not_None_eq dest: shown_updated split: if_splits sum.splits)

lemma attached_enable:
  "cx_engine (cs_co w) \<Longrightarrow> cx_commentsActive (cs_co w) \<Longrightarrow> cx_observing (cs_co w) \<Longrightarrow>
   attached_comments (on_surface eb_enableComments w)"
  by (simp add: attached_comments_def on_surface_def shown_enable)

lemma attached_same:
  "attached_comments w \<Longrightarrow> cx_engine (cs_co w1) = cx_engine (cs_co w) \<Longrightarrow>
   cx_commentsActive (cs_co w1) = cx_commentsActive (cs_co w) \<Longrightarrow>
   cx_observing (cs_co w1) = cx_observing (cs_co w) \<Longrightarrow> cx_binding (cs_co w1) = cx_binding (cs_co w) \<Longrightarrow>
   cs_binding w1 = cs_binding w \<Longrightarrow> attached_comments w1"
  by (simp add: attached_comments_def)

text \<open>Every event that returns normally ends with a push, or changes nothing.\<close>

lemma event_pushes:
  assumes "attached_comments w" "comment_event_step E ev w = (None, w')"
  shows "w' = w \<or> (\<exists>w1. pushDecorations E w1 = (None, w') \<and> attached_comments w1)"
proof (cases ev)
  case (Switched_Mode capable)
  then have "pushDecorations E (on_surface eb_enableComments (w\<lparr>cs_co := (cs_co w)\<lparr>cx_binding := capable\<rparr>\<rparr>)) = (None, w')"
    using assms by (simp add: comment_onModeSwitch_def Let_def attached_comments_def)
  moreover have "attached_comments (on_surface eb_enableComments (w\<lparr>cs_co := (cs_co w)\<lparr>cx_binding := capable\<rparr>\<rparr>))"
    using assms(1) by (intro attached_enable) (simp_all add: attached_comments_def)
  ultimately show ?thesis by blast
qed (use assms in \<open>auto simp: on_threads_def on_text_change_def setActiveThread_def setPendingOverlay_def
      setDecorationsMuted_def split: if_splits dest: attached_comments_def [THEN iffD1]
      intro!: exI conjI elim: attached_same\<close>)

lemma comment_step_current:
  assumes "attached_comments w \<and> view_current E w" "comment_event_step E ev w = (None, w')"
  shows "attached_comments w' \<and> view_current E w'"
  using event_pushes [OF conjunct1 [OF assms(1)] assms(2)] assms(1) push_current by blast

lemma attach_current:
  assumes "comment_attach E e capable ydoc config w = (None, w')" "cg_commentsEnabled config \<noteq> Some False"
  shows "attached_comments w' \<and> view_current E w'"
proof -
  define w1 where "w1 = (comment_detach w)\<lparr>cs_engine := onThreadsChange coordinator_listener e,
    cs_co := (cs_co (comment_detach w))\<lparr>cx_engine := True, cx_ydoc := Some ydoc, cx_config := config,
      cx_binding := capable, cx_observing := True, cx_commentsActive := True\<rparr>\<rparr>"
  have "pushDecorations E (on_surface eb_enableComments w1) = (None, w')"
    using assms by (simp add: comment_attach_def commentsAvailable_def Let_def w1_def)
  moreover have "attached_comments (on_surface eb_enableComments w1)"
    by (rule attached_enable) (simp_all add: w1_def)
  ultimately show ?thesis using push_current by blast
qed

section \<open>Properties\<close>

text \<open>C30: Decorations are current: in a session in which comments are enabled, after any changes of
  the threads and of the text, and any calls that select a thread, set the pending overlay, mute the
  decorations or switch the mode, every editor of a capable binding shows exactly the threads, the
  overlays of the pending suggestions, the active thread and the pending overlay of that moment, and
  nothing at all while the decorations are muted.\<close>

theorem decorations_current:
  assumes "comment_attach E e capable ydoc config w = (None, w0)" "cg_commentsEnabled config \<noteq> Some False"
    and "run_actions (comment_event_step E) evs w0 = (None, w')" "cx_binding (cs_co w')"
    and "v \<in> set (shown_comments (cs_binding w'))"
  shows "if cx_decorationsMuted (cs_co w') then v = Some (empty_view (cx_ydoc (cs_co w')))
    else \<exists>overlays. getSuggestionOverlays E (user_color (cs_co w')) (cs_engine w') = Inr overlays
      \<and> v = Some \<lparr>cv_threads = getThreads E (cs_engine w'), cv_overlays = overlays,
             cv_activeThreadId = cx_activeThreadId (cs_co w'),
             cv_pending = cx_pendingOverlay (cs_co w'), cv_ytext = cx_ydoc (cs_co w')\<rparr>"
proof -
  have "attached_comments w' \<and> view_current E w'"
    using run_actions_inv [where P = "\<lambda>w. attached_comments w \<and> view_current E w"
        and f = "comment_event_step E", OF _ attach_current [OF assms(1,2)] assms(3)]
      comment_step_current by blast
  then have "v \<noteq> None \<and> v = due_view E (cs_co w') (cs_engine w')"
    using assms(4,5) by (auto simp: view_current_def)
  then show ?thesis by (auto simp: due_view_def split: sum.splits if_splits)
qed

definition sample_surface :: "(jsstring, (jsstring \<times> map_value) list, jsstring, jsstring) comment_surface" where
  "sample_surface =
     \<lparr>cs_co = new_comment_coordinator, cs_engine = sample_engine,
      cs_binding = returned undefined (mount sample_host (empty_view None) Source_Mode False None
         (new_editor_binding Dual_Mode (js ''markdown'') (\<lambda>_. [])))\<rparr>"

definition sample_session_events :: "(jsstring, (jsstring \<times> map_value) list) comment_event list" where
  "sample_session_events =
     [Set_Muted True, Threads_Changed (run_op sample_env sample_create sample_engine),
      Set_Active (Some (js ''t1'')), Set_Muted False]"

theorem decorations_current_witness:
  "let w0 = snd (comment_attach sample_env sample_engine True 0 no_comment_config sample_surface);
       w' = snd (run_actions (comment_event_step sample_env) sample_session_events w0)
   in \<exists>v. shown_comments (cs_binding w') = [Some v, Some v] \<and> map ct_id (cv_threads v) = [js ''t1'']
      \<and> cv_threads v = getThreads sample_env (cs_engine w') \<and> cv_activeThreadId v = Some (js ''t1'')"
proof -
  define w0 where "w0 = snd (comment_attach sample_env sample_engine True 0 no_comment_config sample_surface)"
  define w' where "w' = snd (run_actions (comment_event_step sample_env) sample_session_events w0)"
  have "fst (comment_attach sample_env sample_engine True 0 no_comment_config sample_surface) = None"
    by code_simp
  then have a: "comment_attach sample_env sample_engine True 0 no_comment_config sample_surface = (None, w0)"
    by (simp add: w0_def prod_eq_iff)
  have "fst (run_actions (comment_event_step sample_env) sample_session_events w0) = None"
    unfolding w0_def by code_simp
  then have r: "run_actions (comment_event_step sample_env) sample_session_events w0 = (None, w')"
    by (simp add: w'_def prod_eq_iff)
  have "cx_binding (cs_co w') \<and> \<not> cx_decorationsMuted (cs_co w') \<and> cx_activeThreadId (cs_co w') = Some (js ''t1'')"
    and ids: "map ct_id (getThreads sample_env (cs_engine w')) = [js ''t1'']"
    unfolding w'_def w0_def by code_simp+
  moreover have "length (shown_comments (cs_binding w')) = 2" unfolding w'_def w0_def by code_simp
  then obtain u v where uv: "shown_comments (cs_binding w') = [u, v]"
    by (auto simp: numeral_2_eq_2 length_Suc_conv)
  moreover have "cg_commentsEnabled no_comment_config \<noteq> Some False" by (simp add: no_comment_config_def)
  ultimately have "\<exists>x. u = Some x \<and> v = Some x \<and> cv_threads x = getThreads sample_env (cs_engine w')
      \<and> cv_activeThreadId x = Some (js ''t1'')"
    using decorations_current [OF a _ r, of u] decorations_current [OF a _ r, of v] by auto
  then show ?thesis unfolding Let_def w0_def [symmetric] w'_def [symmetric] using uv ids by auto
qed

end
