(* ===== verification/Version_Manager.thy ===== *)
theory Version_Manager
  imports Version_Blame Diff_Engine Yjs_Interface
begin

text \<open>
  \<open>VersionManager\<close> of \<open>frontend/src/collab/version-manager.ts\<close>: manual versions, automatic snapshots
  by number of updates and by time, listing, comparing and reverting. The document is referred to by
  its identity; each operation that reads it takes the text it shows. A request to the relay is a
  value the operation returns; what comes back is an argument of the function that models the code
  after the \<open>await\<close>.

  Shown: when snapshots are taken and what they contain, that at most one is under way, what a
  revert does, and that a snapshot that fails or is skipped is not made up for.
\<close>

section \<open>The manager\<close>

record version_manager_config =
  vc_documentId :: jsstring
  vc_autoSnapshotUpdates :: "int option"
  vc_autoSnapshotMinutes :: "int option"
  vc_userName :: "jsstring option"

record version_manager =
  vm_ydoc :: nat
  vm_config :: version_manager_config
  vm_updateCount :: nat
  vm_lastSnapshotTime :: int
  vm_observer :: bool
  vm_timer :: bool
  vm_destroyed :: bool
  vm_snapshotInFlight :: bool

record version_post =
  vp_content :: jsstring
  vp_label :: "jsstring option"
  vp_creator :: jsstring
  vp_type :: version_type

text \<open>The outcome of \<open>fetch\<close>: it rejects, or there is a response with its \<open>ok\<close> flag and what
  \<open>json()\<close> gives (\<open>None\<close>: it rejects).\<close>

datatype 'a version_answer = Rejected | Response bool "'a option"

definition threshold_of :: "version_manager_config \<Rightarrow> int" where
  "threshold_of c = (case vc_autoSnapshotUpdates c of None \<Rightarrow> 50 | Some n \<Rightarrow> n)"

definition minutes_of :: "version_manager_config \<Rightarrow> int" where
  "minutes_of c = (case vc_autoSnapshotMinutes c of None \<Rightarrow> 5 | Some n \<Rightarrow> n)"

definition new_manager :: "nat \<Rightarrow> version_manager_config \<Rightarrow> int \<Rightarrow> version_manager" where
  "new_manager ydoc config now =
     \<lparr>vm_ydoc = ydoc, vm_config = config, vm_updateCount = 0, vm_lastSnapshotTime = now,
      vm_observer = threshold_of config > 0, vm_timer = minutes_of config > 0,
      vm_destroyed = False, vm_snapshotInFlight = False\<rparr>"

text \<open>\<open>_autoSnapshot\<close> up to its request; \<open>content\<close> is the text of the document.\<close>

definition autoSnapshot :: "jsstring \<Rightarrow> version_manager \<Rightarrow> version_manager \<times> version_post option" where
  "autoSnapshot content m =
     (if vm_destroyed m \<or> vm_snapshotInFlight m then (m, None)
      else (m\<lparr>vm_snapshotInFlight := True\<rparr>,
            Some \<lparr>vp_content = content, vp_label = None,
                  vp_creator = (case vc_userName (vm_config m) of None \<Rightarrow> js ''system'' | Some u \<Rightarrow> u),
                  vp_type = Auto_Version\<rparr>))"

text \<open>The rest of \<open>_autoSnapshot\<close>; the second component is the entry handed to \<open>onAutoSnapshot\<close>.\<close>

fun auto_answer :: "'a version_answer \<Rightarrow> int \<Rightarrow> version_manager \<Rightarrow> version_manager \<times> 'a option" where
  "auto_answer Rejected now m = (m\<lparr>vm_snapshotInFlight := False\<rparr>, None)"
| "auto_answer (Response ok json) now m =
     (m\<lparr>vm_lastSnapshotTime := now, vm_snapshotInFlight := False\<rparr>, if ok then json else None)"

text \<open>The \<open>update\<close> listener of the document.\<close>

definition on_doc_update :: "jsstring \<Rightarrow> version_manager \<Rightarrow> version_manager \<times> version_post option" where
  "on_doc_update content m =
     (if \<not> vm_observer m then (m, None)
      else (let m1 = m\<lparr>vm_updateCount := vm_updateCount m + 1\<rparr>
            in if int (vm_updateCount m1) \<ge> threshold_of (vm_config m)
               then (let (m2, p) = autoSnapshot content m1 in (m2\<lparr>vm_updateCount := 0\<rparr>, p))
               else (m1, None)))"

text \<open>The callback of the interval timer, every minute.\<close>

definition on_minute :: "jsstring \<Rightarrow> int \<Rightarrow> version_manager \<Rightarrow> version_manager \<times> version_post option" where
  "on_minute content now m =
     (if \<not> vm_timer m then (m, None)
      else if now - vm_lastSnapshotTime m \<ge> minutes_of (vm_config m) * 60 * 1000 \<and> vm_updateCount m > 0
      then (let (m2, p) = autoSnapshot content m in (m2\<lparr>vm_updateCount := 0\<rparr>, p))
      else (m, None))"

text \<open>\<open>createVersion\<close>: the request, and the code after it. A rejected \<open>fetch\<close> or \<open>json\<close> rejects the
  call (\<open>None\<close> of the outer option).\<close>

definition create_post ::
  "jsstring \<Rightarrow> jsstring option \<Rightarrow> jsstring option \<Rightarrow> version_manager \<Rightarrow> version_post" where
  "create_post content label creator m =
     \<lparr>vp_content = content, vp_label = label,
      vp_creator = (case creator of Some c \<Rightarrow> c | None \<Rightarrow>
                     (case vc_userName (vm_config m) of Some u \<Rightarrow> u | None \<Rightarrow> js ''unknown'')),
      vp_type = Manual_Version\<rparr>"

fun create_answer ::
  "'a version_answer \<Rightarrow> int \<Rightarrow> version_manager \<Rightarrow> version_manager \<times> 'a option option" where
  "create_answer Rejected now m = (m, None)"
| "create_answer (Response ok json) now m =
     (if \<not> ok then (m, Some None)
      else (m\<lparr>vm_lastSnapshotTime := now\<rparr>, map_option Some json))"

text \<open>\<open>listVersions\<close> and \<open>getVersion\<close> after the response: \<open>None\<close> is a rejected call.\<close>

fun listVersions_answer :: "'a list option version_answer \<Rightarrow> 'a list option" where
  "listVersions_answer Rejected = None"
| "listVersions_answer (Response ok json) =
     (if \<not> ok then Some []
      else map_option (\<lambda>versions. case versions of None \<Rightarrow> [] | Some vs \<Rightarrow> vs) json)"

fun getVersion_answer :: "'a version_answer \<Rightarrow> 'a option option" where
  "getVersion_answer Rejected = None"
| "getVersion_answer (Response ok json) = (if \<not> ok then Some None else map_option Some json)"

definition diffVersions :: "version_entry \<Rightarrow> version_entry \<Rightarrow> diff_line list" where
  "diffVersions v1 v2 = computeLineDiff (content_of v1) (content_of v2)"

text \<open>\<open>revertToVersion\<close>: the transaction on the text, whose \<open>update\<close> event reaches the listener when
  it changed anything, and then the request of \<open>createVersion\<close>. \<open>||\<close> passes over an empty label.\<close>

definition revert_text :: "'t ytext_ops \<Rightarrow> version_entry \<Rightarrow> 't \<Rightarrow> 't" where
  "revert_text Y version t =
     yt_insert Y (yt_delete Y t 0 (length (yt_toString Y t))) 0 (content_of version)"

definition revert_label :: "version_entry \<Rightarrow> jsstring" where
  "revert_label version =
     js ''Reverted to '' @ (case ve_label version of Some l \<Rightarrow> if l = [] then ve_id version else l
                            | None \<Rightarrow> ve_id version)"

definition revertToVersion ::
  "'t ytext_ops \<Rightarrow> version_entry \<Rightarrow> 't \<Rightarrow> version_manager \<Rightarrow> 't \<times> version_manager \<times> version_post list" where
  "revertToVersion Y version t m =
     (let t' = revert_text Y version t;
          changed = yt_toString Y t \<noteq> [] \<or> content_of version \<noteq> [];
          (m1, auto) = (if changed then on_doc_update (yt_toString Y t') m else (m, None))
      in (t', m1, (case auto of None \<Rightarrow> [] | Some p \<Rightarrow> [p])
            @ [create_post (yt_toString Y t') (Some (revert_label version))
                 (vc_userName (vm_config m)) m1]))"

definition manager_destroy :: "version_manager \<Rightarrow> version_manager" where
  "manager_destroy m = m\<lparr>vm_destroyed := True, vm_observer := False, vm_timer := False\<rparr>"

section \<open>Runs\<close>

text \<open>An event of the manager's environment: the document changed, a minute has passed, or the
  answer to the snapshot under way arrived. A run collects the snapshots requested.\<close>

datatype manager_event =
    Doc_Update jsstring
  | Minute_Passed jsstring int
  | Snapshot_Answered "version_list_entry version_answer" int

fun manager_step ::
  "manager_event \<Rightarrow> version_manager \<times> version_post list \<Rightarrow> version_manager \<times> version_post list" where
  "manager_step (Doc_Update content) (m, posts) =
     (let (m', p) = on_doc_update content m in (m', posts @ (case p of None \<Rightarrow> [] | Some q \<Rightarrow> [q])))"
| "manager_step (Minute_Passed content now) (m, posts) =
     (let (m', p) = on_minute content now m in (m', posts @ (case p of None \<Rightarrow> [] | Some q \<Rightarrow> [q])))"
| "manager_step (Snapshot_Answered r now) (m, posts) =
     (if vm_snapshotInFlight m then (fst (auto_answer r now m), posts) else (m, posts))"

section \<open>Lemmas\<close>

lemmas manager_defs = on_doc_update_def on_minute_def autoSnapshot_def Let_def

text \<open>An update while no snapshot is under way, with the answer right after it.\<close>

definition counting :: "nat \<Rightarrow> nat \<Rightarrow> version_manager \<Rightarrow> bool" where
  "counting thr k m \<longleftrightarrow> vm_updateCount m = k \<and> vm_observer m \<and> \<not> vm_destroyed m
     \<and> \<not> vm_snapshotInFlight m \<and> threshold_of (vm_config m) = int thr"

lemma auto_answer_counting [simp]:
  "fst (auto_answer r now m) = m\<lparr>vm_snapshotInFlight := False,
     vm_lastSnapshotTime := (case r of Rejected \<Rightarrow> vm_lastSnapshotTime m | Response _ _ \<Rightarrow> now)\<rparr>"
  by (cases r) simp_all

lemma answered_update:
  assumes "counting thr k m" "k < thr"
  shows "\<exists>m'. fold manager_step [Doc_Update c, Snapshot_Answered r now] (m, ps) =
      (m', ps @ (if Suc k = thr then [\<lparr>vp_content = c, vp_label = None,
          vp_creator = (case vc_userName (vm_config m) of None \<Rightarrow> js ''system'' | Some u \<Rightarrow> u),
          vp_type = Auto_Version\<rparr>] else []))
    \<and> counting thr (if Suc k = thr then 0 else Suc k) m'"
  using assms by (auto simp: counting_def manager_defs)

lemma mod_div_Suc_thr:
  assumes "0 < (thr :: nat)"
  shows "Suc n mod thr = (if Suc (n mod thr) = thr then 0 else Suc (n mod thr))"
    "Suc n div thr = (if Suc (n mod thr) = thr then Suc (n div thr) else n div thr)"
  by (auto simp: mod_Suc div_Suc)

lemma threshold_position:
  assumes "0 < (thr :: nat)" "Suc (n mod thr) = thr"
  shows "Suc (n div thr) * thr - 1 = n"
  using assms(2) div_mult_mod_eq [of n thr] mult_Suc [of "n div thr" thr] by linarith

lemma snapshot_positions_bound:
  assumes "k < n div (thr :: nat)" "0 < thr"
  shows "Suc k * thr - 1 < n"
proof -
  have "Suc k * thr \<le> (n div thr) * thr" using assms(1) by (intro mult_le_mono1) simp
  also have "\<dots> \<le> n" by simp
  finally show ?thesis using assms(2) by (cases thr) auto
qed

lemma answered_updates:
  assumes "counting thr 0 m" "0 < thr"
  shows "\<exists>m' qs. fold manager_step (concat (map (\<lambda>t. [Doc_Update t, Snapshot_Answered r now]) ts)) (m, []) = (m', qs)
    \<and> counting thr (length ts mod thr) m'
    \<and> map vp_content qs = map (\<lambda>k. ts ! (Suc k * thr - 1)) [0..<length ts div thr]"
proof (induction ts rule: rev_induct)
  case Nil
  then show ?case using assms by simp
next
  case (snoc t ts)
  let ?k = "length ts mod thr"
  obtain m' qs where IH: "fold manager_step (concat (map (\<lambda>t. [Doc_Update t, Snapshot_Answered r now]) ts)) (m, []) = (m', qs)"
    "counting thr ?k m'" "map vp_content qs = map (\<lambda>k. ts ! (Suc k * thr - 1)) [0..<length ts div thr]"
    using snoc by blast
  have old: "map (\<lambda>k. (ts @ [t]) ! (Suc k * thr - 1)) [0..<length ts div thr] = map vp_content qs"
    unfolding IH(3) using snapshot_positions_bound [OF _ assms(2), of _ "length ts"]
    by (intro map_cong) (auto simp: nth_append)
  have last: "(ts @ [t]) ! (Suc (length ts div thr) * thr - 1) = t" if "Suc ?k = thr"
    by (simp only: threshold_position [OF assms(2) that] nth_append_length)
  from answered_update [OF IH(2), of t r now qs] assms(2) IH(1) old last show ?case
    by (auto simp: mod_div_Suc_thr [OF assms(2)] split: if_splits)
qed

text \<open>Without further updates a manager that has reset its count requests nothing.\<close>

lemma idle_manager_step:
  assumes "vm_updateCount m = 0" "\<forall>c. ev \<noteq> Doc_Update c"
  shows "\<exists>m'. manager_step ev (m, posts) = (m', posts) \<and> vm_updateCount m' = 0"
  using assms by (cases ev) (auto simp: on_minute_def)

lemma idle_manager_run:
  assumes "vm_updateCount m = 0" "\<forall>ev \<in> set evs. \<forall>c. ev \<noteq> Doc_Update c"
  shows "snd (fold manager_step evs (m, posts)) = posts"
  using assms
proof (induction evs arbitrary: m)
  case (Cons ev evs)
  then obtain m' where "manager_step ev (m, posts) = (m', posts)" "vm_updateCount m' = 0"
    using idle_manager_step [of m ev posts] by auto
  with Cons show ?case by simp
qed simp

lemma on_doc_update_count:
  "vm_observer m \<Longrightarrow> threshold_of (vm_config m) \<le> int (Suc (vm_updateCount m)) \<Longrightarrow>
   vm_updateCount (fst (on_doc_update c m)) = 0"
  by (simp add: manager_defs)

lemma on_doc_update_content:
  "on_doc_update c m = (m', Some p) \<Longrightarrow> vp_content p = c \<and> vp_type p = Auto_Version"
  by (auto simp: manager_defs split: if_splits)

lemma on_doc_update_config [simp]: "vm_config (fst (on_doc_update c m)) = vm_config m"
  by (simp add: manager_defs)

lemma revert_text_shows:
  "ytext_laws Y \<Longrightarrow> yt_toString Y (revert_text Y v t) = content_of v"
  using ytext_replace [of Y 0 "length (yt_toString Y t)" t "content_of v"] by (simp add: revert_text_def)

section \<open>Properties\<close>

text \<open>Automatic snapshots are taken exactly at every n-th update, n being the configured number
  (as long as each is answered, in whatever way, before the next one is due), and each contains the
  text right after that update.\<close>

theorem snapshot_every_nth_update:
  assumes "threshold_of config = int thr" "0 < thr"
  shows "map vp_content (snd (fold manager_step
      (concat (map (\<lambda>t. [Doc_Update t, Snapshot_Answered r now]) texts)) (new_manager d config t0, []))) =
    map (\<lambda>k. texts ! (Suc k * thr - 1)) [0..<length texts div thr]"
proof -
  have "counting thr 0 (new_manager d config t0)"
    using assms by (simp add: counting_def new_manager_def)
  from answered_updates [OF this assms(2), of r now texts] show ?thesis by auto
qed

theorem snapshot_every_nth_update_witness:
  "map vp_content (snd (fold manager_step
      (concat (map (\<lambda>t. [Doc_Update t, Snapshot_Answered Rejected 0])
         [js ''a'', js ''ab'', js ''abc'', js ''abcd'', js ''abcde'']))
      (new_manager 0 \<lparr>vc_documentId = [], vc_autoSnapshotUpdates = Some 2, vc_autoSnapshotMinutes = None,
         vc_userName = None\<rparr> 0, []))) = [js ''ab'', js ''abcd'']"
  by (subst snapshot_every_nth_update [where thr = 2]) (simp_all add: threshold_of_def upt_rec)

text \<open>A snapshot that fails, or is passed over because another one is under way, is not made up
  for: once the update that made it due has been counted, no answer and no passing of time leads to
  a snapshot before the document changes again.\<close>

theorem missed_snapshot_not_repeated:
  assumes "vm_observer m" "threshold_of (vm_config m) \<le> int (Suc (vm_updateCount m))"
    and "\<forall>ev \<in> set evs. \<forall>c. ev \<noteq> Doc_Update c"
  shows "snd (fold manager_step evs (fst (on_doc_update content m), posts)) = posts"
  using on_doc_update_count [OF assms(1,2)] assms(3) by (rule idle_manager_run)

theorem missed_snapshot_not_repeated_witness:
  "let m = (new_manager 0 \<lparr>vc_documentId = [], vc_autoSnapshotUpdates = Some 1,
        vc_autoSnapshotMinutes = Some 5, vc_userName = None\<rparr> 0)\<lparr>vm_snapshotInFlight := True\<rparr>;
       m' = fst (on_doc_update (js ''a'') m)
   in snd (on_doc_update (js ''a'') m) = None
      \<and> snd (fold manager_step [Snapshot_Answered Rejected 7, Minute_Passed (js ''a'') 900000] (m', [])) = []"
  by (simp add: Let_def missed_snapshot_not_repeated new_manager_def threshold_of_def del: fold.simps)
    (simp add: manager_defs threshold_of_def)

text \<open>A revert makes the document show the content of the chosen version, and the version it
  records, like an automatic snapshot the change may make due, contains exactly that content; the
  record is a manual version whose label names the chosen one.\<close>

theorem revert_effect:
  assumes "ytext_laws Y" "revertToVersion Y v t m = (t', m', posts)"
  shows "yt_toString Y t' = content_of v \<and> (\<forall>p \<in> set posts. vp_content p = content_of v)
    \<and> posts \<noteq> [] \<and> vp_type (last posts) = Manual_Version
    \<and> vp_label (last posts) = Some (revert_label v)"
  using assms(2) revert_text_shows [OF assms(1), of v t]
  by (auto simp: revertToVersion_def Let_def create_post_def split: prod.splits if_splits option.splits
      dest: on_doc_update_content)

theorem revert_effect_witness:
  "let v = \<lparr>ve_id = js ''v1'', ve_created_at = [], ve_type = Manual_Version, ve_label = None,
        ve_creator = None, ve_content = Some (js ''old''), ve_mime_type = None, ve_blame = None\<rparr>;
       m = new_manager 0 \<lparr>vc_documentId = [], vc_autoSnapshotUpdates = Some 1,
        vc_autoSnapshotMinutes = None, vc_userName = Some (js ''ann'')\<rparr> 0
   in fst (revertToVersion plain_text v (js ''new'') m) = js ''old''
      \<and> length (snd (snd (revertToVersion plain_text v (js ''new'') m))) = 2"
proof -
  define v where "v = \<lparr>ve_id = js ''v1'', ve_created_at = [], ve_type = Manual_Version, ve_label = None,
        ve_creator = None, ve_content = Some (js ''old''), ve_mime_type = None, ve_blame = None\<rparr>"
  define m where "m = new_manager 0 \<lparr>vc_documentId = [], vc_autoSnapshotUpdates = Some 1,
        vc_autoSnapshotMinutes = None, vc_userName = Some (js ''ann'')\<rparr> 0"
  obtain t' m' posts where r: "revertToVersion plain_text v (js ''new'') m = (t', m', posts)"
    by (cases "revertToVersion plain_text v (js ''new'') m") auto
  then have "yt_toString plain_text t' = content_of v"
    using revert_effect [OF plain_text_laws r] by simp
  moreover have "length posts = 2"
    using r by (simp add: revertToVersion_def m_def new_manager_def manager_defs threshold_of_def
        plain_text_def js_def) auto
  ultimately have "fst (revertToVersion plain_text v (js ''new'') m) = js ''old''
      \<and> length (snd (snd (revertToVersion plain_text v (js ''new'') m))) = 2"
    using r by (simp add: plain_text_def content_of_def v_def)
  then show ?thesis by (simp only: v_def m_def Let_def)
qed

end
