(* ===== verification/Blame_Coordinator.thy ===== *)
theory Blame_Coordinator
  imports Editor_Bindings Blame_Engine
begin

text \<open>
  \<open>BlameCoordinator\<close> of \<open>frontend/src/collab/blame-coordinator.ts\<close>: the life cycle of the blame view,
  with the debounced recomputation after changes of the document. The coordinator works on an editor
  binding (\<open>Editor_Bindings\<close>); \<open>live i\<close> is what \<open>BlameEngine.getLiveBlame\<close> computes for document \<open>i\<close>
  (\<open>Blame_Engine\<close>) at the time of the call. Shown: decorations are there exactly while blame is
  active, and are up to date when nothing is pending.
\<close>

section \<open>State and operations\<close>

record blame_config =
  bg_liveBlameEnabled :: "bool option"
  bg_versionBlameEnabled :: "bool option"

text \<open>\<open>bl_engine\<close> is the document and event log of the engine; \<open>bl_observing\<close> says that the update
  observer is registered (on \<open>bl_ydoc\<close>), \<open>bl_updateTimer\<close> that a recomputation is scheduled.\<close>

record blame_coordinator =
  bl_engine :: "(nat \<times> live_log) option"
  bl_binding :: bool
  bl_ydoc :: "nat option"
  bl_config :: blame_config
  bl_active :: bool
  bl_updateTimer :: bool
  bl_observing :: bool
  bl_reported :: "bool list"

definition no_blame_config :: blame_config where
  "no_blame_config = \<lparr>bg_liveBlameEnabled = None, bg_versionBlameEnabled = None\<rparr>"

definition new_blame_coordinator :: blame_coordinator where
  "new_blame_coordinator =
     \<lparr>bl_engine = None, bl_binding = False, bl_ydoc = None, bl_config = no_blame_config,
      bl_active = False, bl_updateTimer = False, bl_observing = False, bl_reported = []\<rparr>"

definition on_binding ::
  "(('e, 't, 'c) editor_binding \<Rightarrow> ('e, 't, 'c) editor_binding) \<Rightarrow>
   blame_coordinator \<Rightarrow> ('e, 't, 'c) editor_binding \<Rightarrow> ('e, 't, 'c) editor_binding" where
  "on_binding f co b = (if bl_binding co then f b else b)"

definition stop_engine :: "(nat \<times> live_log) option \<Rightarrow> (nat \<times> live_log) option" where
  "stop_engine = map_option (\<lambda>(d, l). (d, stopLiveBlame l))"

definition stopBlame ::
  "blame_coordinator \<times> ('e, 't, 'c) editor_binding \<Rightarrow> blame_coordinator \<times> ('e, 't, 'c) editor_binding" where
  "stopBlame = (\<lambda>(co, b).
     (co\<lparr>bl_updateTimer := (if bl_observing co then False else bl_updateTimer co), bl_observing := False,
         bl_engine := stop_engine (bl_engine co)\<rparr>,
      on_binding eb_disableBlame co b))"

definition startBlame ::
  "(nat \<Rightarrow> blame_segment list) \<Rightarrow>
   blame_coordinator \<times> ('e, 't, 'c) editor_binding \<Rightarrow> blame_coordinator \<times> ('e, 't, 'c) editor_binding" where
  "startBlame live = (\<lambda>(co, b).
     case bl_engine co of
       None \<Rightarrow> (co, b)
     | Some (d, l) \<Rightarrow>
         (if \<not> bl_binding co then (co, b)
          else (co\<lparr>bl_engine := Some (d, startLiveBlame l),
                   bl_updateTimer := (if bl_observing co then False else bl_updateTimer co),
                   bl_observing := True\<rparr>,
                eb_enableBlame (live d) b)))"

definition blame_detach ::
  "blame_coordinator \<times> ('e, 't, 'c) editor_binding \<Rightarrow> blame_coordinator \<times> ('e, 't, 'c) editor_binding" where
  "blame_detach cb =
     (let (co, b) = stopBlame cb
      in (co\<lparr>bl_engine := None, bl_binding := False, bl_ydoc := None, bl_active := False,
             bl_config := no_blame_config\<rparr>, b))"

text \<open>\<open>capable\<close> is \<open>isBlameCapable(binding)\<close>.\<close>

definition blame_attach ::
  "bool \<Rightarrow> nat \<Rightarrow> live_log \<Rightarrow> blame_config \<Rightarrow>
   blame_coordinator \<times> ('e, 't, 'c) editor_binding \<Rightarrow> blame_coordinator \<times> ('e, 't, 'c) editor_binding" where
  "blame_attach capable ydoc emptyLog config cb =
     (let (co, b) = blame_detach cb;
          co1 = co\<lparr>bl_config := config, bl_ydoc := Some ydoc\<rparr>
      in if \<not> capable then (co1, b)
         else (co1\<lparr>bl_binding := True, bl_engine := Some (ydoc, emptyLog)\<rparr>, b))"

definition blame_available :: "blame_coordinator \<Rightarrow> bool" where
  "blame_available co \<longleftrightarrow>
     bg_liveBlameEnabled (bl_config co) \<noteq> Some False \<and> bl_engine co \<noteq> None"

definition blame_toggle ::
  "(nat \<Rightarrow> blame_segment list) \<Rightarrow> bool \<Rightarrow>
   blame_coordinator \<times> ('e, 't, 'c) editor_binding \<Rightarrow> blame_coordinator \<times> ('e, 't, 'c) editor_binding" where
  "blame_toggle live active = (\<lambda>(co, b).
     if bg_liveBlameEnabled (bl_config co) = Some False then (co, b)
     else (let co1 = co\<lparr>bl_active := active, bl_reported := bl_reported co @ [active]\<rparr>
           in if active then startBlame live (co1, b) else stopBlame (co1, b)))"

definition blame_onModeSwitch ::
  "(nat \<Rightarrow> blame_segment list) \<Rightarrow>
   blame_coordinator \<times> ('e, 't, 'c) editor_binding \<Rightarrow> blame_coordinator \<times> ('e, 't, 'c) editor_binding" where
  "blame_onModeSwitch live = (\<lambda>(co, b).
     case bl_engine co of
       None \<Rightarrow> (co, b)
     | Some (d, l) \<Rightarrow> if \<not> bl_active co \<or> \<not> bl_binding co then (co, b)
                    else (co, eb_updateBlame (live d) b))"

definition enableVersionBlame ::
  "blame_segment list \<Rightarrow> blame_coordinator \<times> ('e, 't, 'c) editor_binding \<Rightarrow>
   blame_coordinator \<times> ('e, 't, 'c) editor_binding" where
  "enableVersionBlame segments = (\<lambda>(co, b).
     if bg_versionBlameEnabled (bl_config co) = Some False then (co, b)
     else (co, on_binding (eb_enableBlame segments) co b))"

definition disableVersionBlame ::
  "blame_coordinator \<times> ('e, 't, 'c) editor_binding \<Rightarrow> blame_coordinator \<times> ('e, 't, 'c) editor_binding" where
  "disableVersionBlame = (\<lambda>(co, b). (co, on_binding eb_disableBlame co b))"

text \<open>The update observer of the document, and the timer it starts.\<close>

definition blame_doc_update :: "nat \<Rightarrow> blame_coordinator \<Rightarrow> blame_coordinator" where
  "blame_doc_update d co =
     (if bl_observing co \<and> bl_ydoc co = Some d then co\<lparr>bl_updateTimer := True\<rparr> else co)"

definition blame_timer ::
  "(nat \<Rightarrow> blame_segment list) \<Rightarrow>
   blame_coordinator \<times> ('e, 't, 'c) editor_binding \<Rightarrow> blame_coordinator \<times> ('e, 't, 'c) editor_binding" where
  "blame_timer live = (\<lambda>(co, b).
     if \<not> bl_updateTimer co then (co, b)
     else (let co1 = co\<lparr>bl_updateTimer := False\<rparr>
           in case bl_engine co1 of
                None \<Rightarrow> (co1, b)
              | Some (d, l) \<Rightarrow> if bl_active co1 \<and> bl_binding co1
                             then (co1, eb_updateBlame (live d) b) else (co1, b)))"

section \<open>Decorations\<close>

text \<open>What the editors of a binding show (\<open>None\<close>: no blame).\<close>

definition decorations :: "('e, 't, 'c) editor_binding \<Rightarrow> blame_segment list option list" where
  "decorations b =
     (case eb_source b of None \<Rightarrow> [] | Some e \<Rightarrow> [se_blame e])
     @ (case eb_wysiwyg b of None \<Rightarrow> [] | Some w \<Rightarrow> [we_blame w])"

lemma decorations_enable: "decorations (eb_enableBlame s b) = map (\<lambda>_. Some s) (decorations b)"
  and decorations_disable: "decorations (eb_disableBlame b) = map (\<lambda>_. None) (decorations b)"
  and decorations_update:
    "decorations (eb_updateBlame s b) = map (map_option (\<lambda>_. s)) (decorations b)"
  by (auto simp: decorations_def eb_enableBlame_def eb_disableBlame_def eb_updateBlame_def
      update_source_def se_enableBlame_def we_enableBlame_def se_disableBlame_def we_disableBlame_def
      se_updateBlame_def we_updateBlame_def split: option.splits)

lemmas decorations_simps = decorations_enable decorations_disable decorations_update

datatype blame_event =
    Toggle_Blame bool
  | Doc_Changed nat "blame_segment list"
  | Blame_Timer
  | Mode_Switched

type_synonym ('e, 't, 'c) blame_world =
  "(blame_coordinator \<times> ('e, 't, 'c) editor_binding) \<times> (nat \<Rightarrow> blame_segment list)"

fun blame_step :: "blame_event \<Rightarrow> ('e, 't, 'c) blame_world \<Rightarrow> ('e, 't, 'c) blame_world" where
  "blame_step (Toggle_Blame a) (cb, live) = (blame_toggle live a cb, live)"
| "blame_step (Doc_Changed d segs) (cb, live) =
     ((blame_doc_update d (fst cb), snd cb), live(d := segs))"
| "blame_step Blame_Timer (cb, live) = (blame_timer live cb, live)"
| "blame_step Mode_Switched (cb, live) = (blame_onModeSwitch live cb, live)"

text \<open>The invariant of an attached coordinator.\<close>

definition blame_inv :: "nat \<Rightarrow> ('e, 't, 'c) blame_world \<Rightarrow> bool" where
  "blame_inv d = (\<lambda>((co, b), live).
     bl_binding co \<and> map_option fst (bl_engine co) = Some d \<and> bl_ydoc co = Some d
     \<and> bg_liveBlameEnabled (bl_config co) \<noteq> Some False
     \<and> bl_observing co = bl_active co \<and> (bl_updateTimer co \<longrightarrow> bl_active co)
     \<and> (if bl_active co then None \<notin> set (decorations b) else set (decorations b) \<subseteq> {None})
     \<and> (bl_active co \<and> \<not> bl_updateTimer co \<longrightarrow> set (decorations b) \<subseteq> {Some (live d)}))"

lemma blame_step_inv:
  assumes "blame_inv d w"
  shows "blame_inv d (blame_step ev w)"
proof -
  obtain co b live where w: "w = ((co, b), live)" by (cases w) auto
  obtain l where e: "bl_engine co = Some (d, l)" using assms by (auto simp: blame_inv_def w)
  show ?thesis
  proof (cases ev)
    case (Toggle_Blame a)
    then show ?thesis using assms e
      by (cases a) (auto simp: w blame_inv_def blame_toggle_def startBlame_def stopBlame_def
          stop_engine_def on_binding_def decorations_simps Let_def)
  next
    case (Doc_Changed x segs)
    then show ?thesis using assms e by (auto simp: w blame_inv_def blame_doc_update_def)
  next
    case Blame_Timer
    then show ?thesis using assms e
      by (auto simp: w blame_inv_def blame_timer_def decorations_simps Let_def split: if_splits)
        (metis not_None_eq)
  next
    case Mode_Switched
    then show ?thesis using assms e
      by (auto simp: w blame_inv_def blame_onModeSwitch_def decorations_simps split: if_splits)
  qed
qed

lemma blame_run_inv: "blame_inv d w \<Longrightarrow> blame_inv d (fold blame_step evs w)"
  by (induction evs arbitrary: w) (simp_all add: blame_step_inv)

lemma attach_blame_inv:
  assumes "set (decorations b) \<subseteq> {None}" "bg_liveBlameEnabled config \<noteq> Some False"
  shows "blame_inv d (blame_attach True d l config (new_blame_coordinator, b), live)"
  using assms by (simp add: blame_inv_def blame_attach_def blame_detach_def stopBlame_def
      new_blame_coordinator_def on_binding_def Let_def)

section \<open>Properties\<close>

text \<open>The blame view is what the toggle says and stays current: in a session in which live blame
  is available, after any toggles, changes of documents, timer runs and mode switches, no editor
  shows blame while it is off, every editor shows it while it is on, and when no recomputation is
  scheduled they all show the blame of the document as it is now.\<close>

theorem blame_view_current:
  assumes "set (decorations b) \<subseteq> {None}" "bg_liveBlameEnabled config \<noteq> Some False"
    and "fold blame_step evs (blame_attach True d l config (new_blame_coordinator, b), live) = ((co, b'), live')"
  shows "(\<not> bl_active co \<longrightarrow> set (decorations b') \<subseteq> {None})
    \<and> (bl_active co \<longrightarrow> None \<notin> set (decorations b'))
    \<and> (bl_active co \<and> \<not> bl_updateTimer co \<longrightarrow> set (decorations b') \<subseteq> {Some (live' d)})"
  using blame_run_inv [OF attach_blame_inv [OF assms(1,2), of d l live], of evs] assms(3)
  by (simp add: blame_inv_def split: if_splits)

theorem blame_view_current_witness:
  "let b = returned undefined (mount sample_host () Source_Mode False None
         (new_editor_binding Dual_Mode (js ''markdown'') (\<lambda>_. [])));
       w = fold blame_step [Toggle_Blame True, Doc_Changed 0 [\<lparr>seg_start = 0, seg_end = 1, seg_user = js ''ann''\<rparr>], Blame_Timer]
         (blame_attach True 0 \<lparr>ll_observing = False, ll_entries = []\<rparr> no_blame_config (new_blame_coordinator, b), \<lambda>_. [])
   in set (decorations (snd (fst w))) \<subseteq> {Some [\<lparr>seg_start = 0, seg_end = 1, seg_user = js ''ann''\<rparr>]}"
proof -
  let ?s = "[\<lparr>seg_start = 0, seg_end = 1, seg_user = js ''ann''\<rparr>]"
  define b where "b = returned undefined (mount sample_host () Source_Mode False None
         (new_editor_binding Dual_Mode (js ''markdown'') (\<lambda>_. [])))"
  define w where "w = fold blame_step [Toggle_Blame True, Doc_Changed 0 ?s, Blame_Timer]
         (blame_attach True 0 \<lparr>ll_observing = False, ll_entries = []\<rparr> no_blame_config (new_blame_coordinator, b), \<lambda>_. [])"
  obtain co b' live' where w': "w = ((co, b'), live')" by (cases w) auto
  have d: "set (decorations b) \<subseteq> {None}"
    by (simp add: decorations_def b_def mount_def returned_def new_editor_binding_def
        new_source_editor_def new_wysiwyg_editor_def Let_def)
  have "bl_active co" "\<not> bl_updateTimer co" "live' 0 = ?s"
    using w' by (auto simp: w_def blame_attach_def blame_detach_def stopBlame_def new_blame_coordinator_def
        blame_toggle_def startBlame_def blame_doc_update_def blame_timer_def no_blame_config_def Let_def)
  then have "set (decorations (snd (fst w))) \<subseteq> {Some ?s}"
    using blame_view_current [OF d _ w' [unfolded w_def]] w' by (simp add: no_blame_config_def)
  then show ?thesis by (simp only: w_def b_def Let_def)
qed

text \<open>Showing and leaving the blame of an old version switches the decorations off although live
  blame is still active, and recomputations no longer bring them back.\<close>

lemma version_blame_ends_live_blame:
  assumes "bl_binding co"
  shows "let (co', b') = disableVersionBlame (enableVersionBlame segs (co, b))
    in bl_active co' = bl_active co \<and> set (decorations b') \<subseteq> {None}
       \<and> set (decorations (snd (blame_timer live (co', b')))) \<subseteq> {None}"
  using assms by (auto simp: disableVersionBlame_def enableVersionBlame_def on_binding_def blame_timer_def
      decorations_simps Let_def split: option.splits)

end
