(* ===== verification/Version_Coordinator.thy ===== *)
theory Version_Coordinator
  imports Version_Manager Blame_Coordinator
begin

text \<open>
  \<open>VersionCoordinator\<close> of \<open>frontend/src/collab/version-coordinator.ts\<close> on top of \<open>Version_Manager\<close>, the
  editor binding and the blame coordinator. An operation with an \<open>await\<close> is split there: what the
  request returned is an argument of the second part, which runs on the state of that moment. The
  provider's current \<open>editorText\<close> is part of the world, because the provider replaces it when it
  resets the editor document. Callbacks to the element only mirror the coordinator's fields and are
  left out.

  Shown: the editor is read-only exactly while a version is viewed; what viewing does to a shared
  text; and that versions follow the document the coordinator was attached with, not the one the
  user sees after a reset.
\<close>

section \<open>State\<close>

record version_coordinator =
  vo_manager :: "version_manager option"
  vo_attached :: bool
  vo_blameCoordinator :: bool
  vo_versionBlameEnabled :: "bool option"
  vo_collabProvider :: bool
  vo_versions :: "version_list_entry list"
  vo_selectedVersion :: "version_entry option"
  vo_diffResult :: "diff_line list option"
  vo_viewingVersion :: bool
  vo_panelOpen :: bool
  vo_readonly :: bool

definition new_version_coordinator :: version_coordinator where
  "new_version_coordinator =
     \<lparr>vo_manager = None, vo_attached = False, vo_blameCoordinator = False, vo_versionBlameEnabled = None,
      vo_collabProvider = False, vo_versions = [], vo_selectedVersion = None, vo_diffResult = None,
      vo_viewingVersion = False, vo_panelOpen = False, vo_readonly = False\<rparr>"

record ('e, 't, 'c) version_world =
  vw_co :: version_coordinator
  vw_blame :: blame_coordinator
  vw_binding :: "('e, 't, 'c) editor_binding"
  vw_editorText :: nat

text \<open>The configuration of the element's collaboration settings.\<close>

record version_coordinator_config =
  vk_documentId :: jsstring
  vk_userName :: jsstring
  vk_autoSnapshot :: "bool option"
  vk_autoSnapshotUpdates :: "int option"
  vk_autoSnapshotMinutes :: "int option"
  vk_versionBlameEnabled :: "bool option"

definition manager_config :: "version_coordinator_config \<Rightarrow> version_manager_config" where
  "manager_config k =
     \<lparr>vc_documentId = vk_documentId k,
      vc_autoSnapshotUpdates = Some (if vk_autoSnapshot k = Some False then 0
        else (case vk_autoSnapshotUpdates k of None \<Rightarrow> 50 | Some n \<Rightarrow> n)),
      vc_autoSnapshotMinutes = Some (if vk_autoSnapshot k = Some False then 0
        else (case vk_autoSnapshotMinutes k of None \<Rightarrow> 5 | Some n \<Rightarrow> n)),
      vc_userName = Some (vk_userName k)\<rparr>"

section \<open>Operations\<close>

definition on_blame ::
  "(blame_coordinator \<times> ('e, 't, 'c) editor_binding \<Rightarrow> blame_coordinator \<times> ('e, 't, 'c) editor_binding) \<Rightarrow>
   ('e, 't, 'c) version_world \<Rightarrow> ('e, 't, 'c) version_world" where
  "on_blame f w =
     (if vo_blameCoordinator (vw_co w)
      then (let (bl, b) = f (vw_blame w, vw_binding w) in w\<lparr>vw_blame := bl, vw_binding := b\<rparr>)
      else w)"

definition exitVersionView ::
  "('e, 't) host_env \<Rightarrow> ('e, 't, 'c) version_world \<Rightarrow> ('e, 't, 'c) version_world" where
  "exitVersionView H w =
     (if \<not> vo_viewingVersion (vw_co w) then w
      else (let w1 = w\<lparr>vw_co := (vw_co w)\<lparr>vo_viewingVersion := False\<rparr>\<rparr>;
                w2 = (if vo_attached (vw_co w1)
                      then (let w3 = on_blame disableVersionBlame
                                (w1\<lparr>vw_binding := eb_setReadonly (vo_readonly (vw_co w1)) (vw_binding w1)\<rparr>)
                            in if vo_collabProvider (vw_co w3)
                               then w3\<lparr>vw_binding := eb_setContent H
                                      (text_of H (eb_texts (vw_binding w3) (vw_editorText w3)))
                                      (vw_binding w3)\<rparr>
                               else w3)
                      else w1)
            in w2\<lparr>vw_co := (vw_co w2)\<lparr>vo_selectedVersion := None\<rparr>\<rparr>))"

definition version_detach ::
  "('e, 't) host_env \<Rightarrow> ('e, 't, 'c) version_world \<Rightarrow> ('e, 't, 'c) version_world" where
  "version_detach H w =
     (let w1 = exitVersionView H w
      in w1\<lparr>vw_co := new_version_coordinator\<lparr>vo_readonly := vo_readonly (vw_co w1)\<rparr>\<rparr>)"

text \<open>\<open>attach\<close> up to the request for the list of versions; \<open>binding\<close> is the new binding.\<close>

definition version_attach ::
  "('e, 't) host_env \<Rightarrow> ('e, 't, 'c) editor_binding \<Rightarrow> nat \<Rightarrow> bool \<Rightarrow> version_coordinator_config \<Rightarrow> bool \<Rightarrow> bool \<Rightarrow>
   int \<Rightarrow> ('e, 't, 'c) version_world \<Rightarrow> ('e, 't, 'c) version_world" where
  "version_attach H binding ydoc provider config hasBlame readonly now w =
     (let w1 = version_detach H w
      in w1\<lparr>vw_binding := binding,
            vw_co := (vw_co w1)\<lparr>vo_attached := True, vo_blameCoordinator := hasBlame,
              vo_versionBlameEnabled := vk_versionBlameEnabled config, vo_collabProvider := provider,
              vo_readonly := readonly, vo_manager := Some (new_manager ydoc (manager_config config) now)\<rparr>\<rparr>)"

definition set_versions :: "version_list_entry list \<Rightarrow> ('e, 't, 'c) version_world \<Rightarrow> ('e, 't, 'c) version_world" where
  "set_versions vs w = w\<lparr>vw_co := (vw_co w)\<lparr>vo_versions := vs\<rparr>\<rparr>"

text \<open>The answer to a request for the list, wherever it was made; a rejected one is ignored.\<close>

definition versions_loaded ::
  "version_list_entry list option \<Rightarrow> ('e, 't, 'c) version_world \<Rightarrow> ('e, 't, 'c) version_world" where
  "versions_loaded r w = (case r of None \<Rightarrow> w | Some vs \<Rightarrow> set_versions vs w)"

definition add_version ::
  "version_list_entry \<Rightarrow> ('e, 't, 'c) version_world \<Rightarrow> ('e, 't, 'c) version_world" where
  "add_version entry w = set_versions (entry # vo_versions (vw_co w)) w"

text \<open>\<open>handleAppMessage\<close>: the argument is the version of a \<open>version-created\<close> message.\<close>

definition version_handleAppMessage ::
  "version_list_entry option \<Rightarrow> ('e, 't, 'c) version_world \<Rightarrow> ('e, 't, 'c) version_world" where
  "version_handleAppMessage v w = (case v of None \<Rightarrow> w | Some entry \<Rightarrow> add_version entry w)"

definition version_togglePanel ::
  "('e, 't) host_env \<Rightarrow> ('e, 't, 'c) version_world \<Rightarrow> ('e, 't, 'c) version_world" where
  "version_togglePanel H w =
     (let w1 = w\<lparr>vw_co := (vw_co w)\<lparr>vo_panelOpen := \<not> vo_panelOpen (vw_co w)\<rparr>\<rparr>
      in if vo_panelOpen (vw_co w1) then w1
         else if vo_viewingVersion (vw_co w1) then exitVersionView H w1 else w1)"

definition version_closePanel ::
  "('e, 't) host_env \<Rightarrow> ('e, 't, 'c) version_world \<Rightarrow> ('e, 't, 'c) version_world" where
  "version_closePanel H w =
     (let w1 = w\<lparr>vw_co := (vw_co w)\<lparr>vo_panelOpen := False\<rparr>\<rparr>
      in if vo_viewingVersion (vw_co w1) then exitVersionView H w1 else w1)"

text \<open>\<open>save\<close>: the request of the manager, and its answer.\<close>

definition version_save ::
  "('e, 't) host_env \<Rightarrow> ('e, 't, 'c) version_world \<Rightarrow> version_post option" where
  "version_save H w =
     map_option (\<lambda>m. create_post (text_of H (eb_texts (vw_binding w) (vm_ydoc m))) None None m)
       (vo_manager (vw_co w))"

definition save_answered ::
  "version_list_entry option \<Rightarrow> ('e, 't, 'c) version_world \<Rightarrow> ('e, 't, 'c) version_world" where
  "save_answered r w = (case r of None \<Rightarrow> w | Some entry \<Rightarrow> add_version entry w)"

definition select_answered ::
  "version_entry option \<Rightarrow> ('e, 't, 'c) version_world \<Rightarrow> ('e, 't, 'c) version_world" where
  "select_answered r w =
     (case r of None \<Rightarrow> w | Some v \<Rightarrow> w\<lparr>vw_co := (vw_co w)\<lparr>vo_selectedVersion := Some v\<rparr>\<rparr>)"

definition view_answered ::
  "('e, 't) host_env \<Rightarrow> version_entry option \<Rightarrow> ('e, 't, 'c) version_world \<Rightarrow> ('e, 't, 'c) version_world" where
  "view_answered H r w =
     (case r of
        None \<Rightarrow> w
      | Some v \<Rightarrow>
          if \<not> vo_attached (vw_co w) then w
          else (let w1 = w\<lparr>vw_co := (vw_co w)\<lparr>vo_selectedVersion := Some v, vo_viewingVersion := True\<rparr>,
                          vw_binding := eb_setContent H (content_of v) (eb_setReadonly True (vw_binding w))\<rparr>
                in if vo_versionBlameEnabled (vw_co w1) \<noteq> Some False
                      \<and> (case ve_blame v of None \<Rightarrow> False | Some bs \<Rightarrow> length bs > 0)
                   then on_blame (enableVersionBlame (the (ve_blame v))) w1
                   else w1))"

text \<open>\<open>revert\<close> after the version has arrived: the view is left and the manager reverts its document;
  the returned requests are those of the manager. The list is loaded again afterwards.\<close>

definition revert_answered ::
  "('e, 't) host_env \<Rightarrow> version_entry option \<Rightarrow> ('e, 't, 'c) version_world \<Rightarrow>
   ('e, 't, 'c) version_world \<times> version_post list" where
  "revert_answered H r w =
     (case r of
        None \<Rightarrow> (w, [])
      | Some v \<Rightarrow>
          (let w1 = exitVersionView H w
           in case vo_manager (vw_co w1) of
                None \<Rightarrow> (w1, [])
              | Some m \<Rightarrow>
                  (let (t', m', posts) = revertToVersion (be_text (hv_env H)) v
                         (eb_texts (vw_binding w1) (vm_ydoc m)) m
                   in (w1\<lparr>vw_co := (vw_co w1)\<lparr>vo_manager := Some m'\<rparr>,
                          vw_binding := shared_change H (vm_ydoc m) t' (vw_binding w1)\<rparr>, posts))))"

definition reverted_list ::
  "version_list_entry list \<Rightarrow> ('e, 't, 'c) version_world \<Rightarrow> ('e, 't, 'c) version_world" where
  "reverted_list vs w = set_versions (if vo_manager (vw_co w) = None then [] else vs) w"

definition diff_answered ::
  "version_entry option \<Rightarrow> version_entry option \<Rightarrow> ('e, 't, 'c) version_world \<Rightarrow> ('e, 't, 'c) version_world" where
  "diff_answered r1 r2 w =
     (case (r1, r2) of
        (Some v1, Some v2) \<Rightarrow>
          if vo_manager (vw_co w) = None then w
          else w\<lparr>vw_co := (vw_co w)\<lparr>vo_diffResult := Some (diffVersions v1 v2)\<rparr>\<rparr>
      | _ \<Rightarrow> w)"

definition clearDiff :: "('e, 't, 'c) version_world \<Rightarrow> ('e, 't, 'c) version_world" where
  "clearDiff w = w\<lparr>vw_co := (vw_co w)\<lparr>vo_diffResult := None\<rparr>\<rparr>"

text \<open>What happens beside the coordinator: the provider resets the editor document, and the element
  rebinds the editors to its text.\<close>

definition editor_doc_reset ::
  "('e, 't) host_env \<Rightarrow> nat \<Rightarrow> ('e, 't, 'c) version_world \<Rightarrow> ('e, 't, 'c) version_world" where
  "editor_doc_reset H j w =
     w\<lparr>vw_editorText := j, vw_binding := eb_rebindSharedText H j (vw_binding w)\<rparr>"

datatype version_event =
    Detach_Versions
  | Versions_Loaded "version_list_entry list option"
  | Version_Created "version_list_entry option"
  | Toggle_Panel
  | Close_Panel
  | Save_Answered "version_list_entry option"
  | Select_Answered "version_entry option"
  | View_Answered "version_entry option"
  | Revert_Answered "version_entry option"
  | Reverted_List "version_list_entry list"
  | Diff_Answered "version_entry option" "version_entry option"
  | Clear_Diff
  | Editor_Doc_Reset nat

fun version_step ::
  "('e, 't) host_env \<Rightarrow> version_event \<Rightarrow> ('e, 't, 'c) version_world \<Rightarrow> ('e, 't, 'c) version_world" where
  "version_step H Detach_Versions w = version_detach H w"
| "version_step H (Versions_Loaded r) w = versions_loaded r w"
| "version_step H (Version_Created v) w = version_handleAppMessage v w"
| "version_step H Toggle_Panel w = version_togglePanel H w"
| "version_step H Close_Panel w = version_closePanel H w"
| "version_step H (Save_Answered r) w = save_answered r w"
| "version_step H (Select_Answered r) w = select_answered r w"
| "version_step H (View_Answered r) w = view_answered H r w"
| "version_step H (Revert_Answered r) w = fst (revert_answered H r w)"
| "version_step H (Reverted_List vs) w = reverted_list vs w"
| "version_step H (Diff_Answered r1 r2) w = diff_answered r1 r2 w"
| "version_step H Clear_Diff w = clearDiff w"
| "version_step H (Editor_Doc_Reset j) w = editor_doc_reset H j w"

section \<open>Read-only while viewing\<close>

text \<open>What the coordinator relies on: a binding takes the read-only flag it is given and keeps it when
  its content is set.\<close>

locale readonly_view =
  fixes setReadonly :: "bool \<Rightarrow> 'b \<Rightarrow> 'b" and setContent :: "jsstring \<Rightarrow> 'b \<Rightarrow> 'b"
    and flagged :: "bool \<Rightarrow> 'b \<Rightarrow> bool"
  assumes set_flagged: "flagged r (setReadonly r b)"
    and content_flagged: "flagged r b \<Longrightarrow> flagged r (setContent c b)"
begin

lemma view_flagged: "flagged r (setContent c (setReadonly r b))"
  by (intro content_flagged set_flagged)

lemma contents_flagged: "flagged r b \<Longrightarrow> flagged r (fold setContent cs b)"
  by (induction cs arbitrary: b) (simp_all add: content_flagged)

end

definition all_readonly :: "bool \<Rightarrow> ('e, 't, 'c) editor_binding \<Rightarrow> bool" where
  "all_readonly r b \<longleftrightarrow>
     (\<forall>e. eb_source b = Some e \<longrightarrow> se_readonly e = r) \<and> (\<forall>w. eb_wysiwyg b = Some w \<longrightarrow> we_readonly w = r)"

lemma readonly_update_source:
  "all_readonly r b \<Longrightarrow> (\<And>e. se_readonly (f e) = se_readonly e) \<Longrightarrow> all_readonly r (update_source fires f b)"
  by (auto simp: all_readonly_def update_source_def on_source_update_def Let_def split: option.splits)

lemma readonly_update_wysiwyg:
  "all_readonly r b \<Longrightarrow> (\<And>e. we_readonly (f e) = we_readonly e) \<Longrightarrow> all_readonly r (update_wysiwyg f b)"
  by (auto simp: all_readonly_def)

lemma readonly_on_text_binding: "all_readonly r b \<Longrightarrow> all_readonly r (on_text_binding f b)"
  by (auto simp: all_readonly_def on_text_binding_def Let_def split: option.splits)

lemma readonly_texts [simp]: "all_readonly r (b\<lparr>eb_texts := t\<rparr>) \<longleftrightarrow> all_readonly r b"
  by (simp add: all_readonly_def)

lemma readonly_shared_change: "all_readonly r b \<Longrightarrow> all_readonly r (shared_change H i t b)"
  unfolding shared_change_def
  by (rule readonly_update_source, rule readonly_on_text_binding) simp_all

lemma readonly_setContent: "all_readonly r b \<Longrightarrow> all_readonly r (eb_setContent H c b)"
  by (auto simp: eb_setContent_def setCollabContent_def set_source_content_def Let_def
      intro!: readonly_shared_change readonly_update_source readonly_update_wysiwyg
      simp: se_setContent_def we_setContent_def split: option.splits)

lemma readonly_setReadonly: "all_readonly r (eb_setReadonly r b)"
  by (auto simp: all_readonly_def eb_setReadonly_def update_source_def on_source_update_def
      se_setReadonly_def we_setReadonly_def Let_def split: option.splits)

lemma se_rebind_readonly [simp]: "se_readonly (se_rebindSharedText H texts j e) = se_readonly e"
  by (simp add: se_rebindSharedText_def Let_def)

lemma readonly_rebind: "all_readonly r b \<Longrightarrow> all_readonly r (eb_rebindSharedText H j b)"
  by (simp add: eb_rebindSharedText_def readonly_on_text_binding readonly_update_source)

lemma readonly_blame:
  "all_readonly r b \<Longrightarrow> all_readonly r (eb_enableBlame s b)"
  "all_readonly r b \<Longrightarrow> all_readonly r (eb_disableBlame b)"
  unfolding eb_enableBlame_def eb_disableBlame_def
  by (auto intro!: readonly_update_wysiwyg readonly_update_source
      simp: se_enableBlame_def we_enableBlame_def se_disableBlame_def we_disableBlame_def)

interpretation ebv: readonly_view eb_setReadonly "eb_setContent H" all_readonly for H
  by unfold_locales (rule readonly_setReadonly, rule readonly_setContent)

lemma readonly_version_blame:
  "all_readonly r b \<Longrightarrow> all_readonly r (snd (enableVersionBlame s (bl, b)))"
  "all_readonly r b \<Longrightarrow> all_readonly r (snd (disableVersionBlame (bl, b)))"
  by (simp_all add: enableVersionBlame_def disableVersionBlame_def on_binding_def readonly_blame)

lemma on_blame_fields [simp]:
  "vw_co (on_blame f w) = vw_co w" "vw_editorText (on_blame f w) = vw_editorText w"
  by (simp_all add: on_blame_def Let_def split: prod.splits)

lemma readonly_on_blame:
  assumes "all_readonly r (vw_binding w)" "\<And>bl b. all_readonly r b \<Longrightarrow> all_readonly r (snd (f (bl, b)))"
  shows "all_readonly r (vw_binding (on_blame f w))"
  using assms(1) assms(2) [of "vw_binding w" "vw_blame w"]
  by (auto simp: on_blame_def Let_def split: prod.splits)

text \<open>Leaving the view.\<close>

lemma exit_co:
  "vw_co (exitVersionView H w) =
     (if vo_viewingVersion (vw_co w)
      then (vw_co w)\<lparr>vo_viewingVersion := False, vo_selectedVersion := None\<rparr> else vw_co w)"
  by (simp add: exitVersionView_def Let_def)

definition view_inv :: "('e, 't, 'c) version_world \<Rightarrow> bool" where
  "view_inv w \<longleftrightarrow>
     (vo_viewingVersion (vw_co w) \<longrightarrow> vo_attached (vw_co w))
     \<and> (vo_attached (vw_co w) \<longrightarrow>
          all_readonly (vo_viewingVersion (vw_co w) \<or> vo_readonly (vw_co w)) (vw_binding w))"

lemma exit_view_inv:
  assumes "view_inv w"
  shows "view_inv (exitVersionView H w)"
proof (cases "vo_viewingVersion (vw_co w) \<and> vo_attached (vw_co w)")
  case False
  then show ?thesis using assms by (auto simp: view_inv_def exitVersionView_def)
next
  case True
  let ?r = "vo_readonly (vw_co w)"
  have "all_readonly ?r (vw_binding (on_blame disableVersionBlame
      (w\<lparr>vw_co := (vw_co w)\<lparr>vo_viewingVersion := False\<rparr>, vw_binding := eb_setReadonly ?r (vw_binding w)\<rparr>)))"
    by (rule readonly_on_blame) (simp_all add: readonly_setReadonly readonly_version_blame)
  then have "all_readonly ?r (vw_binding (exitVersionView H w))"
    using True by (simp add: exitVersionView_def Let_def ebv.content_flagged)
  then show ?thesis using True by (simp add: view_inv_def exit_co)
qed

lemma view_answered_inv:
  assumes "view_inv w"
  shows "view_inv (view_answered H r w)"
proof (cases r)
  case None
  with assms show ?thesis by (simp add: view_answered_def)
next
  case (Some v)
  show ?thesis
  proof (cases "vo_attached (vw_co w)")
    case False
    with assms Some show ?thesis by (simp add: view_answered_def)
  next
    case True
    define w1 where "w1 = w\<lparr>vw_co := (vw_co w)\<lparr>vo_selectedVersion := Some v, vo_viewingVersion := True\<rparr>,
        vw_binding := eb_setContent H (content_of v) (eb_setReadonly True (vw_binding w))\<rparr>"
    have "all_readonly True (vw_binding w1)" by (simp add: w1_def ebv.view_flagged)
    moreover from this have "all_readonly True (vw_binding (on_blame (enableVersionBlame s) w1))" for s
      by (rule readonly_on_blame) (rule readonly_version_blame)
    moreover have "vo_viewingVersion (vw_co w1)" "vo_attached (vw_co w1)" using True by (simp_all add: w1_def)
    ultimately show ?thesis using Some True
      by (auto simp: view_answered_def Let_def view_inv_def w1_def [symmetric])
  qed
qed

lemma revert_answered_inv:
  assumes "view_inv w"
  shows "view_inv (fst (revert_answered H r w))"
  using exit_view_inv [OF assms, of H] assms
  by (auto simp: revert_answered_def view_inv_def Let_def readonly_shared_change split: option.splits prod.splits)

lemma version_step_inv:
  assumes "view_inv w"
  shows "view_inv (version_step H ev w)"
proof (cases ev)
  case Toggle_Panel
  have "view_inv (w\<lparr>vw_co := (vw_co w)\<lparr>vo_panelOpen := x\<rparr>\<rparr>)" for x
    using assms by (simp add: view_inv_def)
  then show ?thesis using Toggle_Panel by (simp add: version_togglePanel_def Let_def exit_view_inv)
next
  case Close_Panel
  have "view_inv (w\<lparr>vw_co := (vw_co w)\<lparr>vo_panelOpen := x\<rparr>\<rparr>)" for x
    using assms by (simp add: view_inv_def)
  then show ?thesis using Close_Panel by (simp add: version_closePanel_def Let_def exit_view_inv)
qed (use assms in \<open>simp_all add: view_answered_inv revert_answered_inv\<close>,
     use assms in \<open>auto simp: view_inv_def version_detach_def versions_loaded_def version_handleAppMessage_def
      add_version_def set_versions_def save_answered_def select_answered_def reverted_list_def
      diff_answered_def clearDiff_def editor_doc_reset_def new_version_coordinator_def readonly_rebind
      Let_def split: option.splits\<close>)

lemma version_run_inv: "view_inv w \<Longrightarrow> view_inv (fold (version_step H) evs w)"
  by (induction evs arbitrary: w) (simp_all add: version_step_inv)

text \<open>The flag the coordinator was given does not change.\<close>

lemma version_step_readonly [simp]: "vo_readonly (vw_co (version_step H ev w)) = vo_readonly (vw_co w)"
  by (cases ev)
    (auto simp: version_detach_def versions_loaded_def version_handleAppMessage_def add_version_def
      set_versions_def save_answered_def select_answered_def reverted_list_def diff_answered_def
      clearDiff_def editor_doc_reset_def new_version_coordinator_def version_togglePanel_def
      version_closePanel_def exit_co view_answered_def revert_answered_def Let_def
      split: option.splits prod.splits)

lemma version_run_readonly: "vo_readonly (vw_co (fold (version_step H) evs w)) = vo_readonly (vw_co w)"
  by (induction evs arbitrary: w) simp_all

section \<open>What viewing does to texts and contents\<close>

lemma binding_keeps_texts [simp]:
  "eb_texts (eb_setReadonly r b) = eb_texts b" "eb_collab (eb_setReadonly r b) = eb_collab b"
  "eb_texts (eb_enableBlame s b) = eb_texts b" "eb_collab (eb_enableBlame s b) = eb_collab b"
  "eb_texts (eb_disableBlame b) = eb_texts b" "eb_collab (eb_disableBlame b) = eb_collab b"
  by (simp_all add: eb_setReadonly_def eb_enableBlame_def eb_disableBlame_def update_wysiwyg_def)

lemma binding_keeps_content [simp]:
  "eb_getContent H (eb_setReadonly r b) = eb_getContent H b"
  "eb_getContent H (eb_enableBlame s b) = eb_getContent H b"
  "eb_getContent H (eb_disableBlame b) = eb_getContent H b"
  by (auto simp: eb_getContent_def eb_setReadonly_def eb_enableBlame_def eb_disableBlame_def
      update_wysiwyg_def update_source_def source_content_def we_getContent_def se_setReadonly_def
      we_setReadonly_def se_enableBlame_def we_enableBlame_def se_disableBlame_def we_disableBlame_def
      split: option.splits)

lemma on_version_blame [simp]:
  "eb_texts (vw_binding (on_blame (enableVersionBlame s) w)) = eb_texts (vw_binding w)"
  "eb_collab (vw_binding (on_blame (enableVersionBlame s) w)) = eb_collab (vw_binding w)"
  "eb_getContent H (vw_binding (on_blame (enableVersionBlame s) w)) = eb_getContent H (vw_binding w)"
  "eb_texts (vw_binding (on_blame disableVersionBlame w)) = eb_texts (vw_binding w)"
  "eb_collab (vw_binding (on_blame disableVersionBlame w)) = eb_collab (vw_binding w)"
  "eb_getContent H (vw_binding (on_blame disableVersionBlame w)) = eb_getContent H (vw_binding w)"
  by (simp_all add: on_blame_def enableVersionBlame_def disableVersionBlame_def on_binding_def)

lemma setContent_collab [simp]: "eb_collab (eb_setContent H c b) = eb_collab b"
  by (rule frame_eqD(7)) simp

lemma view_effect:
  assumes "vo_attached (vw_co w)"
  shows "eb_texts (vw_binding (view_answered H (Some v) w)) =
      eb_texts (eb_setContent H (content_of v) (eb_setReadonly True (vw_binding w)))"
    and "eb_collab (vw_binding (view_answered H (Some v) w)) = eb_collab (vw_binding w)"
    and "eb_getContent H (vw_binding (view_answered H (Some v) w)) =
      eb_getContent H (eb_setContent H (content_of v) (eb_setReadonly True (vw_binding w)))"
    and "vo_viewingVersion (vw_co (view_answered H (Some v) w))"
    and "vo_attached (vw_co (view_answered H (Some v) w))"
  using assms by (simp_all add: view_answered_def Let_def)

text \<open>Leaving the view does not touch a shared text that is not empty.\<close>

lemma exit_keeps_texts:
  assumes "eb_collab (vw_binding w) = Some i" "ytext_laws (be_text (hv_env H))"
    and "text_of H (eb_texts (vw_binding w) i) \<noteq> []"
  shows "eb_texts (vw_binding (exitVersionView H w)) = eb_texts (vw_binding w)"
  using assms by (simp add: exitVersionView_def Let_def collab_setContent(1) [where i = i])

lemma exit_keeps_content:
  assumes "eb_collab (vw_binding w) = Some i" "ytext_laws (be_text (hv_env H))"
    and "text_of H (eb_texts (vw_binding w) i) \<noteq> []"
  shows "eb_getContent H (vw_binding (exitVersionView H w)) = eb_getContent H (vw_binding w)"
  using assms by (simp add: exitVersionView_def Let_def collab_setContent(1) [where i = i])

section \<open>Properties\<close>

text \<open>C33: The editor is read-only exactly as it should be: after any sequence of answers, panel
  actions, reverts and resets, as long as the coordinator is attached, its editors are read-only
  while a version is viewed, and otherwise have the flag the coordinator was attached with.\<close>

theorem readonly_while_viewing:
  assumes "all_readonly readonly binding"
    and "w = fold (version_step H) evs (version_attach H binding d prov config hasBlame readonly now w0)"
    and "vo_attached (vw_co w)"
  shows "all_readonly (vo_viewingVersion (vw_co w) \<or> readonly) (vw_binding w)"
proof -
  let ?w = "version_attach H binding d prov config hasBlame readonly now w0"
  have "view_inv ?w" "vo_readonly (vw_co ?w) = readonly"
    using assms(1) by (simp_all add: view_inv_def version_attach_def version_detach_def
        new_version_coordinator_def Let_def)
  then show ?thesis using version_run_inv [of ?w H evs] version_run_readonly [of H evs ?w] assms(2,3)
    by (simp add: view_inv_def)
qed

text \<open>In collaboration a version is not shown in the editor when it is viewed: with a non-empty
  shared text, entering and leaving the view leaves every shared text and the content of the editor
  as they are. With an empty shared text, viewing writes the version into the shared text, where it
  stays when the view is left.\<close>

theorem viewing_in_collaboration:
  assumes "ytext_laws (be_text (hv_env H))" "eb_collab (vw_binding w) = Some i" "vo_attached (vw_co w)"
    and "w1 = view_answered H (Some v) w" "w2 = version_closePanel H w1"
  shows "(text_of H (eb_texts (vw_binding w) i) \<noteq> [] \<longrightarrow>
      eb_texts (vw_binding w1) = eb_texts (vw_binding w) \<and> eb_texts (vw_binding w2) = eb_texts (vw_binding w)
      \<and> eb_getContent H (vw_binding w1) = eb_getContent H (vw_binding w)
      \<and> eb_getContent H (vw_binding w2) = eb_getContent H (vw_binding w))
    \<and> (text_of H (eb_texts (vw_binding w) i) = [] \<and> content_of v \<noteq> [] \<longrightarrow>
      text_of H (eb_texts (vw_binding w1) i) = content_of v
      \<and> text_of H (eb_texts (vw_binding w2) i) = content_of v)"
proof -
  let ?b = "eb_setReadonly True (vw_binding w)"
  have b: "eb_collab ?b = Some i" "eb_texts ?b = eb_texts (vw_binding w)" using assms(2) by simp_all
  note V = view_effect [OF assms(3), of H v, folded assms(4)]
  have c: "eb_collab (vw_binding w1) = Some i" using V(2) assms(2) by simp
  have w2: "w2 = exitVersionView H (w1\<lparr>vw_co := (vw_co w1)\<lparr>vo_panelOpen := False\<rparr>\<rparr>)"
    using V(4) by (simp add: assms(5) version_closePanel_def Let_def)
  note X = exit_keeps_texts [of "w1\<lparr>vw_co := (vw_co w1)\<lparr>vo_panelOpen := False\<rparr>\<rparr>" i H, folded w2]
    exit_keeps_content [of "w1\<lparr>vw_co := (vw_co w1)\<lparr>vo_panelOpen := False\<rparr>\<rparr>" i H, folded w2]
  note S = collab_setContent [OF b(1) assms(1), where ?text = "content_of v"]
  show ?thesis
    using V(1,3) S(1,2) X c assms(1) b(2) by simp
qed

text \<open>Versions follow the document the coordinator was attached with: once the provider has
  replaced the editor document (leaving Suggest Mode or a preview does), a saved version contains the
  text of the old document, and a revert changes the old document and not the one the user
  edits.\<close>

theorem versions_follow_old_document:
  assumes "vo_manager (vw_co w) = Some m" "\<not> vo_viewingVersion (vw_co w)" "j \<noteq> vm_ydoc m"
    and "w1 = editor_doc_reset H j w"
  shows "vw_editorText w1 = j
    \<and> map_option vp_content (version_save H w1) = Some (text_of H (eb_texts (vw_binding w) (vm_ydoc m)))
    \<and> eb_texts (vw_binding (fst (revert_answered H (Some v) w1))) j = eb_texts (vw_binding w) j"
proof -
  have t: "eb_texts (vw_binding w1) = eb_texts (vw_binding w)"
    by (simp add: assms(4) editor_doc_reset_def eb_rebindSharedText_def on_text_binding_texts)
  have w1: "vw_co w1 = vw_co w" "vw_editorText w1 = j" by (simp_all add: assms(4) editor_doc_reset_def)
  then have "exitVersionView H w1 = w1" using assms(2) by (simp add: exitVersionView_def)
  then show ?thesis using w1 t assms(1,3)
    by (simp add: version_save_def create_post_def revert_answered_def Let_def shared_change_texts
        split: prod.splits)
qed

text \<open>A binding in collaboration on text 0, and a world in which the coordinator is attached to it.\<close>

definition sample_bound :: "jsstring \<Rightarrow> (jsstring, jsstring, unit) editor_binding" where
  "sample_bound s = returned undefined (mount sample_host () Source_Mode False (Some 0)
     (new_editor_binding Source_Only (js ''markdown'') (\<lambda>_. s)))"

definition sample_old_version :: version_entry where
  "sample_old_version =
     \<lparr>ve_id = js ''v1'', ve_created_at = [], ve_type = Manual_Version, ve_label = None, ve_creator = None,
      ve_content = Some (js ''old''), ve_mime_type = None, ve_blame = None\<rparr>"

definition sample_world :: "jsstring \<Rightarrow> (jsstring, jsstring, unit) version_world" where
  "sample_world s =
     version_attach sample_host (sample_bound s) 0 True
       \<lparr>vk_documentId = [], vk_userName = js ''ann'', vk_autoSnapshot = None, vk_autoSnapshotUpdates = None,
        vk_autoSnapshotMinutes = None, vk_versionBlameEnabled = None\<rparr> False False 0
       \<lparr>vw_co = new_version_coordinator, vw_blame = new_blame_coordinator, vw_binding = sample_bound s,
        vw_editorText = 0\<rparr>"

lemma sample_bound_simps:
  "eb_collab (sample_bound s) = Some 0" "eb_texts (sample_bound s) = (\<lambda>_. s)"
  "all_readonly False (sample_bound s)"
  by (simp_all add: sample_bound_def returned_def mount_def new_editor_binding_def Let_def
      all_readonly_def new_source_editor_def)

lemma sample_world_simps:
  "vw_binding (sample_world s) = sample_bound s" "vo_attached (vw_co (sample_world s))"
  "\<not> vo_viewingVersion (vw_co (sample_world s))"
  "map_option vm_ydoc (vo_manager (vw_co (sample_world s))) = Some 0"
  by (simp_all add: sample_world_def version_attach_def version_detach_def exitVersionView_def
      new_version_coordinator_def new_manager_def Let_def)

lemma sample_host_text [simp]: "text_of sample_host t = t"
  by (simp add: text_of_def sample_host_def)

lemma sample_host_ytext: "ytext_laws (be_text (hv_env sample_host))"
  by (simp add: sample_host_def plain_text_laws)

theorem readonly_while_viewing_witness:
  "all_readonly True (vw_binding (fold (version_step sample_host) [View_Answered (Some sample_old_version)]
     (sample_world (js ''a''))))"
proof -
  let ?w = "fold (version_step sample_host) [View_Answered (Some sample_old_version)] (sample_world (js ''a''))"
  have v: "vo_attached (vw_co ?w)" "vo_viewingVersion (vw_co ?w)"
    using view_effect(4,5) [OF sample_world_simps(2)] by simp_all
  have "all_readonly (vo_viewingVersion (vw_co ?w) \<or> False) (vw_binding ?w)"
    by (rule readonly_while_viewing [OF sample_bound_simps(3) _ v(1)]) (simp only: sample_world_def)
  with v(2) show ?thesis by simp
qed

theorem viewing_in_collaboration_witness:
  "eb_texts (vw_binding (view_answered sample_host (Some sample_old_version) (sample_world (js ''a'')))) 0 = js ''a''
   \<and> eb_texts (vw_binding (view_answered sample_host (Some sample_old_version) (sample_world []))) 0 = js ''old''"
  using viewing_in_collaboration [of sample_host "sample_world (js ''a'')" 0 _ sample_old_version, OF sample_host_ytext _ sample_world_simps(2) refl refl]
    viewing_in_collaboration [of sample_host "sample_world []" 0 _ sample_old_version, OF sample_host_ytext _ sample_world_simps(2) refl refl]
  by (simp add: sample_world_simps sample_bound_simps sample_old_version_def content_of_def js_def)

theorem versions_follow_old_document_witness:
  "let w1 = editor_doc_reset sample_host 1 (sample_world (js ''a''))
   in map_option vp_content (version_save sample_host w1) = Some (js ''a'')
      \<and> eb_texts (vw_binding (fst (revert_answered sample_host (Some sample_old_version) w1))) 1 = js ''a''"
proof -
  obtain m where m: "vo_manager (vw_co (sample_world (js ''a''))) = Some m" "vm_ydoc m = 0"
    using sample_world_simps(4) by auto
  from versions_follow_old_document [OF m(1) sample_world_simps(3) _ refl, of 1 sample_host sample_old_version] m(2)
  show ?thesis by (simp add: sample_world_simps sample_bound_simps Let_def)
qed

end
