(* ===== verification/Feature_Mode.thy ===== *)
theory Feature_Mode
  imports Comment_Coordinator Version_Coordinator Collab_Provider
begin

text \<open>
  The handlers of \<open>MultiEditor\<close> (\<open>frontend/src/multi-editor.ts\<close>) for blame, Suggest Mode and
  comments, which exclude each other: a state machine over the collaboration provider, the suggest
  engine, the comment engine, both coordinators and the editor binding. Shown: what the outbound
  gate, the read-only flag and the decorations are in every state the handlers reach, and what
  previewing, accepting, drafting and submitting a suggestion do to the shared text and to the
  editor. The session is attached: the element has a binding and a provider; \<open>el_attached\<close> says that
  it has the comment and suggest engines. The placement of the panels is not modelled.
\<close>

section \<open>Environment\<close>

text \<open>
  The provider \<open>'p\<close> as the element uses it: \<open>ee_writeEditor\<close> and \<open>ee_writeSync\<close> are a transaction on
  \<open>editorText\<close> and on \<open>syncText\<close> that leaves the given text, with the reaction of the replicator;
  \<open>ee_applyPayload\<close> decodes a base64 update and applies it to \<open>syncDoc\<close>, or throws. \<open>ee_live\<close> is what
  the blame engine computes for a document.
\<close>

record ('e, 't, 'p, 'm) element_env =
  ee_host :: "('e, 't) host_env"
  ee_comments :: "('t, 'm) comment_env"
  ee_collab :: "'p collab_ops"
  ee_editorText :: "'p \<Rightarrow> 't"
  ee_writeEditor :: "'t \<Rightarrow> 'p \<Rightarrow> 'p"
  ee_syncText :: "'p \<Rightarrow> 't"
  ee_writeSync :: "'t \<Rightarrow> 'p \<Rightarrow> 'p"
  ee_applyPayload :: "jsstring \<Rightarrow> 'p \<Rightarrow> jsstring + 'p"
  ee_live :: "nat \<Rightarrow> blame_segment list"

definition text_ops :: "('e, 't, 'p, 'm) element_env \<Rightarrow> 't ytext_ops" where
  "text_ops X = be_text (hv_env (ee_host X))"

text \<open>The provider with the editors that follow it. \<open>resetEditorDoc\<close> calls the element back, which
  rebinds the editors to the new text.\<close>

type_synonym ('e, 't, 'p) hosted = "'p \<times> nat \<times> ('e, 't, comments_view) editor_binding"

definition host_reset ::
  "('e, 't, 'p, 'm) element_env \<Rightarrow> ('e, 't, 'p) hosted \<Rightarrow> ('e, 't, 'p) hosted" where
  "host_reset X = (\<lambda>(p, j, b).
     let p' = co_resetEditorDoc (ee_collab X) p
     in (p', Suc j, eb_rebindSharedText (ee_host X) (Suc j)
           (b\<lparr>eb_texts := (eb_texts b)(Suc j := ee_editorText X p')\<rparr>)))"

definition host_ops :: "('e, 't, 'p, 'm) element_env \<Rightarrow> ('e, 't, 'p) hosted collab_ops" where
  "host_ops X =
     \<lparr>co_setOutboundOpen = (\<lambda>v (p, jb). (co_setOutboundOpen (ee_collab X) v p, jb)),
      co_resetEditorDoc = host_reset X,
      co_outboundOpen = (\<lambda>(p, jb). co_outboundOpen (ee_collab X) p),
      co_syncText = (\<lambda>(p, jb). co_syncText (ee_collab X) p),
      co_editorText = (\<lambda>(p, jb). co_editorText (ee_collab X) p)\<rparr>"

section \<open>State\<close>

datatype feature_mode = No_Mode | Blame_Mode | Suggest_Mode | Comments_Mode

record draft_anchor =
  da_from :: int
  da_to :: int
  da_quoted_text :: jsstring
  da_startRel :: "byte list"
  da_endRel :: "byte list"

record ('e, 't, 'p, 'm) element =
  el_mode :: feature_mode
  el_attached :: bool
  el_readonly :: bool
  el_provider :: 'p
  el_text :: nat
  el_surface :: "('t, 'm, 'e, 't) comment_surface"
  el_blame :: blame_coordinator
  el_suggest :: suggest_engine
  el_activeThread :: "comment_thread option"
  el_commentsListOpen :: bool
  el_suggestionsListOpen :: bool
  el_previewingThreadId :: "jsstring option"
  el_suggestPendingCount :: nat
  el_noteModalOpen :: bool
  el_noteDraft :: jsstring
  el_draftAnchor :: "draft_anchor option"
  el_resolvedThreads :: "comment_thread list"
  el_pendingSuggestionThreads :: "comment_thread list"

type_synonym ('e, 't, 'p, 'm) handler = "('e, 't, 'p, 'm) element action"

definition skip :: "'s action" where
  "skip s = (None, s)"

definition swallow :: "'s action \<Rightarrow> 's action" where
  "swallow a s = (None, snd (a s))"

definition try_catch :: "'s action \<Rightarrow> 's action \<Rightarrow> 's action" where
  "try_catch a h s = (case a s of (Some _, s') \<Rightarrow> h s' | (None, s') \<Rightarrow> (None, s'))"

abbreviation el_engine :: "('e, 't, 'p, 'm) element \<Rightarrow> ('t, 'm) engine" where
  "el_engine w \<equiv> cs_engine (el_surface w)"

abbreviation el_binding :: "('e, 't, 'p, 'm) element \<Rightarrow> ('e, 't, comments_view) editor_binding" where
  "el_binding w \<equiv> cs_binding (el_surface w)"

definition set_binding ::
  "('e, 't, comments_view) editor_binding \<Rightarrow> ('e, 't, 'p, 'm) element \<Rightarrow> ('e, 't, 'p, 'm) element" where
  "set_binding b w = w\<lparr>el_surface := (el_surface w)\<lparr>cs_binding := b\<rparr>\<rparr>"

definition setReadonly :: "bool \<Rightarrow> ('e, 't, 'p, 'm) element \<Rightarrow> ('e, 't, 'p, 'm) element" where
  "setReadonly r w = set_binding (eb_setReadonly r (el_binding w)) w"

definition on_comments :: "('t, 'm, 'e, 't) comment_surface action \<Rightarrow> ('e, 't, 'p, 'm) handler" where
  "on_comments a w = (case a (el_surface w) of (r, s) \<Rightarrow> (r, w\<lparr>el_surface := s\<rparr>))"

definition on_host ::
  "(('e, 't, 'p) hosted \<Rightarrow> ('e, 't, 'p) hosted) \<Rightarrow> ('e, 't, 'p, 'm) element \<Rightarrow> ('e, 't, 'p, 'm) element" where
  "on_host f w =
     (case f (el_provider w, el_text w, el_binding w) of
        (p, j, b) \<Rightarrow> set_binding b (w\<lparr>el_provider := p, el_text := j\<rparr>))"

text \<open>A call of the suggest engine, which works on the provider.\<close>

definition on_suggest ::
  "(suggest_engine \<times> ('e, 't, 'p) hosted \<Rightarrow> suggest_engine \<times> ('e, 't, 'p) hosted) \<Rightarrow>
   ('e, 't, 'p, 'm) element \<Rightarrow> ('e, 't, 'p, 'm) element" where
  "on_suggest f w =
     (case f (el_suggest w, el_provider w, el_text w, el_binding w) of
        (s, p, j, b) \<Rightarrow> set_binding b (w\<lparr>el_suggest := s, el_provider := p, el_text := j\<rparr>))"

text \<open>The provider goes from its state to \<open>p\<close>: the editors follow a change of the editor text, the
  comment engine and its coordinator a change of the shared text.\<close>

definition provider_moves ::
  "('e, 't, 'p, 'm) element_env \<Rightarrow> 'p \<Rightarrow> ('e, 't, 'p, 'm) handler" where
  "provider_moves X p w =
     (let w1 = w\<lparr>el_provider := p\<rparr>;
          w2 = (if ee_editorText X p = ee_editorText X (el_provider w) then w1
                else set_binding (shared_change (ee_host X) (el_text w) (ee_editorText X p) (el_binding w)) w1)
      in if ee_syncText X p = ee_syncText X (el_provider w) then (None, w2)
         else on_comments (on_text_change (ee_comments X))
                (w2\<lparr>el_surface := (el_surface w2)\<lparr>cs_engine := (el_engine w2)\<lparr>ce_text := ee_syncText X p\<rparr>\<rparr>\<rparr>))"

text \<open>A transaction of the element on either text; one that changes nothing makes no event.\<close>

definition write_editor :: "('e, 't, 'p, 'm) element_env \<Rightarrow> 't \<Rightarrow> ('e, 't, 'p, 'm) handler" where
  "write_editor X t w =
     (if t = ee_editorText X (el_provider w) then (None, w)
      else provider_moves X (ee_writeEditor X t (el_provider w)) w)"

definition write_sync :: "('e, 't, 'p, 'm) element_env \<Rightarrow> 't \<Rightarrow> ('e, 't, 'p, 'm) handler" where
  "write_sync X t w =
     (if t = ee_syncText X (el_provider w) then (None, w)
      else provider_moves X (ee_writeSync X t (el_provider w)) w)"

definition serialized :: "('e, 't, 'p, 'm) element_env \<Rightarrow> ('e, 't, 'p, 'm) element \<Rightarrow> jsstring" where
  "serialized X w = eb_getCurrentSerialized (ee_host X) (el_binding w)"

section \<open>Threads\<close>

definition find_thread ::
  "('e, 't, 'p, 'm) element_env \<Rightarrow> jsstring \<Rightarrow> ('e, 't, 'p, 'm) element \<Rightarrow> comment_thread option" where
  "find_thread X threadId w =
     List.find (\<lambda>t. ct_id t = threadId) (getThreads (ee_comments X) (el_engine w))"

definition pending_thread :: "comment_thread \<Rightarrow> bool" where
  "pending_thread t \<longleftrightarrow> (case ct_suggestion t of None \<Rightarrow> False | Some s \<Rightarrow> sg_status s = Pending)"

text \<open>The callback that the element gives the comment coordinator.\<close>

definition refresh_threads ::
  "('e, 't, 'p, 'm) element_env \<Rightarrow> ('e, 't, 'p, 'm) element \<Rightarrow> ('e, 't, 'p, 'm) element" where
  "refresh_threads X w =
     (let threads = getThreads (ee_comments X) (el_engine w)
      in w\<lparr>el_activeThread :=
             (case el_activeThread w of
                None \<Rightarrow> None | Some a \<Rightarrow> List.find (\<lambda>t. ct_id t = ct_id a) threads),
           el_resolvedThreads := filter (\<lambda>t. ct_status t = Resolved_Thread) threads,
           el_pendingSuggestionThreads :=
             filter (\<lambda>t. ct_status t = Open_Thread \<and> pending_thread t
               \<and> \<not> isThreadOrphaned (ee_comments X) (el_engine w) (ct_id t)) threads\<rparr>)"

text \<open>The engine calls its listeners after a change of the map and swallows what they throw.\<close>

definition threads_changed :: "('e, 't, 'p, 'm) element_env \<Rightarrow> ('e, 't, 'p, 'm) handler" where
  "threads_changed X =
     swallow (seq (quiet (refresh_threads X)) (on_comments (on_threads (ee_comments X))))"

definition engine_becomes ::
  "('e, 't, 'p, 'm) element_env \<Rightarrow> ('t, 'm) engine \<Rightarrow> ('e, 't, 'p, 'm) handler" where
  "engine_becomes X e w =
     (let w1 = w\<lparr>el_surface := (el_surface w)\<lparr>cs_engine := e\<rparr>\<rparr>
      in if ce_notified e = ce_notified (el_engine w) then (None, w1) else threads_changed X w1)"

definition engine_op ::
  "('e, 't, 'p, 'm) element_env \<Rightarrow> (('t, 'm) engine \<Rightarrow> jsstring + ('t, 'm) engine) \<Rightarrow> ('e, 't, 'p, 'm) handler" where
  "engine_op X f w =
     (if \<not> el_attached w then (None, w)
      else case f (el_engine w) of Inl err \<Rightarrow> (Some err, w) | Inr e \<Rightarrow> engine_becomes X e w)"

section \<open>Feature modes\<close>

definition on_active_change :: "bool \<Rightarrow> feature_mode \<Rightarrow> feature_mode" where
  "on_active_change active m =
     (if active then Blame_Mode else if m = Blame_Mode then No_Mode else m)"

text \<open>\<open>BlameCoordinator.toggle\<close>, with the callback it makes.\<close>

definition toggle_blame ::
  "('e, 't, 'p, 'm) element_env \<Rightarrow> bool \<Rightarrow> ('e, 't, 'p, 'm) element \<Rightarrow> ('e, 't, 'p, 'm) element" where
  "toggle_blame X active w =
     (case blame_toggle (ee_live X) active (el_blame w, el_binding w) of
        (co, b) \<Rightarrow> set_binding b (w\<lparr>el_blame := co,
          el_mode := fold on_active_change
            (drop (length (bl_reported (el_blame w))) (bl_reported co)) (el_mode w)\<rparr>))"

definition previewing :: "('e, 't, 'p, 'm) element \<Rightarrow> bool" where
  "previewing w \<longleftrightarrow> el_previewingThreadId w \<noteq> None \<and> el_previewingThreadId w \<noteq> Some []"

definition restore_suggest_gate ::
  "('e, 't, 'p, 'm) element_env \<Rightarrow> ('e, 't, 'p, 'm) element \<Rightarrow> ('e, 't, 'p, 'm) element" where
  "restore_suggest_gate X w =
     (if el_mode w = Suggest_Mode \<and> el_attached w
      then on_suggest (\<lambda>st. suggest_enable (host_ops X) (serialized X w)
             (suggest_disable (host_ops X) st))
             (on_host (co_setOutboundOpen (host_ops X) False) w)
      else w)"

definition endSuggestionPreview :: "('e, 't, 'p, 'm) element_env \<Rightarrow> ('e, 't, 'p, 'm) handler" where
  "endSuggestionPreview X w =
     (if \<not> previewing w then (None, w)
      else let w1 = restore_suggest_gate X (on_host (host_reset X) w)
           in on_comments (setDecorationsMuted (ee_comments X) False)
                ((setReadonly (el_readonly w1) w1)\<lparr>el_previewingThreadId := None\<rparr>))"

definition activateFeatureMode ::
  "('e, 't, 'p, 'm) element_env \<Rightarrow> feature_mode \<Rightarrow> ('e, 't, 'p, 'm) handler" where
  "activateFeatureMode X m w =
     (if el_mode w = m then (None, w)
      else let w1 = w\<lparr>el_mode := m\<rparr>
           in case el_mode w of
                Blame_Mode \<Rightarrow> (None, toggle_blame X False w1)
              | Suggest_Mode \<Rightarrow>
                  if el_attached w1
                  then (None, let w2 = (on_suggest (suggest_discard (host_ops X)) w1)\<lparr>el_suggestPendingCount := 0\<rparr>
                              in w2\<lparr>el_surface := setSuggestActive False (el_surface w2)\<rparr>)
                  else (None, w1)
              | Comments_Mode \<Rightarrow>
                  seq (on_comments (setActiveThread (ee_comments X) None))
                    (seq (quiet (\<lambda>w. w\<lparr>el_commentsListOpen := False, el_suggestionsListOpen := False\<rparr>))
                      (\<lambda>w. if previewing w then endSuggestionPreview X w else (None, w)))
                    (w1\<lparr>el_activeThread := None\<rparr>)
              | No_Mode \<Rightarrow> (None, w1))"

definition maybeExitCommentsMode :: "('e, 't, 'p, 'm) element \<Rightarrow> ('e, 't, 'p, 'm) element" where
  "maybeExitCommentsMode w =
     (if el_mode w = Comments_Mode \<and> el_activeThread w = None
         \<and> \<not> el_commentsListOpen w \<and> \<not> el_suggestionsListOpen w
      then w\<lparr>el_mode := No_Mode\<rparr> else w)"

definition handleBlameToggle ::
  "('e, 't, 'p, 'm) element_env \<Rightarrow> bool \<Rightarrow> ('e, 't, 'p, 'm) handler" where
  "handleBlameToggle X active =
     seq (if active then activateFeatureMode X Blame_Mode else skip) (quiet (toggle_blame X active))"

section \<open>The active thread and its preview\<close>

definition startSuggestionPreview ::
  "('e, 't, 'p, 'm) element_env \<Rightarrow> comment_thread \<Rightarrow> suggestion \<Rightarrow> ('e, 't, 'p, 'm) handler" where
  "startSuggestionPreview X thread s w =
     (if \<not> el_attached w then (None, w)
      else case resolveAnchorById (ee_comments X) (el_engine w) (ct_id thread) of
             Inl err \<Rightarrow> (Some err, w)
           | Inr None \<Rightarrow> (None, w)
           | Inr (Some anchor) \<Rightarrow>
               seq (on_comments (setDecorationsMuted (ee_comments X) True))
                 (seq (quiet (on_host (co_setOutboundOpen (host_ops X) False)))
                   (seq (\<lambda>w. write_editor X
                           (snd (tryApplyTextSuggestion (text_ops X) (ee_editorText X (el_provider w))
                              (Some anchor) (sv_after_text (sg_human_readable s)))) w)
                     (quiet (\<lambda>w. (setReadonly True w)\<lparr>el_previewingThreadId := Some (ct_id thread)\<rparr>)))) w)"

definition preview_thread ::
  "('e, 't, 'p, 'm) element_env \<Rightarrow> comment_thread option \<Rightarrow> ('e, 't, 'p, 'm) handler" where
  "preview_thread X thread w =
     (case thread of
        None \<Rightarrow> (None, w)
      | Some t \<Rightarrow>
          (case ct_suggestion t of
             None \<Rightarrow> (None, w)
           | Some s \<Rightarrow>
               if sg_status s \<noteq> Pending then (None, w)
               else if el_previewingThreadId w = Some (ct_id t) then (None, w)
               else if el_mode w = Suggest_Mode \<and> el_attached w
                       \<and> hasPendingChanges (el_suggest w) (serialized X w) then (None, w)
               else startSuggestionPreview X t s w))"

definition setActiveCommentThread ::
  "('e, 't, 'p, 'm) element_env \<Rightarrow> comment_thread option \<Rightarrow> ('e, 't, 'p, 'm) handler" where
  "setActiveCommentThread X thread =
     seq (if thread \<noteq> None then activateFeatureMode X Comments_Mode else skip)
    (seq (\<lambda>w. if previewing w \<and> el_previewingThreadId w \<noteq> map_option ct_id thread
              then endSuggestionPreview X w else (None, w))
    (seq (quiet (\<lambda>w. w\<lparr>el_activeThread := thread\<rparr>))
    (seq (on_comments (setActiveThread (ee_comments X) (map_option ct_id thread)))
    (seq (quiet (if thread = None then maybeExitCommentsMode else (\<lambda>w. w)))
         (preview_thread X thread)))))"

text \<open>A click on an anchor, on an entry of the list of pending suggestions, on an entry of the list of
  resolved threads, and closing the panel.\<close>

definition handleThreadActivated ::
  "('e, 't, 'p, 'm) element_env \<Rightarrow> jsstring \<Rightarrow> ('e, 't, 'p, 'm) handler" where
  "handleThreadActivated X threadId w =
     (if threadId = [] \<or> \<not> el_attached w then (None, w)
      else case find_thread X threadId w of
             None \<Rightarrow> (None, w) | Some t \<Rightarrow> setActiveCommentThread X (Some t) w)"

definition handlePendingSuggestionActivate ::
  "('e, 't, 'p, 'm) element_env \<Rightarrow> jsstring \<Rightarrow> ('e, 't, 'p, 'm) handler" where
  "handlePendingSuggestionActivate X threadId w =
     (if \<not> el_attached w then (None, w)
      else case find_thread X threadId w of
             None \<Rightarrow> (None, w)
           | Some t \<Rightarrow> setActiveCommentThread X (Some t) (w\<lparr>el_suggestionsListOpen := False\<rparr>))"

definition handleResolvedThreadActivate ::
  "('e, 't, 'p, 'm) element_env \<Rightarrow> jsstring \<Rightarrow> ('e, 't, 'p, 'm) handler" where
  "handleResolvedThreadActivate X threadId w =
     (if \<not> el_attached w then (None, w)
      else case find_thread X threadId w of
             None \<Rightarrow> (None, w)
           | Some t \<Rightarrow> setActiveCommentThread X (Some t) (w\<lparr>el_commentsListOpen := False\<rparr>))"

definition handleCommentPanelClose :: "('e, 't, 'p, 'm) element_env \<Rightarrow> ('e, 't, 'p, 'm) handler" where
  "handleCommentPanelClose X = setActiveCommentThread X None"

section \<open>List panels\<close>

definition handleCommentsListToggle :: "('e, 't, 'p, 'm) element_env \<Rightarrow> ('e, 't, 'p, 'm) handler" where
  "handleCommentsListToggle X w =
     (let willOpen = \<not> el_commentsListOpen w
      in seq (if willOpen then activateFeatureMode X Comments_Mode else skip)
          (quiet (\<lambda>w. maybeExitCommentsMode
             (w\<lparr>el_commentsListOpen := willOpen,
                el_suggestionsListOpen := (if willOpen then False else el_suggestionsListOpen w)\<rparr>))) w)"

definition handleCommentsListClose :: "('e, 't, 'p, 'm) handler" where
  "handleCommentsListClose = quiet (\<lambda>w. maybeExitCommentsMode (w\<lparr>el_commentsListOpen := False\<rparr>))"

definition handleSuggestionsListToggle :: "('e, 't, 'p, 'm) element_env \<Rightarrow> ('e, 't, 'p, 'm) handler" where
  "handleSuggestionsListToggle X w =
     (let willOpen = \<not> el_suggestionsListOpen w
      in seq (if willOpen then activateFeatureMode X Comments_Mode else skip)
          (quiet (\<lambda>w. maybeExitCommentsMode
             (w\<lparr>el_suggestionsListOpen := willOpen,
                el_commentsListOpen := (if willOpen then False else el_commentsListOpen w)\<rparr>))) w)"

definition handleSuggestionsListClose :: "('e, 't, 'p, 'm) handler" where
  "handleSuggestionsListClose = quiet (\<lambda>w. maybeExitCommentsMode (w\<lparr>el_suggestionsListOpen := False\<rparr>))"

section \<open>Suggest Mode\<close>

text \<open>\<open>threadId\<close>, \<open>commentId\<close> and \<open>now\<close> are what the comment engine draws when it creates a thread. An
  exception of the body is logged.\<close>

definition commitPendingSuggestion ::
  "('e, 't, 'p, 'm) element_env \<Rightarrow> jsstring \<Rightarrow> jsstring \<Rightarrow> jsstring \<Rightarrow> jsstring option \<Rightarrow> ('e, 't, 'p, 'm) handler" where
  "commitPendingSuggestion X threadId commentId now note w =
     (let afterText = serialized X w
      in if \<not> el_attached w \<or> \<not> hasPendingChanges (el_suggest w) afterText then (None, w)
         else case suggest_commit (host_ops X) note afterText
                     (el_suggest w, el_provider w, el_text w, el_binding w) of
                (Inl _, _) \<Rightarrow> (None, w)
              | (Inr payload, st) \<Rightarrow>
                  swallow (seq (engine_op X (commitSuggestion (ee_comments X) threadId commentId now payload))
                                (quiet (\<lambda>w. w\<lparr>el_suggestPendingCount := 0\<rparr>)))
                    (on_suggest (\<lambda>_. st) w))"

text \<open>\<open>submit\<close> is the answer to the prompt.\<close>

definition handleSuggestToggle ::
  "('e, 't, 'p, 'm) element_env \<Rightarrow> jsstring \<Rightarrow> jsstring \<Rightarrow> jsstring \<Rightarrow> bool \<Rightarrow> bool \<Rightarrow> ('e, 't, 'p, 'm) handler" where
  "handleSuggestToggle X threadId commentId now submit active w =
     (if \<not> el_attached w then (None, w)
      else if active then
        seq (activateFeatureMode X Suggest_Mode)
          (quiet (\<lambda>w. let w1 = on_suggest (suggest_enable (host_ops X) (serialized X w)) w
                      in w1\<lparr>el_surface := setSuggestActive True (el_surface w1)\<rparr>)) w
      else
        seq (\<lambda>w. if hasPendingChanges (el_suggest w) (serialized X w) then
                    if submit then commitPendingSuggestion X threadId commentId now None w
                    else (None, on_suggest (suggest_discard (host_ops X)) w)
                  else (None, on_suggest (suggest_disable (host_ops X)) w))
          (quiet (\<lambda>w. w\<lparr>el_mode := No_Mode, el_suggestPendingCount := 0,
                        el_surface := setSuggestActive False (el_surface w)\<rparr>)) w)"

definition handleSuggestSubmit :: "('e, 't, 'p, 'm) element_env \<Rightarrow> ('e, 't, 'p, 'm) handler" where
  "handleSuggestSubmit X w =
     (None, if \<not> el_attached w \<or> \<not> hasPendingChanges (el_suggest w) (serialized X w) then w
            else w\<lparr>el_noteDraft := [], el_noteModalOpen := True\<rparr>)"

definition handleSuggestNoteConfirm ::
  "('e, 't, 'p, 'm) element_env \<Rightarrow> jsstring \<Rightarrow> jsstring \<Rightarrow> jsstring \<Rightarrow> ('e, 't, 'p, 'm) handler" where
  "handleSuggestNoteConfirm X threadId commentId now w =
     (let note = js_trim (el_noteDraft w)
      in seq (commitPendingSuggestion X threadId commentId now (if length note > 0 then Some note else None))
          (quiet (\<lambda>w. let w1 = w\<lparr>el_noteDraft := []\<rparr>
                      in if el_attached w1 \<and> el_mode w1 = Suggest_Mode
                         then on_suggest (suggest_enable (host_ops X) (serialized X w1)) w1 else w1))
          (w\<lparr>el_noteModalOpen := False\<rparr>))"

definition handleSuggestNoteCancel :: "('e, 't, 'p, 'm) handler" where
  "handleSuggestNoteCancel = quiet (\<lambda>w. w\<lparr>el_noteModalOpen := False, el_noteDraft := []\<rparr>)"

definition handleSuggestDiscard :: "('e, 't, 'p, 'm) element_env \<Rightarrow> ('e, 't, 'p, 'm) handler" where
  "handleSuggestDiscard X w =
     (None, if \<not> el_attached w then w
            else let w1 = on_suggest (suggest_discard (host_ops X)) w
                 in (on_suggest (suggest_enable (host_ops X) (serialized X w1)) w1)\<lparr>el_suggestPendingCount := 0\<rparr>)"

text \<open>The part of the content-change callback that counts drafts.\<close>

definition on_content_change :: "('e, 't, 'p, 'm) element_env \<Rightarrow> ('e, 't, 'p, 'm) handler" where
  "on_content_change X w =
     (None, if previewing w \<or> \<not> el_attached w \<or> \<not> se_enabled (el_suggest w) then w
            else w\<lparr>el_suggestPendingCount :=
                   (if hasPendingChanges (el_suggest w) (serialized X w) then 1 else 0)\<rparr>)"

section \<open>Comments\<close>

text \<open>\<open>readSelectionRange\<close> reads the selection from the page; \<open>sel\<close> is its answer.\<close>

definition handleCommentAdd ::
  "('e, 't, 'p, 'm) element_env \<Rightarrow> (int \<times> int) option \<Rightarrow> ('e, 't, 'p, 'm) handler" where
  "handleCommentAdd X sel w =
     (if \<not> el_attached w then (None, w)
      else case sel of
             None \<Rightarrow> (None, w)
           | Some (start, stop) \<Rightarrow>
               (case createAnchor (en_text (ee_comments X)) (ce_text (el_engine w)) start stop of
                  (anchor, startRel, endRel) \<Rightarrow>
                    setActiveCommentThread X None
                      (w\<lparr>el_draftAnchor := Some \<lparr>da_from = start, da_to = stop,
                           da_quoted_text = ca_quoted_text anchor, da_startRel = startRel,
                           da_endRel = endRel\<rparr>\<rparr>)))"

text \<open>The stored relative positions are resolved against the shared text; a lost one falls back to
  the captured offset.\<close>

definition draft_range ::
  "('e, 't, 'p, 'm) element_env \<Rightarrow> draft_anchor \<Rightarrow> ('e, 't, 'p, 'm) element \<Rightarrow> jsstring + int \<times> int" where
  "draft_range X d w =
     (let T = en_text (ee_comments X); t = ce_text (el_engine w)
      in bind_res (tx_resolveRelative T t (da_startRel d)) (\<lambda>a.
         bind_res (tx_resolveRelative T t (da_endRel d)) (\<lambda>b.
           Inr (case a of None \<Rightarrow> da_from d | Some i \<Rightarrow> int i,
                case b of None \<Rightarrow> da_to d | Some i \<Rightarrow> int i))))"

definition handleCommentDraftSubmit ::
  "('e, 't, 'p, 'm) element_env \<Rightarrow> jsstring \<Rightarrow> jsstring \<Rightarrow> jsstring \<Rightarrow> jsstring \<Rightarrow> ('e, 't, 'p, 'm) handler" where
  "handleCommentDraftSubmit X threadId commentId now content w =
     (case el_draftAnchor w of
        None \<Rightarrow> (None, w)
      | Some d \<Rightarrow>
          if \<not> el_attached w \<or> js_trim content = [] then (None, w)
          else case draft_range X d w of
                 Inl err \<Rightarrow> (Some err, w)
               | Inr (start, stop) \<Rightarrow>
                   (case createAnchor (en_text (ee_comments X)) (ce_text (el_engine w)) start stop of
                      (anchor, startRel, endRel) \<Rightarrow>
                        seq (engine_op X (createThread (ee_comments X) threadId commentId now anchor
                               startRel endRel (Some (js_trim content)) None))
                          (seq (quiet (\<lambda>w. w\<lparr>el_draftAnchor := None\<rparr>))
                            (\<lambda>w. case find_thread X threadId w of
                                   None \<Rightarrow> (None, w)
                                 | Some t \<Rightarrow> setActiveCommentThread X (Some t) w)) w))"

definition handleCommentDraftCancel :: "('e, 't, 'p, 'm) handler" where
  "handleCommentDraftCancel = quiet (\<lambda>w. w\<lparr>el_draftAnchor := None\<rparr>)"

definition handleCommentReply ::
  "('e, 't, 'p, 'm) element_env \<Rightarrow> jsstring \<Rightarrow> jsstring \<Rightarrow> jsstring \<Rightarrow> jsstring \<Rightarrow> ('e, 't, 'p, 'm) handler" where
  "handleCommentReply X commentId now threadId content =
     engine_op X (\<lambda>e. bind_res (addReply (ee_comments X) commentId now threadId content e) (\<lambda>(_, e'). Inr e'))"

definition close_if_active ::
  "('e, 't, 'p, 'm) element_env \<Rightarrow> jsstring \<Rightarrow> ('e, 't, 'p, 'm) handler" where
  "close_if_active X threadId w =
     (if map_option ct_id (el_activeThread w) = Some threadId
      then setActiveCommentThread X None w else (None, w))"

definition handleCommentThreadResolve ::
  "('e, 't, 'p, 'm) element_env \<Rightarrow> jsstring \<Rightarrow> jsstring \<Rightarrow> ('e, 't, 'p, 'm) handler" where
  "handleCommentThreadResolve X now threadId =
     seq (engine_op X (\<lambda>e. Inr (resolveThread (ee_comments X) now threadId e))) (close_if_active X threadId)"

definition handleCommentThreadReopen ::
  "('e, 't, 'p, 'm) element_env \<Rightarrow> jsstring \<Rightarrow> ('e, 't, 'p, 'm) handler" where
  "handleCommentThreadReopen X threadId =
     engine_op X (\<lambda>e. Inr (reopenThread (ee_comments X) threadId e))"

definition handleCommentThreadDelete ::
  "('e, 't, 'p, 'm) element_env \<Rightarrow> jsstring \<Rightarrow> ('e, 't, 'p, 'm) handler" where
  "handleCommentThreadDelete X threadId =
     seq (engine_op X (\<lambda>e. Inr (deleteThread (ee_comments X) threadId e))) (close_if_active X threadId)"

section \<open>Decisions on a suggestion\<close>

definition decide ::
  "('e, 't, 'p, 'm) element_env \<Rightarrow> jsstring \<Rightarrow> jsstring \<Rightarrow> suggestion_status \<Rightarrow> ('e, 't, 'p, 'm) handler" where
  "decide X now threadId decision =
     engine_op X (\<lambda>e. Inr (decideSuggestion (ee_comments X) now threadId decision None e))"

text \<open>The body of the \<open>try\<close> block of the accept handler; between the decision and the rebase it lets
  queued micro-tasks run.\<close>

definition apply_accepted ::
  "('e, 't, 'p, 'm) element_env \<Rightarrow> jsstring \<Rightarrow> suggestion \<Rightarrow> ('e, 't, 'p, 'm) handler" where
  "apply_accepted X threadId s w =
     (case resolveAnchorById (ee_comments X) (el_engine w) threadId of
        Inl err \<Rightarrow> (Some err, w)
      | Inr anchor \<Rightarrow>
          (case tryApplyTextSuggestion (text_ops X) (ee_syncText X (el_provider w)) anchor
                  (sv_after_text (sg_human_readable s)) of
             (applied, t) \<Rightarrow>
               if applied then write_sync X t w
               else case sg_yjs_payload s of
                      Some (c # cs) \<Rightarrow>
                        (case ee_applyPayload X (c # cs) (el_provider w) of
                           Inl err \<Rightarrow> (Some err, w) | Inr p \<Rightarrow> provider_moves X p w)
                    | _ \<Rightarrow> (None, w)))"

definition handleCommentSuggestionAccept ::
  "('e, 't, 'p, 'm) element_env \<Rightarrow> jsstring \<Rightarrow> jsstring \<Rightarrow> ('e, 't, 'p, 'm) handler" where
  "handleCommentSuggestionAccept X now threadId w =
     (if \<not> el_attached w then (None, w)
      else case find_thread X threadId w of
             None \<Rightarrow> (None, w)
           | Some t \<Rightarrow>
               (case ct_suggestion t of
                  None \<Rightarrow> (None, w)
                | Some s \<Rightarrow>
                    seq (setActiveCommentThread X None)
                      (try_catch
                        (seq (apply_accepted X threadId s)
                          (seq (decide X now threadId Accepted)
                            (quiet (\<lambda>w. if el_mode w = Suggest_Mode
                               then w\<lparr>el_suggest := suggest_rebase (serialized X w) (el_suggest w)\<rparr> else w))))
                        (decide X now threadId Not_Applicable)) w))"

definition handleCommentSuggestionReject ::
  "('e, 't, 'p, 'm) element_env \<Rightarrow> jsstring \<Rightarrow> jsstring \<Rightarrow> ('e, 't, 'p, 'm) handler" where
  "handleCommentSuggestionReject X now threadId =
     seq (decide X now threadId suggestion_status.Rejected) (setActiveCommentThread X None)"

definition handleCommentSuggestionDismiss ::
  "('e, 't, 'p, 'm) element_env \<Rightarrow> jsstring \<Rightarrow> jsstring \<Rightarrow> ('e, 't, 'p, 'm) handler" where
  "handleCommentSuggestionDismiss X now threadId =
     seq (decide X now threadId Not_Applicable) (setActiveCommentThread X None)"

section \<open>Events\<close>

text \<open>Beside the user's clicks: the host sets the \<open>readonly\<close> attribute, the user types in an editor
  that is not read-only, the shared text changes, and threads change at a peer or by polling.\<close>

definition updated_readonly :: "bool \<Rightarrow> ('e, 't, 'p, 'm) handler" where
  "updated_readonly r = quiet (\<lambda>w. setReadonly r (w\<lparr>el_readonly := r\<rparr>))"

definition user_types :: "('e, 't, 'p, 'm) element_env \<Rightarrow> 't \<Rightarrow> ('e, 't, 'p, 'm) handler" where
  "user_types X t w =
     (if all_readonly True (el_binding w) then (None, w)
      else seq (write_editor X t) (on_content_change X) w)"

definition peer_text :: "('e, 't, 'p, 'm) element_env \<Rightarrow> 't \<Rightarrow> ('e, 't, 'p, 'm) handler" where
  "peer_text X t = seq (write_sync X t) (on_content_change X)"

definition peer_threads ::
  "('e, 't, 'p, 'm) element_env \<Rightarrow> bool \<Rightarrow> jsstring list \<Rightarrow> 'm \<Rightarrow> ('e, 't, 'p, 'm) handler" where
  "peer_threads X polled keys m w =
     (if \<not> el_attached w then (None, w)
      else engine_becomes X (observe_map (ee_comments X) polled keys ((el_engine w)\<lparr>ce_map := m\<rparr>)) w)"

datatype ('t, 'm) feature_event =
    Blame_Toggle bool
  | Thread_Activated jsstring | Pending_Activated jsstring | Resolved_Activated jsstring | Panel_Close
  | Comments_List_Toggle | Comments_List_Close | Suggestions_List_Toggle | Suggestions_List_Close
  | Suggest_Toggle jsstring jsstring jsstring bool bool
  | Suggest_Submit | Note_Typed jsstring | Note_Confirm jsstring jsstring jsstring | Note_Cancel | Suggest_Discard
  | Comment_Add "(int \<times> int) option" | Draft_Submit jsstring jsstring jsstring jsstring | Draft_Cancel
  | Reply jsstring jsstring jsstring jsstring | Resolve jsstring jsstring | Reopen jsstring | Delete jsstring
  | Accept jsstring jsstring | Reject jsstring jsstring | Dismiss jsstring jsstring
  | Readonly_Set bool | Types 't | Peer_Text 't | Peer_Threads bool "jsstring list" 'm

fun feature_step ::
  "('e, 't, 'p, 'm) element_env \<Rightarrow> ('t, 'm) feature_event \<Rightarrow> ('e, 't, 'p, 'm) handler" where
  "feature_step X (Blame_Toggle a) = handleBlameToggle X a"
| "feature_step X (Thread_Activated i) = handleThreadActivated X i"
| "feature_step X (Pending_Activated i) = handlePendingSuggestionActivate X i"
| "feature_step X (Resolved_Activated i) = handleResolvedThreadActivate X i"
| "feature_step X Panel_Close = handleCommentPanelClose X"
| "feature_step X Comments_List_Toggle = handleCommentsListToggle X"
| "feature_step X Comments_List_Close = handleCommentsListClose"
| "feature_step X Suggestions_List_Toggle = handleSuggestionsListToggle X"
| "feature_step X Suggestions_List_Close = handleSuggestionsListClose"
| "feature_step X (Suggest_Toggle i c n s a) = handleSuggestToggle X i c n s a"
| "feature_step X Suggest_Submit = handleSuggestSubmit X"
| "feature_step X (Note_Typed s) = quiet (\<lambda>w. w\<lparr>el_noteDraft := s\<rparr>)"
| "feature_step X (Note_Confirm i c n) = handleSuggestNoteConfirm X i c n"
| "feature_step X Note_Cancel = handleSuggestNoteCancel"
| "feature_step X Suggest_Discard = handleSuggestDiscard X"
| "feature_step X (Comment_Add r) = handleCommentAdd X r"
| "feature_step X (Draft_Submit i c n s) = handleCommentDraftSubmit X i c n s"
| "feature_step X Draft_Cancel = handleCommentDraftCancel"
| "feature_step X (Reply c n i s) = handleCommentReply X c n i s"
| "feature_step X (Resolve n i) = handleCommentThreadResolve X n i"
| "feature_step X (Reopen i) = handleCommentThreadReopen X i"
| "feature_step X (Delete i) = handleCommentThreadDelete X i"
| "feature_step X (Accept n i) = handleCommentSuggestionAccept X n i"
| "feature_step X (Reject n i) = handleCommentSuggestionReject X n i"
| "feature_step X (Dismiss n i) = handleCommentSuggestionDismiss X n i"
| "feature_step X (Readonly_Set r) = updated_readonly r"
| "feature_step X (Types t) = user_types X t"
| "feature_step X (Peer_Text t) = peer_text X t"
| "feature_step X (Peer_Threads q ks m) = peer_threads X q ks m"

end
