(* ===== verification/Feature_Session.thy ===== *)
theory Feature_Session
  imports Feature_Mode
begin

text \<open>
  The invariant of the feature modes and what the handlers of \<open>Feature_Mode\<close> do to the shared text
  and to the editor. The contract of the provider is the locale \<open>review_provider\<close>, which extends
  the contract of Suggest Mode; it is interpreted on the provider of \<open>Collab_Provider\<close>.
\<close>

section \<open>Frames\<close>

text \<open>What the actions of the comment coordinator keep: the read-only flags and the muting.\<close>

definition surf_ok :: "bool \<Rightarrow> bool \<Rightarrow> ('t, 'm, 'e, 's) comment_surface \<Rightarrow> bool" where
  "surf_ok r m s \<longleftrightarrow> all_readonly r (cs_binding s) \<and> cx_decorationsMuted (cs_co s) = m"

lemma readonly_updateComments: "all_readonly r b \<Longrightarrow> all_readonly r (eb_updateComments c b)"
  unfolding eb_updateComments_def
  by (intro readonly_update_wysiwyg readonly_update_source)
    (simp_all add: we_updateComments_def se_updateComments_def Let_def)

lemma push_readonly:
  "pushDecorations E s = (x, s') \<Longrightarrow> all_readonly r (cs_binding s) \<Longrightarrow> all_readonly r (cs_binding s')"
  by (auto simp: pushDecorations_def Let_def readonly_updateComments split: if_splits sum.splits)

lemma coordinator_ok:
  "setActiveThread E i s = (x, s') \<Longrightarrow> surf_ok r m s \<Longrightarrow> surf_ok r m s'"
  "on_threads E s = (x, s') \<Longrightarrow> surf_ok r m s \<Longrightarrow> surf_ok r m s'"
  "on_text_change E s = (x, s') \<Longrightarrow> surf_ok r m s \<Longrightarrow> surf_ok r m s'"
  "setDecorationsMuted E n s = (x, s') \<Longrightarrow> surf_ok r m s \<Longrightarrow> surf_ok r n s'"
  by (auto simp: setActiveThread_def on_threads_def on_text_change_def setDecorationsMuted_def surf_ok_def
      split: if_splits dest: push_fields intro: push_readonly)

lemma getThreads_cong:
  "ce_map e = ce_map e' \<Longrightarrow> ce_documentId e = ce_documentId e' \<Longrightarrow> getThreads E e = getThreads E e'"
  by (simp add: getThreads_def)

lemma coordinator_engine:
  "setActiveThread E i s = (x, s') \<Longrightarrow> cs_engine s' = cs_engine s"
  "on_threads E s = (x, s') \<Longrightarrow> cs_engine s' = cs_engine s"
  "on_text_change E s = (x, s') \<Longrightarrow> cs_engine s' = cs_engine s"
  "setDecorationsMuted E n s = (x, s') \<Longrightarrow> cs_engine s' = cs_engine s"
  by (auto simp: setActiveThread_def on_threads_def on_text_change_def setDecorationsMuted_def
      split: if_splits dest: push_fields)

lemma setSuggestActive_frame [simp]:
  "surf_ok r m (setSuggestActive v s) = surf_ok r m s" "cs_engine (setSuggestActive v s) = cs_engine s"
  by (simp_all add: setSuggestActive_def surf_ok_def)

lemma on_comments_split:
  "on_comments a w = (x, w') \<longleftrightarrow> (\<exists>s. a (el_surface w) = (x, s) \<and> w' = w\<lparr>el_surface := s\<rparr>)"
  by (auto simp: on_comments_def split: prod.splits)

lemma seq_steps:
  "seq a (seq b (seq (quiet f) (seq c (seq (quiet g) d)))) w = (None, w') \<longleftrightarrow>
   (\<exists>w1 w2. seq a b w = (None, w1) \<and> c (f w1) = (None, w2) \<and> d (g w2) = (None, w'))"
  by (auto simp: seq_normal)

text \<open>The part of the state that decides which mode the element is in.\<close>

definition ctl :: "('e, 't, 'p, 'm) element \<Rightarrow>
    feature_mode \<times> jsstring option \<times> bool \<times> bool \<times> jsstring option \<times> bool \<times> bool" where
  "ctl w = (el_mode w, map_option ct_id (el_activeThread w), el_commentsListOpen w, el_suggestionsListOpen w,
     el_previewingThreadId w, se_enabled (el_suggest w), el_readonly w)"

text \<open>The gate is closed exactly while drafting or previewing; while previewing, the editors are
  read-only and the decorations muted, otherwise they follow the attribute.\<close>

definition gate_ok ::
  "('e, 't, 'p, 'm) element_env \<Rightarrow> ('p \<Rightarrow> bool) \<Rightarrow> ('e, 't, 'p, 'm) element \<Rightarrow> bool" where
  "gate_ok X I w \<longleftrightarrow>
     el_attached w \<and> I (el_provider w) \<and> \<not> se_destroyed (el_suggest w)
     \<and> el_previewingThreadId w \<noteq> Some []
     \<and> (el_previewingThreadId w \<noteq> None \<longrightarrow> \<not> se_enabled (el_suggest w))
     \<and> co_outboundOpen (ee_collab X) (el_provider w) =
         (\<not> se_enabled (el_suggest w) \<and> el_previewingThreadId w = None)
     \<and> surf_ok (el_previewingThreadId w \<noteq> None \<or> el_readonly w) (el_previewingThreadId w \<noteq> None) (el_surface w)"

text \<open>The suggest engine is on exactly in Suggest Mode, a preview belongs to the open thread, and the
  panels are open only in the comments mode; \<open>mode_ok\<close>: the comments mode ends with its last panel.\<close>

definition panels_ok :: "('e, 't, 'p, 'm) element \<Rightarrow> bool" where
  "panels_ok w \<longleftrightarrow>
     (se_enabled (el_suggest w) \<longleftrightarrow> el_mode w = Suggest_Mode)
     \<and> (\<forall>i. el_previewingThreadId w = Some i \<longrightarrow>
          el_mode w = Comments_Mode \<and> map_option ct_id (el_activeThread w) = Some i)
     \<and> (el_activeThread w \<noteq> None \<or> el_commentsListOpen w \<or> el_suggestionsListOpen w \<longrightarrow>
          el_mode w = Comments_Mode)"

definition mode_ok :: "('e, 't, 'p, 'm) element \<Rightarrow> bool" where
  "mode_ok w \<longleftrightarrow> panels_ok w \<and> (el_mode w = Comments_Mode \<longrightarrow>
     el_activeThread w \<noteq> None \<or> el_commentsListOpen w \<or> el_suggestionsListOpen w)"

lemma gate_ok_inert [simp]:
  "gate_ok X I (w\<lparr>el_suggestPendingCount := k\<rparr>) = gate_ok X I w"
  "gate_ok X I (w\<lparr>el_noteDraft := s\<rparr>) = gate_ok X I w"
  "gate_ok X I (w\<lparr>el_noteModalOpen := b\<rparr>) = gate_ok X I w"
  "gate_ok X I (w\<lparr>el_draftAnchor := d\<rparr>) = gate_ok X I w"
  "gate_ok X I (w\<lparr>el_mode := m\<rparr>) = gate_ok X I w"
  "gate_ok X I (w\<lparr>el_activeThread := a\<rparr>) = gate_ok X I w"
  "gate_ok X I (w\<lparr>el_commentsListOpen := b\<rparr>) = gate_ok X I w"
  "gate_ok X I (w\<lparr>el_suggestionsListOpen := b\<rparr>) = gate_ok X I w"
  "gate_ok X I (w\<lparr>el_surface := setSuggestActive b (el_surface w)\<rparr>) = gate_ok X I w"
  by (simp_all add: gate_ok_def)

lemma ctl_inert [simp]:
  "ctl (w\<lparr>el_suggestPendingCount := k\<rparr>) = ctl w" "ctl (w\<lparr>el_noteDraft := s\<rparr>) = ctl w"
  "ctl (w\<lparr>el_noteModalOpen := b\<rparr>) = ctl w" "ctl (w\<lparr>el_draftAnchor := d\<rparr>) = ctl w"
  "ctl (w\<lparr>el_surface := f\<rparr>) = ctl w"
  by (simp_all add: ctl_def)

lemma mode_ok_ctl: "ctl w' = ctl w \<Longrightarrow> mode_ok w' = mode_ok w"
proof -
  assume c: "ctl w' = ctl w"
  then have i: "map_option ct_id (el_activeThread w') = map_option ct_id (el_activeThread w)"
    by (simp add: ctl_def)
  then have "el_activeThread w' = None \<longleftrightarrow> el_activeThread w = None"
    by (cases "el_activeThread w'"; cases "el_activeThread w") simp_all
  with c show ?thesis unfolding mode_ok_def panels_ok_def i by (simp add: ctl_def del: not_None_eq map_option_eq_Some)
qed

text \<open>A mode has been entered from another one: nothing of the other modes is left.\<close>

definition entered :: "feature_mode \<Rightarrow> ('e, 't, 'p, 'm) element \<Rightarrow> bool" where
  "entered m w \<longleftrightarrow> el_mode w = m \<and> el_previewingThreadId w = None \<and> el_activeThread w = None
     \<and> \<not> el_commentsListOpen w \<and> \<not> el_suggestionsListOpen w \<and> (se_enabled (el_suggest w) \<longrightarrow> m = Suggest_Mode)"

text \<open>The open thread is among the threads of engine \<open>e\<close>.\<close>

definition thread_kept ::
  "('e, 't, 'p, 'm) element_env \<Rightarrow> ('e, 't, 'p, 'm) element \<Rightarrow> ('t, 'm) engine \<Rightarrow> bool" where
  "thread_kept X w e \<longleftrightarrow> (\<forall>a. el_activeThread w = Some a \<longrightarrow>
     List.find (\<lambda>t. ct_id t = ct_id a) (getThreads (ee_comments X) e) \<noteq> None)"

lemma find_thread_id: "List.find (\<lambda>t. ct_id t = i) ts = Some t \<Longrightarrow> ct_id t = i"
  by (auto simp: find_Some_iff)

lemma on_comments_ok:
  assumes "on_comments a w = (x, w')" "gate_ok X I w"
    and "\<And>r m s x s'. a s = (x, s') \<Longrightarrow> surf_ok r m s \<Longrightarrow> surf_ok r m s'"
  shows "gate_ok X I w' \<and> ctl w' = ctl w"
  using assms by (auto simp: on_comments_split gate_ok_def ctl_def)

text \<open>The calls of the suggest engine and the reset of the editor document, on the element.\<close>

lemma suggest_enable_eq:
  "on_suggest (suggest_enable (host_ops X) s) w =
     (if se_destroyed (el_suggest w) \<or> se_enabled (el_suggest w) then w
      else w\<lparr>el_suggest := (el_suggest w)\<lparr>se_textAtEnable := s, se_enabled := True\<rparr>,
             el_provider := co_setOutboundOpen (ee_collab X) False (el_provider w)\<rparr>)"
  by (auto simp: on_suggest_def suggest_enable_def host_ops_def set_binding_def Let_def)

lemma suggest_disable_eq:
  "on_suggest (suggest_disable (host_ops X)) w =
     (if \<not> se_enabled (el_suggest w) then w
      else w\<lparr>el_suggest := (el_suggest w)\<lparr>se_enabled := False, se_textAtEnable := []\<rparr>,
             el_provider := co_setOutboundOpen (ee_collab X) True (el_provider w)\<rparr>)"
  by (auto simp: on_suggest_def suggest_disable_def host_ops_def set_binding_def Let_def)

lemma suggest_discard_eq:
  "on_suggest (suggest_discard (host_ops X)) w =
     (if \<not> se_enabled (el_suggest w) then w
      else on_suggest (suggest_disable (host_ops X)) (on_host (host_reset X) w))"
  by (auto simp: on_suggest_def on_host_def suggest_discard_def host_ops_def set_binding_def Let_def
      split: prod.splits)

lemma set_outbound_eq:
  "on_host (co_setOutboundOpen (host_ops X) v) w =
     w\<lparr>el_provider := co_setOutboundOpen (ee_collab X) v (el_provider w)\<rparr>"
  by (simp add: on_host_def host_ops_def set_binding_def)

lemma host_reset_frame:
  fixes w :: "('e, 't, 'p, 'm) element" and X :: "('e, 't, 'p, 'm) element_env"
  defines "w' \<equiv> on_host (host_reset X) w"
  shows "ctl w' = ctl w" "el_suggest w' = el_suggest w" "el_attached w' = el_attached w"
    "el_provider w' = co_resetEditorDoc (ee_collab X) (el_provider w)"
    "surf_ok r m (el_surface w) \<Longrightarrow> surf_ok r m (el_surface w')"
    "cs_engine (el_surface w') = cs_engine (el_surface w)"
    "cs_co (el_surface w') = cs_co (el_surface w)"
    "el_mode w' = el_mode w" "el_readonly w' = el_readonly w" "el_activeThread w' = el_activeThread w"
    "el_previewingThreadId w' = el_previewingThreadId w"
  by (auto simp: w'_def on_host_def host_reset_def set_binding_def Let_def ctl_def surf_ok_def
      readonly_rebind)

lemma setReadonly_frame:
  "surf_ok r' m (el_surface w) \<Longrightarrow> surf_ok r m (el_surface (setReadonly r w))"
  "ctl (setReadonly r w) = ctl w" "el_suggest (setReadonly r w) = el_suggest w"
  "el_attached (setReadonly r w) = el_attached w" "el_provider (setReadonly r w) = el_provider w"
  "cs_engine (el_surface (setReadonly r w)) = cs_engine (el_surface w)"
  "el_previewingThreadId (setReadonly r w) = el_previewingThreadId w"
  "el_readonly (setReadonly r w) = el_readonly w" "el_activeThread (setReadonly r w) = el_activeThread w"
  by (simp_all add: setReadonly_def set_binding_def surf_ok_def ctl_def readonly_setReadonly)

lemma toggle_blame_frame:
  fixes w :: "('e, 't, 'p, 'm) element" and X :: "('e, 't, 'p, 'm) element_env" and active :: bool
  defines "w' \<equiv> toggle_blame X active w"
  shows "el_mode w' = (if bg_liveBlameEnabled (bl_config (el_blame w)) = Some False then el_mode w
      else on_active_change active (el_mode w))"
    "surf_ok r m (el_surface w) \<Longrightarrow> surf_ok r m (el_surface w')"
    "w' = w\<lparr>el_mode := el_mode w', el_blame := el_blame w', el_surface := (el_surface w)\<lparr>cs_binding := el_binding w'\<rparr>\<rparr>"
  by (auto simp: w'_def toggle_blame_def blame_toggle_def startBlame_def stopBlame_def on_binding_def
      set_binding_def surf_ok_def readonly_blame Let_def split: prod.splits option.splits if_splits)

definition framed :: "('e, 't, 'p, 'm) element \<Rightarrow> ('e, 't, 'p, 'm) element \<Rightarrow> bool" where
  "framed w w' \<longleftrightarrow>
     ctl w' = ctl w \<and> el_activeThread w' = el_activeThread w \<and> el_suggest w' = el_suggest w
     \<and> el_attached w' = el_attached w \<and> ce_map (el_engine w') = ce_map (el_engine w) \<and> ce_documentId (el_engine w') = ce_documentId (el_engine w)
     \<and> (\<forall>r m. surf_ok r m (el_surface w) \<longrightarrow> surf_ok r m (el_surface w'))"

lemma framed_refl [simp]: "framed w w"
  by (simp add: framed_def)

lemma framed_gate:
  "gate_ok X I w \<Longrightarrow> framed w w' \<Longrightarrow> I (el_provider w') \<Longrightarrow>
   co_outboundOpen (ee_collab X) (el_provider w') = co_outboundOpen (ee_collab X) (el_provider w) \<Longrightarrow>
   gate_ok X I w'"
  by (simp add: framed_def gate_ok_def ctl_def)

lemma moves_frame:
  assumes "provider_moves X p w = (x, w')"
  shows "framed w w' \<and> el_provider w' = p"
proof -
  have "surf_ok r m (el_surface w) \<Longrightarrow> surf_ok r m (el_surface w')" for r m
    using assms
    by (auto simp: provider_moves_def Let_def on_comments_split set_binding_def
        split: if_splits elim!: coordinator_ok(3)) (auto simp: surf_ok_def readonly_shared_change)
  then show ?thesis using assms unfolding framed_def
    by (auto simp: provider_moves_def Let_def on_comments_split set_binding_def ctl_def split: if_splits
        dest: coordinator_engine(3))
qed

lemmas element_frames = suggest_enable_eq suggest_disable_eq suggest_discard_eq set_outbound_eq
  host_reset_frame setReadonly_frame

lemma pending_builds:
  "hasPendingChanges (el_suggest w) (serialized X w) \<Longrightarrow>
   \<exists>payload. buildSuggestion (el_suggest w) note (serialized X w) = Inr payload"
  by (simp add: buildSuggestion_def hasPendingChanges_def Let_def split: if_splits)

text \<open>Committing resets the editor as discarding does.\<close>

lemma commit_split:
  "commitPendingSuggestion X i c n note w =
     (if \<not> el_attached w \<or> \<not> hasPendingChanges (el_suggest w) (serialized X w) then (None, w)
      else case buildSuggestion (el_suggest w) note (serialized X w) of
             Inl _ \<Rightarrow> (None, w)
           | Inr payload \<Rightarrow>
               swallow (seq (engine_op X (commitSuggestion (ee_comments X) i c n payload))
                             (quiet (\<lambda>w. w\<lparr>el_suggestPendingCount := 0\<rparr>)))
                 (on_suggest (suggest_discard (host_ops X)) w))"
proof (cases "buildSuggestion (el_suggest w) note (serialized X w)")
  case (Inr payload)
  then have "se_enabled (el_suggest w)" by (rule buildSuggestion_enabled)
  then have "on_suggest (suggest_discard (host_ops X)) w =
      on_suggest (\<lambda>_. suggest_disable (host_ops X) (el_suggest w, co_resetEditorDoc (host_ops X)
        (el_provider w, el_text w, el_binding w))) w"
    by (simp add: on_suggest_def suggest_discard_def)
  then show ?thesis using Inr by (simp add: commitPendingSuggestion_def suggest_commit_def Let_def)
qed (simp add: commitPendingSuggestion_def suggest_commit_def Let_def)

section \<open>What the element relies on\<close>

locale review_provider = collab_provider "ee_collab X" inv
  for X :: "('e, 't, 'p, 'm) element_env" and inv :: "'p \<Rightarrow> bool" +
  assumes reset_open: "inv p \<Longrightarrow> co_outboundOpen (ee_collab X) (co_resetEditorDoc (ee_collab X) p)"
    and inv_writes: "inv p \<Longrightarrow> inv (ee_writeEditor X t p)" "inv p \<Longrightarrow> inv (ee_writeSync X t p)"
      "inv p \<Longrightarrow> ee_applyPayload X s p = Inr p' \<Longrightarrow> inv p'"
    and outbound_writes:
      "inv p \<Longrightarrow> co_outboundOpen (ee_collab X) (ee_writeEditor X t p) = co_outboundOpen (ee_collab X) p"
      "inv p \<Longrightarrow> co_outboundOpen (ee_collab X) (ee_writeSync X t p) = co_outboundOpen (ee_collab X) p"
      "inv p \<Longrightarrow> ee_applyPayload X s p = Inr p' \<Longrightarrow>
         co_outboundOpen (ee_collab X) p' = co_outboundOpen (ee_collab X) p"
    and texts_shown:
      "inv p \<Longrightarrow> yt_toString (text_ops X) (ee_editorText X p) = co_editorText (ee_collab X) p"
      "inv p \<Longrightarrow> yt_toString (text_ops X) (ee_syncText X p) = co_syncText (ee_collab X) p"
    and write_editor_shown:
      "inv p \<Longrightarrow> co_editorText (ee_collab X) (ee_writeEditor X t p) = yt_toString (text_ops X) t"
    and write_editor_gated:
      "inv p \<Longrightarrow> \<not> co_outboundOpen (ee_collab X) p \<Longrightarrow>
         co_syncText (ee_collab X) (ee_writeEditor X t p) = co_syncText (ee_collab X) p"
    and write_sync_shown:
      "inv p \<Longrightarrow> co_syncText (ee_collab X) (ee_writeSync X t p) = yt_toString (text_ops X) t"
    and threads_map: "inv p \<Longrightarrow> ymap_laws (en_map (ee_comments X))"
    and write_sync_replicated:
      "inv p \<Longrightarrow> co_editorText (ee_collab X) (ee_writeSync X t (co_resetEditorDoc (ee_collab X) p)) =
         yt_toString (text_ops X) t"
begin

sublocale host: collab_provider "host_ops X" "\<lambda>h. inv (fst h)"
  by unfold_locales
    (auto simp: host_ops_def host_reset_def Let_def provider_simps split: prod.splits)

lemma write_editor_frame:
  assumes "write_editor X t w = (x, w')" "inv (el_provider w)"
  shows "framed w w' \<and> inv (el_provider w')
    \<and> co_outboundOpen (ee_collab X) (el_provider w') = co_outboundOpen (ee_collab X) (el_provider w)
    \<and> co_editorText (ee_collab X) (el_provider w') = yt_toString (text_ops X) t
    \<and> (\<not> co_outboundOpen (ee_collab X) (el_provider w) \<longrightarrow>
        co_syncText (ee_collab X) (el_provider w') = co_syncText (ee_collab X) (el_provider w))"
proof (cases "t = ee_editorText X (el_provider w)")
  case True
  then show ?thesis using assms by (simp add: write_editor_def texts_shown)
next
  case False
  then have "provider_moves X (ee_writeEditor X t (el_provider w)) w = (x, w')"
    using assms(1) by (simp add: write_editor_def)
  from moves_frame [OF this] assms(2) show ?thesis
    by (simp add: inv_writes outbound_writes write_editor_shown write_editor_gated)
qed

lemma write_sync_frame:
  assumes "write_sync X t w = (x, w')" "inv (el_provider w)"
  shows "framed w w' \<and> inv (el_provider w')
    \<and> co_outboundOpen (ee_collab X) (el_provider w') = co_outboundOpen (ee_collab X) (el_provider w)
    \<and> co_syncText (ee_collab X) (el_provider w') = yt_toString (text_ops X) t"
proof (cases "t = ee_syncText X (el_provider w)")
  case True
  then show ?thesis using assms by (simp add: write_sync_def texts_shown)
next
  case False
  then have "provider_moves X (ee_writeSync X t (el_provider w)) w = (x, w')"
    using assms(1) by (simp add: write_sync_def)
  from moves_frame [OF this] assms(2) show ?thesis
    by (simp add: inv_writes outbound_writes write_sync_shown)
qed

lemma end_preview_ok:
  assumes "endSuggestionPreview X w = (x, w')" "gate_ok X inv w" "el_previewingThreadId w \<noteq> None"
  shows "gate_ok X inv w' \<and>
    ctl w' = (el_mode w, map_option ct_id (el_activeThread w), el_commentsListOpen w, el_suggestionsListOpen w, None,
      el_mode w = Suggest_Mode, el_readonly w)
    \<and> el_engine w' = el_engine w \<and> el_activeThread w' = el_activeThread w
    \<and> (el_mode w \<noteq> Suggest_Mode \<longrightarrow> el_provider w' = co_resetEditorDoc (ee_collab X) (el_provider w))
    \<and> co_syncText (ee_collab X) (el_provider w') = co_syncText (ee_collab X) (el_provider w)
    \<and> co_editorText (ee_collab X) (el_provider w') = co_syncText (ee_collab X) (el_provider w)"
proof -
  define w1 where "w1 = restore_suggest_gate X (on_host (host_reset X) w)"
  define w2 where "w2 = (setReadonly (el_readonly w1) w1)\<lparr>el_previewingThreadId := None\<rparr>"
  have g: "el_attached w" "inv (el_provider w)" "\<not> se_destroyed (el_suggest w)"
      "\<not> se_enabled (el_suggest w)" "surf_ok True True (el_surface w)" "el_previewingThreadId w \<noteq> Some []"
    using assms(2,3) by (simp_all add: gate_ok_def)
  have w1: "w1 = (if el_mode w = Suggest_Mode then
      (on_host (host_reset X) w)\<lparr>el_suggest := (el_suggest w)\<lparr>se_textAtEnable := serialized X (on_host (host_reset X) w),
          se_enabled := True\<rparr>,
        el_provider := co_setOutboundOpen (ee_collab X) False (co_setOutboundOpen (ee_collab X) False
          (co_resetEditorDoc (ee_collab X) (el_provider w)))\<rparr>
      else on_host (host_reset X) w)"
    using g by (simp add: w1_def restore_suggest_gate_def on_suggest_def suggest_enable_def
        suggest_disable_def host_ops_def set_binding_def set_outbound_eq host_reset_frame on_host_def
        host_reset_def Let_def)
  have s: "surf_ok True True (el_surface w1)" "el_readonly w1 = el_readonly w" "el_attached w1"
      "inv (el_provider w1)" "\<not> se_destroyed (el_suggest w1)" "se_enabled (el_suggest w1) = (el_mode w = Suggest_Mode)"
      "co_outboundOpen (ee_collab X) (el_provider w1) = (el_mode w \<noteq> Suggest_Mode)"
      "co_syncText (ee_collab X) (el_provider w1) = co_syncText (ee_collab X) (el_provider w)"
      "co_editorText (ee_collab X) (el_provider w1) = co_syncText (ee_collab X) (el_provider w)"
      "el_mode w1 = el_mode w" "el_activeThread w1 = el_activeThread w" "el_engine w1 = el_engine w"
      "el_commentsListOpen w1 = el_commentsListOpen w" "el_suggestionsListOpen w1 = el_suggestionsListOpen w"
      "el_mode w \<noteq> Suggest_Mode \<longrightarrow> el_provider w1 = co_resetEditorDoc (ee_collab X) (el_provider w)"
    using g host_reset_frame(5) [of True True w X] host_reset_frame(1) [of X w]
    by (simp_all add: w1 host_reset_frame provider_simps reset_open ctl_def)
  have "on_comments (setDecorationsMuted (ee_comments X) False) w2 = (x, w')"
    using assms(1,3) g(6) by (simp add: endSuggestionPreview_def previewing_def w1_def w2_def Let_def)
  then obtain f where f: "setDecorationsMuted (ee_comments X) False (el_surface w2) = (x, f)"
    and w': "w' = w2\<lparr>el_surface := f\<rparr>" by (auto simp: on_comments_split)
  have "surf_ok (el_readonly w) True (el_surface w2)"
    using s(1,2) by (simp add: w2_def setReadonly_frame)
  then have "surf_ok (el_readonly w) False f" by (rule coordinator_ok(4) [OF f])
  moreover have "cs_engine f = el_engine w" using coordinator_engine(4) [OF f] s by (simp add: w2_def setReadonly_frame)
  ultimately show ?thesis using s setReadonly_frame(2) [of "el_readonly w" w1]
    by (simp add: w' w2_def gate_ok_def ctl_def setReadonly_frame)
qed

lemma toggle_blame_ok:
  assumes "gate_ok X inv w"
  shows "gate_ok X inv (toggle_blame X active w)
    \<and> ctl (toggle_blame X active w) = (el_mode (toggle_blame X active w), snd (ctl w))
    \<and> el_provider (toggle_blame X active w) = el_provider w \<and> el_engine (toggle_blame X active w) = el_engine w"
proof -
  define w' where "w' = toggle_blame X active w"
  have eq: "w' = w\<lparr>el_mode := el_mode w', el_blame := el_blame w',
      el_surface := (el_surface w)\<lparr>cs_binding := el_binding w'\<rparr>\<rparr>"
    unfolding w'_def by (rule toggle_blame_frame(3))
  have "el_attached w' = el_attached w" "el_provider w' = el_provider w" "el_suggest w' = el_suggest w"
      "el_previewingThreadId w' = el_previewingThreadId w" "el_readonly w' = el_readonly w"
      "ctl w' = (el_mode w', snd (ctl w))" "el_engine w' = el_engine w"
    by (subst eq, simp add: ctl_def)+
  moreover have "surf_ok r m (el_surface w) \<Longrightarrow> surf_ok r m (el_surface w')" for r m
    unfolding w'_def by (rule toggle_blame_frame(2))
  ultimately show ?thesis using assms by (simp add: gate_ok_def flip: w'_def)
qed

lemma discard_ok:
  assumes "gate_ok X inv w" "se_enabled (el_suggest w)"
  shows "gate_ok X inv (on_suggest (suggest_discard (host_ops X)) w)
    \<and> ctl (on_suggest (suggest_discard (host_ops X)) w) =
        (el_mode w, map_option ct_id (el_activeThread w), el_commentsListOpen w, el_suggestionsListOpen w, None, False, el_readonly w)
    \<and> el_engine (on_suggest (suggest_discard (host_ops X)) w) = el_engine w
    \<and> co_syncText (ee_collab X) (el_provider (on_suggest (suggest_discard (host_ops X)) w)) =
        co_syncText (ee_collab X) (el_provider w)
    \<and> co_editorText (ee_collab X) (el_provider (on_suggest (suggest_discard (host_ops X)) w)) =
        co_syncText (ee_collab X) (el_provider w)"
proof -
  have g: "inv (el_provider w)" "el_previewingThreadId w = None" "surf_ok (el_readonly w) False (el_surface w)"
      "el_attached w" "\<not> se_destroyed (el_suggest w)"
    using assms by (auto simp: gate_ok_def)
  then show ?thesis using assms(2) host_reset_frame(1) [of X w]
    by (simp add: element_frames gate_ok_def ctl_def provider_simps)
qed

lemma activate_ok:
  assumes act: "activateFeatureMode X m w = (None, w')" and g: "gate_ok X inv w" and o: "panels_ok w"
    and ne: "el_mode w \<noteq> m"
  shows "gate_ok X inv w' \<and> entered m w' \<and> el_readonly w' = el_readonly w \<and> el_engine w' = el_engine w
    \<and> (el_mode w \<noteq> Suggest_Mode \<and> el_previewingThreadId w = None \<longrightarrow> el_provider w' = el_provider w)
    \<and> co_syncText (ee_collab X) (el_provider w') = co_syncText (ee_collab X) (el_provider w)
    \<and> (el_mode w = Suggest_Mode \<longrightarrow>
        co_editorText (ee_collab X) (el_provider w') = co_syncText (ee_collab X) (el_provider w))"
proof -
  define w1 where "w1 = w\<lparr>el_mode := m\<rparr>"
  have g1: "gate_ok X inv w1" using g by (simp add: gate_ok_def w1_def)
  show ?thesis
  proof (cases "el_mode w")
    case No_Mode
    then have "w' = w1" using act ne by (simp add: activateFeatureMode_def w1_def)
    then show ?thesis using g1 o No_Mode by (auto simp: w1_def entered_def panels_ok_def)
  next
    case Blame_Mode
    then have w': "w' = toggle_blame X False w1" using act ne by (simp add: activateFeatureMode_def w1_def)
    have "el_mode w' = m" using Blame_Mode ne toggle_blame_frame(1) [of X False w1]
      by (simp add: w' w1_def on_active_change_def)
    moreover have "panels_ok w" "el_mode w = Blame_Mode" using o Blame_Mode by simp_all
    ultimately show ?thesis using toggle_blame_ok [OF g1, of False]
      by (simp add: w'[symmetric]) (auto simp: w1_def entered_def panels_ok_def ctl_def)
  next
    case Suggest_Mode
    then have e: "se_enabled (el_suggest w1)" using o by (simp add: panels_ok_def w1_def)
    define w2 where "w2 = on_suggest (suggest_discard (host_ops X)) w1"
    have "el_attached w1" using g1 by (simp add: gate_ok_def)
    then have w': "w' = (w2\<lparr>el_suggestPendingCount := 0\<rparr>)\<lparr>el_surface := setSuggestActive False (el_surface w2)\<rparr>"
      using act ne Suggest_Mode by (simp add: activateFeatureMode_def w1_def w2_def Let_def)
    show ?thesis using discard_ok [OF g1 e] o Suggest_Mode
      by (simp add: w' w2_def [symmetric]) (auto simp: w1_def entered_def panels_ok_def ctl_def gate_ok_def)
  next
    case Comments_Mode
    define w2 where "w2 = w1\<lparr>el_activeThread := None\<rparr>"
    have g2: "gate_ok X inv w2" using g1 by (simp add: gate_ok_def w2_def)
    from act ne Comments_Mode obtain w3 where
      a: "on_comments (setActiveThread (ee_comments X) None) w2 = (None, w3)"
      and b: "(if previewing (w3\<lparr>el_commentsListOpen := False, el_suggestionsListOpen := False\<rparr>)
           then endSuggestionPreview X (w3\<lparr>el_commentsListOpen := False, el_suggestionsListOpen := False\<rparr>)
           else (None, w3\<lparr>el_commentsListOpen := False, el_suggestionsListOpen := False\<rparr>)) = (None, w')"
      by (auto simp: activateFeatureMode_def w1_def w2_def Let_def seq_normal)
    define w4 where "w4 = w3\<lparr>el_commentsListOpen := False, el_suggestionsListOpen := False\<rparr>"
    have g3: "gate_ok X inv w3 \<and> ctl w3 = ctl w2"
      by (rule on_comments_ok [OF a g2]) (rule coordinator_ok(1))
    have e3: "el_engine w3 = el_engine w" "el_provider w3 = el_provider w"
      using a by (auto simp: on_comments_split w2_def w1_def dest: coordinator_engine)
    have g4: "gate_ok X inv w4" using g3 by (simp add: gate_ok_def w4_def)
    have m4: "\<not> se_enabled (el_suggest w4)" "el_mode w4 = m" "el_readonly w4 = el_readonly w"
        "el_activeThread w4 = None" "\<not> el_commentsListOpen w4" "\<not> el_suggestionsListOpen w4"
        "el_previewingThreadId w4 = el_previewingThreadId w"
      using g3 o Comments_Mode by (auto simp: ctl_def w4_def w2_def w1_def panels_ok_def)
    show ?thesis
    proof (cases "el_previewingThreadId w4 = None")
      case True
      then have "w' = w4" using b by (simp add: previewing_def w4_def)
      then show ?thesis using g4 m4 e3 True Comments_Mode by (simp add: entered_def w4_def)
    next
      case False
      then have "endSuggestionPreview X w4 = (None, w')"
        using b g4 by (simp add: previewing_def gate_ok_def flip: w4_def)
      from end_preview_ok [OF this g4 False] show ?thesis using m4 e3 Comments_Mode False
        by (auto simp: entered_def ctl_def w4_def)
    qed
  qed
qed

lemma start_preview_ok:
  assumes "startSuggestionPreview X t s w = (None, w')" "gate_ok X inv w" "ct_id t \<noteq> []"
    and "el_previewingThreadId w = None" "\<not> se_enabled (el_suggest w)"
  shows "gate_ok X inv w' \<and> fst (ctl w') = el_mode w \<and> el_activeThread w' = el_activeThread w
    \<and> el_commentsListOpen w' = el_commentsListOpen w \<and> el_suggestionsListOpen w' = el_suggestionsListOpen w
    \<and> el_readonly w' = el_readonly w \<and> \<not> se_enabled (el_suggest w')
    \<and> getThreads (ee_comments X) (el_engine w') = getThreads (ee_comments X) (el_engine w)
    \<and> co_syncText (ee_collab X) (el_provider w') = co_syncText (ee_collab X) (el_provider w)
    \<and> (case resolveAnchorById (ee_comments X) (el_engine w) (ct_id t) of
         Inr (Some anchor) \<Rightarrow> el_previewingThreadId w' = Some (ct_id t)
           \<and> co_editorText (ee_collab X) (el_provider w') = yt_toString (text_ops X)
               (snd (tryApplyTextSuggestion (text_ops X)
                  (ee_editorText X (co_setOutboundOpen (ee_collab X) False (el_provider w))) (Some anchor)
                  (sv_after_text (sg_human_readable s))))
       | _ \<Rightarrow> w' = w)"
proof -
  have i: "inv (el_provider w)" "el_attached w" "\<not> se_destroyed (el_suggest w)"
    "surf_ok (el_readonly w) False (el_surface w)" using assms by (auto simp: gate_ok_def)
  show ?thesis
  proof (cases "resolveAnchorById (ee_comments X) (el_engine w) (ct_id t)")
    case (Inl err)
    then show ?thesis using assms i by (simp add: startSuggestionPreview_def)
  next
    case (Inr r)
    show ?thesis
    proof (cases r)
      case None
      then show ?thesis using Inr assms i by (simp add: startSuggestionPreview_def ctl_def)
    next
      case (Some anchor)
      define p where "p = co_setOutboundOpen (ee_collab X) False (el_provider w)"
      define after where "after = snd (tryApplyTextSuggestion (text_ops X) (ee_editorText X p) (Some anchor)
        (sv_after_text (sg_human_readable s)))"
      from assms(1) i Inr Some obtain f w2 where
        f: "setDecorationsMuted (ee_comments X) True (el_surface w) = (None, f)"
        and a: "write_editor X after (w\<lparr>el_surface := f, el_provider := p\<rparr>) = (None, w2)"
        and w': "w' = (setReadonly True w2)\<lparr>el_previewingThreadId := Some (ct_id t)\<rparr>"
        by (auto simp: startSuggestionPreview_def seq_normal on_comments_split set_outbound_eq p_def after_def)
      have fs: "surf_ok (el_readonly w) True f" by (rule coordinator_ok(4) [OF f i(4)])
      have pp: "inv p" "\<not> co_outboundOpen (ee_collab X) p"
          "co_syncText (ee_collab X) p = co_syncText (ee_collab X) (el_provider w)"
        using i by (simp_all add: p_def provider_simps)
      define w1 where "w1 = w\<lparr>el_surface := f, el_provider := p\<rparr>"
      have fr: "framed w1 w2 \<and> inv (el_provider w2) \<and> \<not> co_outboundOpen (ee_collab X) (el_provider w2)
          \<and> co_editorText (ee_collab X) (el_provider w2) = yt_toString (text_ops X) after
          \<and> co_syncText (ee_collab X) (el_provider w2) = co_syncText (ee_collab X) p"
        using write_editor_frame [OF a] pp by (simp add: w1_def)
      then have s2: "surf_ok (el_readonly w) True (el_surface w2)" "ctl w2 = ctl w" "el_attached w2"
          "el_suggest w2 = el_suggest w" "el_activeThread w2 = el_activeThread w"
          "getThreads (ee_comments X) (el_engine w2) = getThreads (ee_comments X) (el_engine w)"
        using fs i(2) coordinator_engine(4) [OF f] getThreads_cong [of "el_engine w2" "el_engine w1"] by (simp_all add: framed_def w1_def ctl_def)
      then show ?thesis using fr Inr Some assms(3,5) i pp setReadonly_frame(1) [OF s2(1), of True]
          setReadonly_frame(2) [of True w2]
        by (simp add: w' gate_ok_def ctl_def setReadonly_frame after_def p_def)
    qed
  qed
qed

text \<open>The state of \<open>setActiveCommentThread\<close> after the modes and the old preview have been dealt with.\<close>

lemma set_active_cleared:
  assumes "seq (if thread \<noteq> None then activateFeatureMode X Comments_Mode else skip)
      (\<lambda>w. if previewing w \<and> el_previewingThreadId w \<noteq> map_option ct_id thread
           then endSuggestionPreview X w else (None, w)) w = (None, w')"
    and "gate_ok X inv w" "panels_ok w"
  shows "gate_ok X inv w' \<and> el_engine w' = el_engine w \<and> el_readonly w' = el_readonly w
    \<and> (se_enabled (el_suggest w') \<longleftrightarrow> el_mode w' = Suggest_Mode)
    \<and> (el_previewingThreadId w' = None \<or> el_previewingThreadId w' = map_option ct_id thread)
    \<and> (thread \<noteq> None \<longrightarrow> el_mode w' = Comments_Mode)
    \<and> (thread = None \<longrightarrow> el_mode w' = el_mode w \<and> el_commentsListOpen w' = el_commentsListOpen w
         \<and> el_suggestionsListOpen w' = el_suggestionsListOpen w \<and> el_activeThread w' = el_activeThread w)
    \<and> (el_mode w \<noteq> Suggest_Mode \<and> el_previewingThreadId w = None \<longrightarrow> el_provider w' = el_provider w)
    \<and> (el_previewingThreadId w = None \<longrightarrow> el_previewingThreadId w' = None)
    \<and> (thread = None \<and> el_previewingThreadId w \<noteq> None \<longrightarrow>
         el_provider w' = co_resetEditorDoc (ee_collab X) (el_provider w))
    \<and> co_syncText (ee_collab X) (el_provider w') = co_syncText (ee_collab X) (el_provider w)
    \<and> (thread = None \<and> el_previewingThreadId w \<noteq> None \<or> thread \<noteq> None \<and> el_mode w = Suggest_Mode \<longrightarrow>
         co_editorText (ee_collab X) (el_provider w') = co_syncText (ee_collab X) (el_provider w))"
proof -
  from assms(1) obtain w1 where
    a: "(if thread \<noteq> None then activateFeatureMode X Comments_Mode else skip) w = (None, w1)"
    and b: "(if previewing w1 \<and> el_previewingThreadId w1 \<noteq> map_option ct_id thread
           then endSuggestionPreview X w1 else (None, w1)) = (None, w')"
    by (auto simp: seq_normal)
  have P: "gate_ok X inv w1 \<and> el_engine w1 = el_engine w \<and> el_readonly w1 = el_readonly w
      \<and> (se_enabled (el_suggest w1) \<longleftrightarrow> el_mode w1 = Suggest_Mode)
      \<and> (el_previewingThreadId w1 \<noteq> None \<longrightarrow> el_mode w1 = Comments_Mode)
      \<and> (thread \<noteq> None \<longrightarrow> el_mode w1 = Comments_Mode) \<and> (thread = None \<longrightarrow> w1 = w)
      \<and> (el_mode w \<noteq> Suggest_Mode \<and> el_previewingThreadId w = None \<longrightarrow>
           el_provider w1 = el_provider w \<and> el_previewingThreadId w1 = None)
      \<and> co_syncText (ee_collab X) (el_provider w1) = co_syncText (ee_collab X) (el_provider w)
      \<and> (thread \<noteq> None \<and> el_mode w = Suggest_Mode \<longrightarrow> el_previewingThreadId w1 = None \<and>
         co_editorText (ee_collab X) (el_provider w1) = co_syncText (ee_collab X) (el_provider w))"
  proof (cases "thread = None \<or> el_mode w = Comments_Mode")
    case True
    then have "w1 = w" using a by (auto simp: skip_def activateFeatureMode_def split: if_splits)
    then show ?thesis using assms(2,3) True by (auto simp: panels_ok_def)
  next
    case False
    then have "activateFeatureMode X Comments_Mode w = (None, w1)" using a by (simp split: if_splits)
    from activate_ok [OF this assms(2,3)] False show ?thesis by (auto simp: entered_def)
  qed
  show ?thesis
  proof (cases "el_previewingThreadId w1 \<noteq> None \<and> el_previewingThreadId w1 \<noteq> map_option ct_id thread")
    case True
    then have "endSuggestionPreview X w1 = (None, w')"
      using b P by (auto simp: previewing_def gate_ok_def)
    from end_preview_ok [OF this] P True show ?thesis by (auto simp: ctl_def)
  next
    case False
    then have "w' = w1" using b by (auto simp: previewing_def split: if_splits)
    then show ?thesis using P False by auto
  qed
qed

lemma preview_thread_ok:
  assumes "preview_thread X (Some t) w = (None, w')" "gate_ok X inv w" "ct_id t \<noteq> []"
    and "el_mode w = Comments_Mode" "el_activeThread w = Some t"
    and "el_previewingThreadId w = None \<or> el_previewingThreadId w = Some (ct_id t)" "\<not> se_enabled (el_suggest w)"
  shows "gate_ok X inv w' \<and> mode_ok w' \<and> el_activeThread w' = Some t
    \<and> getThreads (ee_comments X) (el_engine w') = getThreads (ee_comments X) (el_engine w)
    \<and> co_syncText (ee_collab X) (el_provider w') = co_syncText (ee_collab X) (el_provider w)"
proof (cases "w' = w")
  case True
  then show ?thesis using assms by (auto simp: mode_ok_def panels_ok_def)
next
  case False
  then obtain s where "startSuggestionPreview X t s w = (None, w')" "el_previewingThreadId w = None"
    using assms by (auto simp: preview_thread_def split: option.splits if_splits)
  from start_preview_ok [OF this(1) assms(2,3) this(2) assms(7)] assms show ?thesis
    by (auto simp: mode_ok_def panels_ok_def ctl_def split: sum.splits option.splits)
qed

lemma set_active_prepared:
  assumes "setActiveCommentThread X thread w = (None, w')" "gate_ok X inv w" "panels_ok w"
  obtains w2 f where "gate_ok X inv (w2\<lparr>el_activeThread := thread, el_surface := f\<rparr>)"
    and "cs_engine f = el_engine w" "el_readonly w2 = el_readonly w"
    and "se_enabled (el_suggest w2) \<longleftrightarrow> el_mode w2 = Suggest_Mode"
    and "el_previewingThreadId w2 = None \<or> el_previewingThreadId w2 = map_option ct_id thread"
    and "el_previewingThreadId w = None \<longrightarrow> el_previewingThreadId w2 = None"
    and "thread \<noteq> None \<longrightarrow> el_mode w2 = Comments_Mode"
    and "thread = None \<longrightarrow> el_mode w2 = el_mode w \<and> el_commentsListOpen w2 = el_commentsListOpen w
         \<and> el_suggestionsListOpen w2 = el_suggestionsListOpen w"
    and "el_mode w \<noteq> Suggest_Mode \<and> el_previewingThreadId w = None \<longrightarrow> el_provider w2 = el_provider w"
    and "thread = None \<and> el_previewingThreadId w \<noteq> None \<longrightarrow>
         el_provider w2 = co_resetEditorDoc (ee_collab X) (el_provider w)"
    and "co_syncText (ee_collab X) (el_provider w2) = co_syncText (ee_collab X) (el_provider w)"
    and "thread \<noteq> None \<and> el_mode w = Suggest_Mode \<longrightarrow>
         co_editorText (ee_collab X) (el_provider w2) = co_syncText (ee_collab X) (el_provider w)"
    and "preview_thread X thread ((if thread = None then maybeExitCommentsMode else (\<lambda>w. w))
           (w2\<lparr>el_activeThread := thread, el_surface := f\<rparr>)) = (None, w')"
proof -
  let ?i = "map_option ct_id thread"
  obtain w2 w3 where
    a: "seq (if thread \<noteq> None then activateFeatureMode X Comments_Mode else skip)
      (\<lambda>w. if previewing w \<and> el_previewingThreadId w \<noteq> ?i then endSuggestionPreview X w else (None, w)) w = (None, w2)"
    and o: "on_comments (setActiveThread (ee_comments X) ?i) (w2\<lparr>el_activeThread := thread\<rparr>) = (None, w3)"
    and p: "preview_thread X thread ((if thread = None then maybeExitCommentsMode else (\<lambda>w. w)) w3) = (None, w')"
    using assms(1) unfolding setActiveCommentThread_def seq_steps by blast
  note c = set_active_cleared [OF a assms(2,3)]
  from o obtain f where f: "setActiveThread (ee_comments X) ?i (el_surface w2) = (None, f)"
    and w3: "w3 = w2\<lparr>el_activeThread := thread, el_surface := f\<rparr>"
    by (auto simp: on_comments_split)
  have "gate_ok X inv w3"
    using conjunct1 [OF c] by (simp add: gate_ok_def w3 coordinator_ok(1) [OF f])
  then show ?thesis using c p coordinator_engine(1) [OF f] by (intro that [where ?w2.0 = w2 and f = f]) (simp_all add: w3)
qed

lemma set_active_ok:
  assumes "setActiveCommentThread X thread w = (None, w')" "gate_ok X inv w" "panels_ok w"
    and "\<And>t. thread = Some t \<Longrightarrow> ct_id t \<noteq> []"
  shows "gate_ok X inv w' \<and> mode_ok w' \<and> el_activeThread w' = thread
    \<and> getThreads (ee_comments X) (el_engine w') = getThreads (ee_comments X) (el_engine w)
    \<and> co_syncText (ee_collab X) (el_provider w') = co_syncText (ee_collab X) (el_provider w)"
  using assms(1-3)
proof (rule set_active_prepared)
  fix w2 f
  assume c: "gate_ok X inv (w2\<lparr>el_activeThread := thread, el_surface := f\<rparr>)" "cs_engine f = el_engine w"
      "el_readonly w2 = el_readonly w" "se_enabled (el_suggest w2) \<longleftrightarrow> el_mode w2 = Suggest_Mode"
      "el_previewingThreadId w2 = None \<or> el_previewingThreadId w2 = map_option ct_id thread"
      "thread \<noteq> None \<longrightarrow> el_mode w2 = Comments_Mode"
      "thread = None \<longrightarrow> el_mode w2 = el_mode w \<and> el_commentsListOpen w2 = el_commentsListOpen w
         \<and> el_suggestionsListOpen w2 = el_suggestionsListOpen w"
      "co_syncText (ee_collab X) (el_provider w2) = co_syncText (ee_collab X) (el_provider w)"
    and p: "preview_thread X thread ((if thread = None then maybeExitCommentsMode else (\<lambda>w. w))
           (w2\<lparr>el_activeThread := thread, el_surface := f\<rparr>)) = (None, w')"
  show ?thesis
  proof (cases thread)
    case None
    then have "w' = maybeExitCommentsMode (w2\<lparr>el_activeThread := None, el_surface := f\<rparr>)"
      using p by (simp add: preview_thread_def)
    then show ?thesis using c None assms(3)
      by (auto simp: maybeExitCommentsMode_def mode_ok_def panels_ok_def)
  next
    case (Some t)
    then have "preview_thread X (Some t) (w2\<lparr>el_activeThread := Some t, el_surface := f\<rparr>) = (None, w')"
      using p by simp
    from preview_thread_ok [OF this] Some c assms(4) show ?thesis by auto
  qed
qed

text \<open>Closing the panel of a previewed suggestion gives the provider a fresh editor document.\<close>

lemma close_preview:
  assumes "setActiveCommentThread X None w = (None, w')" "gate_ok X inv w" "panels_ok w"
    and "el_previewingThreadId w \<noteq> None"
  shows "el_provider w' = co_resetEditorDoc (ee_collab X) (el_provider w) \<and> el_engine w' = el_engine w
    \<and> el_previewingThreadId w' = None"
  using assms(1-3)
  by (rule set_active_prepared)
    (use assms(4) in \<open>auto simp: preview_thread_def maybeExitCommentsMode_def\<close>)

text \<open>Opening the thread of a pending suggestion, when no other preview or draft is there.\<close>

lemma open_preview:
  assumes "setActiveCommentThread X (Some t) w = (None, w')" "gate_ok X inv w" "panels_ok w"
    and t: "ct_id t \<noteq> []" "ct_suggestion t = Some s" "sg_status s = Pending"
    and "resolveAnchorById (ee_comments X) (el_engine w) (ct_id t) = Inr (Some anchor)"
    and "el_mode w \<noteq> Suggest_Mode" "el_previewingThreadId w = None"
  shows "el_previewingThreadId w' = Some (ct_id t)
    \<and> co_syncText (ee_collab X) (el_provider w') = co_syncText (ee_collab X) (el_provider w)
    \<and> co_editorText (ee_collab X) (el_provider w') = yt_toString (text_ops X)
        (snd (tryApplyTextSuggestion (text_ops X)
           (ee_editorText X (co_setOutboundOpen (ee_collab X) False (el_provider w))) (Some anchor)
           (sv_after_text (sg_human_readable s))))"
  using assms(1-3)
proof (rule set_active_prepared)
  fix w2 f
  assume c: "gate_ok X inv (w2\<lparr>el_activeThread := Some t, el_surface := f\<rparr>)" "cs_engine f = el_engine w"
      "se_enabled (el_suggest w2) \<longleftrightarrow> el_mode w2 = Suggest_Mode"
      "Some t \<noteq> None \<longrightarrow> el_mode w2 = Comments_Mode"
      "el_mode w \<noteq> Suggest_Mode \<and> el_previewingThreadId w = None \<longrightarrow> el_provider w2 = el_provider w"
    and p: "preview_thread X (Some t) ((if Some t = None then maybeExitCommentsMode else (\<lambda>w. w))
           (w2\<lparr>el_activeThread := Some t, el_surface := f\<rparr>)) = (None, w')"
    and n: "el_previewingThreadId w = None \<longrightarrow> el_previewingThreadId w2 = None"
  define w3 where "w3 = w2\<lparr>el_activeThread := Some t, el_surface := f\<rparr>"
  have "startSuggestionPreview X t s w3 = (None, w')"
    using p n assms c by (simp add: preview_thread_def w3_def)
  from start_preview_ok [OF this c(1) [folded w3_def] t(1)] c n assms show ?thesis by (simp add: w3_def)
qed

lemma engine_becomes_ok:
  assumes "engine_becomes X e w = (x, w')" "gate_ok X inv w" "thread_kept X w (el_engine w')"
  shows "gate_ok X inv w' \<and> ctl w' = ctl w \<and> el_provider w' = el_provider w"
proof -
  define w1 where "w1 = w\<lparr>el_surface := (el_surface w)\<lparr>cs_engine := e\<rparr>\<rparr>"
  have g1: "gate_ok X inv w1" using assms(2) by (simp add: gate_ok_def w1_def surf_ok_def)
  show ?thesis
  proof (cases "ce_notified e = ce_notified (el_engine w)")
    case True
    then show ?thesis using assms g1 by (auto simp: engine_becomes_def w1_def ctl_def Let_def)
  next
    case False
    define w2 where "w2 = refresh_threads X w1"
    obtain y f where f: "on_threads (ee_comments X) (el_surface w2) = (y, f)" by fastforce
    have w': "w' = w2\<lparr>el_surface := f\<rparr>" "x = None"
      using assms(1) False f
      by (simp_all add: engine_becomes_def threads_changed_def swallow_def seq_def quiet_def
          on_comments_def Let_def flip: w1_def w2_def)
    have "cs_engine f = e"
      using coordinator_engine(2) [OF f] by (simp add: w2_def w1_def refresh_threads_def Let_def)
    then have kept: "thread_kept X w e" using assms(3) w' by simp
    have act: "map_option ct_id (el_activeThread w2) = map_option ct_id (el_activeThread w)"
    proof (cases "el_activeThread w")
      case (Some a)
      then obtain t where "List.find (\<lambda>t. ct_id t = ct_id a) (getThreads (ee_comments X) e) = Some t"
        using kept by (auto simp: thread_kept_def)
      with Some find_thread_id [OF this] show ?thesis
        by (simp add: w2_def w1_def refresh_threads_def Let_def)
    qed (simp add: w2_def w1_def refresh_threads_def Let_def)
    have w2: "el_attached w2 = el_attached w1" "el_provider w2 = el_provider w1" "el_suggest w2 = el_suggest w1"
        "el_previewingThreadId w2 = el_previewingThreadId w1" "el_readonly w2 = el_readonly w1"
        "el_surface w2 = el_surface w1" "el_mode w2 = el_mode w1"
        "el_commentsListOpen w2 = el_commentsListOpen w1" "el_suggestionsListOpen w2 = el_suggestionsListOpen w1"
      by (simp_all add: w2_def refresh_threads_def Let_def)
    have "gate_ok X inv w'"
      using g1 coordinator_ok(2) [OF f] by (simp add: w' w2 gate_ok_def)
    then show ?thesis using act by (simp add: w' w2 ctl_def w1_def)
  qed
qed

lemma engine_op_ok:
  assumes "engine_op X f w = (x, w')" "gate_ok X inv w" "thread_kept X w (el_engine w')"
  shows "gate_ok X inv w' \<and> ctl w' = ctl w \<and> el_provider w' = el_provider w"
  using assms engine_becomes_ok by (auto simp: engine_op_def split: if_splits sum.splits)

lemma enable_ok:
  assumes "gate_ok X inv w" "el_previewingThreadId w = None"
  shows "gate_ok X inv (on_suggest (suggest_enable (host_ops X) s) w)
    \<and> ctl (on_suggest (suggest_enable (host_ops X) s) w) =
        (el_mode w, map_option ct_id (el_activeThread w), el_commentsListOpen w, el_suggestionsListOpen w, None,
         True, el_readonly w)"
  using assms by (simp add: suggest_enable_eq gate_ok_def ctl_def provider_simps)

lemma disable_ok:
  assumes "gate_ok X inv w"
  shows "gate_ok X inv (on_suggest (suggest_disable (host_ops X)) w)
    \<and> ctl (on_suggest (suggest_disable (host_ops X)) w) =
        (el_mode w, map_option ct_id (el_activeThread w), el_commentsListOpen w, el_suggestionsListOpen w,
         el_previewingThreadId w, False, el_readonly w)"
  using assms by (auto simp: suggest_disable_eq gate_ok_def ctl_def provider_simps)

lemma commit_ok:
  assumes "commitPendingSuggestion X i c n note w = (x, w')" "gate_ok X inv w" "thread_kept X w (el_engine w')"
  shows "gate_ok X inv w' \<and>
    ctl w' = (if hasPendingChanges (el_suggest w) (serialized X w)
      then (el_mode w, map_option ct_id (el_activeThread w), el_commentsListOpen w, el_suggestionsListOpen w,
        None, False, el_readonly w)
      else ctl w)"
proof -
  have at: "el_attached w" using assms(2) by (simp add: gate_ok_def)
  consider "\<not> hasPendingChanges (el_suggest w) (serialized X w)" "w' = w" | payload w2 where
      "hasPendingChanges (el_suggest w) (serialized X w)" "buildSuggestion (el_suggest w) note (serialized X w) = Inr payload"
      "w2 = snd (engine_op X (commitSuggestion (ee_comments X) i c n payload) (on_suggest (suggest_discard (host_ops X)) w))"
      "w' = w2 \<or> w' = w2\<lparr>el_suggestPendingCount := 0\<rparr>"
    using assms(1) pending_builds [of w X "note"] at
    by (auto simp: commit_split swallow_def seq_def quiet_def split: if_splits sum.splits prod.splits option.splits)
  then show ?thesis
  proof cases
    case 2
    have e: "se_enabled (el_suggest w)" by (rule buildSuggestion_enabled [OF 2(2)])
    define w1 where "w1 = on_suggest (suggest_discard (host_ops X)) w"
    note d = discard_ok [OF assms(2) e, folded w1_def]
    have "el_activeThread w1 = el_activeThread w"
      using e by (simp add: w1_def element_frames)
    then have "thread_kept X w1 (el_engine w2)" using assms(3) 2(4) by (auto simp: thread_kept_def)
    moreover obtain r where "engine_op X (commitSuggestion (ee_comments X) i c n payload) w1 = (r, w2)"
      using 2(3) by (metis prod.collapse w1_def)
    ultimately have g2: "gate_ok X inv w2 \<and> ctl w2 = ctl w1"
      using engine_op_ok d by blast
    have "gate_ok X inv w' \<and> ctl w' = ctl w2"
      using 2(4) g2 by auto
    then show ?thesis using g2 d e 2(1) by simp
  qed (use assms(2) in simp)
qed

end

end
