(* ===== verification/Feature_Invariant.thy ===== *)
theory Feature_Invariant
  imports Feature_Session
begin

text \<open>
  The invariant of the feature modes under every handler of the element, and the properties of
  reviewing and drafting that follow from it.
\<close>

section \<open>Handlers keep the invariant\<close>

text \<open>The events the page can send in a state: Suggest Mode is left and drafts are discarded only from
  Suggest Mode, threads have a name, the host does not set the \<open>readonly\<close> attribute during a
  preview, and nobody deletes the thread that is open.\<close>

fun regular ::
  "('e, 't, 'p, 'm) element_env \<Rightarrow> ('e, 't, 'p, 'm) element \<Rightarrow> ('t, 'm) feature_event \<Rightarrow> bool" where
  "regular X w (Thread_Activated i) = (i \<noteq> [])"
| "regular X w (Pending_Activated i) = (i \<noteq> [])"
| "regular X w (Resolved_Activated i) = (i \<noteq> [])"
| "regular X w (Draft_Submit i c n s) = (i \<noteq> [])"
| "regular X w (Suggest_Toggle i c n s active) = (active \<or> el_mode w = Suggest_Mode)"
| "regular X w Suggest_Discard = (el_mode w = Suggest_Mode)"
| "regular X w (Readonly_Set r) = (el_previewingThreadId w = None)"
| "regular X w (Delete i) = (map_option ct_id (el_activeThread w) \<noteq> Some i)"
| "regular X w (Peer_Threads q ks m) = thread_kept X w ((el_engine w)\<lparr>ce_map := m\<rparr>)"
| "regular X w ev = True"

text \<open>A thread is listed exactly if the map holds it.\<close>

lemma set_insert_by [simp]: "set (insert_by cmp x ys) = insert x (set ys)"
  by (induction ys) auto

lemma set_sort_by [simp]: "set (sort_by cmp xs) = set xs"
  by (induction xs) (simp_all add: sort_by_def)

lemma listed_iff:
  assumes "ymap_laws (en_map E)"
  shows "List.find (\<lambda>t. ct_id t = i) (getThreads E e) \<noteq> None \<longleftrightarrow> readThread E e i \<noteq> None"
proof -
  let ?es = "ym_entries (en_map E) (ce_map e)"
  have d: "distinct (map fst ?es)" and m: "map_of ?es = ym_get (en_map E) (ce_map e)"
    using ymap_entries [OF assms] by auto
  have "List.find (\<lambda>t. ct_id t = i) (getThreads E e) \<noteq> None \<longleftrightarrow> (\<exists>t \<in> set (getThreads E e). ct_id t = i)"
    by (auto simp: find_None_iff)
  also have "\<dots> \<longleftrightarrow> (\<exists>raw t. (i, raw) \<in> set ?es \<and> asStoredThread (Some raw) = Some t)"
    by (force simp: getThreads_def List.map_filter_def toWireThread_def)
  also have "\<dots> \<longleftrightarrow> readThread E e i \<noteq> None"
    unfolding readThread_def m [symmetric] map_of_eq_Some_iff [OF d, symmetric]
    by (cases "map_of ?es i") (auto simp: asStoredThread_def)
  finally show ?thesis .
qed

text \<open>An operation of the engine that drops no thread.\<close>

definition drops_none :: "('t, 'm) comment_env \<Rightarrow> ('t, 'm) engine \<Rightarrow> ('t, 'm) engine \<Rightarrow> bool" where
  "drops_none E e e' \<longleftrightarrow> (\<forall>i. readThread E e i \<noteq> None \<longrightarrow> readThread E e' i \<noteq> None)"

lemma drops_none_ops:
  assumes "ymap_laws (en_map E)"
  shows "drops_none E e (map_set E p k t e)" "drops_none E e (mutateThread E k f e)"
    "createThread E i c n a s u content sg e = Inr e' \<Longrightarrow> drops_none E e e'"
  using assms by (auto simp: drops_none_def mutateThread_def createThread_def split: option.splits if_splits)

lemma thread_kept_ids:
  "thread_kept X w e \<longleftrightarrow> (\<forall>i. map_option ct_id (el_activeThread w) = Some i \<longrightarrow>
     List.find (\<lambda>t. ct_id t = i) (getThreads (ee_comments X) e) \<noteq> None)"
  by (auto simp: thread_kept_def)

lemma thread_kept_transfer:
  assumes "thread_kept X w e" "map_option ct_id (el_activeThread w') = map_option ct_id (el_activeThread w)"
    and "getThreads (ee_comments X) e' = getThreads (ee_comments X) e"
  shows "thread_kept X w' e'"
  using assms unfolding thread_kept_ids by simp

lemma thread_kept_None [simp]: "el_activeThread w = None \<Longrightarrow> thread_kept X w e"
  by (simp add: thread_kept_def)

lemma panels_ok_inert [simp]:
  "panels_ok (w\<lparr>el_suggestPendingCount := k\<rparr>) = panels_ok w" "panels_ok (w\<lparr>el_noteDraft := s\<rparr>) = panels_ok w"
  "panels_ok (w\<lparr>el_noteModalOpen := b\<rparr>) = panels_ok w" "panels_ok (w\<lparr>el_draftAnchor := d\<rparr>) = panels_ok w"
  by (simp_all add: panels_ok_def)

lemma mode_ok_inert [simp]:
  "mode_ok (w\<lparr>el_suggestPendingCount := k\<rparr>) = mode_ok w" "mode_ok (w\<lparr>el_noteDraft := s\<rparr>) = mode_ok w"
  "mode_ok (w\<lparr>el_noteModalOpen := b\<rparr>) = mode_ok w" "mode_ok (w\<lparr>el_draftAnchor := d\<rparr>) = mode_ok w"
  by (simp_all add: mode_ok_def)

lemma mode_panels: "mode_ok w \<Longrightarrow> panels_ok w"
  by (simp add: mode_ok_def)

lemma find_thread_named: "find_thread X i w = Some t \<Longrightarrow> ct_id t = i"
  unfolding find_thread_def by (rule find_thread_id)

definition session_ok ::
  "('e, 't, 'p, 'm) element_env \<Rightarrow> ('p \<Rightarrow> bool) \<Rightarrow> ('e, 't, 'p, 'm) element \<Rightarrow> bool" where
  "session_ok X I w \<longleftrightarrow> gate_ok X I w \<and> mode_ok w \<and> thread_kept X w (el_engine w)"

lemma engine_becomes_engine: "engine_becomes X e w = (x, w') \<Longrightarrow> el_engine w' = e"
  by (auto simp: engine_becomes_def threads_changed_def swallow_def seq_def quiet_def on_comments_def
      refresh_threads_def Let_def dest: coordinator_engine(2) split: if_splits prod.splits)

lemma decide_normal: "fst (decide X n i d w) = None"
  by (simp add: decide_def engine_op_def engine_becomes_def threads_changed_def swallow_def Let_def)

text \<open>The operations of the engine that the handlers call, apart from deletion, drop no thread.\<close>

lemma handler_ops_drop_none:
  assumes "ymap_laws (en_map E)"
  shows "resolveThread E n i e = e' \<Longrightarrow> drops_none E e e'" "reopenThread E i e = e' \<Longrightarrow> drops_none E e e'"
    "decideSuggestion E n i d v e = e' \<Longrightarrow> drops_none E e e'"
    "commitSuggestion E i c n pl e = Inr e' \<Longrightarrow> drops_none E e e'"
    "addReply E c n i s e = Inr (r, e') \<Longrightarrow> drops_none E e e'"
  using drops_none_ops [OF assms]
  by (auto simp: resolveThread_def reopenThread_def decideSuggestion_def commitSuggestion_def addReply_def
      drops_none_def Let_def split: if_splits option.splits)

context review_provider
begin

text \<open>One lemma per handler or group of handlers.\<close>

lemma session_okI: "gate_ok X inv w \<Longrightarrow> mode_ok w \<Longrightarrow> thread_kept X w (el_engine w) \<Longrightarrow> session_ok X inv w"
  by (simp add: session_ok_def)

lemma session_okD:
  "session_ok X inv w \<Longrightarrow> gate_ok X inv w" "session_ok X inv w \<Longrightarrow> mode_ok w"
  "session_ok X inv w \<Longrightarrow> panels_ok w" "session_ok X inv w \<Longrightarrow> thread_kept X w (el_engine w)"
  by (simp_all add: session_ok_def mode_ok_def)

lemma session_map: "session_ok X inv w \<Longrightarrow> ymap_laws (en_map (ee_comments X))"
  using threads_map by (auto simp: session_ok_def gate_ok_def)

text \<open>What leaves the mode and the threads as they are.\<close>

lemma session_ok_same:
  assumes "session_ok X inv w" "gate_ok X inv w'" "ctl w' = ctl w"
    and "getThreads (ee_comments X) (el_engine w') = getThreads (ee_comments X) (el_engine w)"
  shows "session_ok X inv w'"
proof (rule session_okI)
  show "mode_ok w'" using assms(1,3) mode_ok_ctl by (auto simp: session_ok_def)
  show "thread_kept X w' (el_engine w')"
    using session_okD(4) [OF assms(1)] assms(3,4) thread_kept_transfer by (metis ctl_def fst_conv snd_conv)
qed (rule assms(2))

lemma blame_handler_ok:
  assumes "handleBlameToggle X active w = (None, w')" "session_ok X inv w"
  shows "session_ok X inv w'"
proof -
  note g = session_okD [OF assms(2)]
  from assms(1) obtain w1 where
    a: "(if active then activateFeatureMode X Blame_Mode else skip) w = (None, w1)"
    and w': "w' = toggle_blame X active w1"
    by (auto simp: handleBlameToggle_def seq_normal)
  have P: "session_ok X inv w1 \<and> (active \<longrightarrow> el_mode w1 = Blame_Mode)"
  proof (cases "active \<and> el_mode w \<noteq> Blame_Mode")
    case True
    with a have "activateFeatureMode X Blame_Mode w = (None, w1)" by simp
    from activate_ok [OF this g(1,3)] True show ?thesis
      by (auto simp: entered_def session_ok_def mode_ok_def panels_ok_def)
  next
    case False
    then have "w1 = w" using a by (auto simp: skip_def activateFeatureMode_def split: if_splits)
    then show ?thesis using assms(2) False by auto
  qed
  have m: "el_mode w' = el_mode w1 \<or> el_mode w' = No_Mode \<and> el_mode w1 = Blame_Mode"
    using toggle_blame_frame(1) [of X active w1] P by (auto simp: w' on_active_change_def)
  have f: "gate_ok X inv w'" "ctl w' = (el_mode w', snd (ctl w1))" "el_engine w' = el_engine w1"
    using toggle_blame_ok [of w1 active] P by (simp_all add: w' session_ok_def)
  show ?thesis
  proof (cases "el_mode w' = el_mode w1")
    case True
    then have "ctl w' = ctl w1" using f by (simp add: ctl_def)
    from session_ok_same [OF conjunct1 [OF P] f(1) this] f(3) show ?thesis by simp
  next
    case False
    with m have n: "el_mode w' = No_Mode" and b: "el_mode w1 = Blame_Mode" by auto
    have "entered Blame_Mode w1"
      using P b by (auto simp: session_ok_def mode_ok_def panels_ok_def entered_def)
    then have "ctl w' = (No_Mode, None, False, False, None, False, el_readonly w1)"
      using f(2) n by (simp add: ctl_def entered_def)
    then show ?thesis using f(1) by (simp add: session_ok_def mode_ok_def panels_ok_def ctl_def)
  qed
qed

lemma open_thread_ok:
  assumes "setActiveCommentThread X (Some t) w = (None, w')" "gate_ok X inv w" "panels_ok w" "ct_id t \<noteq> []"
    and "List.find (\<lambda>t'. ct_id t' = ct_id t) (getThreads (ee_comments X) (el_engine w)) \<noteq> None"
  shows "session_ok X inv w'"
  using set_active_ok [OF assms(1-3)] assms(4,5) by (simp add: session_ok_def thread_kept_def)

lemma close_thread_ok:
  assumes "setActiveCommentThread X None w = (None, w')" "gate_ok X inv w" "panels_ok w"
  shows "session_ok X inv w'"
  using set_active_ok [OF assms] by (simp add: session_ok_def)

lemma closed_list_ok:
  "mode_ok w \<Longrightarrow> panels_ok (w\<lparr>el_commentsListOpen := False\<rparr>)"
  "mode_ok w \<Longrightarrow> panels_ok (w\<lparr>el_suggestionsListOpen := False\<rparr>)"
  by (auto simp: mode_ok_def panels_ok_def)

lemma activated_handlers_ok:
  assumes "session_ok X inv w" "i \<noteq> []"
  shows "handleThreadActivated X i w = (None, w') \<Longrightarrow> session_ok X inv w'"
    "handlePendingSuggestionActivate X i w = (None, w') \<Longrightarrow> session_ok X inv w'"
    "handleResolvedThreadActivate X i w = (None, w') \<Longrightarrow> session_ok X inv w'"
proof -
  note g = session_okD [OF assms(1)]
  have *: "session_ok X inv w'" if "find_thread X i w = Some t" "setActiveCommentThread X (Some t) v = (None, w')"
      "gate_ok X inv v" "panels_ok v" "el_engine v = el_engine w" for t v
    using that assms(2) find_thread_named [OF that(1)]
    by (intro open_thread_ok [OF that(2-4)]) (auto simp: find_thread_def)
  show "handleThreadActivated X i w = (None, w') \<Longrightarrow> session_ok X inv w'"
    using assms g * [of _ w] by (auto simp: handleThreadActivated_def split: if_splits option.splits)
  show "handlePendingSuggestionActivate X i w = (None, w') \<Longrightarrow> session_ok X inv w'"
    using assms(1) g(1) closed_list_ok(2) [OF g(2)] * [of _ "w\<lparr>el_suggestionsListOpen := False\<rparr>"]
    by (auto simp: handlePendingSuggestionActivate_def split: if_splits option.splits)
  show "handleResolvedThreadActivate X i w = (None, w') \<Longrightarrow> session_ok X inv w'"
    using assms(1) g(1) closed_list_ok(1) [OF g(2)] * [of _ "w\<lparr>el_commentsListOpen := False\<rparr>"]
    by (auto simp: handleResolvedThreadActivate_def split: if_splits option.splits)
qed

lemma maybeExit_ok:
  "gate_ok X inv w \<Longrightarrow> panels_ok w \<Longrightarrow> thread_kept X w (el_engine w) \<Longrightarrow>
   session_ok X inv (maybeExitCommentsMode w)"
  by (auto simp: session_ok_def mode_ok_def panels_ok_def maybeExitCommentsMode_def thread_kept_def)

text \<open>Opening a list: the comments mode is entered, and then it has an open panel.\<close>

lemma enter_comments_ok:
  assumes "activateFeatureMode X Comments_Mode w = (None, w')" "session_ok X inv w"
  shows "gate_ok X inv w' \<and> panels_ok w' \<and> el_mode w' = Comments_Mode \<and> thread_kept X w' (el_engine w')"
proof (cases "el_mode w = Comments_Mode")
  case True
  then show ?thesis using assms by (simp add: activateFeatureMode_def session_ok_def mode_ok_def)
next
  case False
  then show ?thesis using assms activate_ok [OF assms(1)]
    by (auto simp: session_ok_def mode_ok_def entered_def panels_ok_def)
qed

lemma list_handlers_ok:
  assumes "session_ok X inv w"
  shows "handleCommentsListToggle X w = (None, w') \<Longrightarrow> session_ok X inv w'"
    "handleSuggestionsListToggle X w = (None, w') \<Longrightarrow> session_ok X inv w'"
    "handleCommentsListClose w = (None, w') \<Longrightarrow> session_ok X inv w'"
    "handleSuggestionsListClose w = (None, w') \<Longrightarrow> session_ok X inv w'"
proof -
  note g = session_okD [OF assms]
  have opened: "session_ok X inv (maybeExitCommentsMode (v\<lparr>el_commentsListOpen := c, el_suggestionsListOpen := s\<rparr>))"
    if "gate_ok X inv v" "panels_ok v" "thread_kept X v (el_engine v)" "el_mode v = Comments_Mode \<or> \<not> c \<and> \<not> s" for v c s
    by (rule maybeExit_ok) (use that in \<open>auto simp: panels_ok_def thread_kept_def\<close>)
  have closed: "panels_ok w \<Longrightarrow> \<not> el_commentsListOpen w \<and> \<not> el_suggestionsListOpen w \<or> el_mode w = Comments_Mode"
    by (auto simp: panels_ok_def)
  have close: "session_ok X inv (maybeExitCommentsMode (w\<lparr>el_commentsListOpen := False\<rparr>))"
      "session_ok X inv (maybeExitCommentsMode (w\<lparr>el_suggestionsListOpen := False\<rparr>))"
    using opened [of w False "el_suggestionsListOpen w"] opened [of w "el_commentsListOpen w" False] g closed
    by auto
  show "handleCommentsListClose w = (None, w') \<Longrightarrow> session_ok X inv w'"
    using close by (simp add: handleCommentsListClose_def)
  show "handleSuggestionsListClose w = (None, w') \<Longrightarrow> session_ok X inv w'"
    using close by (simp add: handleSuggestionsListClose_def)
  show "handleCommentsListToggle X w = (None, w') \<Longrightarrow> session_ok X inv w'"
    using close(1) opened [of _ True False] enter_comments_ok [OF _ assms]
    by (cases "el_commentsListOpen w") (auto simp: handleCommentsListToggle_def seq_normal skip_def Let_def)
  show "session_ok X inv w'" if h: "handleSuggestionsListToggle X w = (None, w')"
  proof (cases "el_suggestionsListOpen w")
    case True
    then show ?thesis using close(2) h by (simp add: handleSuggestionsListToggle_def seq_normal skip_def Let_def)
  next
    case False
    then obtain v where v: "activateFeatureMode X Comments_Mode w = (None, v)"
      and w': "w' = maybeExitCommentsMode (v\<lparr>el_suggestionsListOpen := True, el_commentsListOpen := False\<rparr>)"
      using h by (auto simp: handleSuggestionsListToggle_def seq_normal Let_def)
    have s: "v\<lparr>el_suggestionsListOpen := True, el_commentsListOpen := False\<rparr> =
        v\<lparr>el_commentsListOpen := False, el_suggestionsListOpen := True\<rparr>" by simp
    show ?thesis unfolding w' s using enter_comments_ok [OF v assms] by (intro opened) simp_all
  qed
qed

text \<open>Suggest Mode.\<close>

lemma suggest_toggle_ok:
  assumes "handleSuggestToggle X i c n submit active w = (None, w')" "session_ok X inv w"
    and "active \<or> el_mode w = Suggest_Mode"
  shows "session_ok X inv w'"
proof (cases active)
  case True
  note g = session_okD [OF assms(2)]
  have at: "el_attached w" using g(1) by (simp add: gate_ok_def)
  with assms(1) True obtain w1 where a: "activateFeatureMode X Suggest_Mode w = (None, w1)"
    and w': "w' = (on_suggest (suggest_enable (host_ops X) (serialized X w1)) w1)\<lparr>el_surface :=
      setSuggestActive True (el_surface (on_suggest (suggest_enable (host_ops X) (serialized X w1)) w1))\<rparr>"
    by (auto simp: handleSuggestToggle_def seq_normal Let_def)
  have P: "gate_ok X inv w1 \<and> entered Suggest_Mode w1"
  proof (cases "el_mode w = Suggest_Mode")
    case True
    then have "w1 = w" using a by (simp add: activateFeatureMode_def)
    then show ?thesis using g True by (auto simp: entered_def mode_ok_def panels_ok_def)
  next
    case False
    then show ?thesis using activate_ok [OF a g(1,3)] by simp
  qed
  then have "gate_ok X inv w' \<and> ctl w' = (Suggest_Mode, None, False, False, None, True, el_readonly w1)"
    using enable_ok [of w1 "serialized X w1"] by (simp add: w' entered_def)
  then show ?thesis by (simp add: session_ok_def mode_ok_def panels_ok_def ctl_def)
next
  case False
  note g = session_okD [OF assms(2)]
  have m: "el_mode w = Suggest_Mode" using False assms(3) by simp
  have at: "el_attached w" and e: "entered Suggest_Mode w" and en: "se_enabled (el_suggest w)"
    using g m by (auto simp: gate_ok_def entered_def mode_ok_def panels_ok_def)
  from assms(1) at False obtain w1 where
    s: "(if hasPendingChanges (el_suggest w) (serialized X w) then
           if submit then commitPendingSuggestion X i c n None w
           else (None, on_suggest (suggest_discard (host_ops X)) w)
         else (None, on_suggest (suggest_disable (host_ops X)) w)) = (None, w1)"
    and w': "w' = w1\<lparr>el_mode := No_Mode, el_suggestPendingCount := 0, el_surface := setSuggestActive False (el_surface w1)\<rparr>"
    by (auto simp: handleSuggestToggle_def seq_normal Let_def)
  have "thread_kept X w (el_engine w1)" using e by (simp add: entered_def)
  then have "gate_ok X inv w1 \<and> ctl w1 = (Suggest_Mode, None, False, False, None, False, el_readonly w)"
    using s e commit_ok [OF _ g(1), of i c n None] discard_ok [OF g(1) en] disable_ok [OF g(1)]
    by (auto simp: entered_def split: if_splits)
  then have "gate_ok X inv w' \<and> ctl w' = (No_Mode, None, False, False, None, False, el_readonly w)"
    by (auto simp: w' ctl_def gate_ok_def)
  then show ?thesis by (simp add: session_ok_def mode_ok_def panels_ok_def ctl_def)
qed

lemma note_confirm_ok:
  assumes "handleSuggestNoteConfirm X i c n w = (None, w')" "session_ok X inv w"
  shows "session_ok X inv w'"
proof -
  define w0 where "w0 = w\<lparr>el_noteModalOpen := False\<rparr>"
  have s0: "session_ok X inv w0" using assms(2) by (simp add: session_ok_def w0_def thread_kept_def)
  note g = session_okD [OF s0]
  define nt where "nt = (if length (js_trim (el_noteDraft w)) > 0 then Some (js_trim (el_noteDraft w)) else None)"
  from assms(1) obtain w1 where a: "commitPendingSuggestion X i c n nt w0 = (None, w1)"
    and w': "w' = (if el_attached w1 \<and> el_mode w1 = Suggest_Mode
       then on_suggest (suggest_enable (host_ops X) (serialized X (w1\<lparr>el_noteDraft := []\<rparr>))) (w1\<lparr>el_noteDraft := []\<rparr>)
       else w1\<lparr>el_noteDraft := []\<rparr>)"
    by (auto simp: handleSuggestNoteConfirm_def seq_normal Let_def w0_def nt_def)
  show ?thesis
  proof (cases "el_mode w0 = Suggest_Mode")
    case True
    then have e: "entered Suggest_Mode w0" and "el_attached w0"
      using g by (auto simp: entered_def mode_ok_def panels_ok_def gate_ok_def)
    then have "gate_ok X inv w1 \<and> el_mode w1 = Suggest_Mode \<and> el_previewingThreadId w1 = None
        \<and> el_activeThread w1 = None \<and> \<not> el_commentsListOpen w1 \<and> \<not> el_suggestionsListOpen w1 \<and> el_attached w1"
      using commit_ok [OF a g(1)] by (auto simp: entered_def ctl_def gate_ok_def split: if_splits)
    then have "gate_ok X inv w' \<and> ctl w' = (Suggest_Mode, None, False, False, None, True, el_readonly w1)"
      using enable_ok [of "w1\<lparr>el_noteDraft := []\<rparr>"] by (simp add: w')
    then show ?thesis by (simp add: session_ok_def mode_ok_def panels_ok_def ctl_def)
  next
    case False
    then have "\<not> hasPendingChanges (el_suggest w0) (serialized X w0)"
      using g by (simp add: mode_ok_def panels_ok_def hasPendingChanges_def)
    then have "w1 = w0" using a by (simp add: commit_split split: if_splits)
    then show ?thesis using s0 False by (simp add: w' session_ok_def thread_kept_def)
  qed
qed

lemma suggest_discard_ok:
  assumes "handleSuggestDiscard X w = (None, w')" "session_ok X inv w" "el_mode w = Suggest_Mode"
  shows "session_ok X inv w'"
proof -
  note g = session_okD [OF assms(2)]
  have e: "entered Suggest_Mode w" "el_attached w" "se_enabled (el_suggest w)"
    using g assms(3) by (auto simp: entered_def mode_ok_def panels_ok_def gate_ok_def)
  define w1 where "w1 = on_suggest (suggest_discard (host_ops X)) w"
  have d: "gate_ok X inv w1 \<and> ctl w1 = (Suggest_Mode, None, False, False, None, False, el_readonly w)"
    using discard_ok [OF g(1) e(3)] e(1) by (simp add: w1_def entered_def)
  then have "el_previewingThreadId w1 = None" by (simp add: ctl_def)
  then have "gate_ok X inv w' \<and> ctl w' = (Suggest_Mode, None, False, False, None, True, el_readonly w)"
    using assms(1) e(2) d enable_ok [of w1 "serialized X w1"]
    by (simp add: handleSuggestDiscard_def Let_def flip: w1_def) (auto simp: ctl_def)
  then show ?thesis by (simp add: session_ok_def mode_ok_def panels_ok_def ctl_def)
qed

text \<open>Operations of the comment engine.\<close>

lemma engine_kept:
  assumes "session_ok X inv w" "\<And>i. map_option ct_id (el_activeThread w) = Some i \<Longrightarrow>
      readThread (ee_comments X) (el_engine w) i \<noteq> None \<Longrightarrow> readThread (ee_comments X) e i \<noteq> None"
  shows "thread_kept X w e"
  using assms session_okD(4) [OF assms(1)]
  unfolding thread_kept_ids listed_iff [OF session_map [OF assms(1)]] by simp

lemma engine_becomes_session:
  assumes "engine_becomes X e w = (x, w')" "session_ok X inv w" "thread_kept X w e"
  shows "session_ok X inv w'"
proof -
  have e: "el_engine w' = e" by (rule engine_becomes_engine [OF assms(1)])
  then have k: "gate_ok X inv w'" "ctl w' = ctl w"
    using engine_becomes_ok [OF assms(1) session_okD(1) [OF assms(2)]] assms(3) by simp_all
  show ?thesis
  proof (rule session_okI)
    show "mode_ok w'" using mode_ok_ctl [OF k(2)] session_okD(2) [OF assms(2)] by simp
    show "thread_kept X w' (el_engine w')"
      using thread_kept_transfer [OF assms(3), of w' e] k(2) e by (simp add: ctl_def)
  qed (rule k(1))
qed

lemma engine_op_session:
  assumes "engine_op X f w = (None, w')" "session_ok X inv w"
    and "\<And>e. f (el_engine w) = Inr e \<Longrightarrow> drops_none (ee_comments X) (el_engine w) e"
  shows "session_ok X inv w'"
  using assms engine_becomes_session [OF _ assms(2)] engine_kept [OF assms(2)]
  by (auto simp: engine_op_def drops_none_def split: if_splits sum.splits)

lemma decide_session:
  assumes "decide X n i d w = (None, w')" "session_ok X inv w"
  shows "session_ok X inv w'"
  using assms(1) unfolding decide_def
  by (rule engine_op_session [OF _ assms(2)])
    (auto intro: handler_ops_drop_none [OF session_map [OF assms(2)]])

lemma close_if_active_ok:
  assumes "close_if_active X i w = (None, w')" "session_ok X inv w"
  shows "session_ok X inv w'"
  using assms close_thread_ok [OF _ session_okD(1,3) [OF assms(2)]]
  by (auto simp: close_if_active_def split: if_splits)

lemma comment_handlers_ok:
  assumes s: "session_ok X inv w"
  shows "handleCommentReply X c n i t w = (None, w') \<Longrightarrow> session_ok X inv w'"
    "handleCommentThreadResolve X n i w = (None, w') \<Longrightarrow> session_ok X inv w'"
    "handleCommentThreadReopen X i w = (None, w') \<Longrightarrow> session_ok X inv w'"
    "handleCommentSuggestionReject X n i w = (None, w') \<Longrightarrow> session_ok X inv w'"
    "handleCommentSuggestionDismiss X n i w = (None, w') \<Longrightarrow> session_ok X inv w'"
    "handleCommentAdd X r w = (None, w') \<Longrightarrow> session_ok X inv w'"
proof -
  note ops = handler_ops_drop_none [OF session_map [OF s]]
  show "handleCommentReply X c n i t w = (None, w') \<Longrightarrow> session_ok X inv w'"
    unfolding handleCommentReply_def
    by (erule engine_op_session [OF _ s]) (auto simp: bind_res_def split: sum.splits intro: ops)
  show "handleCommentThreadReopen X i w = (None, w') \<Longrightarrow> session_ok X inv w'"
    unfolding handleCommentThreadReopen_def by (erule engine_op_session [OF _ s]) (auto intro: ops)
  show "session_ok X inv w'" if h: "handleCommentThreadResolve X n i w = (None, w')"
  proof -
    from h obtain w1 where a: "engine_op X (\<lambda>e. Inr (resolveThread (ee_comments X) n i e)) w = (None, w1)"
      and b: "close_if_active X i w1 = (None, w')"
      by (auto simp: handleCommentThreadResolve_def seq_normal)
    have "session_ok X inv w1" by (rule engine_op_session [OF a s]) (auto intro: ops)
    then show ?thesis by (rule close_if_active_ok [OF b])
  qed
  show "handleCommentSuggestionReject X n i w = (None, w') \<Longrightarrow> session_ok X inv w'"
    using decide_session [OF _ s] close_thread_ok session_okD
    by (fastforce simp: handleCommentSuggestionReject_def seq_normal)
  show "handleCommentSuggestionDismiss X n i w = (None, w') \<Longrightarrow> session_ok X inv w'"
    using decide_session [OF _ s] close_thread_ok session_okD
    by (fastforce simp: handleCommentSuggestionDismiss_def seq_normal)
  show "handleCommentAdd X r w = (None, w') \<Longrightarrow> session_ok X inv w'"
    using s session_okD(1,3) [OF s]
    by (auto simp: handleCommentAdd_def createAnchor_def split: if_splits option.splits elim!: close_thread_ok)
qed

lemma draft_submit_ok:
  assumes "handleCommentDraftSubmit X i c n s w = (None, w')" "session_ok X inv w" "i \<noteq> []"
  shows "session_ok X inv w'"
proof (cases "w' = w")
  case False
  with assms(1) obtain d start stop where d: "el_draftAnchor w = Some d" "el_attached w" "js_trim s \<noteq> []"
      "draft_range X d w = Inr (start, stop)"
    by (auto simp: handleCommentDraftSubmit_def split: option.splits if_splits sum.splits)
  define f where "f = (case createAnchor (en_text (ee_comments X)) (ce_text (el_engine w)) start stop of
    (anchor, sr, er) \<Rightarrow> createThread (ee_comments X) i c n anchor sr er (Some (js_trim s)) None)"
  from assms(1) d obtain w1 where a: "engine_op X f w = (None, w1)"
    and b: "(case find_thread X i (w1\<lparr>el_draftAnchor := None\<rparr>) of
        None \<Rightarrow> (None, w1\<lparr>el_draftAnchor := None\<rparr>)
      | Some t \<Rightarrow> setActiveCommentThread X (Some t) (w1\<lparr>el_draftAnchor := None\<rparr>)) = (None, w')"
    by (simp add: handleCommentDraftSubmit_def createAnchor_def seq_normal f_def) blast
  have f: "f e = Inr e' \<Longrightarrow> drops_none (ee_comments X) e e'" for e e'
    using drops_none_ops(3) [OF session_map [OF assms(2)]] by (simp add: f_def createAnchor_def)
  define w2 where "w2 = w1\<lparr>el_draftAnchor := None\<rparr>"
  have "session_ok X inv w1" by (rule engine_op_session [OF a assms(2)]) (rule f)
  then have s2: "session_ok X inv w2" by (simp add: session_ok_def w2_def thread_kept_def)
  show ?thesis
  proof (cases "find_thread X i w2")
    case None
    then show ?thesis using b s2 by (simp add: w2_def)
  next
    case (Some t)
    then have "setActiveCommentThread X (Some t) w2 = (None, w')" using b by (simp add: w2_def)
    then show ?thesis using Some find_thread_named [OF Some] assms(3)
      by (intro open_thread_ok [OF _ session_okD(1,3) [OF s2]]) (auto simp: find_thread_def)
  qed
qed (use assms(2) in simp)

text \<open>Texts and decisions.\<close>

lemma framed_session:
  assumes "session_ok X inv w" "framed w w'" "inv (el_provider w')"
    and "co_outboundOpen (ee_collab X) (el_provider w') = co_outboundOpen (ee_collab X) (el_provider w)"
  shows "session_ok X inv w'"
proof (rule session_ok_same [OF assms(1)])
  show "gate_ok X inv w'" by (rule framed_gate [OF session_okD(1) [OF assms(1)] assms(2-4)])
qed (use assms(2) getThreads_cong in \<open>auto simp: framed_def\<close>)

lemma apply_accepted_frame:
  assumes "apply_accepted X i s w = (x, w')" "inv (el_provider w)"
  shows "framed w w' \<and> inv (el_provider w')
    \<and> co_outboundOpen (ee_collab X) (el_provider w') = co_outboundOpen (ee_collab X) (el_provider w)"
  using assms write_sync_frame [of _ w _ w'] moves_frame inv_writes(3) outbound_writes(3)
  by (fastforce simp: apply_accepted_def split: sum.splits prod.splits if_splits option.splits list.splits)

lemma rebase_session:
  assumes "session_ok X inv w"
  shows "session_ok X inv (w\<lparr>el_suggest := suggest_rebase t (el_suggest w)\<rparr>)"
proof -
  have "se_enabled (suggest_rebase t e) = se_enabled e" "se_destroyed (suggest_rebase t e) = se_destroyed e" for e
    by (simp_all add: suggest_rebase_def)
  then show ?thesis using session_okD(1) [OF assms]
    by (intro session_ok_same [OF assms]) (simp_all add: gate_ok_def ctl_def)
qed

lemma accept_ok:
  assumes "handleCommentSuggestionAccept X n i w = (None, w')" "session_ok X inv w"
  shows "session_ok X inv w'"
proof (cases "w' = w")
  case False
  with assms(1) obtain s w1 where a: "setActiveCommentThread X None w = (None, w1)"
    and b: "try_catch (seq (apply_accepted X i s) (seq (decide X n i Accepted)
        (quiet (\<lambda>w. if el_mode w = Suggest_Mode
           then w\<lparr>el_suggest := suggest_rebase (serialized X w) (el_suggest w)\<rparr> else w))))
      (decide X n i Not_Applicable) w1 = (None, w')"
    by (auto simp: handleCommentSuggestionAccept_def seq_normal [of "setActiveCommentThread X None"]
        split: option.splits if_splits)
  have s1: "session_ok X inv w1" by (rule close_thread_ok [OF a session_okD(1,3) [OF assms(2)]])
  have accepted: "session_ok X inv v" if "apply_accepted X i s w1 = (x, v)" for x v
  proof -
    have "inv (el_provider w1)" using session_okD(1) [OF s1] by (simp add: gate_ok_def)
    from apply_accepted_frame [OF that this] show ?thesis by (intro framed_session [OF s1]) simp_all
  qed
  have decided: "session_ok X inv (snd (decide X n i d v))" if "session_ok X inv v" for d v
    using decide_session [OF _ that, of n i d] decide_normal [of X n i d v]
    by (cases "decide X n i d v") auto
  show ?thesis
  proof (cases "apply_accepted X i s w1")
    case (Pair x v)
    note v = accepted [OF Pair]
    define u where "u = snd (decide X n i (case x of None \<Rightarrow> Accepted | Some _ \<Rightarrow> Not_Applicable) v)"
    have "session_ok X inv u" by (simp add: u_def decided [OF v])
    moreover have "w' = u \<or> w' = u\<lparr>el_suggest := suggest_rebase (serialized X u) (el_suggest u)\<rparr>"
      using b Pair decide_normal [of X n i _ v]
      by (cases x) (auto simp: try_catch_def seq_def quiet_def u_def prod_eq_iff split: prod.splits option.splits if_splits)
    ultimately show ?thesis using rebase_session by blast
  qed
qed (use assms(2) in simp)

lemma text_handlers_ok:
  assumes s: "session_ok X inv w"
  shows "user_types X t w = (None, w') \<Longrightarrow> session_ok X inv w'"
    "peer_text X t w = (None, w') \<Longrightarrow> session_ok X inv w'"
proof -
  have i: "inv (el_provider w)" using s by (simp add: session_ok_def gate_ok_def)
  have c: "session_ok X inv v'" if "on_content_change X v = (None, v')" "session_ok X inv v" for v v'
    using that by (auto simp: on_content_change_def session_ok_def thread_kept_def split: if_splits)
  show "user_types X t w = (None, w') \<Longrightarrow> session_ok X inv w'"
    using s framed_session [OF s] write_editor_frame [OF _ i] c
    by (fastforce simp: user_types_def seq_normal split: if_splits)
  show "peer_text X t w = (None, w') \<Longrightarrow> session_ok X inv w'"
    using s framed_session [OF s] write_sync_frame [OF _ i] c
    by (fastforce simp: peer_text_def seq_normal)
qed

lemma readonly_ok:
  assumes "session_ok X inv w" "el_previewingThreadId w = None"
  shows "session_ok X inv (setReadonly r (w\<lparr>el_readonly := r\<rparr>))"
  using assms setReadonly_frame(1) [of "el_readonly w" False "w\<lparr>el_readonly := r\<rparr>" r]
  by (simp add: session_ok_def gate_ok_def mode_ok_def panels_ok_def thread_kept_def setReadonly_def set_binding_def)

lemma delete_ok:
  assumes "handleCommentThreadDelete X i w = (None, w')" "session_ok X inv w"
    and "map_option ct_id (el_activeThread w) \<noteq> Some i"
  shows "session_ok X inv w'"
proof -
  from assms(1) obtain w1 where
    a: "engine_op X (\<lambda>e. Inr (deleteThread (ee_comments X) i e)) w = (None, w1)"
    and b: "close_if_active X i w1 = (None, w')"
    by (auto simp: handleCommentThreadDelete_def seq_normal)
  have "el_attached w" using assms(2) by (simp add: session_ok_def gate_ok_def)
  then have e: "engine_becomes X (deleteThread (ee_comments X) i (el_engine w)) w = (None, w1)"
    using a by (simp add: engine_op_def)
  have "readThread (ee_comments X) (deleteThread (ee_comments X) i (el_engine w)) j =
      readThread (ee_comments X) (el_engine w) j" if "j \<noteq> i" for j
    using local_write_delete [OF session_map [OF assms(2)], of i "el_engine w"] that by (simp add: local_write_def)
  then have "thread_kept X w (deleteThread (ee_comments X) i (el_engine w))"
    using assms(3) by (intro engine_kept [OF assms(2)]) (metis option.inject)
  then show ?thesis using close_if_active_ok [OF b] engine_becomes_session [OF e assms(2)] by blast
qed

lemma peer_threads_ok:
  assumes "peer_threads X q ks m w = (None, w')" "session_ok X inv w"
    and "thread_kept X w ((el_engine w)\<lparr>ce_map := m\<rparr>)"
  shows "session_ok X inv w'"
proof -
  let ?e = "observe_map (ee_comments X) q ks ((el_engine w)\<lparr>ce_map := m\<rparr>)"
  have "el_attached w" using assms(2) by (simp add: session_ok_def gate_ok_def)
  then have e: "engine_becomes X ?e w = (None, w')" using assms(1) by (simp add: peer_threads_def)
  have "getThreads (ee_comments X) ?e = getThreads (ee_comments X) ((el_engine w)\<lparr>ce_map := m\<rparr>)"
    by (rule getThreads_cong) (simp_all add: observe_map_def notifyListeners_def schedulePersist_def Let_def)
  then have "thread_kept X w ?e" using assms(3) by (simp add: thread_kept_def)
  then show ?thesis by (rule engine_becomes_session [OF e assms(2)])
qed

lemma session_ok_note [simp]:
  "session_ok X inv (w\<lparr>el_noteDraft := s\<rparr>) = session_ok X inv w"
  "session_ok X inv (w\<lparr>el_noteModalOpen := b\<rparr>) = session_ok X inv w"
  "session_ok X inv (w\<lparr>el_draftAnchor := d\<rparr>) = session_ok X inv w"
  by (simp_all add: session_ok_def thread_kept_def)

lemma session_ok_modal [simp]:
  "session_ok X inv (w\<lparr>el_noteModalOpen := b, el_noteDraft := s\<rparr>) = session_ok X inv w"
  by (simp add: session_ok_def thread_kept_def)

lemma feature_step_ok:
  assumes "feature_step X ev w = (None, w')" "session_ok X inv w" "regular X w ev"
  shows "session_ok X inv w'"
proof (cases ev)
  case (Suggest_Toggle i c n s a)
  then show ?thesis using assms suggest_toggle_ok by fastforce
next
  case Suggest_Submit
  then show ?thesis using assms
    by (auto simp: handleSuggestSubmit_def session_ok_def thread_kept_def split: if_splits)
next
  case (Readonly_Set r)
  then show ?thesis using assms readonly_ok by (simp add: updated_readonly_def)
qed (use assms in \<open>auto simp: handleCommentPanelClose_def handleSuggestNoteCancel_def
      handleCommentDraftCancel_def session_ok_note
    intro: close_thread_ok [OF _ session_okD(1,3)]
    elim: blame_handler_ok activated_handlers_ok list_handlers_ok note_confirm_ok suggest_discard_ok
      comment_handlers_ok draft_submit_ok delete_ok accept_ok text_handlers_ok peer_threads_ok\<close>)

end

end
