(* ===== verification/Feature_Properties.thy ===== *)
theory Feature_Properties
  imports Feature_Invariant "HOL-Library.List_Lexorder" "HOL-Library.Product_Lexorder"
begin

text \<open>
  The element on the provider of \<open>Collab_Provider\<close>: the provider fulfils the contract of the locale
  \<open>review_provider\<close>, and the lemmas of that locale become properties of the program.
\<close>

section \<open>Reachable states\<close>

text \<open>The element as a session starts it.\<close>

definition new_element ::
  "bool \<Rightarrow> 'p \<Rightarrow> nat \<Rightarrow> ('t, 'm, 'e, 't) comment_surface \<Rightarrow> blame_coordinator \<Rightarrow> ('e, 't, 'p, 'm) element" where
  "new_element readonly p j s bl =
     \<lparr>el_mode = No_Mode, el_attached = True, el_readonly = readonly, el_provider = p, el_text = j,
      el_surface = s, el_blame = bl, el_suggest = suggest_new, el_activeThread = None,
      el_commentsListOpen = False, el_suggestionsListOpen = False, el_previewingThreadId = None,
      el_suggestPendingCount = 0, el_noteModalOpen = False, el_noteDraft = [], el_draftAnchor = None,
      el_resolvedThreads = [], el_pendingSuggestionThreads = []\<rparr>"

inductive reaches ::
  "('e, 't, 'p, 'm) element_env \<Rightarrow> ('e, 't, 'p, 'm) element \<Rightarrow> ('e, 't, 'p, 'm) element \<Rightarrow> bool"
  for X w0 where
  start: "reaches X w0 w0"
| step: "reaches X w0 w \<Longrightarrow> regular X w ev \<Longrightarrow> feature_step X ev w = (None, w') \<Longrightarrow> reaches X w0 w'"

text \<open>The stored thread behind a listed one.\<close>

lemma find_thread_stored:
  assumes "ymap_laws (en_map (ee_comments X))" "find_thread X i w = Some t"
  obtains st where "readThread (ee_comments X) (el_engine w) i = Some st" "st_suggestion st = ct_suggestion t"
proof -
  let ?es = "ym_entries (en_map (ee_comments X)) (ce_map (el_engine w))"
  have "t \<in> set (getThreads (ee_comments X) (el_engine w))" and n: "ct_id t = i"
    using assms(2) unfolding find_thread_def by (auto simp: find_Some_iff)
  then obtain k raw st where e: "(k, raw) \<in> set ?es" "asStoredThread (Some raw) = Some st"
    and t: "t = toWireThread k st (ce_documentId (el_engine w))"
    by (auto simp: getThreads_def List.map_filter_def)
  moreover have "map_of ?es k = Some raw"
    using e(1) ymap_entries [OF assms(1)] by (metis map_of_eq_Some_iff)
  ultimately have "readThread (ee_comments X) (el_engine w) i = Some st"
    using ymap_entries [OF assms(1), of "ce_map (el_engine w)"] n
    by (simp add: readThread_def toWireThread_def)
  then show ?thesis using t by (intro that [of st]) (simp_all add: toWireThread_def)
qed

text \<open>Every stored anchor of the threads resolves without an exception, whatever the text.\<close>

definition anchors_resolve :: "('t, 'm) comment_env \<Rightarrow> ('t, 'm) engine \<Rightarrow> bool" where
  "anchors_resolve E e \<longleftrightarrow> (\<forall>col t. \<exists>ovs. getSuggestionOverlays E col (e\<lparr>ce_text := t\<rparr>) = Inr ovs)"

lemma fst_on_comments: "fst (on_comments a w) = fst (a (el_surface w))"
  by (simp add: on_comments_def split: prod.split)

lemma moves_normal:
  assumes "anchors_resolve (ee_comments X) (el_engine w)"
  shows "fst (provider_moves X p w) = None"
proof -
  have *: "fst (on_text_change (ee_comments X) s) = None"
    if e: "cs_engine s = (el_engine w)\<lparr>ce_text := ee_syncText X p\<rparr>" for s
  proof -
    obtain ovs where "getSuggestionOverlays (ee_comments X) (user_color (cs_co s)) (cs_engine s) = Inr ovs"
      using assms unfolding anchors_resolve_def e by metis
    then show ?thesis by (simp add: on_text_change_def pushDecorations_def Let_def)
  qed
  show ?thesis
    by (auto simp: provider_moves_def set_binding_def Let_def fst_on_comments intro!: *)
qed

text \<open>The note of the dialogue.\<close>

definition dialogue_note :: "('e, 't, 'p, 'm) element \<Rightarrow> jsstring option" where
  "dialogue_note w = (if length (js_trim (el_noteDraft w)) > 0 then Some (js_trim (el_noteDraft w)) else None)"

text \<open>What a notification of the engine does to the element.\<close>

lemma notified_frame:
  assumes "engine_becomes X e w = (x, w')" "ce_notified e \<noteq> ce_notified (el_engine w)"
  shows "el_activeThread w' = (case el_activeThread w of None \<Rightarrow> None
      | Some a \<Rightarrow> List.find (\<lambda>t. ct_id t = ct_id a) (getThreads (ee_comments X) e))
    \<and> el_mode w' = el_mode w \<and> el_previewingThreadId w' = el_previewingThreadId w
    \<and> el_provider w' = el_provider w \<and> (surf_ok r m (el_surface w) \<longrightarrow> surf_ok r m (el_surface w'))"
proof -
  define w1 where "w1 = refresh_threads X (w\<lparr>el_surface := (el_surface w)\<lparr>cs_engine := e\<rparr>\<rparr>)"
  obtain y f where f: "on_threads (ee_comments X) (el_surface w1) = (y, f)" by fastforce
  have "w' = w1\<lparr>el_surface := f\<rparr>"
    using assms f
    by (simp add: engine_becomes_def threads_changed_def swallow_def seq_def quiet_def on_comments_def
        Let_def flip: w1_def)
  moreover have "surf_ok r m (el_surface w) \<Longrightarrow> surf_ok r m f"
    by (rule coordinator_ok(2) [OF f]) (simp add: w1_def refresh_threads_def surf_ok_def Let_def)
  ultimately show ?thesis by (simp add: w1_def refresh_threads_def Let_def split: option.split)
qed

lemma delete_notifies:
  assumes "ce_listeners e \<noteq> []" "readThread E e i \<noteq> None"
  shows "ce_notified (deleteThread E i e) \<noteq> ce_notified e"
  using assms
  by (auto simp: deleteThread_def map_delete_def observe_map_def notifyListeners_def schedulePersist_def
      readThread_def asStoredThread_def Let_def split: option.splits)

lemma commit_normal: "fst (commitPendingSuggestion X i c n a w) = None"
  by (simp add: commitPendingSuggestion_def swallow_def Let_def split: sum.split prod.split)

context review_provider
begin

lemma new_element_ok:
  assumes "inv p" "co_outboundOpen (ee_collab X) p" "surf_ok readonly False s"
  shows "session_ok X inv (new_element readonly p j s bl)"
  using assms
  by (simp add: session_ok_def gate_ok_def mode_ok_def panels_ok_def new_element_def suggest_new_def)

lemma reaches_ok: "reaches X w0 w \<Longrightarrow> session_ok X inv w0 \<Longrightarrow> session_ok X inv w"
  by (induction rule: reaches.induct) (auto intro: feature_step_ok)

text \<open>A preview changes the editor only, and closing the panel takes it back.\<close>

lemma preview_effect:
  assumes Y: "ytext_laws (text_ops X)" and s: "session_ok X inv w"
    and "handleThreadActivated X i w = (None, w')" "i \<noteq> []" "find_thread X i w = Some t"
    and "ct_suggestion t = Some sg" "sg_status sg = Pending"
    and "resolveAnchorById (ee_comments X) (el_engine w) i = Inr (Some (f, u))"
    and r: "0 \<le> f" "f \<le> u" "u \<le> int (length (co_editorText (ee_collab X) (el_provider w)))"
    and "el_mode w \<noteq> Suggest_Mode" "el_previewingThreadId w = None"
  shows "el_previewingThreadId w' = Some i
    \<and> co_syncText (ee_collab X) (el_provider w') = co_syncText (ee_collab X) (el_provider w)
    \<and> co_editorText (ee_collab X) (el_provider w') =
        take (nat f) (co_editorText (ee_collab X) (el_provider w)) @ sv_after_text (sg_human_readable sg)
          @ drop (nat u) (co_editorText (ee_collab X) (el_provider w))"
proof -
  note g = session_okD [OF s]
  have i: "inv (el_provider w)" "el_attached w" using g(1) by (simp_all add: gate_ok_def)
  have n: "ct_id t = i" by (rule find_thread_named [OF assms(5)])
  have a: "setActiveCommentThread X (Some t) w = (None, w')"
    using assms(3-5) i by (simp add: handleThreadActivated_def)
  let ?p = "co_setOutboundOpen (ee_collab X) False (el_provider w)"
  have "yt_toString (text_ops X) (ee_editorText X ?p) = co_editorText (ee_collab X) (el_provider w)"
    using i by (simp add: texts_shown provider_simps)
  with tryApply_in_range [OF Y r(1,2), of "ee_editorText X ?p" "sv_after_text (sg_human_readable sg)"]
    open_preview [OF a g(1,3), of sg "(f, u)"] n assms show ?thesis by simp
qed

lemma close_preview_effect:
  assumes "session_ok X inv w" "handleCommentPanelClose X w = (None, w')" "el_previewingThreadId w \<noteq> None"
  shows "el_previewingThreadId w' = None
    \<and> co_syncText (ee_collab X) (el_provider w') = co_syncText (ee_collab X) (el_provider w)
    \<and> co_editorText (ee_collab X) (el_provider w') = co_syncText (ee_collab X) (el_provider w)
    \<and> co_outboundOpen (ee_collab X) (el_provider w')"
proof -
  note g = session_okD [OF assms(1)]
  have "inv (el_provider w)" using g(1) by (simp add: gate_ok_def)
  with close_preview [OF assms(2) [unfolded handleCommentPanelClose_def] g(1,3) assms(3)] show ?thesis
    by (simp add: provider_simps reset_open)
qed

lemma write_sync_after_reset:
  assumes "write_sync X t w = (x, v)" "inv p" "el_provider w = co_resetEditorDoc (ee_collab X) p"
  shows "co_editorText (ee_collab X) (el_provider v) = yt_toString (text_ops X) t"
proof (cases "t = ee_syncText X (el_provider w)")
  case True
  then show ?thesis using assms by (simp add: write_sync_def texts_shown provider_simps)
next
  case False
  then have "provider_moves X (ee_writeSync X t (el_provider w)) w = (x, v)"
    using assms(1) by (simp add: write_sync_def)
  from moves_frame [OF this] assms(2,3) show ?thesis by (simp add: write_sync_replicated)
qed

lemma decide_effect:
  assumes "decide X n i d w = (x, w')" "gate_ok X inv w" "el_activeThread w = None"
    and "readThread (ee_comments X) (el_engine w) i = Some st" "st_suggestion st = Some sg"
  shows "el_provider w' = el_provider w \<and> ctl w' = ctl w
    \<and> (\<exists>st' sg'. readThread (ee_comments X) (el_engine w') i = Some st' \<and> st_status st' = Resolved_Thread
        \<and> st_suggestion st' = Some sg' \<and> sg_status sg' = d)"
proof -
  have i: "el_attached w" "ymap_laws (en_map (ee_comments X))"
    using assms(2) threads_map by (auto simp: gate_ok_def)
  then have e: "engine_becomes X (decideSuggestion (ee_comments X) n i d None (el_engine w)) w = (x, w')"
    using assms(1) by (simp add: decide_def engine_op_def)
  have "el_provider w' = el_provider w \<and> ctl w' = ctl w"
    using engine_becomes_ok [OF e assms(2)] assms(3) by simp
  moreover have "el_engine w' = decideSuggestion (ee_comments X) n i d None (el_engine w)"
    by (rule engine_becomes_engine [OF e])
  ultimately show ?thesis using assms(4,5) i(2)
    by (simp add: decideSuggestion_def mutateThread_def)
qed

text \<open>The \<open>try\<close> block of the accept handler, once the attempt to apply the suggestion is known.\<close>

lemma accept_decides:
  assumes "try_catch (seq (apply_accepted X i sg) (seq (decide X n i Accepted)
      (quiet (\<lambda>w. if el_mode w = Suggest_Mode
         then w\<lparr>el_suggest := suggest_rebase (serialized X w) (el_suggest w)\<rparr> else w))))
      (decide X n i Not_Applicable) w1 = (None, w')"
    and "apply_accepted X i sg w1 = (x, v)"
  defines "z \<equiv> snd (decide X n i (case x of None \<Rightarrow> Accepted | Some _ \<Rightarrow> Not_Applicable) v)"
  shows "el_provider w' = el_provider z \<and> el_engine w' = el_engine z
    \<and> el_previewingThreadId w' = el_previewingThreadId z"
  using assms(1,2) decide_normal [of X n i Accepted v] unfolding z_def
  by (cases x) (auto simp: try_catch_def seq_def quiet_def split: prod.splits option.splits if_splits)

text \<open>Accepting the previewed suggestion ends the preview and replaces the anchored range of the shared
  text; the editor shows the result and the thread is decided: as accepted, unless telling the
  coordinators of the new text throws, in which case it is decided as not applicable.\<close>

lemma accept_effect:
  assumes Y: "ytext_laws (text_ops X)" and s: "session_ok X inv w" "el_previewingThreadId w \<noteq> None"
    and "handleCommentSuggestionAccept X n i w = (None, w')" and t: "find_thread X i w = Some t"
    and sg: "ct_suggestion t = Some sg"
    and a: "resolveAnchorById (ee_comments X) (el_engine w) i = Inr (Some (f, u))"
    and r: "0 \<le> f" "f \<le> u" "u \<le> int (length (co_syncText (ee_collab X) (el_provider w)))"
  shows "co_syncText (ee_collab X) (el_provider w') =
        take (nat f) (co_syncText (ee_collab X) (el_provider w)) @ sv_after_text (sg_human_readable sg)
          @ drop (nat u) (co_syncText (ee_collab X) (el_provider w))
    \<and> co_editorText (ee_collab X) (el_provider w') = co_syncText (ee_collab X) (el_provider w')
    \<and> el_previewingThreadId w' = None \<and> co_outboundOpen (ee_collab X) (el_provider w')
    \<and> (\<exists>st' sg'. readThread (ee_comments X) (el_engine w') i = Some st' \<and> st_status st' = Resolved_Thread
        \<and> st_suggestion st' = Some sg' \<and> sg_status sg' \<in> {Accepted, Not_Applicable}
        \<and> (anchors_resolve (ee_comments X) (el_engine w) \<longrightarrow> sg_status sg' = Accepted))"
proof -
  note g = session_okD [OF s(1)]
  have i: "inv (el_provider w)" "el_attached w" using g(1) by (simp_all add: gate_ok_def)
  let ?rebase = "quiet (\<lambda>w. if el_mode w = Suggest_Mode
       then w\<lparr>el_suggest := suggest_rebase (serialized X w) (el_suggest w)\<rparr> else w)"
  let ?body = "seq (apply_accepted X i sg) (seq (decide X n i Accepted) ?rebase)"
  from assms(4) t sg i obtain w1 where c: "setActiveCommentThread X None w = (None, w1)"
    and b: "try_catch ?body (decide X n i Not_Applicable) w1 = (None, w')"
    by (auto simp: handleCommentSuggestionAccept_def seq_normal [of "setActiveCommentThread X None"])
  note p1 = close_preview [OF c g(1,3) s(2)]
  note g1 = set_active_ok [OF c g(1,3)]
  define tx where "tx = snd (tryApplyTextSuggestion (text_ops X) (ee_syncText X (el_provider w1)) (Some (f, u))
    (sv_after_text (sg_human_readable sg)))"
  have shown: "yt_toString (text_ops X) (ee_syncText X (el_provider w1)) = co_syncText (ee_collab X) (el_provider w)"
    using i p1 by (simp add: texts_shown provider_simps)
  note ap = tryApply_in_range [OF Y r(1,2), of "ee_syncText X (el_provider w1)" "sv_after_text (sg_human_readable sg)"]
  obtain x v where v: "write_sync X tx w1 = (x, v)" by fastforce
  have eq: "tryApplyTextSuggestion (text_ops X) (ee_syncText X (el_provider w1)) (Some (f, u))
      (sv_after_text (sg_human_readable sg)) = (True, tx)"
    using ap shown r(3) by (simp add: tx_def prod_eq_iff)
  have eng: "el_engine w1 = el_engine w" using p1 by simp
  have v': "apply_accepted X i sg w1 = (x, v)"
    using a v by (simp add: apply_accepted_def eq eng)
  have ok: "anchors_resolve (ee_comments X) (el_engine w) \<Longrightarrow> x = None"
    using v moves_normal [of X w1] p1 by (auto simp: write_sync_def split: if_splits) (metis fst_conv)
  note fr = write_sync_frame [OF v]
  have gv: "gate_ok X inv v" "el_activeThread v = None"
    using fr g1 p1 framed_gate [of X inv w1 v] i by (auto simp: framed_def provider_simps gate_ok_def)
  obtain st where st: "readThread (ee_comments X) (el_engine w) i = Some st" "st_suggestion st = Some sg"
    using find_thread_stored [OF threads_map [OF i(1)] t] sg by auto
  have rv: "readThread (ee_comments X) (el_engine v) i = Some st"
    using st(1) fr p1 i readThread_cong [of "el_engine v" "el_engine w"] by (simp add: framed_def provider_simps)
  define d where "d = (case x of None \<Rightarrow> Accepted | Some _ \<Rightarrow> Not_Applicable)"
  define z where "z = snd (decide X n i d v)"
  note dz = decide_effect [OF prod.collapse [symmetric] gv rv st(2), of n d, folded z_def]
  have w': "el_provider w' = el_provider z \<and> el_engine w' = el_engine z
      \<and> el_previewingThreadId w' = el_previewingThreadId z"
    using accept_decides [OF b v'] by (simp add: z_def d_def)
  have "el_previewingThreadId z = None" using dz fr p1 g1 by (auto simp: framed_def ctl_def gate_ok_def)
  moreover have "inv (el_provider w1)" using g1 by (simp add: gate_ok_def)
  then have "co_syncText (ee_collab X) (el_provider v) = yt_toString (text_ops X) tx"
    "co_outboundOpen (ee_collab X) (el_provider v)"
    using fr p1 reset_open [OF i(1)] by simp_all
  moreover have "co_editorText (ee_collab X) (el_provider v) = yt_toString (text_ops X) tx"
    using write_sync_after_reset [OF v i(1)] p1 by simp
  moreover have "yt_toString (text_ops X) tx =
      take (nat f) (co_syncText (ee_collab X) (el_provider w)) @ sv_after_text (sg_human_readable sg)
        @ drop (nat u) (co_syncText (ee_collab X) (el_provider w))"
    using ap shown r(3) by (simp add: tx_def)
  moreover have "d \<in> {Accepted, Not_Applicable}" "anchors_resolve (ee_comments X) (el_engine w) \<longrightarrow> d = Accepted"
    using ok by (auto simp: d_def split: option.split)
  ultimately show ?thesis using dz w' by auto
qed

text \<open>Deleting the thread under preview.\<close>

lemma delete_preview_effect:
  assumes s: "session_ok X inv w" "el_previewingThreadId w = Some i" "ce_listeners (el_engine w) \<noteq> []"
    and "handleCommentThreadDelete X i w = (x, w')"
  shows "x = None \<and> el_activeThread w' = None \<and> el_mode w' = Comments_Mode \<and> el_previewingThreadId w' = Some i
    \<and> el_provider w' = el_provider w \<and> surf_ok True True (el_surface w')"
proof -
  note g = session_okD [OF s(1)]
  have at: "el_attached w" and so: "surf_ok True True (el_surface w)" using g(1) s(2) by (simp_all add: gate_ok_def)
  obtain a where a: "el_activeThread w = Some a" "ct_id a = i" and m: "el_mode w = Comments_Mode"
    using g(3) s(2) by (auto simp: panels_ok_def)
  define e where "e = deleteThread (ee_comments X) i (el_engine w)"
  have there: "readThread (ee_comments X) (el_engine w) i \<noteq> None"
    using g(4) a unfolding thread_kept_ids listed_iff [OF session_map [OF s(1)]] by simp
  have gone: "readThread (ee_comments X) e i = None"
    using session_map [OF s(1)] readThread_cong [of e "map_delete (ee_comments X) False i (el_engine w)"]
    by (simp add: e_def deleteThread_def Let_def)
  define w1 where "w1 = snd (engine_becomes X e w)"
  have w1: "engine_becomes X e w = (None, w1)"
    by (simp add: w1_def engine_becomes_def threads_changed_def swallow_def Let_def)
  then have c: "close_if_active X i w1 = (x, w')"
    using assms(4) at by (simp add: handleCommentThreadDelete_def seq_def engine_op_def flip: e_def)
  have "ce_notified e \<noteq> ce_notified (el_engine w)" unfolding e_def by (rule delete_notifies [OF s(3) there])
  note n = notified_frame [OF w1 this, of True True]
  have "el_activeThread w1 = None"
    using n a gone listed_iff [OF session_map [OF s(1)], of i e] by auto
  then show ?thesis using c n m s(2) so by (simp add: close_if_active_def)
qed

text \<open>Submitting a draft from the note dialogue.\<close>

lemma note_confirm_effect:
  assumes s: "session_ok X inv w" "el_mode w = Suggest_Mode"
    and "hasPendingChanges (el_suggest w) (serialized X w)"
    and "handleSuggestNoteConfirm X i c n w = (x, w')"
    and payload: "buildSuggestion (el_suggest w) (dialogue_note w) (serialized X w) = Inr payload"
  shows "x = None \<and> el_engine w' = (case commitSuggestion (ee_comments X) i c n payload (el_engine w) of
        Inl _ \<Rightarrow> el_engine w | Inr e \<Rightarrow> e)
    \<and> co_syncText (ee_collab X) (el_provider w') = co_syncText (ee_collab X) (el_provider w)
    \<and> co_editorText (ee_collab X) (el_provider w') = co_syncText (ee_collab X) (el_provider w)
    \<and> se_enabled (el_suggest w') \<and> el_mode w' = Suggest_Mode"
proof -
  define w0 where "w0 = w\<lparr>el_noteModalOpen := False\<rparr>"
  have e: "el_attached w0" "se_enabled (el_suggest w0)" "gate_ok X inv w0" "serialized X w0 = serialized X w"
      "el_suggest w0 = el_suggest w" "inv (el_provider w)" "el_engine w0 = el_engine w" "el_activeThread w0 = None"
      "el_mode w0 = Suggest_Mode" "\<not> se_destroyed (el_suggest w)" "el_provider w0 = el_provider w"
    using session_okD [OF s(1)] s(2)
    by (auto simp: w0_def gate_ok_def serialized_def mode_ok_def panels_ok_def)
  define wd where "wd = on_suggest (suggest_discard (host_ops X)) w0"
  note d = discard_ok [OF e(3,2), folded wd_def]
  have da: "el_attached wd" "el_activeThread wd = None" "el_mode wd = Suggest_Mode" "el_previewingThreadId wd = None"
    using d e(8,9) by (auto simp: gate_ok_def ctl_def)
  let ?f = "commitSuggestion (ee_comments X) i c n payload"
  define w1 where "w1 = snd (commitPendingSuggestion X i c n (dialogue_note w) w0)"
  have c: "commitPendingSuggestion X i c n (dialogue_note w) w0 = (None, w1)"
    by (simp add: w1_def prod_eq_iff commit_normal)
  then have x: "x = None" and w': "w' = (if el_attached w1 \<and> el_mode w1 = Suggest_Mode
       then on_suggest (suggest_enable (host_ops X) (serialized X (w1\<lparr>el_noteDraft := []\<rparr>))) (w1\<lparr>el_noteDraft := []\<rparr>)
       else w1\<lparr>el_noteDraft := []\<rparr>)"
    using assms(4) by (auto simp: handleSuggestNoteConfirm_def dialogue_note_def seq_def quiet_def Let_def w0_def)
  have w1: "w1 = snd (seq (engine_op X ?f) (quiet (\<lambda>w. w\<lparr>el_suggestPendingCount := 0\<rparr>)) wd)"
    using c e(1,4,5) assms(3) payload by (simp add: commit_split swallow_def wd_def)
  have k: "el_engine w1 = (case ?f (el_engine w) of Inl _ \<Rightarrow> el_engine w | Inr z \<Rightarrow> z)
      \<and> el_provider w1 = el_provider wd \<and> gate_ok X inv w1 \<and> ctl w1 = ctl wd"
  proof (cases "?f (el_engine w)")
    case (Inl err)
    then show ?thesis using da d e(7) by (simp add: w1 seq_def engine_op_def)
  next
    case (Inr z)
    obtain x w2 where w2: "engine_becomes X z wd = (x, w2)" by fastforce
    from engine_becomes_ok [OF w2] d da engine_becomes_engine [OF w2]
    have "gate_ok X inv w2 \<and> ctl w2 = ctl wd \<and> el_provider w2 = el_provider wd \<and> el_engine w2 = z" by simp
    then show ?thesis using Inr da d e(7) w2
      by (cases x) (simp_all add: w1 seq_def quiet_def engine_op_def)
  qed
  then have m1: "el_mode w1 = Suggest_Mode" "\<not> se_enabled (el_suggest w1)" "el_attached w1"
      "\<not> se_destroyed (el_suggest w1)" "inv (el_provider w1)"
    using d e(9) by (auto simp: ctl_def gate_ok_def)
  then show ?thesis using k d e(11) x by (simp add: w' suggest_enable_eq provider_simps)
qed

end

section \<open>The provider behind the element\<close>

text \<open>
  \<open>tx d\<close> is the state of \<open>d.getText('source')\<close>, \<open>enc d t\<close> the update of a transaction that turns the
  text of \<open>d\<close> into \<open>t\<close>, \<open>dec\<close> decodes a stored base64 update or throws. The laws: the text is the one the
  document shows, and a local transaction applies and has the effect it is for.
\<close>

definition text_update_laws ::
  "('d, 'u, 'o) ydoc_ops \<Rightarrow> 't ytext_ops \<Rightarrow> ('d \<Rightarrow> 't) \<Rightarrow> ('d \<Rightarrow> 't \<Rightarrow> 'u) \<Rightarrow> bool" where
  "text_update_laws D T tx enc \<longleftrightarrow>
     (\<forall>d. yt_toString T (tx d) = yd_text D d)
     \<and> (\<forall>d t. yd_ready D d (enc d t) \<and> yd_text D (yd_applyUpdate D d (enc d t)) = yt_toString T t)"

definition provider_env ::
  "('e, 't) host_env \<Rightarrow> ('t, 'm) comment_env \<Rightarrow> ('d, 'u, 'o) ydoc_ops \<Rightarrow> ('d \<Rightarrow> 't) \<Rightarrow> ('d \<Rightarrow> 't \<Rightarrow> 'u) \<Rightarrow>
   (jsstring \<Rightarrow> jsstring + 'u) \<Rightarrow> (nat \<Rightarrow> blame_segment list) \<Rightarrow> ('e, 't, ('d, 'n) provider, 'm) element_env" where
  "provider_env H E D tx enc dec live =
     \<lparr>ee_host = H, ee_comments = E, ee_collab = provider_ops D,
      ee_editorText = (\<lambda>p. tx (rp_editorDoc (cp_replicator p))),
      ee_writeEditor = (\<lambda>t p. p\<lparr>cp_replicator :=
        editor_update D (enc (rp_editorDoc (cp_replicator p)) t) (Local_Origin 0) (cp_replicator p)\<rparr>),
      ee_syncText = (\<lambda>p. tx (rp_syncDoc (cp_replicator p))),
      ee_writeSync = (\<lambda>t p. provider_sync_update D (enc (rp_syncDoc (cp_replicator p)) t) (Local_Origin 0) p),
      ee_applyPayload = (\<lambda>s p. bind_res (dec s) (\<lambda>u. Inr (provider_sync_update D u (Local_Origin 0) p))),
      ee_live = live\<rparr>"

lemma remote_listener_local [simp]: "remote_listener (Local_Origin k) q = q"
  by (auto simp: remote_listener_def)

lemma remote_listeners_local [simp]: "(remote_listener (Local_Origin k) ^^ n) q = q"
  by (induction n) simp_all

lemma provider_sync_replicator:
  "cp_replicator (provider_sync_update D u (Local_Origin k) p) = sync_update D u (Local_Origin k) (cp_replicator p)"
  by (simp add: provider_sync_update_def Let_def split: option.split)

lemma sync_update_syncDoc: "rp_syncDoc (sync_update D u orig r) = yd_applyUpdate D (rp_syncDoc r) u"
  and editor_update_editorDoc: "rp_editorDoc (editor_update D u orig r) = yd_applyUpdate D (rp_editorDoc r) u"
  and editor_update_gated: "\<not> rp_outboundOpen r \<Longrightarrow> rp_syncDoc (editor_update D u orig r) = rp_syncDoc r"
  by (auto simp: sync_update_eq editor_update_eq split: option.split)

definition provider_laws ::
  "('e, 't) host_env \<Rightarrow> ('t, 'm) comment_env \<Rightarrow> ('d, 'u, 'o) ydoc_ops \<Rightarrow> ('d \<Rightarrow> 't) \<Rightarrow> ('d \<Rightarrow> 't \<Rightarrow> 'u) \<Rightarrow> bool" where
  "provider_laws H E D tx enc \<longleftrightarrow>
     ydoc_laws D \<and> text_update_laws D (be_text (hv_env H)) tx enc \<and> ymap_laws (en_map E)"

lemma write_after_reset:
  assumes "ydoc_laws D" "yd_ready D (rp_syncDoc (cp_replicator p)) u"
  shows "yd_text D (rp_editorDoc (sync_update D u (Local_Origin k) (cp_replicator (resetEditorDoc D p)))) =
    yd_text D (yd_applyUpdate D (rp_syncDoc (cp_replicator p)) u)"
proof -
  let ?r = "cp_replicator (resetEditorDoc D p)"
  have "mirrored D (sync_update D u (Local_Origin k) ?r)"
    using mirrored_step [of D ?r "Sync_Event u (Local_Origin k)"] assms resetEditorDoc_replicator [OF assms(1), of p]
    by simp
  from mirrored_text [OF assms(1) this] show ?thesis
    by (simp add: sync_update_syncDoc resetEditorDoc_replicator [OF assms(1)])
qed

interpretation reviewed: review_provider "provider_env H E D tx enc dec live" "\<lambda>_. provider_laws H E D tx enc"
  for H :: "('e, 't) host_env" and E :: "('t, 'm) comment_env" and D :: "('d, 'u, 'o) ydoc_ops"
    and tx enc dec live
proof (unfold_locales, goal_cases)
  case (1 c b) then show ?case by simp
next
  case (2 c) then show ?case by simp
next
  case (3 c b) then show ?case by (simp add: provider_env_def provider_ops_def)
next
  case (4 c b) then show ?case by (simp add: provider_env_def provider_ops_def)
next
  case (5 c b) then show ?case by (simp add: provider_env_def provider_ops_def)
next
  case (6 c) then show ?case
    by (simp add: provider_env_def provider_ops_def provider_laws_def resetEditorDoc_replicator)
next
  case (7 c) then show ?case
    by (simp add: provider_env_def provider_ops_def provider_laws_def resetEditorDoc_text)
qed (auto simp: provider_env_def provider_ops_def provider_laws_def text_update_laws_def text_ops_def
      resetEditorDoc_replicator provider_sync_replicator sync_update_syncDoc editor_update_editorDoc
      editor_update_gated write_after_reset bind_res_def split: sum.splits)

section \<open>A document that holds a text\<close>

text \<open>A register: an operation is a numbered text, and the document shows the greatest one. It obeys the
  laws of documents, and writing a text is possible.\<close>

definition register_doc :: "((nat \<times> jsstring) list, (nat \<times> jsstring) list, nat \<times> jsstring) ydoc_ops" where
  "register_doc =
     \<lparr>yd_new = (\<lambda>_. []),
      yd_applyUpdate = (\<lambda>d u. d @ filter (\<lambda>x. x \<notin> set d) u),
      yd_emitted = (\<lambda>d u. let n = filter (\<lambda>x. x \<notin> set d) u in if n = [] then None else Some n),
      yd_encodeState = (\<lambda>d. d),
      yd_text = (\<lambda>d. if d = [] then [] else snd (Max (set d))),
      yd_ops = set, yu_ops = set, yd_ready = (\<lambda>_ _. True)\<rparr>"

definition register_write :: "(nat \<times> jsstring) list \<Rightarrow> jsstring \<Rightarrow> (nat \<times> jsstring) list" where
  "register_write d t = [(if d = [] then 0 else Suc (fst (Max (set d))), t)]"

lemma register_doc_laws: "ydoc_laws register_doc"
  by (auto simp: ydoc_laws_def register_doc_def Let_def filter_empty_conv split: if_splits)

lemma register_write_laws: "text_update_laws register_doc plain_text (yd_text register_doc) register_write"
proof -
  have "yd_text register_doc (yd_applyUpdate register_doc d (register_write d t)) = t" for d t
  proof (cases "d = []")
    case False
    define x where "x = (Suc (fst (Max (set d))), t)"
    have le: "y \<le> Max (set d)" if "y \<in> set d" for y using that by simp
    have "y \<le> x" if "y \<in> set d" for y
      using le [OF that] by (cases "Max (set d)"; cases y) (auto simp: x_def less_eq_prod_def)
    then have "Max (insert x (set d)) = x" by (intro Max_eqI) auto
    moreover have "set (d @ filter (\<lambda>y. y \<notin> set d) [x]) = insert x (set d)" by auto
    ultimately show ?thesis using False
      by (auto simp: register_doc_def register_write_def x_def)
  qed (simp add: register_doc_def register_write_def)
  then show ?thesis by (simp add: text_update_laws_def register_doc_def plain_text_def)
qed

section \<open>Properties\<close>

text \<open>What the shared document shows, what the editor's document shows, and whether local edits reach
  the peers.\<close>

definition shared_text :: "('d, 'u, 'o) ydoc_ops \<Rightarrow> ('e, 't, ('d, 'n) provider, 'm) element \<Rightarrow> jsstring" where
  "shared_text D w = yd_text D (rp_syncDoc (cp_replicator (el_provider w)))"

definition editor_text :: "('d, 'u, 'o) ydoc_ops \<Rightarrow> ('e, 't, ('d, 'n) provider, 'm) element \<Rightarrow> jsstring" where
  "editor_text D w = yd_text D (rp_editorDoc (cp_replicator (el_provider w)))"

definition gate_open :: "('e, 't, ('d, 'n) provider, 'm) element \<Rightarrow> bool" where
  "gate_open w \<longleftrightarrow> rp_outboundOpen (cp_replicator (el_provider w))"

lemma provider_env_texts:
  "co_syncText (ee_collab (provider_env H E D tx enc dec live)) (el_provider w) = shared_text D w"
  "co_editorText (ee_collab (provider_env H E D tx enc dec live)) (el_provider w) = editor_text D w"
  "co_outboundOpen (ee_collab (provider_env H E D tx enc dec live)) (el_provider w) = gate_open w"
  "text_ops (provider_env H E D tx enc dec live) = be_text (hv_env H)"
  "ee_comments (provider_env H E D tx enc dec live) = E"
  by (simp_all add: shared_text_def editor_text_def gate_open_def provider_env_def provider_ops_def text_ops_def)

text \<open>A session: it starts with an open gate, with the read-only flags of the attribute and with
  decorations, and only regular events that return normally have happened.\<close>

definition session_reached ::
  "('e, 't) host_env \<Rightarrow> ('t, 'm) comment_env \<Rightarrow> ('d, 'u, 'o) ydoc_ops \<Rightarrow> ('d \<Rightarrow> 't) \<Rightarrow> ('d \<Rightarrow> 't \<Rightarrow> 'u) \<Rightarrow>
   (jsstring \<Rightarrow> jsstring + 'u) \<Rightarrow> (nat \<Rightarrow> blame_segment list) \<Rightarrow> ('e, 't, ('d, 'n) provider, 'm) element \<Rightarrow> bool" where
  "session_reached H E D tx enc dec live w \<longleftrightarrow>
     (\<exists>readonly p j s bl. rp_outboundOpen (cp_replicator p) \<and> surf_ok readonly False s
        \<and> reaches (provider_env H E D tx enc dec live) (new_element readonly p j s bl) w)"

lemma session_reached_ok:
  assumes "provider_laws H E D tx enc" "session_reached H E D tx enc dec live w"
  shows "session_ok (provider_env H E D tx enc dec live) (\<lambda>_. provider_laws H E D tx enc) w"
proof -
  let ?X = "provider_env H E D tx enc dec live"
  from assms(2) obtain readonly p j s bl where p: "rp_outboundOpen (cp_replicator p)" "surf_ok readonly False s"
    and r: "reaches ?X (new_element readonly p j s bl) w"
    by (auto simp: session_reached_def)
  have "co_outboundOpen (ee_collab ?X) p" using p(1) by (simp add: provider_env_def provider_ops_def)
  from reviewed.reaches_ok [OF r reviewed.new_element_ok [OF assms(1) this p(2)]] show ?thesis .
qed

lemma session_gate:
  "session_ok (provider_env H E D tx enc dec live) I w \<Longrightarrow>
   gate_open w \<longleftrightarrow> el_mode w \<noteq> Suggest_Mode \<and> el_previewingThreadId w = None"
  by (auto simp: session_ok_def gate_ok_def provider_env_texts mode_ok_def panels_ok_def)

text \<open>C7: The feature modes exclude each other and the gate follows them, in every state that a session
  reaches by events that return normally, other than these: the host sets the \<open>readonly\<close> attribute during
  a preview, the open thread is deleted (here, by a peer or at a poll), Suggest Mode is switched off or
  a draft discarded outside Suggest Mode, and a thread has an empty id; viewing a stored version, which
  also locks the editors, is not part of these sessions. Then local edits reach the peers exactly if
  neither a draft is being written nor a suggestion previewed; the suggest engine is on exactly in
  Suggest Mode; a preview belongs to the open thread in the comments mode, makes every editor read-only
  and hides the decorations; without a preview the editors follow the \<open>readonly\<close> attribute; and the
  comments mode is on exactly while a thread or a list is open.\<close>

theorem feature_modes_exclusive:
  assumes "provider_laws H E D tx enc" "session_reached H E D tx enc dec live w"
  shows "(gate_open w \<longleftrightarrow> el_mode w \<noteq> Suggest_Mode \<and> el_previewingThreadId w = None)
    \<and> (se_enabled (el_suggest w) \<longleftrightarrow> el_mode w = Suggest_Mode)
    \<and> (case el_previewingThreadId w of
         None \<Rightarrow> all_readonly (el_readonly w) (el_binding w) \<and> \<not> cx_decorationsMuted (cs_co (el_surface w))
       | Some i \<Rightarrow> el_mode w = Comments_Mode \<and> map_option ct_id (el_activeThread w) = Some i
           \<and> all_readonly True (el_binding w) \<and> cx_decorationsMuted (cs_co (el_surface w)))
    \<and> (el_mode w = Comments_Mode \<longleftrightarrow>
         el_activeThread w \<noteq> None \<or> el_commentsListOpen w \<or> el_suggestionsListOpen w)"
  using session_reached_ok [OF assms]
  by (auto simp: session_ok_def gate_ok_def provider_env_texts mode_ok_def panels_ok_def surf_ok_def
      split: option.splits)

text \<open>A draft stays local: what the user types in Suggest Mode changes the editor's document and not
  the shared one, as long as the host has not made the editor read-only.\<close>

theorem drafts_stay_local:
  fixes w w' :: "('e, 't, ('d, 'n) provider, 'm) element"
  assumes "provider_laws H E D tx enc" "session_reached H E D tx enc dec live w" "el_mode w = Suggest_Mode"
    and "user_types (provider_env H E D tx enc dec live) t w = (None, w')"
  shows "shared_text D w' = shared_text D w
    \<and> (\<not> all_readonly True (el_binding w) \<longrightarrow> editor_text D w' = yt_toString (be_text (hv_env H)) t)"
proof (cases "all_readonly True (el_binding w)")
  case True
  then show ?thesis using assms(4) by (simp add: user_types_def)
next
  case False
  let ?X = "provider_env H E D tx enc dec live"
  from assms(4) False obtain v where v: "write_editor ?X t w = (None, v)" and "on_content_change ?X v = (None, w')"
    by (auto simp: user_types_def seq_normal)
  then have "el_provider w' = el_provider v" by (auto simp: on_content_change_def split: if_splits)
  moreover have "\<not> gate_open w"
    using session_reached_ok [OF assms(1,2)] assms(3)
    by (simp add: session_ok_def gate_ok_def mode_ok_def panels_ok_def provider_env_texts)
  ultimately show ?thesis using reviewed.write_editor_frame [OF v assms(1)]
    by (simp add: provider_env_texts shared_text_def editor_text_def)
qed

text \<open>C9: Previewing a suggestion is local and is undone. Opening the thread of a pending suggestion
  replaces the anchored range in the editor by the suggested text and leaves the shared text as it
  is; closing the panel brings the editor back to the shared text, which is still the same, with the
  gate open.\<close>

theorem preview_local_and_undone:
  fixes w w' w'' :: "('e, 't, ('d, 'n) provider, 'm) element" and H :: "('e, 't) host_env"
    and E :: "('t, 'm) comment_env" and D :: "('d, 'u, 'o) ydoc_ops"
    and tx enc dec live
  defines "X \<equiv> provider_env H E D tx enc dec live"
  assumes "provider_laws H E D tx enc" "ytext_laws (be_text (hv_env H))" "session_reached H E D tx enc dec live w"
    and "i \<noteq> []" "find_thread X i w = Some t" "ct_suggestion t = Some sg" "sg_status sg = Pending"
    and "resolveAnchorById E (el_engine w) i = Inr (Some (f, u))"
    and "0 \<le> f" "f \<le> u" "u \<le> int (length (editor_text D w))"
    and "el_mode w \<noteq> Suggest_Mode" "el_previewingThreadId w = None"
    and "handleThreadActivated X i w = (None, w')" "handleCommentPanelClose X w' = (None, w'')"
  shows "shared_text D w' = shared_text D w \<and> \<not> gate_open w'
    \<and> editor_text D w' =
        take (nat f) (editor_text D w) @ sv_after_text (sg_human_readable sg) @ drop (nat u) (editor_text D w)
    \<and> shared_text D w'' = shared_text D w \<and> editor_text D w'' = shared_text D w \<and> gate_open w''"
proof -
  note s = session_reached_ok [OF assms(2,4), folded X_def]
  note b = reviewed.preview_effect [OF _ s [unfolded X_def] assms(15) [unfolded X_def], of t sg f u]
  have o': "el_previewingThreadId w' = Some i" "shared_text D w' = shared_text D w"
      "editor_text D w' =
        take (nat f) (editor_text D w) @ sv_after_text (sg_human_readable sg) @ drop (nat u) (editor_text D w)"
    using b assms(3,5-14) by (simp_all add: provider_env_texts X_def)
  have s': "session_ok X (\<lambda>_. provider_laws H E D tx enc) w'"
    using reviewed.activated_handlers_ok(1) [OF s [unfolded X_def] assms(5)] assms(15) by (simp add: X_def)
  have "shared_text D w'' = shared_text D w' \<and> editor_text D w'' = shared_text D w' \<and> gate_open w''"
    using reviewed.close_preview_effect [OF s' [unfolded X_def] assms(16) [unfolded X_def]] o'(1)
    by (simp add: provider_env_texts)
  then show ?thesis using o' session_gate [OF s' [unfolded X_def]] by simp
qed

text \<open>C8: Accepting the suggestion under preview writes it once. The anchored range of the shared text
  is replaced by the suggested text; the editor leaves the preview (no thread is previewed, the editors
  follow the \<open>readonly\<close> attribute again, the decorations are back, local edits reach the peers) and shows
  the shared text; and the stored thread is resolved with its suggestion accepted, provided that the
  stored anchors of all threads resolve without an exception. Where one does not, the text is written
  all the same, and the suggestion may be decided as not applicable.\<close>

theorem accept_applies_suggestion:
  fixes w w' :: "('e, 't, ('d, 'n) provider, 'm) element" and D :: "('d, 'u, 'o) ydoc_ops"
  assumes "provider_laws H E D tx enc" "ytext_laws (be_text (hv_env H))" "session_reached H E D tx enc dec live w"
    and "el_previewingThreadId w = Some i"
    and "handleCommentSuggestionAccept (provider_env H E D tx enc dec live) now i w = (None, w')"
    and "find_thread (provider_env H E D tx enc dec live) i w = Some t" "ct_suggestion t = Some sg"
    and "resolveAnchorById E (el_engine w) i = Inr (Some (f, u))"
    and "0 \<le> f" "f \<le> u" "u \<le> int (length (shared_text D w))"
  shows "shared_text D w' =
      take (nat f) (shared_text D w) @ sv_after_text (sg_human_readable sg) @ drop (nat u) (shared_text D w)
    \<and> editor_text D w' = shared_text D w'
    \<and> el_previewingThreadId w' = None \<and> gate_open w'
    \<and> all_readonly (el_readonly w') (el_binding w') \<and> \<not> cx_decorationsMuted (cs_co (el_surface w'))
    \<and> (\<exists>st' sg'. readThread E (el_engine w') i = Some st' \<and> st_status st' = Resolved_Thread
        \<and> st_suggestion st' = Some sg' \<and> sg_status sg' \<in> {Accepted, Not_Applicable}
        \<and> (anchors_resolve E (el_engine w) \<longrightarrow> sg_status sg' = Accepted))"
proof -
  note s = session_reached_ok [OF assms(1,3)]
  note s' = reviewed.accept_ok [OF assms(5) s]
  note e = reviewed.accept_effect [OF _ s _ assms(5-7), of f u]
  have "el_previewingThreadId w' = None" using e assms(2,4,8-11) by (simp add: provider_env_texts)
  then show ?thesis using s' e assms(2,4,8-11)
    by (simp add: session_ok_def gate_ok_def surf_ok_def provider_env_texts)
qed

text \<open>Deleting the thread whose suggestion is previewed locks the editor. The engine tells the element
  first, which then has no open thread to close: the preview is not ended, every editor stays
  read-only with the decorations hidden, the gate stays closed, and the comments mode stays on with no
  thread open.\<close>

theorem deleting_previewed_thread_locks:
  fixes w w' :: "('e, 't, ('d, 'n) provider, 'm) element" and D :: "('d, 'u, 'o) ydoc_ops"
  assumes "provider_laws H E D tx enc" "session_reached H E D tx enc dec live w"
    and "el_previewingThreadId w = Some i" "ce_listeners (el_engine w) \<noteq> []"
    and "handleCommentThreadDelete (provider_env H E D tx enc dec live) i w = (x, w')"
  shows "x = None \<and> el_activeThread w' = None \<and> el_mode w' = Comments_Mode \<and> el_previewingThreadId w' = Some i
    \<and> all_readonly True (el_binding w') \<and> cx_decorationsMuted (cs_co (el_surface w'))
    \<and> \<not> gate_open w' \<and> editor_text D w' = editor_text D w"
proof -
  note s = session_reached_ok [OF assms(1,2)]
  note d = reviewed.delete_preview_effect [OF s assms(3-5)]
  then have "el_provider w' = el_provider w" "surf_ok True True (el_surface w')" by simp_all
  then show ?thesis using d session_gate [OF s] assms(3)
    by (simp add: surf_ok_def gate_open_def editor_text_def)
qed

text \<open>Setting the \<open>readonly\<close> attribute to false during a preview makes every editor writable on the
  previewed text, while the preview is on and the gate is closed: what is typed is lost with the
  preview.\<close>

theorem readonly_set_unlocks_preview:
  fixes w w' :: "('e, 't, ('d, 'n) provider, 'm) element"
  assumes "provider_laws H E D tx enc" "session_reached H E D tx enc dec live w"
    and "el_previewingThreadId w = Some i" "updated_readonly False w = (x, w')"
  shows "x = None \<and> el_previewingThreadId w' = Some i \<and> all_readonly False (el_binding w') \<and> \<not> gate_open w'"
proof -
  note s = session_reached_ok [OF assms(1,2)]
  have "surf_ok True True (el_surface w)" using s assms(3) by (simp add: session_ok_def gate_ok_def)
  then have "surf_ok False True (el_surface w')"
    using assms(4) setReadonly_frame(1) [of True True "w\<lparr>el_readonly := False\<rparr>" False]
    by (auto simp: updated_readonly_def quiet_def)
  moreover have "\<not> gate_open w" using session_gate [OF s] assms(3) by simp
  ultimately show ?thesis using assms(3,4)
    by (auto simp: updated_readonly_def quiet_def setReadonly_def set_binding_def surf_ok_def gate_open_def)
qed

lemma submitted_stored:
  assumes "ymap_laws (en_map E)" "buildSuggestion e note draft = Inr payload"
    and "commitSuggestion E i c now payload ce = Inr ce'"
  shows "\<exists>st sg. readThread E ce' i = Some st \<and> st_status st = Open_Thread \<and> st_suggestion st = Some sg
    \<and> sg_status sg = Pending
    \<and> take (nat (ca_start (st_anchor st))) (se_textAtEnable e) @ sv_after_text (sg_human_readable sg)
        @ drop (nat (ca_end (st_anchor st))) (se_textAtEnable e) = draft"
  using assms anchor_replace [of "se_textAtEnable e" draft]
  by (auto simp: commitSuggestion_def createThread_def buildSuggestion_def Let_def computeAnchor_fields
      split: if_splits)

lemma submitted_iff:
  assumes "buildSuggestion e (dialogue_note w) draft = Inr payload" "size_ok (ce_capabilities ce) []"
  shows "(\<exists>ce'. commitSuggestion E i c now payload ce = Inr ce') \<longleftrightarrow>
    (\<forall>n. dialogue_note w = Some n \<longrightarrow> size_ok (ce_capabilities ce) n)"
  using assms
  by (auto simp: commitSuggestion_def createThread_def buildSuggestion_def dialogue_note_def Let_def
      split: if_splits list.splits)

text \<open>C10: Submitting a draft with a note that is not too large. The comment engine holds an open thread
  with a pending suggestion; putting its text in place of the anchored range of the text at the
  start of the draft gives the draft. The shared text has not changed, the editor shows it again, and
  Suggest Mode goes on with the gate closed.\<close>

theorem draft_submitted:
  fixes w w' :: "('e, 't, ('d, 'n) provider, 'm) element" and D :: "('d, 'u, 'o) ydoc_ops"
  assumes "provider_laws H E D tx enc" "session_reached H E D tx enc dec live w" "el_mode w = Suggest_Mode"
    and "hasPendingChanges (el_suggest w) (serialized (provider_env H E D tx enc dec live) w)"
    and "handleSuggestNoteConfirm (provider_env H E D tx enc dec live) i c now w = (x, w')"
    and "size_ok (ce_capabilities (el_engine w)) []"
    and "\<forall>n. dialogue_note w = Some n \<longrightarrow> size_ok (ce_capabilities (el_engine w)) n"
  shows "x = None
    \<and> (\<exists>st sg. readThread E (el_engine w') i = Some st \<and> st_status st = Open_Thread
        \<and> st_suggestion st = Some sg \<and> sg_status sg = Pending
        \<and> take (nat (ca_start (st_anchor st))) (se_textAtEnable (el_suggest w)) @ sv_after_text (sg_human_readable sg)
            @ drop (nat (ca_end (st_anchor st))) (se_textAtEnable (el_suggest w)) =
          serialized (provider_env H E D tx enc dec live) w)
    \<and> shared_text D w' = shared_text D w \<and> editor_text D w' = shared_text D w
    \<and> el_mode w' = Suggest_Mode \<and> \<not> gate_open w'"
proof -
  let ?X = "provider_env H E D tx enc dec live"
  note s = session_reached_ok [OF assms(1,2)]
  obtain payload where b: "buildSuggestion (el_suggest w) (dialogue_note w) (serialized ?X w) = Inr payload"
    using pending_builds [OF assms(4)] by blast
  obtain e where e: "commitSuggestion E i c now payload (el_engine w) = Inr e"
    using submitted_iff [OF b assms(6), of E i c now] assms(7) by blast
  have "ymap_laws (en_map E)" using assms(1) by (simp add: provider_laws_def)
  moreover have "session_ok ?X (\<lambda>_. provider_laws H E D tx enc) w'"
    using reviewed.feature_step_ok [of _ _ _ _ _ _ _ "Note_Confirm i c now" w w'] s assms(5)
      reviewed.note_confirm_effect [OF s assms(3-5) b] by simp
  ultimately show ?thesis
    using reviewed.note_confirm_effect [OF s assms(3-5) b] submitted_stored [OF _ b e] session_gate
    by (fastforce simp: provider_env_texts e)
qed

text \<open>A note that is too large costs the draft: the comment engine refuses the thread after the editor
  has been reset, so no thread exists and what the user typed is gone, while the dialogue is closed.\<close>

theorem oversized_note_loses_draft:
  fixes w w' :: "('e, 't, ('d, 'n) provider, 'm) element" and D :: "('d, 'u, 'o) ydoc_ops"
  assumes "provider_laws H E D tx enc" "session_reached H E D tx enc dec live w" "el_mode w = Suggest_Mode"
    and "hasPendingChanges (el_suggest w) (serialized (provider_env H E D tx enc dec live) w)"
    and "handleSuggestNoteConfirm (provider_env H E D tx enc dec live) i c now w = (x, w')"
    and "size_ok (ce_capabilities (el_engine w)) []"
    and "dialogue_note w = Some n" "\<not> size_ok (ce_capabilities (el_engine w)) n"
  shows "x = None \<and> el_engine w' = el_engine w \<and> editor_text D w' = shared_text D w
    \<and> shared_text D w' = shared_text D w \<and> el_mode w' = Suggest_Mode"
proof -
  let ?X = "provider_env H E D tx enc dec live"
  obtain payload where b: "buildSuggestion (el_suggest w) (dialogue_note w) (serialized ?X w) = Inr payload"
    using pending_builds [OF assms(4)] by blast
  obtain err where e: "commitSuggestion E i c now payload (el_engine w) = Inl err"
    using submitted_iff [OF b assms(6), of E i c now] assms(7,8)
    by (cases "commitSuggestion E i c now payload (el_engine w)") auto
  show ?thesis
    using reviewed.note_confirm_effect [OF session_reached_ok [OF assms(1,2)] assms(3-5) b]
    by (simp add: provider_env_texts e)
qed

section \<open>Witnesses\<close>

text \<open>A run in which every event is regular and returns normally.\<close>

fun run_regular ::
  "('e, 't, 'p, 'm) element_env \<Rightarrow> ('t, 'm) feature_event list \<Rightarrow> ('e, 't, 'p, 'm) element \<Rightarrow>
   ('e, 't, 'p, 'm) element option" where
  "run_regular X [] w = Some w"
| "run_regular X (ev # evs) w =
     (if regular X w ev then case feature_step X ev w of (None, w') \<Rightarrow> run_regular X evs w' | _ \<Rightarrow> None
      else None)"

lemma run_regular_reaches: "run_regular X evs w = Some w' \<Longrightarrow> reaches X w0 w \<Longrightarrow> reaches X w0 w'"
  by (induction evs arbitrary: w) (auto intro: reaches.step split: if_splits prod.splits option.splits)

lemma all_readonly_code [code]:
  "all_readonly r b \<longleftrightarrow>
     (case eb_source b of None \<Rightarrow> True | Some e \<Rightarrow> se_readonly e = r)
     \<and> (case eb_wysiwyg b of None \<Rightarrow> True | Some w \<Rightarrow> we_readonly w = r)"
  by (auto simp: all_readonly_def split: option.splits)

lemma thread_kept_code [code]:
  "thread_kept X w e \<longleftrightarrow> (case el_activeThread w of None \<Rightarrow> True
     | Some a \<Rightarrow> List.find (\<lambda>t. ct_id t = ct_id a) (getThreads (ee_comments X) e) \<noteq> None)"
  by (auto simp: thread_kept_def split: option.splits)

text \<open>A document that shows \<open>hello\<close>, a mounted editor on it, and a session in which a draft is typed,
  submitted with a note, previewed, and accepted.\<close>

type_synonym review_env =
  "(jsstring, jsstring, ((nat \<times> jsstring) list, unit) provider, (jsstring \<times> map_value) list) element_env"
type_synonym review_element =
  "(jsstring, jsstring, ((nat \<times> jsstring) list, unit) provider, (jsstring \<times> map_value) list) element"

definition review_env :: review_env where
  "review_env = provider_env sample_host sample_env register_doc (yd_text register_doc) register_write
     (\<lambda>_. Inr []) (\<lambda>_. [])"

definition review_provider0 :: "((nat \<times> jsstring) list, unit) provider" where
  "review_provider0 = resetEditorDoc register_doc
     ((new_provider register_doc)\<lparr>cp_replicator := new_replicator 2 [(1, js ''hello'')] []\<rparr>)"

definition review_surface :: "(jsstring, (jsstring \<times> map_value) list, jsstring, jsstring) comment_surface" where
  "review_surface = snd (comment_attach sample_env sample_engine True 0 no_comment_config
     \<lparr>cs_co = new_comment_coordinator, cs_engine = sample_engine,
      cs_binding = returned undefined (mount sample_host (empty_view None) Source_Mode False (Some 0)
         (new_editor_binding Dual_Mode (js ''markdown'') (\<lambda>_. js ''hello'')))\<rparr>)"

definition review_start :: review_element where
  "review_start = new_element False review_provider0 0 review_surface new_blame_coordinator"

definition draft_events :: "jsstring \<Rightarrow> (jsstring, (jsstring \<times> map_value) list) feature_event list" where
  "draft_events noteText = [Suggest_Toggle [] [] [] False True, Types (js ''help''), Note_Typed noteText]"

definition review_state :: "(jsstring, (jsstring \<times> map_value) list) feature_event list \<Rightarrow> review_element" where
  "review_state evs = the (run_regular review_env evs review_start)"

abbreviation review_laws :: bool where
  "review_laws \<equiv> provider_laws sample_host sample_env register_doc (yd_text register_doc) register_write"

abbreviation review_session :: "review_element \<Rightarrow> bool" where
  "review_session \<equiv> session_reached sample_host sample_env register_doc (yd_text register_doc) register_write
     (\<lambda>_. Inr []) (\<lambda>_. [])"

lemma review_laws: "review_laws"
  by (simp add: provider_laws_def register_doc_laws sample_env_laws register_write_laws sample_host_def
      sample_binding_def)

lemma review_start_ok: "rp_outboundOpen (cp_replicator review_provider0) \<and> surf_ok False False review_surface"
  by code_simp

lemma review_session:
  assumes "run_regular review_env evs review_start \<noteq> None"
  shows "review_session (review_state evs)"
proof -
  from assms obtain w where "run_regular review_env evs review_start = Some w" by blast
  then show ?thesis using run_regular_reaches [OF _ reaches.start] review_start_ok
    unfolding session_reached_def review_state_def review_env_def [symmetric]
    by (intro exI [of _ False] exI [of _ review_provider0] exI [of _ 0] exI [of _ review_surface]
        exI [of _ new_blame_coordinator]) (simp flip: review_start_def)
qed

definition review_suggestion :: suggestion where
  "review_suggestion =
     \<lparr>sg_yjs_payload = None,
      sg_human_readable = \<lparr>sv_summary = [], sv_before_text = js ''lo'', sv_after_text = js ''p'', sv_operations = []\<rparr>,
      sg_author_id = js ''u2'', sg_author_name = js ''Bob'', sg_author_note = None, sg_status = Pending,
      sg_decided_by = None, sg_decided_by_name = None, sg_decided_at = None, sg_applied_version_id = None\<rparr>"

definition review_thread :: stored_thread where
  "review_thread =
     \<lparr>st_anchor = \<lparr>ca_start = 3, ca_end = 5, ca_quoted_text = js ''lo''\<rparr>, st_start_rel = None, st_end_rel = None,
      st_status = Open_Thread, st_resolvedBy = None, st_resolvedAt = None,
      st_suggestion = Some review_suggestion, st_comments = [], st_reactions = None, st_createdAt = []\<rparr>"

definition suggested :: "(jsstring, (jsstring \<times> map_value) list) feature_event" where
  "suggested = Peer_Threads False [js ''t1''] [(js ''t1'', Thread_Value review_thread)]"


definition passes :: "(jsstring, (jsstring \<times> map_value) list) feature_event list \<Rightarrow> (review_element \<Rightarrow> bool) \<Rightarrow> bool" where
  "passes evs P \<longleftrightarrow> (case run_regular review_env evs review_start of None \<Rightarrow> False | Some w \<Rightarrow> P w)"

lemma passesD: "passes evs P \<Longrightarrow> review_session (review_state evs) \<and> P (review_state evs)"
  using review_session [of evs] by (auto simp: passes_def review_state_def split: option.splits)

lemma quoted_anchors_resolve:
  assumes "\<And>k st. (k, Thread_Value st) \<in> set (ym_entries (en_map E) (ce_map e)) \<Longrightarrow> st_start_rel st = None"
  shows "anchors_resolve E e"
proof -
  have "\<exists>ovs. overlay_regions E col (e\<lparr>ce_text := t\<rparr>) es = Inr ovs"
    if "\<And>k st. (k, Thread_Value st) \<in> set es \<Longrightarrow> st_start_rel st = None" for col t es
    using that
  proof (induction es)
    case (Cons x es)
    obtain k raw where x: "x = (k, raw)" by fastforce
    obtain ovs where ovs: "overlay_regions E col (e\<lparr>ce_text := t\<rparr>) es = Inr ovs"
      using Cons.IH Cons.prems by (metis list.set_intros(2))
    show ?case
    proof (cases raw)
      case (Thread_Value st)
      then have "st_start_rel st = None" using Cons.prems x by auto
      then have "\<exists>r. resolveAnchor (en_text E) t st = Inr r"
        by (simp add: resolveAnchor_def relative_range_def bind_res_def)
      then show ?thesis using ovs Thread_Value x
        by (auto simp: asStoredThread_def bind_res_def split: option.splits)
    qed (simp add: x ovs asStoredThread_def)
  qed simp
  then show ?thesis using assms by (simp add: anchors_resolve_def getSuggestionOverlays_def)
qed

theorem feature_modes_exclusive_witness:
  "let w = review_state [suggested, Thread_Activated (js ''t1'')]
   in el_previewingThreadId w = Some (js ''t1'') \<and> \<not> gate_open w \<and> all_readonly True (el_binding w)"
proof -
  have "passes [suggested, Thread_Activated (js ''t1'')] (\<lambda>w. el_previewingThreadId w = Some (js ''t1''))"
    by code_simp
  from passesD [OF this] feature_modes_exclusive [OF review_laws] show ?thesis by (fastforce simp: Let_def)
qed

theorem drafts_stay_local_witness:
  "let w = review_state [Suggest_Toggle [] [] [] False True]; w' = snd (user_types review_env (js ''help'') w)
   in shared_text register_doc w' = js ''hello'' \<and> editor_text register_doc w' = js ''help''"
proof -
  let ?P = "\<lambda>w. el_mode w = Suggest_Mode \<and> fst (user_types review_env (js ''help'') w) = None
    \<and> shared_text register_doc w = js ''hello'' \<and> \<not> all_readonly True (el_binding w)"
  have "passes [Suggest_Toggle [] [] [] False True] ?P" by code_simp
  then have P: "review_session (review_state [Suggest_Toggle [] [] [] False True])"
      "?P (review_state [Suggest_Toggle [] [] [] False True])"
    using passesD by blast+
  then show ?thesis
    using drafts_stay_local [OF review_laws P(1), folded review_env_def, of "js ''help''"]
    by (simp add: Let_def prod_eq_iff sample_host_def sample_binding_def plain_text_def)
qed

abbreviation previewed :: review_element where
  "previewed \<equiv> review_state [suggested, Thread_Activated (js ''t1'')]"

theorem preview_local_and_undone_witness:
  "let w = review_state [suggested]; w' = snd (handleThreadActivated review_env (js ''t1'') w);
       w'' = snd (handleCommentPanelClose review_env w')
   in shared_text register_doc w' = js ''hello'' \<and> editor_text register_doc w' = js ''help''
      \<and> editor_text register_doc w'' = js ''hello''"
proof -
  let ?i = "js ''t1''"
  let ?P = "\<lambda>w. (case find_thread review_env ?i w of None \<Rightarrow> False | Some t \<Rightarrow> ct_suggestion t = Some review_suggestion)
    \<and> resolveAnchorById sample_env (el_engine w) ?i = Inr (Some (3, 5)) \<and> shared_text register_doc w = js ''hello''
    \<and> editor_text register_doc w = js ''hello'' \<and> el_mode w \<noteq> Suggest_Mode \<and> el_previewingThreadId w = None
    \<and> fst (handleThreadActivated review_env ?i w) = None
    \<and> fst (handleCommentPanelClose review_env (snd (handleThreadActivated review_env ?i w))) = None"
  have "passes [suggested] ?P" by code_simp
  then have s: "review_session (review_state [suggested])" and P: "?P (review_state [suggested])"
    using passesD by blast+
  from P obtain t where t: "find_thread review_env ?i (review_state [suggested]) = Some t"
      "ct_suggestion t = Some review_suggestion" by (auto split: option.splits)
  have h: "handleThreadActivated review_env ?i (review_state [suggested]) =
      (None, snd (handleThreadActivated review_env ?i (review_state [suggested])))"
    and c: "handleCommentPanelClose review_env (snd (handleThreadActivated review_env ?i (review_state [suggested]))) =
      (None, snd (handleCommentPanelClose review_env (snd (handleThreadActivated review_env ?i (review_state [suggested])))))"
    using P by (simp_all add: prod_eq_iff)
  have "take 3 (js ''hello'') @ js ''p'' @ drop 5 (js ''hello'') = js ''help''" "?i \<noteq> []"
      "length (js ''hello'') = 5" "sv_after_text (sg_human_readable review_suggestion) = js ''p''"
      "sg_status review_suggestion = Pending" "ytext_laws (be_text (hv_env sample_host))"
    by (simp_all add: js_def review_suggestion_def sample_host_def sample_binding_def plain_text_laws)
  then show ?thesis
    using preview_local_and_undone [OF review_laws _ s, folded review_env_def, OF _ _ t _ _ _ _ _ _ _ h c, of 3 5] P
    by (simp add: Let_def)
qed

theorem accept_applies_suggestion_witness:
  "let w = snd (handleCommentSuggestionAccept review_env (js ''now'') (js ''t1'') previewed)
   in shared_text register_doc w = js ''help'' \<and> editor_text register_doc w = js ''help''
      \<and> el_previewingThreadId w = None \<and> gate_open w
      \<and> (\<exists>st sg. readThread sample_env (el_engine w) (js ''t1'') = Some st \<and> st_suggestion st = Some sg
            \<and> sg_status sg = Accepted)"
proof -
  let ?i = "js ''t1''"
  let ?P = "\<lambda>w. (case find_thread review_env ?i w of None \<Rightarrow> False | Some t \<Rightarrow> ct_suggestion t = Some review_suggestion)
    \<and> resolveAnchorById sample_env (el_engine w) ?i = Inr (Some (3, 5)) \<and> shared_text register_doc w = js ''hello''
    \<and> el_previewingThreadId w = Some ?i \<and> ce_map (el_engine w) = [(?i, Thread_Value review_thread)]
    \<and> fst (handleCommentSuggestionAccept review_env (js ''now'') ?i w) = None"
  have "passes [suggested, Thread_Activated ?i] ?P" by code_simp
  then have s: "review_session previewed" and P: "?P previewed" using passesD by blast+
  from P obtain t where t: "find_thread review_env ?i previewed = Some t" "ct_suggestion t = Some review_suggestion"
    by (auto split: option.splits)
  have h: "handleCommentSuggestionAccept review_env (js ''now'') ?i previewed =
      (None, snd (handleCommentSuggestionAccept review_env (js ''now'') ?i previewed))"
    using P by (simp add: prod_eq_iff)
  have "take 3 (js ''hello'') @ js ''p'' @ drop 5 (js ''hello'') = js ''help''"
      "length (js ''hello'') = 5" "sv_after_text (sg_human_readable review_suggestion) = js ''p''"
      "ytext_laws (be_text (hv_env sample_host))"
    by (simp_all add: js_def review_suggestion_def sample_host_def sample_binding_def plain_text_laws)
  moreover have "anchors_resolve sample_env (el_engine previewed)"
    by (rule quoted_anchors_resolve) (use P in \<open>auto simp: sample_env_def alist_map_def review_thread_def\<close>)
  ultimately show ?thesis
    using accept_applies_suggestion [OF review_laws _ s, folded review_env_def, OF _ _ h t, of 3 5] P
    by (auto simp: Let_def)
qed

theorem deleting_previewed_thread_locks_witness:
  "let w = snd (handleCommentThreadDelete review_env (js ''t1'') previewed)
   in el_activeThread w = None \<and> all_readonly True (el_binding w) \<and> \<not> gate_open w"
proof -
  let ?P = "\<lambda>w. el_previewingThreadId w = Some (js ''t1'') \<and> ce_listeners (el_engine w) \<noteq> []"
  have "passes [suggested, Thread_Activated (js ''t1'')] ?P" by code_simp
  then have s: "review_session previewed" and P: "?P previewed" using passesD by blast+
  then show ?thesis
    using deleting_previewed_thread_locks [OF review_laws s, folded review_env_def, OF _ _ prod.collapse [symmetric]]
    by (simp add: Let_def)
qed

text \<open>Notes of plain letters are sent as they are, one byte each.\<close>

lemma letter_note:
  assumes "el_noteDraft w = replicate (Suc k) 97"
  shows "dialogue_note w = Some (replicate (Suc k) 97)"
proof -
  have "dropWhile js_space (replicate m 97) = replicate m 97" for m
    by (cases m) (simp_all add: js_space_def)
  then show ?thesis using assms by (simp add: dialogue_note_def js_trim_def del: replicate_Suc)
qed

lemma letter_size: "utf8_length (replicate k 97) = k"
  by (induction k rule: induct_nat_012) (simp_all add: high_surrogate_def low_surrogate_def)

lemma letter_fits: "size_ok (Some sample_caps) (replicate k 97) \<longleftrightarrow> k \<le> 100"
  by (simp add: size_ok_def comment_limit_def sample_caps_def letter_size)

lemma draft_state:
  "review_session (review_state (draft_events n))"
  "el_mode (review_state (draft_events n)) = Suggest_Mode"
  "hasPendingChanges (el_suggest (review_state (draft_events n))) (serialized review_env (review_state (draft_events n)))"
  "ce_capabilities (el_engine (review_state (draft_events n))) = Some sample_caps"
  "el_noteDraft (review_state (draft_events n)) = n"
proof -
  let ?P = "\<lambda>w. el_mode w = Suggest_Mode \<and> hasPendingChanges (el_suggest w) (serialized review_env w)
    \<and> ce_capabilities (el_engine w) = Some sample_caps"
  let ?evs = "[Suggest_Toggle [] [] [] False True, Types (js ''help'')]"
  have "passes ?evs ?P" by code_simp
  then obtain w where r: "run_regular review_env ?evs review_start = Some w" and P: "?P w"
    by (auto simp: passes_def split: option.splits)
  have "run_regular review_env (draft_events n) review_start = Some (w\<lparr>el_noteDraft := n\<rparr>)"
    using r by (simp add: draft_events_def quiet_def split: if_splits prod.splits option.splits)
  then have q: "run_regular review_env (draft_events n) review_start \<noteq> None"
    and "review_state (draft_events n) = w\<lparr>el_noteDraft := n\<rparr>"
    by (simp_all add: review_state_def)
  show "review_session (review_state (draft_events n))" by (rule review_session [OF q])
  show "el_mode (review_state (draft_events n)) = Suggest_Mode"
      "hasPendingChanges (el_suggest (review_state (draft_events n))) (serialized review_env (review_state (draft_events n)))"
      "ce_capabilities (el_engine (review_state (draft_events n))) = Some sample_caps"
      "el_noteDraft (review_state (draft_events n)) = n"
    using P \<open>review_state (draft_events n) = w\<lparr>el_noteDraft := n\<rparr>\<close> by (simp_all add: serialized_def)
qed

theorem draft_submitted_witness:
  "let w = review_state (draft_events (replicate 3 97));
       w' = snd (handleSuggestNoteConfirm review_env (js ''t1'') (js ''c1'') (js ''now'') w)
   in readThread sample_env (el_engine w') (js ''t1'') \<noteq> None \<and> \<not> gate_open w'"
proof -
  let ?n = "replicate 3 97"
  have "dialogue_note (review_state (draft_events ?n)) = Some ?n"
    using letter_note [of "review_state (draft_events ?n)" 2] draft_state(5) [of ?n] by simp
  with draft_submitted [OF review_laws draft_state(1-2) [of ?n], folded review_env_def,
      OF draft_state(3) prod.collapse [symmetric], of "js ''t1''" "js ''c1''" "js ''now''"]
    letter_fits [of 3] letter_fits [of 0]
  show ?thesis by (auto simp: Let_def draft_state(4))
qed

theorem oversized_note_loses_draft_witness:
  "let w = review_state (draft_events (replicate 101 97));
       w' = snd (handleSuggestNoteConfirm review_env (js ''t1'') (js ''c1'') (js ''now'') w)
   in el_engine w' = el_engine w \<and> editor_text register_doc w' = shared_text register_doc w"
proof -
  let ?n = "replicate 101 97"
  have "dialogue_note (review_state (draft_events ?n)) = Some ?n"
    using letter_note [of "review_state (draft_events ?n)" 100] draft_state(5) [of ?n] by simp
  with oversized_note_loses_draft [OF review_laws draft_state(1-2) [of ?n], folded review_env_def,
      OF draft_state(3) prod.collapse [symmetric], of ?n "js ''t1''" "js ''c1''" "js ''now''"]
    letter_fits [of 101] letter_fits [of 0]
  show ?thesis by (simp add: Let_def draft_state(4))
qed

end
