(* ===== verification/Element_Init.thy ===== *)
theory Element_Init
  imports Registry Feature_Mode "HOL-Library.Multiset"
begin

text \<open>
  Initialisation and removal of the element (\<open>_requestInit\<close>, \<open>_performInit\<close>,
  \<open>_attachCommentCoordinator\<close>, \<open>_mountBinding\<close>, \<open>firstUpdated\<close>, \<open>updated\<close> and \<open>disconnectedCallback\<close> of
  \<open>frontend/src/multi-editor.ts\<close>). The runs of \<open>_performInit\<close> are chained, so at most one is active; it
  stops at each \<open>await\<close>, where the host may change properties and the user may use the panels. Shown:
  objects do not leak while the element is in the page, the chain ends, and once the properties
  stay as they are the element ends up initialised for them. The objects the element creates are
  numbered; what they do is the subject of the other theories.
\<close>

section \<open>State\<close>

text \<open>A collaboration configuration is an object, compared by identity: a number.\<close>

record init_env =
  ie_enabled :: "nat \<Rightarrow> bool"
  ie_commentsEnabled :: "nat \<Rightarrow> bool option"
  ie_suggestEnabled :: "nat \<Rightarrow> bool option"

datatype resource = Provider nat | Binding nat | Comment_Engine nat | Suggest_Engine nat

text \<open>What the panels and the toolbar show.\<close>

record ui_state =
  ui_mode :: feature_mode
  ui_versionPanelOpen :: bool
  ui_viewingVersion :: bool
  ui_versions :: "version_list_entry list"
  ui_selectedVersion :: "version_entry option"
  ui_diffResult :: "diff_line list option"
  ui_previewingThreadId :: "jsstring option"
  ui_activeThread :: "comment_thread option"
  ui_panelPos :: "(int \<times> int) option"
  ui_resolvedThreads :: "comment_thread list"
  ui_pendingSuggestionThreads :: "comment_thread list"
  ui_commentsListOpen :: bool
  ui_suggestionsListOpen :: bool
  ui_commentsAvailable :: bool
  ui_suggestAvailable :: bool
  ui_suggestPendingCount :: nat
  ui_noteModalOpen :: bool
  ui_noteDraft :: jsstring
  ui_draftAnchor :: "draft_anchor option"

datatype stage = Connecting | Mounting editor_mode | Syncing | Relay_Capabilities | Comment_Capabilities | Loading

record init_run =
  ir_collaboration :: "nat option"
  ir_mimeType :: jsstring
  ir_initialContent :: jsstring
  ir_stage :: stage

text \<open>\<open>sh_changed\<close> says which of \<open>collaboration\<close> and \<open>mimeType\<close> the pending Lit update will report;
  \<open>sh_queue\<close> is the number of runs in \<open>_initChain\<close> that have not started; \<open>sh_attached\<close> and
  \<open>sh_commentsAttached\<close> are the objects that the blame and version coordinators and the comment
  coordinator are attached to; \<open>sh_seeded\<close> the last content set on a local binding.\<close>

record shell =
  sh_collaboration :: "nat option"
  sh_mimeType :: jsstring
  sh_initialContent :: jsstring
  sh_mode :: editor_mode
  sh_changed :: "bool \<times> bool"
  sh_factory :: factory
  sh_lastCollabConfig :: "nat option"
  sh_lastMimeType :: "jsstring option"
  sh_queue :: nat
  sh_run :: "init_run option"
  sh_next :: nat
  sh_destroyed :: "resource list"
  sh_provider :: "nat option"
  sh_binding :: "nat option"
  sh_commentEngine :: "nat option"
  sh_suggestEngine :: "nat option"
  sh_attached :: "(nat \<times> nat) option"
  sh_commentsAttached :: "(nat \<times> nat) option"
  sh_polling :: bool
  sh_seeded :: "jsstring option"
  sh_ui :: ui_state
  sh_ready :: bool

definition new_ui :: ui_state where
  "new_ui =
     \<lparr>ui_mode = No_Mode, ui_versionPanelOpen = False, ui_viewingVersion = False, ui_versions = [],
      ui_selectedVersion = None, ui_diffResult = None, ui_previewingThreadId = None, ui_activeThread = None,
      ui_panelPos = None, ui_resolvedThreads = [], ui_pendingSuggestionThreads = [],
      ui_commentsListOpen = False, ui_suggestionsListOpen = False, ui_commentsAvailable = False,
      ui_suggestAvailable = False, ui_suggestPendingCount = 0, ui_noteModalOpen = False, ui_noteDraft = [],
      ui_draftAnchor = None\<rparr>"

definition new_shell :: shell where
  "new_shell =
     \<lparr>sh_collaboration = None, sh_mimeType = js ''text/plain'', sh_initialContent = [], sh_mode = Source_Mode,
      sh_changed = (True, True), sh_factory = registerDefaults [], sh_lastCollabConfig = None,
      sh_lastMimeType = None, sh_queue = 0, sh_run = None, sh_next = 0, sh_destroyed = [],
      sh_provider = None, sh_binding = None, sh_commentEngine = None, sh_suggestEngine = None,
      sh_attached = None, sh_commentsAttached = None, sh_polling = False, sh_seeded = None,
      sh_ui = new_ui, sh_ready = False\<rparr>"

section \<open>Tearing down\<close>

definition held :: "shell \<Rightarrow> resource list" where
  "held s =
     (case sh_commentEngine s of None \<Rightarrow> [] | Some i \<Rightarrow> [Comment_Engine i])
     @ (case sh_suggestEngine s of None \<Rightarrow> [] | Some i \<Rightarrow> [Suggest_Engine i])
     @ (case sh_binding s of None \<Rightarrow> [] | Some i \<Rightarrow> [Binding i])
     @ (case sh_provider s of None \<Rightarrow> [] | Some i \<Rightarrow> [Provider i])"

text \<open>The preview ends only while there is a provider.\<close>

definition reset_ui :: "bool \<Rightarrow> ui_state \<Rightarrow> ui_state" where
  "reset_ui provider u =
     u\<lparr>ui_mode := No_Mode, ui_versionPanelOpen := False, ui_viewingVersion := False, ui_versions := [],
       ui_selectedVersion := None, ui_diffResult := None,
       ui_previewingThreadId := (if provider \<and> ui_previewingThreadId u \<noteq> Some [] then None
                                 else ui_previewingThreadId u),
       ui_activeThread := None, ui_panelPos := None, ui_resolvedThreads := [],
       ui_pendingSuggestionThreads := [], ui_commentsListOpen := False, ui_suggestionsListOpen := False,
       ui_commentsAvailable := False, ui_suggestAvailable := False, ui_suggestPendingCount := 0\<rparr>"

definition teardown :: "shell \<Rightarrow> shell" where
  "teardown s =
     s\<lparr>sh_destroyed := sh_destroyed s @ held s, sh_ui := reset_ui (sh_provider s \<noteq> None) (sh_ui s),
       sh_provider := None, sh_binding := None, sh_commentEngine := None, sh_suggestEngine := None,
       sh_attached := None, sh_commentsAttached := None, sh_polling := False\<rparr>"

section \<open>A run of \<open>_performInit\<close>\<close>

definition config_enabled :: "init_env \<Rightarrow> nat option \<Rightarrow> bool" where
  "config_enabled E c = (case c of None \<Rightarrow> False | Some i \<Rightarrow> ie_enabled E i)"

definition stale :: "init_run \<Rightarrow> shell \<Rightarrow> bool" where
  "stale r s \<longleftrightarrow> ir_collaboration r \<noteq> sh_collaboration s \<or> ir_mimeType r \<noteq> sh_mimeType s"

text \<open>The end of a run, also by an exception, which the chain logs.\<close>

definition finish :: "shell \<Rightarrow> shell" where
  "finish s = s\<lparr>sh_run := None\<rparr>"

definition become_ready :: "shell \<Rightarrow> shell" where
  "become_ready s = finish (s\<lparr>sh_ready := True\<rparr>)"

definition attach_coordinators :: "init_run \<Rightarrow> shell \<Rightarrow> shell" where
  "attach_coordinators r s =
     (case (sh_provider s, sh_binding s, ir_collaboration r) of
        (Some p, Some b, Some c) \<Rightarrow> s\<lparr>sh_attached := Some (b, p), sh_run := Some (r\<lparr>ir_stage := Relay_Capabilities\<rparr>)\<rparr>
      | _ \<Rightarrow> become_ready s)"

definition after_sync :: "init_run \<Rightarrow> shell \<Rightarrow> shell" where
  "after_sync r s = (if stale r s then finish s else attach_coordinators r s)"

definition mounted :: "init_env \<Rightarrow> init_run \<Rightarrow> editor_mode \<Rightarrow> shell \<Rightarrow> shell" where
  "mounted E r mode s =
     s\<lparr>sh_mode := mode,
       sh_seeded := (if \<not> config_enabled E (ir_collaboration r) \<and> sh_binding s \<noteq> None \<and> ir_initialContent r \<noteq> []
                     then Some (ir_initialContent r) else sh_seeded s)\<rparr>"

definition after_mount :: "init_env \<Rightarrow> init_run \<Rightarrow> editor_mode \<Rightarrow> bool \<Rightarrow> shell \<Rightarrow> shell" where
  "after_mount E r mode ok s =
     (if \<not> ok then finish s
      else let s1 = mounted E r mode s
           in if sh_provider s1 \<noteq> None then s1\<lparr>sh_run := Some (r\<lparr>ir_stage := Syncing\<rparr>)\<rparr>
              else after_sync r s1)"

definition chosen_mode :: "editor_mode list \<Rightarrow> editor_mode \<Rightarrow> editor_mode" where
  "chosen_mode modes mode =
     (if mode \<in> set modes then mode else case modes of [] \<Rightarrow> Source_Mode | m # _ \<Rightarrow> m)"

definition after_connect :: "init_run \<Rightarrow> shell \<Rightarrow> shell" where
  "after_connect r s =
     (if stale r s then finish s
      else case getSupportedModes (ir_mimeType r) (sh_factory s) of
             (modes, reg) \<Rightarrow>
               let s1 = s\<lparr>sh_factory := reg, sh_mode := chosen_mode modes (sh_mode s)\<rparr>
               in case create (sh_mimeType s1) reg of
                    Inl _ \<Rightarrow> finish s1
                  | Inr _ \<Rightarrow> s1\<lparr>sh_binding := Some (sh_next s1), sh_next := Suc (sh_next s1),
                               sh_run := Some (r\<lparr>ir_stage := Mounting (sh_mode s1)\<rparr>)\<rparr>)"

definition perform_init :: "init_env \<Rightarrow> shell \<Rightarrow> shell" where
  "perform_init E s =
     (if sh_collaboration s = sh_lastCollabConfig s \<and> Some (sh_mimeType s) = sh_lastMimeType s then finish s
      else let r = \<lparr>ir_collaboration = sh_collaboration s, ir_mimeType = sh_mimeType s,
                     ir_initialContent = sh_initialContent s, ir_stage = Connecting\<rparr>;
               s1 = teardown (s\<lparr>sh_lastCollabConfig := sh_collaboration s,
                               sh_lastMimeType := Some (sh_mimeType s)\<rparr>)
           in if config_enabled E (ir_collaboration r)
              then s1\<lparr>sh_provider := Some (sh_next s1), sh_next := Suc (sh_next s1), sh_run := Some r\<rparr>
              else after_connect r s1)"

definition no_comments :: "shell \<Rightarrow> shell" where
  "no_comments s = become_ready (s\<lparr>sh_ui := (sh_ui s)\<lparr>ui_commentsAvailable := False, ui_suggestAvailable := False\<rparr>\<rparr>)"

definition relay_answer :: "init_env \<Rightarrow> init_run \<Rightarrow> bool \<Rightarrow> shell \<Rightarrow> shell" where
  "relay_answer E r supported s =
     (case ir_collaboration r of
        None \<Rightarrow> finish s
      | Some c \<Rightarrow>
          if \<not> supported \<or> ie_commentsEnabled E c = Some False then no_comments s
          else s\<lparr>sh_run := Some (r\<lparr>ir_stage := Comment_Capabilities\<rparr>)\<rparr>)"

definition capabilities_answer ::
  "init_env \<Rightarrow> init_run \<Rightarrow> comments_capabilities option \<Rightarrow> shell \<Rightarrow> shell" where
  "capabilities_answer E r caps s =
     (case (caps, ir_collaboration r, sh_binding s) of
        (Some k, Some c, Some b) \<Rightarrow>
          s\<lparr>sh_commentEngine := Some (sh_next s), sh_suggestEngine := Some (Suc (sh_next s)),
            sh_next := sh_next s + 2, sh_commentsAttached := Some (b, sh_next s),
            sh_ui := (sh_ui s)\<lparr>ui_commentsAvailable := True,
                               ui_suggestAvailable := (ie_suggestEnabled E c \<noteq> Some False \<and> cc_suggestions k)\<rparr>,
            sh_run := Some (r\<lparr>ir_stage := Loading\<rparr>)\<rparr>
      | _ \<Rightarrow> no_comments s)"

section \<open>Events\<close>

text \<open>The host sets a property, which Lit notes if the value changes; the pending update is delivered;
  the next run of the chain starts; an \<open>await\<close> of the run ends (whether connecting succeeds does not
  matter: the exception is caught); the user works; the element is removed from the page.\<close>

datatype init_event =
    Set_Collaboration "nat option" | Set_MimeType jsstring | Set_InitialContent jsstring
  | First_Updated | Updated
  | Next_Run | Connected | Mounted bool | Synced | Relay_Answer bool
  | Capabilities_Answer "comments_capabilities option" | Loaded
  | User ui_state
  | Removed

definition requestInit :: "shell \<Rightarrow> shell" where
  "requestInit s = s\<lparr>sh_queue := Suc (sh_queue s)\<rparr>"

definition updated :: "shell \<Rightarrow> shell" where
  "updated s =
     (case sh_changed s of
        (collaboration, mimeType) \<Rightarrow>
          let s1 = s\<lparr>sh_changed := (False, False)\<rparr>
          in if (collaboration \<and> sh_collaboration s \<noteq> sh_lastCollabConfig s)
                \<or> (mimeType \<and> Some (sh_mimeType s) \<noteq> sh_lastMimeType s)
             then requestInit s1 else s1)"

text \<open>\<open>disconnectedCallback\<close> destroys the objects and keeps the references.\<close>

definition disconnectedCallback :: "shell \<Rightarrow> shell" where
  "disconnectedCallback s =
     s\<lparr>sh_attached := None, sh_commentsAttached := None, sh_polling := False,
       sh_destroyed := sh_destroyed s
         @ (case sh_commentEngine s of None \<Rightarrow> [] | Some i \<Rightarrow> [Comment_Engine i])
         @ (case sh_binding s of None \<Rightarrow> [] | Some i \<Rightarrow> [Binding i])
         @ (case sh_provider s of None \<Rightarrow> [] | Some i \<Rightarrow> [Provider i])\<rparr>"

definition on_run :: "(init_run \<Rightarrow> shell \<Rightarrow> shell) \<Rightarrow> shell \<Rightarrow> shell" where
  "on_run f s = (case sh_run s of None \<Rightarrow> s | Some r \<Rightarrow> f r s)"

definition at_stage :: "stage \<Rightarrow> (init_run \<Rightarrow> shell \<Rightarrow> shell) \<Rightarrow> shell \<Rightarrow> shell" where
  "at_stage st f = on_run (\<lambda>r s. if ir_stage r = st then f r s else s)"

fun init_step :: "init_env \<Rightarrow> init_event \<Rightarrow> shell \<Rightarrow> shell" where
  "init_step E (Set_Collaboration c) s =
     s\<lparr>sh_collaboration := c, sh_changed := (fst (sh_changed s) \<or> c \<noteq> sh_collaboration s, snd (sh_changed s))\<rparr>"
| "init_step E (Set_MimeType m) s =
     s\<lparr>sh_mimeType := m, sh_changed := (fst (sh_changed s), snd (sh_changed s) \<or> m \<noteq> sh_mimeType s)\<rparr>"
| "init_step E (Set_InitialContent c) s = s\<lparr>sh_initialContent := c\<rparr>"
| "init_step E First_Updated s = (if sh_binding s = None then requestInit s else s)"
| "init_step E Updated s = updated s"
| "init_step E Next_Run s =
     (case (sh_run s, sh_queue s) of
        (None, Suc n) \<Rightarrow> perform_init E (s\<lparr>sh_queue := n\<rparr>)
      | _ \<Rightarrow> s)"
| "init_step E Connected s = at_stage Connecting after_connect s"
| "init_step E (Mounted ok) s =
     on_run (\<lambda>r s. case ir_stage r of Mounting mode \<Rightarrow> after_mount E r mode ok s | _ \<Rightarrow> s) s"
| "init_step E Synced s = at_stage Syncing after_sync s"
| "init_step E (Relay_Answer b) s = at_stage Relay_Capabilities (\<lambda>r. relay_answer E r b) s"
| "init_step E (Capabilities_Answer k) s = at_stage Comment_Capabilities (\<lambda>r. capabilities_answer E r k) s"
| "init_step E Loaded s = at_stage Loading (\<lambda>r s. become_ready (s\<lparr>sh_polling := True\<rparr>)) s"
| "init_step E (User u) s = s\<lparr>sh_ui := u\<rparr>"
| "init_step E Removed s = disconnectedCallback s"

section \<open>Objects\<close>

fun res_id :: "resource \<Rightarrow> nat" where
  "res_id (Provider i) = i"
| "res_id (Binding i) = i"
| "res_id (Comment_Engine i) = i"
| "res_id (Suggest_Engine i) = i"

text \<open>Every object created so far is either held or was destroyed, once.\<close>

definition accounted :: "shell \<Rightarrow> bool" where
  "accounted s \<longleftrightarrow> mset (map res_id (sh_destroyed s @ held s)) = mset [0..<sh_next s]"

text \<open>Coordinators are attached to objects that are held.\<close>

definition attached_held :: "shell \<Rightarrow> bool" where
  "attached_held s \<longleftrightarrow>
     (\<forall>b p. sh_attached s = Some (b, p) \<longrightarrow> sh_binding s = Some b \<and> sh_provider s = Some p)
     \<and> (\<forall>b e. sh_commentsAttached s = Some (b, e) \<longrightarrow> sh_binding s = Some b \<and> sh_commentEngine s = Some e)
     \<and> (sh_polling s \<longrightarrow> sh_commentEngine s \<noteq> None)"

text \<open>What a run has created at each stage. It is a run for the configuration last noted.\<close>

definition run_stage :: "init_env \<Rightarrow> init_run \<Rightarrow> shell \<Rightarrow> bool" where
  "run_stage E r s \<longleftrightarrow>
     ir_collaboration r = sh_lastCollabConfig s \<and> Some (ir_mimeType r) = sh_lastMimeType s
     \<and> (sh_provider s \<noteq> None \<longleftrightarrow> config_enabled E (sh_lastCollabConfig s))
     \<and> (sh_binding s = None \<longleftrightarrow> ir_stage r = Connecting)
     \<and> (ir_stage r \<noteq> Loading \<longrightarrow> sh_commentEngine s = None \<and> sh_suggestEngine s = None)
     \<and> ((\<exists>m. ir_stage r = Mounting m) \<or> sh_provider s \<noteq> None)
     \<and> (ir_stage r \<in> {Relay_Capabilities, Comment_Capabilities, Loading} \<longrightarrow> sh_attached s \<noteq> None)
     \<and> (ir_stage r = Loading \<longrightarrow> sh_commentEngine s \<noteq> None)"

definition init_inv :: "init_env \<Rightarrow> shell \<Rightarrow> bool" where
  "init_inv E s \<longleftrightarrow> accounted s \<and> attached_held s \<and> (\<forall>r. sh_run s = Some r \<longrightarrow> run_stage E r s)"

text \<open>A difference between the properties and the configuration last noted is pending.\<close>

definition request_inv :: "shell \<Rightarrow> bool" where
  "request_inv s \<longleftrightarrow>
     (sh_collaboration s \<noteq> sh_lastCollabConfig s \<longrightarrow> fst (sh_changed s) \<or> 0 < sh_queue s)
     \<and> (Some (sh_mimeType s) \<noteq> sh_lastMimeType s \<longrightarrow> snd (sh_changed s) \<or> 0 < sh_queue s)"

text \<open>Fields that do not matter for the objects.\<close>

lemma accounted_inert [simp]:
  "accounted (s\<lparr>sh_run := r\<rparr>) = accounted s" "accounted (s\<lparr>sh_ui := u\<rparr>) = accounted s"
  "accounted (s\<lparr>sh_mode := m\<rparr>) = accounted s" "accounted (s\<lparr>sh_ready := b\<rparr>) = accounted s"
  "accounted (s\<lparr>sh_factory := g\<rparr>) = accounted s" "accounted (s\<lparr>sh_seeded := t\<rparr>) = accounted s"
  "accounted (s\<lparr>sh_queue := n\<rparr>) = accounted s" "accounted (s\<lparr>sh_changed := c\<rparr>) = accounted s"
  "accounted (s\<lparr>sh_collaboration := x\<rparr>) = accounted s" "accounted (s\<lparr>sh_mimeType := y\<rparr>) = accounted s"
  "accounted (s\<lparr>sh_initialContent := t'\<rparr>) = accounted s" "accounted (s\<lparr>sh_lastCollabConfig := x\<rparr>) = accounted s"
  "accounted (s\<lparr>sh_lastMimeType := z\<rparr>) = accounted s" "accounted (s\<lparr>sh_attached := q\<rparr>) = accounted s"
  "accounted (s\<lparr>sh_polling := b\<rparr>) = accounted s" "accounted (s\<lparr>sh_commentsAttached := q\<rparr>) = accounted s"
  by (simp_all add: accounted_def held_def)

lemma attached_inert [simp]:
  "attached_held (s\<lparr>sh_run := r\<rparr>) = attached_held s" "attached_held (s\<lparr>sh_ui := u\<rparr>) = attached_held s"
  "attached_held (s\<lparr>sh_mode := m\<rparr>) = attached_held s" "attached_held (s\<lparr>sh_ready := b\<rparr>) = attached_held s"
  "attached_held (s\<lparr>sh_factory := g\<rparr>) = attached_held s" "attached_held (s\<lparr>sh_seeded := t\<rparr>) = attached_held s"
  "attached_held (s\<lparr>sh_queue := n\<rparr>) = attached_held s" "attached_held (s\<lparr>sh_changed := c\<rparr>) = attached_held s"
  "attached_held (s\<lparr>sh_collaboration := x\<rparr>) = attached_held s" "attached_held (s\<lparr>sh_mimeType := y\<rparr>) = attached_held s"
  "attached_held (s\<lparr>sh_initialContent := t'\<rparr>) = attached_held s"
  "attached_held (s\<lparr>sh_lastCollabConfig := x\<rparr>) = attached_held s"
  "attached_held (s\<lparr>sh_lastMimeType := z\<rparr>) = attached_held s" "attached_held (s\<lparr>sh_next := n\<rparr>) = attached_held s"
  by (simp_all add: attached_held_def)

lemma run_stage_inert [simp]:
  "run_stage E r (s\<lparr>sh_mode := m\<rparr>) = run_stage E r s" "run_stage E r (s\<lparr>sh_seeded := t\<rparr>) = run_stage E r s"
  "run_stage E r (s\<lparr>sh_queue := n\<rparr>) = run_stage E r s" "run_stage E r (s\<lparr>sh_changed := c\<rparr>) = run_stage E r s"
  "run_stage E r (s\<lparr>sh_collaboration := x\<rparr>) = run_stage E r s" "run_stage E r (s\<lparr>sh_mimeType := y\<rparr>) = run_stage E r s"
  "run_stage E r (s\<lparr>sh_initialContent := t'\<rparr>) = run_stage E r s" "run_stage E r (s\<lparr>sh_ui := u\<rparr>) = run_stage E r s"
  by (simp_all add: run_stage_def)

lemma accounted_new_binding:
  "accounted s \<Longrightarrow> sh_binding s = None \<Longrightarrow> accounted (s\<lparr>sh_binding := Some (sh_next s), sh_next := Suc (sh_next s)\<rparr>)"
  by (simp add: accounted_def held_def)

lemma accounted_new_provider:
  "accounted s \<Longrightarrow> sh_provider s = None \<Longrightarrow> accounted (s\<lparr>sh_provider := Some (sh_next s), sh_next := Suc (sh_next s)\<rparr>)"
  by (simp add: accounted_def held_def)

lemma accounted_new_engines:
  "accounted s \<Longrightarrow> sh_commentEngine s = None \<Longrightarrow> sh_suggestEngine s = None \<Longrightarrow>
   accounted (s\<lparr>sh_commentEngine := Some (sh_next s), sh_suggestEngine := Some (Suc (sh_next s)), sh_next := sh_next s + 2\<rparr>)"
  by (simp add: accounted_def held_def)

lemma finish_inv: "accounted s \<Longrightarrow> attached_held s \<Longrightarrow> init_inv E (finish s)"
  by (simp add: init_inv_def finish_def)

lemma become_ready_inv: "accounted s \<Longrightarrow> attached_held s \<Longrightarrow> init_inv E (become_ready s)"
  unfolding become_ready_def by (rule finish_inv) simp_all

lemma no_comments_inv: "accounted s \<Longrightarrow> attached_held s \<Longrightarrow> init_inv E (no_comments s)"
  unfolding no_comments_def by (rule become_ready_inv) simp_all

lemma teardown_inv: "accounted s \<Longrightarrow> accounted (teardown s) \<and> attached_held (teardown s)"
  by (simp add: accounted_def attached_held_def teardown_def held_def)

lemma after_sync_inv:
  assumes "accounted s" "attached_held s" "run_stage E r s" "ir_stage r \<noteq> Loading" "ir_stage r \<noteq> Connecting"
  shows "init_inv E (after_sync r s)"
proof -
  have "init_inv E (s\<lparr>sh_attached := Some (b, p), sh_run := Some (r\<lparr>ir_stage := Relay_Capabilities\<rparr>)\<rparr>)"
    if "sh_provider s = Some p" "sh_binding s = Some b" for b p
    using assms that by (auto simp: init_inv_def run_stage_def attached_held_def)
  then show ?thesis using assms finish_inv become_ready_inv
    by (auto simp: after_sync_def attach_coordinators_def split: option.split)
qed

lemma mounted_frame [simp]:
  "accounted (mounted E r mode s) = accounted s" "attached_held (mounted E r mode s) = attached_held s"
  "run_stage E r (mounted E r mode s) = run_stage E r s" "sh_provider (mounted E r mode s) = sh_provider s"
  "sh_binding (mounted E r mode s) = sh_binding s" "sh_queue (mounted E r mode s) = sh_queue s"
  "sh_collaboration (mounted E r mode s) = sh_collaboration s" "sh_mimeType (mounted E r mode s) = sh_mimeType s"
  "sh_lastCollabConfig (mounted E r mode s) = sh_lastCollabConfig s"
  "sh_lastMimeType (mounted E r mode s) = sh_lastMimeType s" "sh_factory (mounted E r mode s) = sh_factory s"
  by (simp_all add: mounted_def)

lemma after_mount_inv:
  assumes "accounted s" "attached_held s" "run_stage E r s" "ir_stage r = Mounting m"
  shows "init_inv E (after_mount E r mode ok s)"
proof -
  have "init_inv E (if sh_provider t \<noteq> None then t\<lparr>sh_run := Some (r\<lparr>ir_stage := Syncing\<rparr>)\<rparr> else after_sync r t)"
    if "accounted t" "attached_held t" "run_stage E r t" for t
    using after_sync_inv [OF that] that assms(4) by (auto simp: init_inv_def run_stage_def)
  from this [of "mounted E r mode s"] show ?thesis
    using assms(1-3) finish_inv [of s E] by (simp add: after_mount_def Let_def)
qed

lemma after_connect_inv:
  assumes "accounted s" "attached_held s" "sh_binding s = None" "sh_commentEngine s = None" "sh_suggestEngine s = None"
    and "ir_collaboration r = sh_lastCollabConfig s" "Some (ir_mimeType r) = sh_lastMimeType s"
    and "sh_provider s \<noteq> None \<longleftrightarrow> config_enabled E (sh_lastCollabConfig s)"
  shows "init_inv E (after_connect r s)"
proof -
  have "init_inv E (finish (s\<lparr>sh_factory := reg, sh_mode := m\<rparr>))" for reg m
    using assms(1,2) by (intro finish_inv) simp_all
  moreover have "init_inv E (s\<lparr>sh_factory := reg, sh_mode := m, sh_binding := Some (sh_next s), sh_next := Suc (sh_next s),
      sh_run := Some (r\<lparr>ir_stage := Mounting m\<rparr>)\<rparr>)" for reg m
    using assms accounted_new_binding [of "s\<lparr>sh_factory := reg, sh_mode := m\<rparr>"]
    by (auto simp: init_inv_def run_stage_def attached_held_def)
  ultimately show ?thesis using assms(1,2) finish_inv
    by (auto simp: after_connect_def Let_def split: prod.split sum.split)
qed

lemma perform_init_inv:
  assumes "init_inv E s" "sh_run s = None"
  shows "init_inv E (perform_init E s)"
proof -
  define s1 where "s1 = teardown (s\<lparr>sh_lastCollabConfig := sh_collaboration s, sh_lastMimeType := Some (sh_mimeType s)\<rparr>)"
  have s1: "accounted s1" "attached_held s1"
    using assms(1) teardown_inv unfolding s1_def by (simp_all add: init_inv_def)
  have f: "sh_provider s1 = None" "sh_binding s1 = None" "sh_commentEngine s1 = None" "sh_suggestEngine s1 = None"
      "sh_attached s1 = None" "sh_commentsAttached s1 = None" "\<not> sh_polling s1"
      "sh_lastCollabConfig s1 = sh_collaboration s" "sh_lastMimeType s1 = Some (sh_mimeType s)"
    by (simp_all add: s1_def teardown_def)
  define r where "r = \<lparr>ir_collaboration = sh_collaboration s, ir_mimeType = sh_mimeType s,
    ir_initialContent = sh_initialContent s, ir_stage = Connecting\<rparr>"
  have "init_inv E (s1\<lparr>sh_provider := Some (sh_next s1), sh_next := Suc (sh_next s1), sh_run := Some r\<rparr>)"
    if "config_enabled E (sh_collaboration s)"
    using s1 f that accounted_new_provider [of s1] by (simp add: init_inv_def run_stage_def attached_held_def r_def)
  moreover have "init_inv E (after_connect r s1)" if "\<not> config_enabled E (sh_collaboration s)"
    using s1 f that by (intro after_connect_inv) (simp_all add: r_def)
  moreover have "ir_collaboration r = sh_collaboration s" by (simp add: r_def)
  ultimately show ?thesis using assms finish_inv [of s E]
    by (auto simp: perform_init_def Let_def init_inv_def [of E s] simp flip: s1_def r_def)
qed

lemma relay_answer_inv:
  assumes "init_inv E s" "sh_run s = Some r" "ir_stage r = Relay_Capabilities"
  shows "init_inv E (relay_answer E r b s)"
proof -
  have "init_inv E (s\<lparr>sh_run := Some (r\<lparr>ir_stage := Comment_Capabilities\<rparr>)\<rparr>)"
    using assms by (auto simp: init_inv_def run_stage_def)
  then show ?thesis using assms finish_inv no_comments_inv
    by (auto simp: relay_answer_def init_inv_def [of E s] split: option.split)
qed

lemma capabilities_answer_inv:
  assumes "init_inv E s" "sh_run s = Some r" "ir_stage r = Comment_Capabilities"
  shows "init_inv E (capabilities_answer E r k s)"
proof -
  have "init_inv E (s\<lparr>sh_commentEngine := Some (sh_next s), sh_suggestEngine := Some (Suc (sh_next s)),
      sh_next := sh_next s + 2, sh_commentsAttached := Some (b, sh_next s), sh_ui := u,
      sh_run := Some (r\<lparr>ir_stage := Loading\<rparr>)\<rparr>)" if "sh_binding s = Some b" for b u
    using assms that accounted_new_engines [of s] by (auto simp: init_inv_def run_stage_def attached_held_def)
  then show ?thesis using assms no_comments_inv
    by (auto simp: capabilities_answer_def init_inv_def [of E s] split: option.split)
qed

lemma loaded_inv:
  assumes "init_inv E s" "sh_run s = Some r" "ir_stage r = Loading"
  shows "init_inv E (become_ready (s\<lparr>sh_polling := True\<rparr>))"
  using assms by (intro become_ready_inv) (auto simp: init_inv_def run_stage_def attached_held_def)

lemma init_step_inv:
  assumes "init_inv E s" "ev \<noteq> Removed"
  shows "init_inv E (init_step E ev s)"
proof (cases ev)
  case Next_Run
  have "init_inv E (s\<lparr>sh_queue := n\<rparr>)" for n using assms(1) by (simp add: init_inv_def)
  then show ?thesis using Next_Run assms(1) perform_init_inv [of E "s\<lparr>sh_queue := n\<rparr>" for n]
    by (auto split: option.split nat.split)
next
  case Connected
  then show ?thesis using assms after_connect_inv
    by (auto simp: at_stage_def on_run_def init_inv_def [of E s] run_stage_def split: option.split)
next
  case (Mounted ok)
  then show ?thesis using assms after_mount_inv
    by (auto simp: on_run_def init_inv_def [of E s] split: option.split stage.split)
next
  case Synced
  then show ?thesis using assms after_sync_inv
    by (auto simp: at_stage_def on_run_def init_inv_def [of E s] split: option.split)
next
  case (Relay_Answer b)
  then show ?thesis using assms relay_answer_inv by (auto simp: at_stage_def on_run_def split: option.split)
next
  case (Capabilities_Answer k)
  then show ?thesis using assms capabilities_answer_inv by (auto simp: at_stage_def on_run_def split: option.split)
next
  case Loaded
  then show ?thesis using assms loaded_inv by (auto simp: at_stage_def on_run_def split: option.split)
qed (use assms in \<open>auto simp: init_inv_def updated_def requestInit_def Let_def split: prod.split\<close>)

lemma init_run_inv: "init_inv E s \<Longrightarrow> Removed \<notin> set evs \<Longrightarrow> init_inv E (fold (init_step E) evs s)"
  using init_step_inv by (induction evs arbitrary: s) auto

lemma new_shell_inv: "init_inv E new_shell"
  by (simp add: init_inv_def accounted_def attached_held_def held_def new_shell_def)

section \<open>The chain of runs\<close>

text \<open>The events of the chain itself: a run starts, or an \<open>await\<close> of it ends.\<close>

fun chain_event :: "init_event \<Rightarrow> bool" where
  "chain_event Next_Run = True"
| "chain_event Connected = True"
| "chain_event (Mounted ok) = True"
| "chain_event Synced = True"
| "chain_event (Relay_Answer b) = True"
| "chain_event (Capabilities_Answer k) = True"
| "chain_event Loaded = True"
| "chain_event _ = False"

fun stage_rank :: "stage \<Rightarrow> nat" where
  "stage_rank Connecting = 6"
| "stage_rank (Mounting m) = 5"
| "stage_rank Syncing = 4"
| "stage_rank Relay_Capabilities = 3"
| "stage_rank Comment_Capabilities = 2"
| "stage_rank Loading = 1"

definition init_rank :: "shell \<Rightarrow> nat" where
  "init_rank s = 7 * sh_queue s + (case sh_run s of None \<Rightarrow> 0 | Some r \<Rightarrow> stage_rank (ir_stage r))"

definition quiescent :: "shell \<Rightarrow> bool" where
  "quiescent s \<longleftrightarrow> sh_run s = None \<and> sh_queue s = 0"

lemmas run_part_defs = after_connect_def after_mount_def after_sync_def attach_coordinators_def relay_answer_def
  capabilities_answer_def no_comments_def become_ready_def finish_def at_stage_def on_run_def

lemma perform_init_rank: "sh_run s = None \<Longrightarrow> init_rank (perform_init E s) \<le> 7 * sh_queue s + 6"
  by (auto simp: init_rank_def perform_init_def teardown_def after_connect_def finish_def Let_def
      split: option.split prod.split sum.split)

lemma after_sync_rank: "init_rank (after_sync r s) < 7 * sh_queue s + 4"
  by (simp add: init_rank_def after_sync_def attach_coordinators_def become_ready_def finish_def split: option.split)

lemma after_mount_rank: "init_rank (after_mount E r mode ok s) < 7 * sh_queue s + 5"
  using after_sync_rank [of r "mounted E r mode s"]
  by (auto simp: after_mount_def Let_def finish_def init_rank_def split: option.splits)

lemma after_connect_rank: "init_rank (after_connect r s) < 7 * sh_queue s + 6"
  by (simp add: init_rank_def after_connect_def finish_def Let_def split: prod.split sum.split)

lemma answer_rank:
  "init_rank (relay_answer E r b s) < 7 * sh_queue s + 3" "init_rank (capabilities_answer E r k s) < 7 * sh_queue s + 2"
  "init_rank (become_ready (s\<lparr>sh_polling := True\<rparr>)) < 7 * sh_queue s + 1"
  by (simp_all add: init_rank_def relay_answer_def capabilities_answer_def no_comments_def become_ready_def
      finish_def split: option.split)

text \<open>Which event a run waits for.\<close>

fun awaits :: "stage \<Rightarrow> init_event \<Rightarrow> bool" where
  "awaits Connecting Connected = True"
| "awaits (Mounting m) (Mounted ok) = True"
| "awaits Syncing Synced = True"
| "awaits Relay_Capabilities (Relay_Answer b) = True"
| "awaits Comment_Capabilities (Capabilities_Answer k) = True"
| "awaits Loading Loaded = True"
| "awaits _ _ = False"

lemma awaited_step:
  assumes "sh_run s = Some r" "awaits (ir_stage r) ev"
  shows "init_rank (init_step E ev s) < init_rank s"
proof -
  have r: "init_rank s = 7 * sh_queue s + stage_rank (ir_stage r)" using assms(1) by (simp add: init_rank_def)
  show ?thesis
    using assms after_connect_rank [of r s] after_mount_rank [of E r _ _ s] after_sync_rank [of r s]
      answer_rank(1,2) [of E r _ s] answer_rank(3) [of s] unfolding r
    by (cases "ir_stage r"; cases ev) (simp_all add: at_stage_def on_run_def)
qed

lemma started_step:
  assumes "sh_run s = None" "sh_queue s = Suc n"
  shows "init_rank (init_step E Next_Run s) < init_rank s"
  using assms perform_init_rank [of "s\<lparr>sh_queue := n\<rparr>" E] by (simp add: init_rank_def)

lemma unawaited_step:
  "chain_event ev \<Longrightarrow> sh_run s = Some r \<Longrightarrow> \<not> awaits (ir_stage r) ev \<Longrightarrow> init_step E ev s = s"
  "chain_event ev \<Longrightarrow> sh_run s = None \<Longrightarrow> ev \<noteq> Next_Run \<or> sh_queue s = 0 \<Longrightarrow> init_step E ev s = s"
  by (elim chain_event.elims(2); cases "ir_stage r"; simp add: at_stage_def on_run_def)+

lemma effective_chain_event:
  assumes "chain_event ev" "init_step E ev s \<noteq> s"
  shows "(\<exists>r. sh_run s = Some r \<and> awaits (ir_stage r) ev)
    \<or> ev = Next_Run \<and> sh_run s = None \<and> (\<exists>n. sh_queue s = Suc n)"
  using assms unawaited_step by (cases "sh_run s"; cases "sh_queue s") blast+

lemma chain_step_rank:
  assumes "chain_event ev" "init_step E ev s \<noteq> s"
  shows "init_rank (init_step E ev s) < init_rank s"
  using effective_chain_event [OF assms] awaited_step started_step by blast

text \<open>The next event of a chain that has not ended.\<close>

definition next_event :: "shell \<Rightarrow> init_event" where
  "next_event s =
     (case sh_run s of
        None \<Rightarrow> Next_Run
      | Some r \<Rightarrow>
          (case ir_stage r of Connecting \<Rightarrow> Connected | Mounting m \<Rightarrow> Mounted True | Syncing \<Rightarrow> Synced
             | Relay_Capabilities \<Rightarrow> Relay_Answer True | Comment_Capabilities \<Rightarrow> Capabilities_Answer None
             | Loading \<Rightarrow> Loaded))"

lemma chain_progress:
  assumes "\<not> quiescent s"
  shows "chain_event (next_event s) \<and> next_event s \<noteq> Mounted False
    \<and> init_rank (init_step E (next_event s) s) < init_rank s"
proof (cases "sh_run s")
  case None
  then obtain n where "sh_queue s = Suc n" using assms by (cases "sh_queue s") (auto simp: quiescent_def)
  with None started_step show ?thesis by (simp add: next_event_def)
next
  case (Some r)
  then have "awaits (ir_stage r) (next_event s)" "chain_event (next_event s)" "next_event s \<noteq> Mounted False"
    by (cases "ir_stage r"; simp add: next_event_def)+
  with Some awaited_step show ?thesis by blast
qed

section \<open>The configuration that is initialised\<close>

text \<open>The properties differ from the configuration last noted.\<close>

definition due :: "shell \<Rightarrow> bool" where
  "due s \<longleftrightarrow> sh_collaboration s \<noteq> sh_lastCollabConfig s \<or> Some (sh_mimeType s) \<noteq> sh_lastMimeType s"

definition known_type :: "shell \<Rightarrow> bool" where
  "known_type s \<longleftrightarrow> (\<exists>c. create (sh_mimeType s) (sh_factory s) = Inr c)"

definition initialised :: "init_env \<Rightarrow> shell \<Rightarrow> bool" where
  "initialised E s \<longleftrightarrow> \<not> due s \<and> sh_ready s
     \<and> (\<exists>b. sh_binding s = Some b
          \<and> (if config_enabled E (sh_collaboration s) then \<exists>p. sh_provider s = Some p \<and> sh_attached s = Some (b, p)
             else sh_provider s = None))"

definition config_part ::
  "shell \<Rightarrow> nat option \<times> jsstring \<times> nat option \<times> jsstring option \<times> (bool \<times> bool) \<times> nat" where
  "config_part s =
     (sh_collaboration s, sh_mimeType s, sh_lastCollabConfig s, sh_lastMimeType s, sh_changed s, sh_queue s)"

lemma config_part_run [simp]:
  "config_part (finish s) = config_part s" "config_part (become_ready s) = config_part s"
  "config_part (no_comments s) = config_part s" "config_part (after_sync r s) = config_part s"
  "config_part (after_mount E r mode ok s) = config_part s" "config_part (after_connect r s) = config_part s"
  "config_part (relay_answer E r b s) = config_part s" "config_part (capabilities_answer E r k s) = config_part s"
  by (auto simp: config_part_def run_part_defs mounted_def Let_def split: option.split prod.split sum.split)

lemma perform_init_config:
  "config_part (perform_init E s) =
     (sh_collaboration s, sh_mimeType s, sh_collaboration s, Some (sh_mimeType s), sh_changed s, sh_queue s)"
proof -
  have "config_part (teardown t) = config_part t" for t by (simp add: config_part_def teardown_def)
  then show ?thesis by (auto simp: perform_init_def Let_def) (simp_all add: config_part_def teardown_def)
qed

lemma request_inv_config: "config_part s' = config_part s \<Longrightarrow> request_inv s' = request_inv s"
  and due_config: "config_part s' = config_part s \<Longrightarrow> due s' = due s"
  by (simp_all add: config_part_def request_inv_def due_def)

lemma awaited_config: "sh_run s = Some r \<Longrightarrow> chain_event ev \<Longrightarrow> config_part (init_step E ev s) = config_part s"
  by (elim chain_event.elims(2)) (auto simp: at_stage_def on_run_def config_part_def [of "s\<lparr>sh_polling := True\<rparr>"]
      config_part_def [of s, symmetric] split: stage.split)

lemma request_inv_step: "request_inv s \<Longrightarrow> request_inv (init_step E ev s)"
proof (cases "chain_event ev")
  case True
  assume i: "request_inv s"
  show ?thesis
  proof (cases "sh_run s")
    case None
    then show ?thesis using True i unawaited_step(2) [OF True None, of E] perform_init_config [of E]
      by (cases "ev = Next_Run"; cases "sh_queue s") (auto simp: request_inv_def config_part_def)
  next
    case (Some r)
    then show ?thesis using True i awaited_config request_inv_config by blast
  qed
next
  case False
  then show "request_inv s \<Longrightarrow> ?thesis"
    by (cases ev) (auto simp: request_inv_def updated_def requestInit_def disconnectedCallback_def Let_def split: prod.splits)
qed

lemma request_inv_run: "request_inv s \<Longrightarrow> request_inv (fold (init_step E) evs s)"
  using request_inv_step by (induction evs arbitrary: s) auto

lemma create_keeps: "create mt (snd (getSupportedModes mt' reg)) = create mt reg"
  by (simp add: create_def getSupportedModes_def Let_def split: option.split)

lemma known_type_connect: "known_type s \<Longrightarrow> known_type (after_connect r s)"
  using create_keeps [of "sh_mimeType s" "ir_mimeType r" "sh_factory s"]
  by (auto simp: known_type_def after_connect_def finish_def Let_def split: prod.split sum.split)

lemma factory_run:
  "sh_factory (finish s) = sh_factory s" "sh_factory (become_ready s) = sh_factory s"
  "sh_factory (no_comments s) = sh_factory s" "sh_factory (after_sync r s) = sh_factory s"
  "sh_factory (after_mount E r mode ok s) = sh_factory s"
  "sh_factory (relay_answer E r b s) = sh_factory s" "sh_factory (capabilities_answer E r k s) = sh_factory s"
  by (auto simp: run_part_defs mounted_def Let_def split: option.split)

lemma known_type_config:
  "config_part s' = config_part s \<Longrightarrow> sh_factory s' = sh_factory s \<Longrightarrow> known_type s' = known_type s"
  by (simp add: known_type_def config_part_def)

lemma known_type_step:
  assumes "known_type s" "sh_run s = Some r" "awaits (ir_stage r) ev"
  shows "known_type (init_step E ev s)"
proof -
  have "config_part (s\<lparr>sh_polling := True\<rparr>) = config_part s" by (simp add: config_part_def)
  then show ?thesis using assms known_type_connect [OF assms(1)]
    by (cases "ir_stage r"; cases ev)
      (simp_all add: at_stage_def on_run_def factory_run known_type_config [THEN iffD2, OF _ _ assms(1)])
qed

lemma known_type_perform:
  assumes "known_type s"
  shows "known_type (perform_init E s)"
proof -
  have "known_type (teardown (s\<lparr>sh_lastCollabConfig := c, sh_lastMimeType := m\<rparr>))" for c m
    using assms by (simp add: known_type_def teardown_def)
  then have "known_type (after_connect r (teardown (s\<lparr>sh_lastCollabConfig := c, sh_lastMimeType := m\<rparr>)))"
      "known_type ((teardown (s\<lparr>sh_lastCollabConfig := c, sh_lastMimeType := m\<rparr>))\<lparr>sh_provider := p, sh_next := n, sh_run := q\<rparr>)"
    for r c m p n q
    using known_type_connect by (simp_all add: known_type_def)
  moreover have "known_type (finish s)" using assms by (simp add: known_type_def finish_def)
  ultimately show ?thesis by (simp add: perform_init_def Let_def)
qed

text \<open>While nobody changes a property, a run that has begun is not stale, and ends with the element
  initialised.\<close>

definition on_course :: "init_env \<Rightarrow> shell \<Rightarrow> bool" where
  "on_course E s \<longleftrightarrow> init_inv E s \<and> known_type s
     \<and> (case sh_run s of None \<Rightarrow> due s \<and> 0 < sh_queue s \<or> initialised E s | Some r \<Rightarrow> \<not> due s)"

lemma not_stale: "run_stage E r s \<Longrightarrow> \<not> due s \<Longrightarrow> \<not> stale r s"
  unfolding run_stage_def due_def stale_def by (metis option.inject)

lemma due_ready [simp]: "due (become_ready s) = due s" "due (no_comments s) = due s"
  by (rule due_config; simp)+

lemma attached_ready:
  assumes "init_inv E s" "sh_run s = Some r" "\<not> due s" "sh_attached s \<noteq> None"
  shows "initialised E (become_ready s)" "initialised E (no_comments s)"
    "initialised E (become_ready (s\<lparr>sh_polling := True\<rparr>))"
proof -
  obtain b p where a: "sh_attached s = Some (b, p)" "sh_binding s = Some b" "sh_provider s = Some p"
    using assms(1,4) by (auto simp: init_inv_def attached_held_def)
  then have "config_enabled E (sh_collaboration s)"
    using assms(1-3) by (auto simp: init_inv_def run_stage_def due_def)
  then show "initialised E (become_ready s)" "initialised E (no_comments s)"
    "initialised E (become_ready (s\<lparr>sh_polling := True\<rparr>))"
    using a assms(3) by (simp_all add: initialised_def due_def become_ready_def no_comments_def finish_def)
qed

lemma local_ready:
  assumes "run_stage E r s" "\<not> due s" "sh_provider s = None" "sh_binding s \<noteq> None"
  shows "sh_run (after_sync r s) = None \<and> initialised E (after_sync r s)"
  using assms not_stale [OF assms(1,2)]
  by (auto simp: after_sync_def attach_coordinators_def initialised_def become_ready_def finish_def due_def
      run_stage_def)

lemma fresh_connect:
  assumes "\<not> stale r s" "known_type s"
  shows "sh_run (after_connect r s) \<noteq> None"
  using assms create_keeps [of "sh_mimeType s" "ir_mimeType r" "sh_factory s"]
  by (auto simp: after_connect_def known_type_def Let_def split: prod.split sum.split)

lemma config_enabled_Some: "config_enabled E c \<Longrightarrow> \<exists>i. c = Some i"
  by (auto simp: config_enabled_def split: option.splits)

lemma awaited_outcome:
  assumes "init_inv E s" "known_type s" "\<not> due s" "sh_run s = Some r" "awaits (ir_stage r) ev" "ev \<noteq> Mounted False"
  shows "sh_run (init_step E ev s) \<noteq> None \<or> initialised E (init_step E ev s)"
proof -
  have r: "run_stage E r s" using assms(1,4) by (simp add: init_inv_def)
  note ready = attached_ready [OF assms(1,4,3)]
  show ?thesis
  proof (cases "ir_stage r")
    case Connecting
    then show ?thesis using assms(4,5) fresh_connect [OF not_stale [OF r assms(3)] assms(2)]
      by (cases ev) (simp_all add: at_stage_def on_run_def)
  next
    case (Mounting m)
    have "\<not> due (mounted E r m s)" using assms(3) by (simp add: due_def)
    moreover have "sh_binding s \<noteq> None" using r Mounting by (simp add: run_stage_def)
    ultimately have "sh_run (after_mount E r m True s) \<noteq> None \<or> initialised E (after_mount E r m True s)"
      using local_ready [of E r "mounted E r m s"] r by (simp add: after_mount_def Let_def)
    then show ?thesis using Mounting assms(4-6) by (cases ev) (simp_all add: on_run_def)
  next
    case Syncing
    then obtain p b c where "sh_provider s = Some p" "sh_binding s = Some b" "ir_collaboration r = Some c"
      using r by (auto simp: run_stage_def dest: config_enabled_Some)
    then show ?thesis using Syncing assms(4,5) not_stale [OF r assms(3)]
      by (cases ev) (simp_all add: at_stage_def on_run_def after_sync_def attach_coordinators_def)
  next
    case Relay_Capabilities
    then obtain c where "ir_collaboration r = Some c" "sh_attached s \<noteq> None"
      using r by (auto simp: run_stage_def dest: config_enabled_Some)
    then show ?thesis using Relay_Capabilities assms(4,5) ready
      by (cases ev) (simp_all add: at_stage_def on_run_def relay_answer_def)
  next
    case Comment_Capabilities
    then show ?thesis using r assms(4,5) ready
      by (cases ev) (simp_all add: at_stage_def on_run_def capabilities_answer_def run_stage_def split: option.split)
  next
    case Loading
    then show ?thesis using r assms(4,5) ready
      by (cases ev) (simp_all add: at_stage_def on_run_def run_stage_def)
  qed
qed

lemma started_outcome:
  assumes "known_type s" "due s" "sh_run s = None"
  shows "sh_run (perform_init E s) \<noteq> None \<and> \<not> due (perform_init E s)"
proof -
  define s1 where "s1 = teardown (s\<lparr>sh_lastCollabConfig := sh_collaboration s, sh_lastMimeType := Some (sh_mimeType s)\<rparr>)"
  define r where "r = \<lparr>ir_collaboration = sh_collaboration s, ir_mimeType = sh_mimeType s,
    ir_initialContent = sh_initialContent s, ir_stage = Connecting\<rparr>"
  have "\<not> stale r s1" "known_type s1"
    using assms(1) by (simp_all add: stale_def r_def s1_def teardown_def known_type_def)
  then have "sh_run (perform_init E s) \<noteq> None"
    using fresh_connect [of r s1] assms(2) by (auto simp: perform_init_def Let_def due_def simp flip: s1_def r_def)
  then show ?thesis using perform_init_config [of E s] by (simp add: due_def config_part_def)
qed

lemma on_course_step:
  assumes "on_course E s" "chain_event ev" "ev \<noteq> Mounted False"
  shows "on_course E (init_step E ev s)"
proof -
  have i: "init_inv E (init_step E ev s)"
    using assms(1,2) by (intro init_step_inv) (auto simp: on_course_def)
  have k: "known_type s" and s: "init_inv E s" using assms(1) by (simp_all add: on_course_def)
  show ?thesis
  proof (cases "sh_run s")
    case None
    show ?thesis
    proof (cases "ev = Next_Run \<and> 0 < sh_queue s")
      case True
      then obtain n where n: "sh_queue s = Suc n" by (cases "sh_queue s") auto
      define t where "t = s\<lparr>sh_queue := n\<rparr>"
      have t: "known_type t" "due t = due s" "sh_run t = None" "initialised E t = initialised E s"
        using k None by (simp_all add: t_def known_type_def due_def initialised_def)
      have e: "init_step E ev s = perform_init E t" using True None n by (simp add: t_def)
      have "on_course E (perform_init E t)" if "due s"
        using started_outcome [OF t(1) _ t(3), of E] that t(2) i known_type_perform [OF t(1)]
        by (auto simp: on_course_def e)
      moreover have "perform_init E t = t" if "\<not> due s"
        using that t(2,3) by (simp add: perform_init_def due_def finish_def)
      ultimately show ?thesis using assms(1) None t i by (auto simp: e on_course_def)
    next
      case False
      then show ?thesis using unawaited_step(2) [OF assms(2) None, of E] assms(1) by auto
    qed
  next
    case (Some r)
    then have d: "\<not> due s" using assms(1) by (simp add: on_course_def)
    show ?thesis
    proof (cases "awaits (ir_stage r) ev")
      case True
      have "\<not> due (init_step E ev s)" using d due_config [OF awaited_config [OF Some assms(2)]] by simp
      then show ?thesis
        using awaited_outcome [OF s k d Some True assms(3)] known_type_step [OF k Some True, of E] i
        by (auto simp: on_course_def split: option.split)
    next
      case False
      then show ?thesis using unawaited_step(1) [OF assms(2) Some, of E] assms(1) by simp
    qed
  qed
qed

lemma on_course_run:
  "on_course E s \<Longrightarrow> list_all (\<lambda>ev. chain_event ev \<and> ev \<noteq> Mounted False) evs \<Longrightarrow>
   on_course E (fold (init_step E) evs s)"
  using on_course_step by (induction evs arbitrary: s) auto

text \<open>The type of a new element is registered.\<close>

lemma plain_type:
  obtains reg c where "getSupportedModes (js ''text/plain'') (registerDefaults []) = ([Source_Mode], reg)"
    "create (js ''text/plain'') reg = Inr c"
proof -
  obtain reg where "registerDefaults [] = register (js ''text/plain'')
      \<lparr>bc_kind = Source_Only, bc_language = js ''markdown''\<rparr> PlainTextContentHandler reg"
    by (simp add: registerDefaults_def default_bindings_def)
  then have "fst (getSupportedModes (js ''text/plain'') (registerDefaults [])) = [Source_Mode]"
    and "\<exists>c. create (js ''text/plain'') (registerDefaults []) = Inr c"
    by (simp_all add: getSupportedModes_def create_def register_def Let_def)
  then show ?thesis
    using that create_keeps [of "js ''text/plain''" "js ''text/plain''" "registerDefaults []"] by (metis prod.collapse)
qed

section \<open>Properties\<close>

text \<open>C12: No object leaks while the element is in the page. After any changes of properties, user
  actions and answers, in any order, every provider, binding, comment engine and suggest engine that
  was created is either the one the element holds or was destroyed, exactly once, and coordinators are
  attached to, and polling runs for, objects that are held.\<close>

theorem objects_accounted_for:
  assumes "Removed \<notin> set evs" "s = fold (init_step E) evs new_shell"
  shows "mset (map res_id (sh_destroyed s @ held s)) = mset [0..<sh_next s]
    \<and> (\<forall>b p. sh_attached s = Some (b, p) \<longrightarrow> sh_binding s = Some b \<and> sh_provider s = Some p)
    \<and> (\<forall>b e. sh_commentsAttached s = Some (b, e) \<longrightarrow> sh_binding s = Some b \<and> sh_commentEngine s = Some e)
    \<and> (sh_polling s \<longrightarrow> sh_commentEngine s \<noteq> None)"
  using init_run_inv [OF new_shell_inv assms(1), of E]
  by (simp add: assms(2) init_inv_def accounted_def attached_held_def)

text \<open>C31: The chain of runs ends: whatever the state, at most seven events for each queued run, and for
  the active run, have an effect; and as long as the chain has not ended some event of it is awaited.\<close>

theorem init_chain_terminates:
  "(chain_event ev \<and> init_step E ev s \<noteq> s \<longrightarrow> init_rank (init_step E ev s) < init_rank s)
   \<and> init_rank s \<le> 7 * sh_queue s + 6
   \<and> (\<not> quiescent s \<longrightarrow> (\<exists>ev. chain_event ev \<and> init_rank (init_step E ev s) < init_rank s))"
proof -
  have "stage_rank st \<le> 6" for st by (cases st) simp_all
  then have "init_rank s \<le> 7 * sh_queue s + 6" by (simp add: init_rank_def split: option.split)
  then show ?thesis using chain_step_rank chain_progress by blast
qed

text \<open>The element catches up: while a run is queued for properties that differ from the configuration
  last noted, the type is registered and the mount succeeds, the chain has a way to its end, and
  wherever it ends the element is initialised for the properties it has.\<close>

lemma chain_reaches_end:
  "\<exists>evs. list_all (\<lambda>ev. chain_event ev \<and> ev \<noteq> Mounted False) evs \<and> quiescent (fold (init_step E) evs s)"
proof (induction "init_rank s" arbitrary: s rule: less_induct)
  case less
  show ?case
  proof (cases "quiescent s")
    case True
    then show ?thesis by (intro exI [of _ "[]"]) simp
  next
    case False
    from chain_progress [OF False, of E] less obtain evs where
      "list_all (\<lambda>ev. chain_event ev \<and> ev \<noteq> Mounted False) evs"
      "quiescent (fold (init_step E) evs (init_step E (next_event s) s))" by blast
    then show ?thesis using chain_progress [OF False, of E] by (intro exI [of _ "next_event s # evs"]) simp
  qed
qed

text \<open>C11: The element catches up with its properties. When a run is queued for properties that differ
  from the configuration last noted, and the type is registered, then without further changes the
  chain can be driven to its end with successful mounts, and wherever it ends that way the element is
  ready, has a binding, and is attached to a provider exactly if collaboration is enabled.\<close>

theorem element_catches_up:
  assumes "Removed \<notin> set before" "s = fold (init_step E) before new_shell"
    and "sh_run s = None" "0 < sh_queue s" "due s" "known_type s"
  shows "(\<exists>evs. list_all (\<lambda>ev. chain_event ev \<and> ev \<noteq> Mounted False) evs \<and> quiescent (fold (init_step E) evs s))
    \<and> (\<forall>evs. list_all (\<lambda>ev. chain_event ev \<and> ev \<noteq> Mounted False) evs \<and> quiescent (fold (init_step E) evs s) \<longrightarrow>
         initialised E (fold (init_step E) evs s))"
proof -
  have c: "on_course E s"
    using init_run_inv [OF new_shell_inv assms(1), of E] assms(2-6) by (simp add: on_course_def)
  have "initialised E (fold (init_step E) evs s)"
    if "list_all (\<lambda>ev. chain_event ev \<and> ev \<noteq> Mounted False) evs" "quiescent (fold (init_step E) evs s)" for evs
    using on_course_run [OF c that(1)] that(2) by (auto simp: on_course_def quiescent_def)
  then show ?thesis using chain_reaches_end by blast
qed

text \<open>A change of properties is not forgotten: whenever the properties differ from the configuration
  last noted, Lit still has to report the change or a run is queued.\<close>

theorem changes_are_pending:
  assumes "due (fold (init_step E) evs new_shell)"
  shows "sh_changed (fold (init_step E) evs new_shell) \<noteq> (False, False) \<or> 0 < sh_queue (fold (init_step E) evs new_shell)"
proof -
  have "request_inv new_shell" by (simp add: request_inv_def new_shell_def)
  from request_inv_run [OF this, of E evs] assms show ?thesis
    by (cases "sh_changed (fold (init_step E) evs new_shell)") (auto simp: request_inv_def due_def)
qed

text \<open>A new configuration starts with a clean surface, apart from the comment being written. Tearing
  down the previous session closes every panel and list, ends the preview and forgets versions and
  threads; the anchor of a comment draft and the note dialogue of the previous document stay.\<close>

theorem reinit_resets_surface:
  assumes "sh_run s = None" "0 < sh_queue s" "due s"
    and "ui_previewingThreadId (sh_ui s) = None \<or> sh_provider s \<noteq> None \<and> ui_previewingThreadId (sh_ui s) \<noteq> Some []"
  shows "sh_ui (init_step E Next_Run s) =
    new_ui\<lparr>ui_noteModalOpen := ui_noteModalOpen (sh_ui s), ui_noteDraft := ui_noteDraft (sh_ui s),
           ui_draftAnchor := ui_draftAnchor (sh_ui s)\<rparr>"
proof -
  obtain n where "sh_queue s = Suc n" using assms(2) by (cases "sh_queue s") auto
  moreover have "sh_ui (after_connect r t) = sh_ui t" for r t
    by (simp add: after_connect_def finish_def Let_def split: prod.split sum.split)
  moreover have "reset_ui (sh_provider s \<noteq> None) (sh_ui s) =
      new_ui\<lparr>ui_noteModalOpen := ui_noteModalOpen (sh_ui s), ui_noteDraft := ui_noteDraft (sh_ui s),
             ui_draftAnchor := ui_draftAnchor (sh_ui s)\<rparr>"
    using assms(4) by (auto simp: reset_ui_def new_ui_def)
  ultimately show ?thesis using assms(1,3) by (auto simp: perform_init_def due_def teardown_def Let_def)
qed

text \<open>Switching back can leave the element without an editor. If the host sets a second
  configuration while the first one connects, and sets the first one again after the first run has
  given up and before the next run starts, every queued run is skipped: the chain has ended, Lit has
  nothing to report, the properties are those of the first configuration, and there is no binding.\<close>

theorem switching_back_leaves_no_editor:
  assumes "ie_enabled E a" "a \<noteq> b"
    and "s = fold (init_step E)
      [Set_Collaboration (Some a), First_Updated, Updated, Next_Run, Set_Collaboration (Some b), Updated,
       Connected, Set_Collaboration (Some a), Updated, Next_Run, Next_Run] new_shell"
  shows "quiescent s \<and> sh_changed s = (False, False) \<and> \<not> due s \<and> sh_collaboration s = Some a
    \<and> sh_binding s = None \<and> \<not> sh_ready s"
  using assms
  by (simp add: new_shell_def requestInit_def updated_def perform_init_def teardown_def config_enabled_def held_def
      at_stage_def on_run_def after_connect_def stale_def finish_def quiescent_def due_def Let_def)

text \<open>An element removed while it connects builds an editor that nobody destroys: the run goes on
  after \<open>disconnectedCallback\<close>, mounts a binding and attaches the coordinators to it.\<close>

theorem removed_element_mounts_editor:
  assumes "ie_enabled E a"
    and "s = fold (init_step E)
      [Set_Collaboration (Some a), First_Updated, Updated, Next_Run, Removed, Connected, Mounted True, Synced] new_shell"
  shows "sh_binding s = Some 1 \<and> Binding 1 \<notin> set (sh_destroyed s) \<and> sh_attached s = Some (1, 0)
    \<and> Provider 0 \<in> set (sh_destroyed s)"
proof -
  obtain reg c where "getSupportedModes (js ''text/plain'') (registerDefaults []) = ([Source_Mode], reg)"
    "create (js ''text/plain'') reg = Inr c" by (rule plain_type)
  then show ?thesis using assms
    by (simp add: new_shell_def requestInit_def updated_def perform_init_def teardown_def config_enabled_def held_def
        at_stage_def on_run_def after_connect_def after_mount_def mounted_def after_sync_def attach_coordinators_def
        disconnectedCallback_def stale_def finish_def chosen_mode_def Let_def)
qed

section \<open>Witnesses\<close>

definition sample_config :: init_env where
  "sample_config = \<lparr>ie_enabled = (\<lambda>_. True), ie_commentsEnabled = (\<lambda>_. None), ie_suggestEnabled = (\<lambda>_. None)\<rparr>"

definition open_events :: "init_event list" where
  "open_events = [Set_Collaboration (Some 1), First_Updated, Next_Run]"

definition session_events :: "init_event list" where
  "session_events = open_events @ [Connected, Mounted True, Synced, Relay_Answer True,
     Capabilities_Answer (Some sample_caps), Loaded, Set_Collaboration (Some 2), Updated, Next_Run]"

lemmas init_run_simps = new_shell_def requestInit_def updated_def perform_init_def teardown_def config_enabled_def
  held_def at_stage_def on_run_def after_connect_def after_mount_def mounted_def after_sync_def
  attach_coordinators_def relay_answer_def capabilities_answer_def become_ready_def stale_def finish_def
  chosen_mode_def sample_config_def

theorem objects_accounted_for_witness:
  "let s = fold (init_step sample_config) session_events new_shell
   in sh_destroyed s = [Comment_Engine 2, Suggest_Engine 3, Binding 1, Provider 0]
      \<and> mset (map res_id (sh_destroyed s @ held s)) = mset [0..<sh_next s] \<and> sh_provider s = Some 4"
proof -
  obtain reg c where "getSupportedModes (js ''text/plain'') (registerDefaults []) = ([Source_Mode], reg)"
    "create (js ''text/plain'') reg = Inr c" by (rule plain_type)
  then have "sh_destroyed (fold (init_step sample_config) session_events new_shell) =
      [Comment_Engine 2, Suggest_Engine 3, Binding 1, Provider 0]
    \<and> sh_provider (fold (init_step sample_config) session_events new_shell) = Some 4"
    by (simp add: session_events_def open_events_def init_run_simps Let_def)
  moreover have "Removed \<notin> set session_events" by (simp add: session_events_def open_events_def)
  ultimately show ?thesis using objects_accounted_for [OF _ refl, of session_events sample_config] by (simp add: Let_def)
qed

theorem init_chain_terminates_witness:
  "\<exists>ev. chain_event ev \<and> init_rank (init_step sample_config ev (requestInit new_shell)) < init_rank (requestInit new_shell)"
proof -
  have "\<not> quiescent (requestInit new_shell)" by (simp add: quiescent_def requestInit_def)
  then show ?thesis using init_chain_terminates [of _ sample_config "requestInit new_shell"] by blast
qed

lemma opened:
  "fold (init_step sample_config) [Set_Collaboration (Some 1), First_Updated] new_shell =
     new_shell\<lparr>sh_collaboration := Some 1, sh_queue := 1\<rparr>"
  by (simp add: new_shell_def requestInit_def)

theorem element_catches_up_witness:
  "\<exists>evs. quiescent (fold (init_step sample_config) evs (new_shell\<lparr>sh_collaboration := Some 1, sh_queue := 1\<rparr>))
     \<and> initialised sample_config (fold (init_step sample_config) evs (new_shell\<lparr>sh_collaboration := Some 1, sh_queue := 1\<rparr>))"
proof -
  obtain reg c where "getSupportedModes (js ''text/plain'') (registerDefaults []) = ([Source_Mode], reg)"
    "create (js ''text/plain'') reg = Inr c" by (rule plain_type)
  then have "known_type (new_shell\<lparr>sh_collaboration := Some 1, sh_queue := 1\<rparr>)"
    using create_keeps [of "js ''text/plain''" "js ''text/plain''" "registerDefaults []"]
    by (simp add: known_type_def new_shell_def exI [of _ c])
  moreover have "due (new_shell\<lparr>sh_collaboration := Some 1, sh_queue := 1\<rparr>)" by (simp add: due_def new_shell_def)
  ultimately show ?thesis
    using element_catches_up [OF _ opened [symmetric]] by (simp add: new_shell_def) blast
qed

theorem changes_are_pending_witness:
  "sh_changed (fold (init_step sample_config) [Set_Collaboration (Some 1)] new_shell) \<noteq> (False, False)
   \<or> 0 < sh_queue (fold (init_step sample_config) [Set_Collaboration (Some 1)] new_shell)"
  by (rule changes_are_pending) (simp add: due_def new_shell_def)

theorem reinit_resets_surface_witness:
  "let d = \<lparr>da_from = 0, da_to = 5, da_quoted_text = js ''hello'', da_startRel = [0], da_endRel = [5]\<rparr>;
       s = new_shell\<lparr>sh_collaboration := Some 1, sh_queue := 1,
             sh_ui := new_ui\<lparr>ui_commentsListOpen := True, ui_draftAnchor := Some d\<rparr>\<rparr>;
       s' = init_step sample_config Next_Run s
   in \<not> ui_commentsListOpen (sh_ui s') \<and> ui_draftAnchor (sh_ui s') = Some d"
proof -
  have "due (new_shell\<lparr>sh_collaboration := Some 1, sh_queue := 1, sh_ui := u\<rparr>)" for u
    by (simp add: due_def new_shell_def)
  then have "sh_ui (init_step sample_config Next_Run (new_shell\<lparr>sh_collaboration := Some 1, sh_queue := 1,
        sh_ui := new_ui\<lparr>ui_commentsListOpen := True, ui_draftAnchor := d\<rparr>\<rparr>)) = new_ui\<lparr>ui_draftAnchor := d\<rparr>" for d
    by (subst reinit_resets_surface) (simp_all add: new_shell_def new_ui_def)
  then show ?thesis by (simp add: Let_def new_ui_def del: init_step.simps)
qed

theorem switching_back_leaves_no_editor_witness:
  "let s = fold (init_step sample_config)
      [Set_Collaboration (Some 1), First_Updated, Updated, Next_Run, Set_Collaboration (Some 2), Updated,
       Connected, Set_Collaboration (Some 1), Updated, Next_Run, Next_Run] new_shell
   in quiescent s \<and> \<not> due s \<and> sh_binding s = None"
  using switching_back_leaves_no_editor [OF _ _ refl, of sample_config 1 2]
  by (simp add: Let_def sample_config_def del: fold_simps)

theorem removed_element_mounts_editor_witness:
  "let s = fold (init_step sample_config)
      [Set_Collaboration (Some 1), First_Updated, Updated, Next_Run, Removed, Connected, Mounted True, Synced] new_shell
   in sh_binding s = Some 1 \<and> Binding 1 \<notin> set (sh_destroyed s)"
  using removed_element_mounts_editor [OF _ refl, of sample_config 1]
  by (simp add: Let_def sample_config_def del: fold_simps)

end
