(* ===== verification/Utf8.thy ===== *)
theory Utf8
  imports Base64
begin

text \<open>
  UTF-8 as \<open>Buffer.from(s, 'utf8')\<close> and \<open>buf.toString('utf8')\<close> of Node use it: strings are sequences of
  UTF-16 code units, a lone surrogate is written as U+FFFD, and a malformed sequence is read as one
  U+FFFD for each maximal prefix of a well-formed one. Shown: decoding gives back every string
  without lone surrogates.
\<close>

section \<open>Encoding\<close>

definition surrogate :: "nat \<Rightarrow> bool" where
  "surrogate n \<longleftrightarrow> 0xD800 \<le> n \<and> n < 0xE000"

definition high :: "code_unit \<Rightarrow> bool" where
  "high c \<longleftrightarrow> 0xD800 \<le> unat c \<and> unat c < 0xDC00"

definition low :: "code_unit \<Rightarrow> bool" where
  "low c \<longleftrightarrow> 0xDC00 \<le> unat c \<and> unat c < 0xE000"

definition utf8_point :: "nat \<Rightarrow> byte list" where
  "utf8_point n =
     (if n < 0x80 then [of_nat n]
      else if n < 0x800 then [of_nat (0xC0 + n div 0x40), of_nat (0x80 + n mod 0x40)]
      else if n < 0x10000 then
        [of_nat (0xE0 + n div 0x1000), of_nat (0x80 + n div 0x40 mod 0x40), of_nat (0x80 + n mod 0x40)]
      else [of_nat (0xF0 + n div 0x40000), of_nat (0x80 + n div 0x1000 mod 0x40),
            of_nat (0x80 + n div 0x40 mod 0x40), of_nat (0x80 + n mod 0x40)])"

definition utf8_unit :: "code_unit \<Rightarrow> byte list" where
  "utf8_unit c = utf8_point (if surrogate (unat c) then 0xFFFD else unat c)"

definition pair_point :: "code_unit \<Rightarrow> code_unit \<Rightarrow> nat" where
  "pair_point c d = 0x10000 + (unat c - 0xD800) * 0x400 + (unat d - 0xDC00)"

fun utf8_encode :: "jsstring \<Rightarrow> byte list" where
  "utf8_encode [] = []"
| "utf8_encode [c] = utf8_unit c"
| "utf8_encode (c # d # cs) =
     (if high c \<and> low d then utf8_point (pair_point c d) @ utf8_encode cs
      else utf8_unit c @ utf8_encode (d # cs))"

section \<open>Decoding\<close>

definition units_of :: "nat \<Rightarrow> jsstring" where
  "units_of n =
     (if n < 0x10000 then [of_nat n]
      else [of_nat (0xD800 + (n - 0x10000) div 0x400), of_nat (0xDC00 + (n - 0x10000) mod 0x400)])"

definition cont :: "byte \<Rightarrow> bool" where
  "cont b \<longleftrightarrow> 0x80 \<le> unat b \<and> unat b < 0xC0"

text \<open>What a leading byte announces: the number of continuation bytes and the bounds of the first.\<close>

definition lead :: "nat \<Rightarrow> (nat \<times> nat \<times> nat) option" where
  "lead n =
     (if 0xC2 \<le> n \<and> n < 0xE0 then Some (1, 0x80, 0xC0)
      else if n = 0xE0 then Some (2, 0xA0, 0xC0)
      else if n = 0xED then Some (2, 0x80, 0xA0)
      else if 0xE1 \<le> n \<and> n < 0xF0 then Some (2, 0x80, 0xC0)
      else if n = 0xF0 then Some (3, 0x90, 0xC0)
      else if 0xF1 \<le> n \<and> n < 0xF4 then Some (3, 0x80, 0xC0)
      else if n = 0xF4 then Some (3, 0x80, 0x90)
      else None)"

text \<open>Reading \<open>k\<close> continuation bytes, the first of them within bounds: the point, or \<open>None\<close> for a
  malformed sequence, and what follows the bytes consumed.\<close>

fun conts :: "nat \<Rightarrow> nat \<Rightarrow> nat \<Rightarrow> nat \<Rightarrow> byte list \<Rightarrow> nat option \<times> byte list" where
  "conts 0 lo hi acc bs = (Some acc, bs)"
| "conts (Suc k) lo hi acc [] = (None, [])"
| "conts (Suc k) lo hi acc (b # bs) =
     (if lo \<le> unat b \<and> unat b < hi then conts k 0x80 0xC0 (acc * 0x40 + (unat b - 0x80)) bs
      else (None, b # bs))"

lemma conts_length: "length (snd (conts k lo hi acc bs)) \<le> length bs"
  by (induction k lo hi acc bs rule: conts.induct) auto

lemma conts_shorter: "conts k lo hi acc bs = (x, rest) \<Longrightarrow> length rest \<le> length bs"
  using conts_length [of k lo hi acc bs] by simp

definition lead_bits :: "nat \<Rightarrow> nat \<Rightarrow> nat" where
  "lead_bits k n = (if k = 1 then n - 0xC0 else if k = 2 then n - 0xE0 else n - 0xF0)"

function utf8_decode :: "byte list \<Rightarrow> jsstring" where
  "utf8_decode [] = []"
| "utf8_decode (b # bs) =
     (if unat b < 0x80 then of_nat (unat b) # utf8_decode bs
      else case lead (unat b) of
             None \<Rightarrow> 0xFFFD # utf8_decode bs
           | Some (k, lo, hi) \<Rightarrow>
               (case conts k lo hi (lead_bits k (unat b)) bs of
                  (None, rest) \<Rightarrow> 0xFFFD # utf8_decode rest
                | (Some n, rest) \<Rightarrow> units_of n @ utf8_decode rest))"
  by pat_completeness auto
termination
proof (relation "measure length", goal_cases)
  case (4 b bs x k y lo hi p rest)
  then have "conts k lo hi (lead_bits k (unat b)) bs = (None, rest)" by simp
  from conts_shorter [OF this] show ?case by simp
next
  case (5 b bs x k y lo hi p rest n)
  then have "conts k lo hi (lead_bits k (unat b)) bs = (Some n, rest)" by simp
  from conts_shorter [OF this] show ?case by simp
qed simp_all

section \<open>Round trip\<close>

lemma unat_byte: "n < 0x100 \<Longrightarrow> unat (of_nat n :: byte) = n"
  by (simp add: unat_of_nat)

lemma conts_byte:
  "r < 0x40 \<Longrightarrow> lo \<le> 0x80 + r \<Longrightarrow> 0x80 + r < hi \<Longrightarrow>
   conts (Suc k) lo hi acc (of_nat (0x80 + r) # bs) = conts k 0x80 0xC0 (acc * 0x40 + r) bs"
  by (simp add: unat_byte del: of_nat_add)

lemma decode_lead:
  assumes "b < 0x100" "0x80 \<le> b" "lead b = Some (k, lo, hi)" "lead_bits k b = acc" "conts k lo hi acc bs = (Some n, rest)"
  shows "utf8_decode (of_nat b # bs) = units_of n @ utf8_decode rest"
  using assms by (simp add: unat_byte)

text \<open>A point that is not a surrogate is read back.\<close>

lemma decode_point:
  assumes "n < 0x110000" "\<not> surrogate n"
  shows "utf8_decode (utf8_point n @ bs) = units_of n @ utf8_decode bs"
proof -
  define r0 r1 r2 where "r0 = n mod 0x40" and "r1 = n div 0x40 mod 0x40" and "r2 = n div 0x1000 mod 0x40"
  have r: "r0 < 0x40" "r1 < 0x40" "r2 < 0x40" by (simp_all add: r0_def r1_def r2_def)
  have d1: "n div 0x40 * 0x40 + r0 = n" by (simp add: r0_def)
  have "n div 0x1000 = n div 0x40 div 0x40" "n div 0x40000 = n div 0x1000 div 0x40" by (simp_all flip: div_mult2_eq)
  then have d2: "n div 0x1000 * 0x40 + r1 = n div 0x40" and d3: "n div 0x40000 * 0x40 + r2 = n div 0x1000"
    by (simp_all add: r1_def r2_def)
  consider "n < 0x80" | "0x80 \<le> n" "n < 0x800" | "0x800 \<le> n" "n < 0x10000" | "0x10000 \<le> n" by linarith
  then show ?thesis
  proof cases
    case 1
    then show ?thesis by (simp add: utf8_point_def units_of_def unat_byte)
  next
    case 2
    define q where "q = n div 0x40"
    have q: "2 \<le> q" "q < 0x20" using 2 by (simp_all add: q_def less_mult_imp_div_less) 
    have l: "lead (0xC0 + q) = Some (1, 0x80, 0xC0)" "lead_bits 1 (0xC0 + q) = q"
      using q by (simp_all add: lead_def lead_bits_def)
    have c: "conts 1 0x80 0xC0 q (of_nat (0x80 + r0) # bs) = (Some n, bs)"
      using conts_byte [of r0 "0x80" "0xC0" 0 q bs] r d1 by (simp add: q_def)
    have "utf8_decode (of_nat (0xC0 + q) # of_nat (0x80 + r0) # bs) = units_of n @ utf8_decode bs"
      using q by (intro decode_lead [OF _ _ l c]) simp_all
    then show ?thesis using 2 by (simp add: utf8_point_def q_def r0_def)
  next
    case 3
    define q where "q = n div 0x1000"
    have q: "q < 0x10" using 3 by (simp add: q_def less_mult_imp_div_less)
    have e: "q = 0 \<longrightarrow> 0x20 \<le> r1" "q = 0xD \<longrightarrow> r1 < 0x20"
      using 3 assms(2) r d1 d2 unfolding q_def surrogate_def by linarith+
    define lo hi :: nat where "lo = (if q = 0 then 0xA0 else 0x80)" and "hi = (if q = 0xD then 0xA0 else 0xC0)"
    have l: "lead (0xE0 + q) = Some (2, lo, hi)" "lead_bits 2 (0xE0 + q) = q"
      using q by (auto simp: lead_def lead_bits_def lo_def hi_def)
    have "lo \<le> 0x80 + r1" "0x80 + r1 < hi" using e r by (auto simp: lo_def hi_def)
    then have c: "conts 2 lo hi q (of_nat (0x80 + r1) # of_nat (0x80 + r0) # bs) = (Some n, bs)"
      using conts_byte [of r1 lo hi 1 q] conts_byte [of r0 "0x80" "0xC0" 0 "n div 0x40" bs] r d1 d2
      by (simp add: q_def numeral_2_eq_2)
    have "utf8_decode (of_nat (0xE0 + q) # of_nat (0x80 + r1) # of_nat (0x80 + r0) # bs) =
        units_of n @ utf8_decode bs"
      using q by (intro decode_lead [OF _ _ l c]) simp_all
    then show ?thesis using 3 by (simp add: utf8_point_def q_def r0_def r1_def)
  next
    case 4
    define q where "q = n div 0x40000"
    have q: "q < 5" using assms(1) by (simp add: q_def less_mult_imp_div_less)
    have e: "q = 0 \<longrightarrow> 0x10 \<le> r2" "q = 4 \<longrightarrow> r2 < 0x10"
      using 4 assms(1) r d1 d2 d3 unfolding q_def by linarith+
    define lo hi :: nat where "lo = (if q = 0 then 0x90 else 0x80)" and "hi = (if q = 4 then 0x90 else 0xC0)"
    have l: "lead (0xF0 + q) = Some (3, lo, hi)" "lead_bits 3 (0xF0 + q) = q"
      using q by (auto simp: lead_def lead_bits_def lo_def hi_def)
    have "lo \<le> 0x80 + r2" "0x80 + r2 < hi" using e r by (auto simp: lo_def hi_def)
    then have c: "conts 3 lo hi q (of_nat (0x80 + r2) # of_nat (0x80 + r1) # of_nat (0x80 + r0) # bs) = (Some n, bs)"
      using conts_byte [of r2 lo hi 2 q] conts_byte [of r1 "0x80" "0xC0" 1 "n div 0x1000"]
        conts_byte [of r0 "0x80" "0xC0" 0 "n div 0x40" bs] r d1 d2 d3
      by (simp add: q_def numeral_3_eq_3 numeral_2_eq_2)
    have "utf8_decode (of_nat (0xF0 + q) # of_nat (0x80 + r2) # of_nat (0x80 + r1) # of_nat (0x80 + r0) # bs) =
        units_of n @ utf8_decode bs"
      using q by (intro decode_lead [OF _ _ l c]) simp_all
    then show ?thesis using 4 by (simp add: utf8_point_def q_def r0_def r1_def r2_def)
  qed
qed

text \<open>No lone surrogate.\<close>

fun well_formed :: "jsstring \<Rightarrow> bool" where
  "well_formed [] = True"
| "well_formed [c] = (\<not> surrogate (unat c))"
| "well_formed (c # d # cs) =
     (if high c \<and> low d then well_formed cs else \<not> surrogate (unat c) \<and> well_formed (d # cs))"

lemma decode_unit:
  assumes "\<not> surrogate (unat c)"
  shows "utf8_decode (utf8_unit c @ bs) = c # utf8_decode bs"
proof -
  have "unat c < 0x10000" using unsigned_less [of c] by simp
  then show ?thesis using decode_point [of "unat c" bs] assms by (simp add: utf8_unit_def units_of_def)
qed

lemma decode_pair:
  assumes "high c" "low d"
  shows "utf8_decode (utf8_point (pair_point c d) @ bs) = c # d # utf8_decode bs"
proof -
  define i j where "i = unat c - 0xD800" and "j = unat d - 0xDC00"
  have ij: "i < 0x400" "j < 0x400" "unat c = 0xD800 + i" "unat d = 0xDC00 + j"
    using assms by (auto simp: high_def low_def i_def j_def)
  have p: "pair_point c d = 0x10000 + (i * 0x400 + j)" by (simp add: pair_point_def i_def j_def)
  have "(i * 0x400 + j) div 0x400 = i" "(i * 0x400 + j) mod 0x400 = j" using ij(2) by simp_all
  moreover have "of_nat (0xD800 + i) = c" "of_nat (0xDC00 + j) = d"
    unfolding ij(3,4) [symmetric] by simp_all
  ultimately have "units_of (pair_point c d) = [c, d]" unfolding p units_of_def by simp
  moreover have "pair_point c d < 0x110000" "\<not> surrogate (pair_point c d)"
    using ij(1,2) by (simp_all add: p surrogate_def)
  ultimately show ?thesis using decode_point [of "pair_point c d" bs] by simp
qed

lemma utf8_decode_encode: "well_formed s \<Longrightarrow> utf8_decode (utf8_encode s) = s"
proof (induction s rule: utf8_encode.induct)
  case (2 c)
  then show ?case using decode_unit [of c "[]"] by simp
next
  case (3 c d cs)
  then show ?case using decode_unit [of c] decode_pair [of c d] by (auto split: if_splits)
qed simp

end
