(* ===== verification/Yjs_Engine.thy ===== *)
theory Yjs_Engine
  imports Utf8
begin

unbundle bit_operations_syntax

text \<open>
  The document server beside the relay (\<open>cmd/yjs-engine/index.js\<close>): the frame codec, the variable-length
  integers of lib0, the handlers of the eight operations, and the loop that cuts the byte stream of
  a connection into frames. Shown: how the stream is cut into chunks does not matter, requests are
  answered one by one with their own sequence number and operation, the codecs read back what they
  write, and a document lives from its first \<open>OPEN\<close> to \<open>CLOSE\<close>. Yjs is a parameter.
\<close>

section \<open>Buffers\<close>

datatype engine_error =
    Out_Of_Range
  | Unknown_Doc jsstring
  | Bad_Sync_Type nat
  | Unexpected_Eof
  | Varuint_Overflow
  | Short_Buffer
  | Yjs_Error jsstring

text \<open>\<open>readUInt8\<close>, \<open>readUInt16BE\<close> and \<open>readUInt32BE\<close> throw when the bytes are not there.\<close>

definition be_value :: "byte list \<Rightarrow> nat" where
  "be_value bs = foldl (\<lambda>n b. n * 256 + unat b) 0 bs"

definition read_be :: "nat \<Rightarrow> byte list \<Rightarrow> nat \<Rightarrow> engine_error + nat" where
  "read_be width buf offset =
     (if offset + width \<le> length buf then Inr (be_value (take width (drop offset buf))) else Inl Out_Of_Range)"

definition write_be32 :: "nat \<Rightarrow> byte list" where
  "write_be32 n = [of_nat (n div 0x1000000 mod 0x100), of_nat (n div 0x10000 mod 0x100),
     of_nat (n div 0x100 mod 0x100), of_nat (n mod 0x100)]"

definition write_be16 :: "nat \<Rightarrow> byte list" where
  "write_be16 n = [of_nat (n div 0x100 mod 0x100), of_nat (n mod 0x100)]"

definition readVarString :: "byte list \<Rightarrow> nat \<Rightarrow> engine_error + jsstring \<times> nat" where
  "readVarString buf offset =
     bind_res (read_be 2 buf offset) (\<lambda>len.
       Inr (utf8_decode (take len (drop (offset + 2) buf)), offset + 2 + len))"

text \<open>\<open>writeUInt16BE\<close> rejects a length that does not fit.\<close>

definition writeVarString :: "jsstring \<Rightarrow> engine_error + byte list" where
  "writeVarString s =
     (let bytes = utf8_encode s
      in if length bytes < 0x10000 then Inr (write_be16 (length bytes) @ bytes) else Inl Out_Of_Range)"

definition PROTOCOL_VERSION :: nat where
  "PROTOCOL_VERSION = 1"

definition HEADER_BYTES :: nat where
  "HEADER_BYTES = 11"

text \<open>Sequence numbers and lengths are below \<open>2 ^ 32\<close>.\<close>

definition buildFrame :: "nat \<Rightarrow> nat \<Rightarrow> nat \<Rightarrow> byte list \<Rightarrow> byte list" where
  "buildFrame seq op status payload =
     of_nat PROTOCOL_VERSION # write_be32 (6 + length payload) @ write_be32 seq
       @ [of_nat op, of_nat status] @ payload"

section \<open>Variable-length integers\<close>

text \<open>The arithmetic is that of 32-bit integers; a shift counts modulo 32.\<close>

fun readVarUint_loop :: "32 word \<Rightarrow> nat \<Rightarrow> byte list \<Rightarrow> engine_error + 32 word \<times> byte list" where
  "readVarUint_loop n shift [] = Inl Unexpected_Eof"
| "readVarUint_loop n shift (b # bs) =
     (let n' = n OR push_bit (shift mod 32) (ucast (b AND 0x7F))
      in if b AND 0x80 = 0 then Inr (n', bs)
         else if shift + 7 > 35 then Inl Varuint_Overflow
         else readVarUint_loop n' (shift + 7) bs)"

definition readVarUint :: "byte list \<Rightarrow> engine_error + nat \<times> byte list" where
  "readVarUint bs = bind_res (readVarUint_loop 0 0 bs) (\<lambda>(n, rest). Inr (unat n, rest))"

definition readVarUint8Array :: "byte list \<Rightarrow> engine_error + byte list \<times> byte list" where
  "readVarUint8Array bs =
     bind_res (readVarUint bs) (\<lambda>(len, rest).
       if len > length rest then Inl Short_Buffer else Inr (take len rest, drop len rest))"

function writeVarUint :: "nat \<Rightarrow> byte list" where
  "writeVarUint n =
     (if n > 0x7F then of_nat (0x80 + n mod 0x80) # writeVarUint (n mod 2 ^ 32 div 0x80)
      else [of_nat n])"
  by pat_completeness auto
termination
proof (relation "measure id", goal_cases)
  case (2 n)
  have "n mod 2 ^ 32 div 0x80 \<le> n div 0x80" by (intro div_le_mono) simp
  also have "\<dots> < n" using 2 by (intro div_less_dividend) simp_all
  finally show ?case by simp
qed simp

declare writeVarUint.simps [simp del]

definition writeVarUint8Array :: "byte list \<Rightarrow> byte list" where
  "writeVarUint8Array bytes = writeVarUint (length bytes) @ bytes"

section \<open>Documents\<close>

text \<open>Yjs as the server uses it. \<open>Y.applyUpdate\<close> and \<open>Y.encodeStateAsUpdate\<close> throw on malformed bytes;
  a call leaves the document in some state either way. \<open>ye_rangeMessage\<close> is the message of the
  exception that a read beyond a buffer throws.\<close>

record 'd engine_env =
  ye_new :: 'd
  ye_applyUpdate :: "byte list \<Rightarrow> 'd \<Rightarrow> jsstring option \<times> 'd"
  ye_encodeState :: "byte list option \<Rightarrow> 'd \<Rightarrow> jsstring + byte list"
  ye_encodeStateVector :: "'d \<Rightarrow> byte list"
  ye_getText :: "jsstring \<Rightarrow> 'd \<Rightarrow> (jsstring + jsstring) \<times> 'd"
  ye_rangeMessage :: jsstring

type_synonym 'd docs = "(jsstring, 'd) jsmap"

definition openDoc :: "'d engine_env \<Rightarrow> jsstring \<Rightarrow> 'd docs \<Rightarrow> 'd docs" where
  "openDoc E docID ds = (case jm_get ds docID of None \<Rightarrow> jm_set docID (ye_new E) ds | Some _ \<Rightarrow> ds)"

definition closeDoc :: "jsstring \<Rightarrow> 'd docs \<Rightarrow> 'd docs" where
  "closeDoc docID ds = (case jm_get ds docID of None \<Rightarrow> ds | Some _ \<Rightarrow> jm_delete docID ds)"

definition getDoc :: "jsstring \<Rightarrow> 'd docs \<Rightarrow> engine_error + 'd" where
  "getDoc docID ds = (case jm_get ds docID of None \<Rightarrow> Inl (Unknown_Doc docID) | Some d \<Rightarrow> Inr d)"

section \<open>Handlers\<close>

text \<open>A handler returns the payload of the answer or throws, and leaves the documents.\<close>

type_synonym 'd op_handler = "byte list \<Rightarrow> 'd docs \<Rightarrow> (engine_error + byte list) \<times> 'd docs"

definition handleOpen :: "'d engine_env \<Rightarrow> 'd op_handler" where
  "handleOpen E payload ds =
     (case readVarString payload 0 of Inl e \<Rightarrow> (Inl e, ds) | Inr (docID, _) \<Rightarrow> (Inr [], openDoc E docID ds))"

definition handleClose :: "'d op_handler" where
  "handleClose payload ds =
     (case readVarString payload 0 of Inl e \<Rightarrow> (Inl e, ds) | Inr (docID, _) \<Rightarrow> (Inr [], closeDoc docID ds))"

text \<open>Applying an update to the document under an id.\<close>

definition apply_to :: "'d engine_env \<Rightarrow> jsstring \<Rightarrow> byte list \<Rightarrow> byte list \<Rightarrow> 'd docs \<Rightarrow> (engine_error + byte list) \<times> 'd docs" where
  "apply_to E docID update reply ds =
     (case getDoc docID ds of
        Inl e \<Rightarrow> (Inl e, ds)
      | Inr d \<Rightarrow>
          if update = [] then (Inr reply, ds)
          else case ye_applyUpdate E update d of
                 (err, d') \<Rightarrow> (case err of None \<Rightarrow> Inr reply | Some m \<Rightarrow> Inl (Yjs_Error m), jm_set docID d' ds))"

definition handleApplyUpdate :: "'d engine_env \<Rightarrow> 'd op_handler" where
  "handleApplyUpdate E payload ds =
     (case readVarString payload 0 of
        Inl e \<Rightarrow> (Inl e, ds)
      | Inr (docID, nxt) \<Rightarrow> apply_to E docID (drop nxt payload) [] ds)"

definition MSG_SYNC_STEP1 :: nat where "MSG_SYNC_STEP1 = 0"
definition MSG_SYNC_STEP2 :: nat where "MSG_SYNC_STEP2 = 1"
definition MSG_UPDATE :: nat where "MSG_UPDATE = 2"

definition sync_body :: "'d engine_env \<Rightarrow> jsstring \<Rightarrow> byte list \<Rightarrow> 'd docs \<Rightarrow> (engine_error + byte list) \<times> 'd docs" where
  "sync_body E docID body ds =
     (case getDoc docID ds of
        Inl e \<Rightarrow> (Inl e, ds)
      | Inr d \<Rightarrow>
          (case readVarUint body of
             Inl e \<Rightarrow> (Inl e, ds)
           | Inr (msgType, rest) \<Rightarrow>
               if msgType = MSG_SYNC_STEP1 then
                 (case readVarUint8Array rest of
                    Inl e \<Rightarrow> (Inl e, ds)
                  | Inr (sv, _) \<Rightarrow>
                      (case ye_encodeState E (Some sv) d of
                         Inl m \<Rightarrow> (Inl (Yjs_Error m), ds)
                       | Inr update \<Rightarrow>
                           (Inr (of_nat msgType # writeVarUint MSG_SYNC_STEP2 @ writeVarUint8Array update), ds)))
               else if msgType = MSG_SYNC_STEP2 \<or> msgType = MSG_UPDATE then
                 (case readVarUint8Array rest of
                    Inl e \<Rightarrow> (Inl e, ds)
                  | Inr (update, _) \<Rightarrow> apply_to E docID update [of_nat msgType] ds)
               else (Inl (Bad_Sync_Type msgType), ds)))"

definition handleSyncMessage :: "'d engine_env \<Rightarrow> 'd op_handler" where
  "handleSyncMessage E payload ds =
     (case readVarString payload 0 of
        Inl e \<Rightarrow> (Inl e, ds)
      | Inr (docID, nxt) \<Rightarrow> sync_body E docID (drop nxt payload) ds)"

text \<open>The handlers that read a document.\<close>

definition read_doc :: "('d \<Rightarrow> engine_error + byte list) \<Rightarrow> 'd op_handler" where
  "read_doc f payload ds =
     (case readVarString payload 0 of
        Inl e \<Rightarrow> (Inl e, ds)
      | Inr (docID, _) \<Rightarrow> (bind_res (getDoc docID ds) f, ds))"

definition handleEncodeState :: "'d engine_env \<Rightarrow> 'd op_handler" where
  "handleEncodeState E = read_doc (\<lambda>d. case ye_encodeState E None d of Inl m \<Rightarrow> Inl (Yjs_Error m) | Inr u \<Rightarrow> Inr u)"

definition handleEncodeSV :: "'d engine_env \<Rightarrow> 'd op_handler" where
  "handleEncodeSV E = read_doc (\<lambda>d. Inr (ye_encodeStateVector E d))"

definition handleGetText :: "'d engine_env \<Rightarrow> 'd op_handler" where
  "handleGetText E payload ds =
     (case readVarString payload 0 of
        Inl e \<Rightarrow> (Inl e, ds)
      | Inr (docID, nxt) \<Rightarrow>
          (case readVarString payload nxt of
             Inl e \<Rightarrow> (Inl e, ds)
           | Inr (name, _) \<Rightarrow>
               (case getDoc docID ds of
                  Inl e \<Rightarrow> (Inl e, ds)
                | Inr d \<Rightarrow>
                    (case ye_getText E name d of
                       (Inl m, d') \<Rightarrow> (Inl (Yjs_Error m), jm_set docID d' ds)
                     | (Inr t, d') \<Rightarrow> (Inr (utf8_encode t), jm_set docID d' ds)))))"

definition handlePing :: "'d op_handler" where
  "handlePing payload ds = (Inr [], ds)"

definition HANDLERS :: "'d engine_env \<Rightarrow> nat \<Rightarrow> 'd op_handler option" where
  "HANDLERS E op =
     (if op = 1 then Some (handleOpen E) else if op = 2 then Some handleClose
      else if op = 3 then Some (handleApplyUpdate E) else if op = 4 then Some (handleSyncMessage E)
      else if op = 5 then Some (handleEncodeState E) else if op = 6 then Some (handleEncodeSV E)
      else if op = 7 then Some (handleGetText E) else if op = 8 then Some handlePing else None)"

section \<open>Frames\<close>

fun hex_digits :: "nat \<Rightarrow> jsstring" where
  "hex_digits n =
     (let d = (\<lambda>k. of_nat (if k < 10 then 48 + k else 87 + k))
      in if n < 16 then [d n] else hex_digits (n div 16) @ [d (n mod 16)])"

declare hex_digits.simps [simp del]

definition error_text :: "'d engine_env \<Rightarrow> engine_error \<Rightarrow> jsstring" where
  "error_text E err =
     (case err of
        Out_Of_Range \<Rightarrow> js ''ERR_OUT_OF_RANGE: '' @ ye_rangeMessage E
      | Unknown_Doc docID \<Rightarrow> js ''UNKNOWN_DOC: unknown doc: '' @ docID
      | Bad_Sync_Type t \<Rightarrow> js ''BAD_SYNC_TYPE: unknown sync sub-type '' @ digits_of t
      | Unexpected_Eof \<Rightarrow> js ''ERR: readVarUint: unexpected eof''
      | Varuint_Overflow \<Rightarrow> js ''ERR: readVarUint: overflow''
      | Short_Buffer \<Rightarrow> js ''ERR: readVarUint8Array: short buffer''
      | Yjs_Error m \<Rightarrow> js ''ERR: '' @ m)"

text \<open>What \<open>processFrame\<close> itself throws is not caught: \<open>None\<close>, the end of the process.\<close>

definition processFrame :: "'d engine_env \<Rightarrow> byte list \<Rightarrow> 'd docs \<Rightarrow> (byte list \<times> 'd docs) option" where
  "processFrame E frame ds =
     (case (read_be 1 frame 0, read_be 4 frame 5, read_be 1 frame 9) of
        (Inr version, Inr seq, Inr op) \<Rightarrow>
          if version \<noteq> PROTOCOL_VERSION then None
          else (case HANDLERS E op of
                  None \<Rightarrow> Some (buildFrame seq op 1 (utf8_encode (js ''unknown op 0x'' @ hex_digits op)), ds)
                | Some handler \<Rightarrow>
                    (case handler (drop HEADER_BYTES frame) ds of
                       (Inr payload, ds') \<Rightarrow> Some (buildFrame seq op 0 payload, ds')
                     | (Inl err, ds') \<Rightarrow> Some (buildFrame seq op 1 (utf8_encode (error_text E err)), ds')))
      | _ \<Rightarrow> None)"

section \<open>Connections\<close>

text \<open>A connection: the bytes not yet processed, the frames written, the documents of the process, and
  whether the process is alive.\<close>

record 'd connection =
  cn_buffer :: "byte list"
  cn_written :: "byte list list"
  cn_docs :: "'d docs"
  cn_alive :: bool

definition frame_size :: "byte list \<Rightarrow> nat option" where
  "frame_size buf =
     (if length buf < 5 then None
      else let whole = 5 + be_value (take 4 (drop 1 buf)) in if length buf < whole then None else Some whole)"

function drain :: "'d engine_env \<Rightarrow> 'd connection \<Rightarrow> 'd connection" where
  "drain E c =
     (case frame_size (cn_buffer c) of
        None \<Rightarrow> c
      | Some whole \<Rightarrow>
          (case processFrame E (take whole (cn_buffer c)) (cn_docs c) of
             None \<Rightarrow> c\<lparr>cn_buffer := [], cn_alive := False\<rparr>
           | Some (response, ds) \<Rightarrow>
               drain E (c\<lparr>cn_buffer := drop whole (cn_buffer c), cn_written := cn_written c @ [response],
                          cn_docs := ds\<rparr>)))"
  by pat_completeness auto
termination
proof (relation "measure (\<lambda>(E, c). length (cn_buffer c))", goal_cases)
  case (2 E c whole x response ds)
  then have "5 \<le> whole" "whole \<le> length (cn_buffer c)"
    by (auto simp: frame_size_def Let_def split: if_splits)
  then show ?case by simp
qed simp

declare drain.simps [simp del]

definition on_data :: "'d engine_env \<Rightarrow> byte list \<Rightarrow> 'd connection \<Rightarrow> 'd connection" where
  "on_data E chunk c = (if cn_alive c then drain E (c\<lparr>cn_buffer := cn_buffer c @ chunk\<rparr>) else c)"

section \<open>Codecs\<close>

lemma be_value_byte: "x < 0x100 \<Longrightarrow> be_value [of_nat x] = x"
  by (simp add: be_value_def unat_byte)

lemma be_value_write32: "n < 2 ^ 32 \<Longrightarrow> be_value (write_be32 n) = n"
proof -
  assume n: "n < 2 ^ 32"
  have "n div 0x1000000 < 0x100" using n by (simp add: less_mult_imp_div_less)
  moreover have "n div 0x10000 = n div 0x100 div 0x100" "n div 0x1000000 = n div 0x10000 div 0x100"
    by (simp_all flip: div_mult2_eq)
  ultimately show ?thesis by (simp add: be_value_def write_be32_def unat_byte)
qed

lemma be_value_write16: "n < 0x10000 \<Longrightarrow> be_value (write_be16 n) = n"
  using less_mult_imp_div_less [of n "0x100" "0x100"] by (simp add: be_value_def write_be16_def unat_byte)

lemma length_write_be [simp]: "length (write_be32 n) = 4" "length (write_be16 n) = 2"
  by (simp_all add: write_be32_def write_be16_def)

text \<open>Variable-length integers.\<close>

lemma seven_bits:
  fixes n :: "32 word"
  shows "push_bit s (take_bit 7 n) OR push_bit (s + 7) (drop_bit 7 n) = push_bit s n"
proof (rule bit_word_eqI)
  fix k
  have "s + 7 \<le> k \<Longrightarrow> 7 + (k - (s + 7)) = k - s" by simp
  then show "bit (push_bit s (take_bit 7 n) OR push_bit (s + 7) (drop_bit 7 n)) k = bit (push_bit s n) k"
    by (cases "s + 7 \<le> k") (auto simp: bit_simps)
qed

lemma low_bits:
  assumes "m < 0x100"
  shows "(ucast ((of_nat m :: byte) AND 0x7F) :: 32 word) = of_nat (m mod 0x80)"
proof -
  have k: "(0x7F :: byte) = mask 7" and e: "m mod 0x80 = take_bit 7 m"
    by (simp_all add: mask_eq_exp_minus_1 take_bit_eq_mod)
  have "(of_nat m :: byte) AND 0x7F = of_nat (m mod 0x80)"
    unfolding k e take_bit_eq_mask [symmetric] by (rule take_bit_of_nat)
  moreover have "take_bit 8 (m mod 0x80) = m mod 0x80" by (simp add: take_bit_eq_mod)
  ultimately show ?thesis by (simp add: unsigned_of_nat)
qed

lemma high_bit:
  assumes "m < 0x100"
  shows "(of_nat m :: byte) AND 0x80 = 0 \<longleftrightarrow> m < 0x80"
proof -
  have "(of_nat m :: byte) AND 2 ^ 7 = 0 \<longleftrightarrow> \<not> bit (of_nat m :: byte) 7" by (rule and_exp_eq_0_iff_not_bit)
  also have "\<dots> \<longleftrightarrow> \<not> bit m 7" by (simp add: bit_of_nat_iff)
  also have "\<dots> \<longleftrightarrow> even (m div 0x80)" by (simp add: bit_iff_odd)
  also have "\<dots> \<longleftrightarrow> m < 0x80"
  proof -
    have "m div 0x80 < 2" using assms by (simp add: less_mult_imp_div_less)
    then have "even (m div 0x80) \<longleftrightarrow> m div 0x80 = 0" by (cases "m div 0x80"; auto simp: numeral_2_eq_2 less_Suc_eq)
    then show ?thesis by (simp add: div_eq_0_iff)
  qed
  finally show ?thesis by simp
qed

lemma word_parts:
  assumes "n < 2 ^ 32"
  shows "of_nat (n mod 0x80) = take_bit 7 (of_nat n :: 32 word)" "of_nat (n div 0x80) = drop_bit 7 (of_nat n :: 32 word)"
proof -
  have e: "n mod 0x80 = take_bit 7 n" by (simp add: take_bit_eq_mod)
  show "of_nat (n mod 0x80) = take_bit 7 (of_nat n :: 32 word)" unfolding e by (rule take_bit_of_nat [symmetric])
  have "unat (drop_bit 7 (of_nat n :: 32 word)) = drop_bit 7 (unat (of_nat n :: 32 word))" by (rule unat_drop_bit_eq)
  also have "unat (of_nat n :: 32 word) = n" using assms by (simp add: unat_of_nat)
  finally have "unat (drop_bit 7 (of_nat n :: 32 word)) = n div 0x80" by (simp only: drop_bit_eq_div) simp
  then show "of_nat (n div 0x80) = drop_bit 7 (of_nat n :: 32 word)"
    by (metis of_nat_unat ucast_id)
qed

lemma write_small: "n \<le> 0x7F \<Longrightarrow> writeVarUint n = [of_nat n]"
  and write_large: "0x7F < n \<Longrightarrow> n < 2 ^ 32 \<Longrightarrow> writeVarUint n = of_nat (0x80 + n mod 0x80) # writeVarUint (n div 0x80)"
  by (simp_all add: writeVarUint.simps [of n])

lemma read_written:
  assumes "n < 2 ^ (32 - s)" "s \<in> {0, 7, 14, 21, 28}"
  shows "readVarUint_loop a s (writeVarUint n @ bs) = Inr (a OR push_bit s (of_nat n), bs)"
  using assms
proof (induction n arbitrary: a s rule: less_induct)
  case (less n)
  have n: "n < 2 ^ 32" using less.prems(1) by (rule less_le_trans) (intro power_increasing, simp_all)
  have s: "s mod 32 = s" using less.prems(2) by auto
  show ?case
  proof (cases "n \<le> 0x7F")
    case True
    then show ?thesis using low_bits [of n] high_bit [of n] by (simp add: write_small s)
  next
    case False
    then have l: "writeVarUint n = of_nat (0x80 + n mod 0x80) # writeVarUint (n div 0x80)"
      using n by (simp add: write_large)
    have "(2::nat) ^ (32 - 28) < 0x80" by simp
    then have s28: "s \<noteq> 28" using False less.prems(1) by auto
    then have s': "s + 7 \<in> {0, 7, 14, 21, 28}" "\<not> s + 7 > 35" using less.prems(2) by auto
    have "n div 0x80 < 2 ^ (32 - (s + 7))"
    proof -
      have "(2::nat) ^ (32 - (s + 7)) * 0x80 = 2 ^ (32 - s)" using less.prems(2) s28 by auto
      then show ?thesis using less.prems(1) by (intro less_mult_imp_div_less) simp
    qed
    from less.IH [OF _ this s'(1), of "a OR push_bit s (of_nat (n mod 0x80))"] False
    have "readVarUint_loop (a OR push_bit s (of_nat (n mod 0x80))) (s + 7) (writeVarUint (n div 0x80) @ bs) =
        Inr (a OR push_bit s (of_nat (n mod 0x80)) OR push_bit (s + 7) (of_nat (n div 0x80)), bs)" by (simp add: or.assoc)
    moreover have "0x80 + n mod 0x80 < 0x100" by simp
    ultimately show ?thesis using low_bits [of "0x80 + n mod 0x80"] high_bit [of "0x80 + n mod 0x80"] s'(2)
      by (simp add: l s word_parts [OF n] seven_bits or.assoc Let_def del: of_nat_add)
  qed
qed

lemma readVarUint_written:
  assumes "n < 2 ^ 32"
  shows "readVarUint (writeVarUint n @ bs) = Inr (n, bs)"
  using read_written [of n 0 0 bs] assms by (simp add: readVarUint_def bind_res_def unat_of_nat)

lemma readVarUint8Array_written:
  assumes "length u < 2 ^ 32"
  shows "readVarUint8Array (writeVarUint8Array u @ bs) = Inr (u, bs)"
  using readVarUint_written [OF assms, of "u @ bs"]
  by (simp add: readVarUint8Array_def writeVarUint8Array_def bind_res_def)

lemma readVarString_written:
  assumes "writeVarString s = Inr bs" "well_formed s"
  shows "readVarString (bs @ rest) 0 = Inr (s, length bs)"
  using assms be_value_write16 [of "length (utf8_encode s)"]
  by (auto simp: writeVarString_def readVarString_def read_be_def bind_res_def utf8_decode_encode Let_def
      split: if_splits)

section \<open>Framing\<close>

lemma length_buildFrame [simp]: "length (buildFrame q op st p) = HEADER_BYTES + length p"
  by (simp add: buildFrame_def HEADER_BYTES_def)

lemma buildFrame_parts:
  "take 1 (buildFrame q op st p @ bs) = [1]" "take 4 (drop 1 (buildFrame q op st p @ bs)) = write_be32 (6 + length p)"
  "take 4 (drop 5 (buildFrame q op st p @ bs)) = write_be32 q" "take 1 (drop 9 (buildFrame q op st p @ bs)) = [of_nat op]"
  "drop 11 (buildFrame q op st p) = p"
  by (simp_all add: buildFrame_def PROTOCOL_VERSION_def drop_Cons')

lemma buildFrame_fields:
  assumes "q < 2 ^ 32" "op < 0x100"
  shows "read_be 1 (buildFrame q op st p) 0 = Inr PROTOCOL_VERSION"
    "read_be 4 (buildFrame q op st p) 5 = Inr q" "read_be 1 (buildFrame q op st p) 9 = Inr op"
    "drop HEADER_BYTES (buildFrame q op st p) = p"
  using be_value_write32 [OF assms(1)] be_value_byte [OF assms(2)] be_value_byte [of 1] buildFrame_parts(1,3,4) [of q op st p "[]"] buildFrame_parts(5)
  by (simp_all add: read_be_def PROTOCOL_VERSION_def HEADER_BYTES_def del: One_nat_def)

lemma frame_size_buildFrame:
  assumes "6 + length p < 2 ^ 32"
  shows "frame_size (buildFrame q op st p @ bs) = Some (HEADER_BYTES + length p)"
  using be_value_write32 [OF assms] buildFrame_parts(2) [of q op st p bs]
  by (simp add: frame_size_def Let_def HEADER_BYTES_def del: One_nat_def take_append drop_append)

lemma frame_size_append: "frame_size buf = Some n \<Longrightarrow> frame_size (buf @ x) = Some n \<and> n \<le> length buf"
  by (auto simp: frame_size_def Let_def split: if_splits)

lemma drain_append:
  assumes "cn_alive c"
  shows "drain E (c\<lparr>cn_buffer := cn_buffer c @ x\<rparr>) =
    (if cn_alive (drain E c) then drain E ((drain E c)\<lparr>cn_buffer := cn_buffer (drain E c) @ x\<rparr>) else drain E c)"
  using assms
proof (induction E c rule: drain.induct)
  case (1 E c)
  show ?case
  proof (cases "frame_size (cn_buffer c)")
    case None
    then have "drain E c = c" by (simp add: drain.simps)
    then show ?thesis using 1(2) by simp
  next
    case (Some n)
    then have n: "frame_size (cn_buffer c @ x) = Some n" "n \<le> length (cn_buffer c)"
      using frame_size_append by blast+
    show ?thesis
    proof (cases "processFrame E (take n (cn_buffer c)) (cn_docs c)")
      case None
      then show ?thesis using Some n by (simp add: drain.simps [of E c] drain.simps [of E "c\<lparr>cn_buffer := cn_buffer c @ x\<rparr>"])
    next
      case (Some r)
      obtain response ds where r: "r = (response, ds)" by fastforce
      define c' where "c' = c\<lparr>cn_buffer := drop n (cn_buffer c), cn_written := cn_written c @ [response], cn_docs := ds\<rparr>"
      have "drain E c = drain E c'"
        using \<open>frame_size (cn_buffer c) = Some n\<close> Some r by (simp add: drain.simps [of E c] c'_def)
      moreover have "c\<lparr>cn_buffer := drop n (cn_buffer c) @ x, cn_written := cn_written c @ [response], cn_docs := ds\<rparr> =
          c'\<lparr>cn_buffer := cn_buffer c' @ x\<rparr>"
        by (cases c) (simp add: c'_def)
      then have "drain E (c\<lparr>cn_buffer := cn_buffer c @ x\<rparr>) = drain E (c'\<lparr>cn_buffer := cn_buffer c' @ x\<rparr>)"
        using n Some r by (simp add: drain.simps [of E "c\<lparr>cn_buffer := cn_buffer c @ x\<rparr>"])
      ultimately show ?thesis
        using 1(1) [OF \<open>frame_size (cn_buffer c) = Some n\<close> Some r [symmetric], folded c'_def] 1(2) by (simp add: c'_def)
    qed
  qed
qed

definition fresh_connection :: "'d docs \<Rightarrow> 'd connection" where
  "fresh_connection ds = \<lparr>cn_buffer = [], cn_written = [], cn_docs = ds, cn_alive = True\<rparr>"

lemma on_data_append: "on_data E y (on_data E x c) = on_data E (x @ y) c"
  using drain_append [of "c\<lparr>cn_buffer := cn_buffer c @ x\<rparr>" E y] by (simp add: on_data_def)

lemma on_data_nil: "on_data E [] (fresh_connection ds) = fresh_connection ds"
  by (simp add: on_data_def fresh_connection_def drain.simps frame_size_def)

lemma on_data_chunks: "fold (on_data E) chunks (on_data E x c) = on_data E (x @ concat chunks) c"
  by (induction chunks arbitrary: x) (simp_all add: on_data_append)

section \<open>Requests\<close>

record request_frame =
  rf_seq :: nat
  rf_op :: nat
  rf_payload :: "byte list"

definition fits :: "request_frame \<Rightarrow> bool" where
  "fits q \<longleftrightarrow> rf_seq q < 2 ^ 32 \<and> rf_op q < 0x100 \<and> 6 + length (rf_payload q) < 2 ^ 32"

definition encoded :: "request_frame \<Rightarrow> byte list" where
  "encoded q = buildFrame (rf_seq q) (rf_op q) 0 (rf_payload q)"

text \<open>What a request does: the status and payload of its answer, and the documents after it.\<close>

definition perform :: "'d engine_env \<Rightarrow> request_frame \<Rightarrow> 'd docs \<Rightarrow> (nat \<times> byte list) \<times> 'd docs" where
  "perform E q ds =
     (case HANDLERS E (rf_op q) of
        None \<Rightarrow> ((1, utf8_encode (js ''unknown op 0x'' @ hex_digits (rf_op q))), ds)
      | Some handler \<Rightarrow>
          (case handler (rf_payload q) ds of
             (Inr payload, ds') \<Rightarrow> ((0, payload), ds')
           | (Inl err, ds') \<Rightarrow> ((1, utf8_encode (error_text E err)), ds')))"

fun serve :: "'d engine_env \<Rightarrow> request_frame list \<Rightarrow> 'd docs \<Rightarrow> byte list list \<times> 'd docs" where
  "serve E [] ds = ([], ds)"
| "serve E (q # qs) ds =
     (case perform E q ds of
        ((status, payload), ds') \<Rightarrow>
          (case serve E qs ds' of
             (responses, ds'') \<Rightarrow> (buildFrame (rf_seq q) (rf_op q) status payload # responses, ds'')))"

lemma processFrame_encoded:
  assumes "fits q"
  shows "processFrame E (encoded q) ds =
    (case perform E q ds of ((status, payload), ds') \<Rightarrow> Some (buildFrame (rf_seq q) (rf_op q) status payload, ds'))"
proof -
  have q: "rf_seq q < 2 ^ 32" "rf_op q < 0x100" using assms by (simp_all add: fits_def)
  show ?thesis unfolding processFrame_def encoded_def buildFrame_fields [OF q]
    by (simp add: perform_def split: option.split prod.split sum.split)
qed

lemma drain_encoded:
  assumes "list_all fits qs" "cn_buffer c = concat (map encoded qs)"
  shows "drain E c =
    (case serve E qs (cn_docs c) of (responses, ds) \<Rightarrow> c\<lparr>cn_buffer := [], cn_written := cn_written c @ responses, cn_docs := ds\<rparr>)"
  using assms
proof (induction qs arbitrary: c)
  case Nil
  then show ?case by (simp add: drain.simps frame_size_def)
next
  case (Cons q qs)
  obtain st p ds where p: "perform E q (cn_docs c) = ((st, p), ds)" by (metis surj_pair)
  define c' where "c' = c\<lparr>cn_buffer := concat (map encoded qs),
    cn_written := cn_written c @ [buildFrame (rf_seq q) (rf_op q) st p], cn_docs := ds\<rparr>"
  have f: "fits q" using Cons.prems(1) by simp
  have "frame_size (cn_buffer c) = Some (length (encoded q))"
    using f frame_size_buildFrame by (simp add: Cons.prems(2) encoded_def fits_def)
  then have "drain E c = drain E c'"
    using processFrame_encoded [OF f, of E "cn_docs c"] p by (simp add: drain.simps [of E c] Cons.prems(2) c'_def)
  also have "\<dots> = (case serve E qs (cn_docs c') of (responses, ds) \<Rightarrow>
      c'\<lparr>cn_buffer := [], cn_written := cn_written c' @ responses, cn_docs := ds\<rparr>)"
    using Cons.prems(1) by (intro Cons.IH) (simp_all add: c'_def)
  finally show ?case using p by (simp add: c'_def split: prod.split)
qed

section \<open>Properties\<close>

lemma on_data_requests:
  assumes "list_all fits qs" "concat chunks = concat (map encoded qs)"
  shows "fold (on_data E) chunks (fresh_connection ds) =
    \<lparr>cn_buffer = [], cn_written = fst (serve E qs ds), cn_docs = snd (serve E qs ds), cn_alive = True\<rparr>"
proof -
  have "fold (on_data E) chunks (fresh_connection ds) = on_data E (concat chunks) (fresh_connection ds)"
    using on_data_chunks [of E chunks "[]" "fresh_connection ds"] by (simp add: on_data_nil)
  also have "\<dots> = drain E (fresh_connection ds\<lparr>cn_buffer := concat (map encoded qs)\<rparr>)"
    by (simp add: assms(2) on_data_def fresh_connection_def)
  finally show ?thesis
    using drain_encoded [OF assms(1), of "fresh_connection ds\<lparr>cn_buffer := concat (map encoded qs)\<rparr>" E]
    by (simp add: fresh_connection_def split: prod.splits)
qed

text \<open>C13: The document server does not depend on how its stream is cut: whatever chunks a sequence of
  well-formed request frames arrives in, every request is performed once and in order, and the frames
  written are the answers in that order, each with the sequence number and operation of its request;
  nothing is left in the buffer and the process lives.\<close>

theorem requests_answered_in_order:
  assumes "list_all fits qs" "concat chunks = concat (map encoded qs)"
  shows "fold (on_data E) chunks (fresh_connection ds) =
    \<lparr>cn_buffer = [], cn_written = fst (serve E qs ds), cn_docs = snd (serve E qs ds), cn_alive = True\<rparr>"
  using assms by (rule on_data_requests)

text \<open>C15: The codecs read back what they write: variable-length integers below \<open>2 ^ 32\<close>, byte arrays and
  strings without lone surrogates, whatever follows them.\<close>

theorem engine_codecs_roundtrip:
  assumes "n < 2 ^ 32" "length u < 2 ^ 32" "writeVarString s = Inr t" "well_formed s"
  shows "readVarUint (writeVarUint n @ bs) = Inr (n, bs) \<and> readVarUint8Array (writeVarUint8Array u @ bs) = Inr (u, bs)
    \<and> readVarString (t @ bs) 0 = Inr (s, length t)"
  using readVarUint_written [OF assms(1)] readVarUint8Array_written [OF assms(2)] readVarString_written [OF assms(3,4)]
  by simp

text \<open>The first step of the sync protocol is answered by the second: for an open document the answer
  to a state vector is a message of type 2 whose body, read by the same codec, is the update that Yjs
  computes for that vector.\<close>

theorem sync_step1_answered:
  assumes "jm_get ds docID = Some d" "length sv < 2 ^ 32" "ye_encodeState E (Some sv) d = Inr u" "length u < 2 ^ 32"
  shows "\<exists>m m'. sync_body E docID (writeVarUint MSG_SYNC_STEP1 @ writeVarUint8Array sv) ds = (Inr (0 # m), ds)
    \<and> readVarUint m = Inr (MSG_SYNC_STEP2, m') \<and> readVarUint8Array m' = Inr (u, [])"
proof -
  have "readVarUint (writeVarUint MSG_SYNC_STEP2 @ writeVarUint8Array u) = Inr (MSG_SYNC_STEP2, writeVarUint8Array u)"
    by (rule readVarUint_written) (simp add: MSG_SYNC_STEP2_def)
  moreover have "readVarUint8Array (writeVarUint8Array u) = Inr (u, [])"
    using readVarUint8Array_written [OF assms(4), of "[]"] by simp
  moreover have "readVarUint (writeVarUint MSG_SYNC_STEP1 @ writeVarUint8Array sv) = Inr (0, writeVarUint8Array sv)"
    using readVarUint_written [of MSG_SYNC_STEP1] by (simp add: MSG_SYNC_STEP1_def)
  moreover have "readVarUint8Array (writeVarUint8Array sv) = Inr (sv, [])"
    using readVarUint8Array_written [OF assms(2), of "[]"] by simp
  ultimately show ?thesis using assms(1,3) by (simp add: sync_body_def getDoc_def MSG_SYNC_STEP1_def)
qed

text \<open>The documents as a set: \<open>OPEN\<close> adds one, \<open>CLOSE\<close> removes one, nothing else does.\<close>

definition named :: "request_frame \<Rightarrow> jsstring option" where
  "named q = (case readVarString (rf_payload q) 0 of Inl _ \<Rightarrow> None | Inr (docID, _) \<Rightarrow> Some docID)"

definition open_docs :: "'d docs \<Rightarrow> jsstring set" where
  "open_docs ds = {k. jm_has ds k}"

definition opened_after :: "request_frame \<Rightarrow> jsstring set \<Rightarrow> jsstring set" where
  "opened_after q S =
     (case named q of
        None \<Rightarrow> S
      | Some docID \<Rightarrow> if rf_op q = 1 then insert docID S else if rf_op q = 2 then S - {docID} else S)"

lemma apply_to_docs:
  "apply_to E docID u r ds = (x, ds') \<Longrightarrow> open_docs ds' = open_docs ds \<and> (\<forall>k. k \<noteq> docID \<longrightarrow> jm_get ds' k = jm_get ds k)"
  by (auto simp: apply_to_def getDoc_def open_docs_def split: option.splits if_splits prod.splits)

lemma sync_body_docs:
  "sync_body E docID b ds = (x, ds') \<Longrightarrow> open_docs ds' = open_docs ds \<and> (\<forall>k. k \<noteq> docID \<longrightarrow> jm_get ds' k = jm_get ds k)"
  using apply_to_docs [of E docID _ _ ds x ds']
  by (auto simp: sync_body_def split: sum.splits prod.splits if_splits)

text \<open>What a handler may do to the documents: those other than the named one stay, and the set of open
  documents changes by \<open>upd\<close> of the named one.\<close>

definition confined :: "'d op_handler \<Rightarrow> (jsstring \<Rightarrow> jsstring set \<Rightarrow> jsstring set) \<Rightarrow> bool" where
  "confined h upd \<longleftrightarrow> (\<forall>payload ds.
     case readVarString payload 0 of
       Inl _ \<Rightarrow> snd (h payload ds) = ds
     | Inr (docID, _) \<Rightarrow> open_docs (snd (h payload ds)) = upd docID (open_docs ds)
         \<and> (\<forall>k. k \<noteq> docID \<longrightarrow> jm_get (snd (h payload ds)) k = jm_get ds k))"

lemma confined_open: "confined (handleOpen E) insert"
  by (auto simp: confined_def handleOpen_def openDoc_def open_docs_def split: sum.split option.split)

lemma confined_close: "confined handleClose (\<lambda>k S. S - {k})"
  by (auto simp: confined_def handleClose_def closeDoc_def open_docs_def split: sum.split option.split)

lemma confined_apply: "confined (handleApplyUpdate E) (\<lambda>_ S. S)"
  by (simp add: confined_def handleApplyUpdate_def apply_to_docs [OF surjective_pairing] split: sum.split)

lemma confined_sync: "confined (handleSyncMessage E) (\<lambda>_ S. S)"
  by (simp add: confined_def handleSyncMessage_def sync_body_docs [OF surjective_pairing] split: sum.split)

lemma confined_read: "confined (read_doc f) (\<lambda>_ S. S)"
  by (auto simp: confined_def read_doc_def split: sum.split)

lemma confined_text: "confined (handleGetText E) (\<lambda>_ S. S)"
  by (auto simp: confined_def handleGetText_def getDoc_def open_docs_def split: sum.split option.split prod.split)

lemma confined_ping: "confined handlePing (\<lambda>_ S. S)"
  by (auto simp: confined_def handlePing_def split: sum.split)

lemma HANDLERS_confined:
  assumes "HANDLERS E op = Some h"
  shows "confined h (\<lambda>k S. if op = 1 then insert k S else if op = 2 then S - {k} else S)"
  using assms confined_open [of E] confined_close confined_apply [of E] confined_sync [of E] confined_read
    confined_text [of E] confined_ping
  by (auto simp: HANDLERS_def handleEncodeState_def handleEncodeSV_def split: if_splits)

lemma perform_docs:
  "open_docs (snd (perform E q ds)) = opened_after q (open_docs ds) \<and>
   (\<forall>k. named q \<noteq> Some k \<longrightarrow> jm_get (snd (perform E q ds)) k = jm_get ds k)"
proof (cases "HANDLERS E (rf_op q)")
  case None
  then have "rf_op q \<noteq> 1" "rf_op q \<noteq> 2" by (auto simp: HANDLERS_def)
  then show ?thesis using None by (simp add: perform_def opened_after_def split: option.split)
next
  case (Some h)
  have "snd (perform E q ds) = snd (h (rf_payload q) ds)"
    using Some by (simp add: perform_def split: prod.split sum.split)
  then show ?thesis
    using HANDLERS_confined [OF Some, unfolded confined_def, rule_format, of "rf_payload q" ds]
    by (auto simp: opened_after_def named_def split: sum.splits)
qed

lemma serve_docs:
  "open_docs (snd (serve E qs ds)) = fold opened_after qs (open_docs ds) \<and>
   (\<forall>k. (\<forall>q \<in> set qs. named q \<noteq> Some k) \<longrightarrow> jm_get (snd (serve E qs ds)) k = jm_get ds k)"
proof (induction qs arbitrary: ds)
  case (Cons q qs)
  have "snd (serve E (q # qs) ds) = snd (serve E qs (snd (perform E q ds)))"
    by (simp split: prod.split)
  then show ?case using Cons.IH [of "snd (perform E q ds)"] perform_docs [of E q ds] by simp
qed simp

text \<open>C14: A document lives from its \<open>OPEN\<close> to its \<open>CLOSE\<close>: after a sequence of requests, received in any
  chunks, the open documents are those that opening and closing them in the order of the requests
  leaves, whatever updates failed in between, and a document that no request names is untouched.\<close>

theorem document_lifetime:
  assumes "list_all fits qs" "concat chunks = concat (map encoded qs)"
  shows "open_docs (cn_docs (fold (on_data E) chunks (fresh_connection ds))) = fold opened_after qs (open_docs ds) \<and>
    (\<forall>k. (\<forall>q \<in> set qs. named q \<noteq> Some k) \<longrightarrow>
      jm_get (cn_docs (fold (on_data E) chunks (fresh_connection ds))) k = jm_get ds k)"
proof -
  have "cn_docs (fold (on_data E) chunks (fresh_connection ds)) = snd (serve E qs ds)"
    using on_data_requests [OF assms, of E ds] by simp
  then show ?thesis using serve_docs [of E qs ds] by simp
qed

text \<open>A frame of another protocol version ends the process, and with it every document of every room:
  the exception of \<open>processFrame\<close> leaves the listener for \<open>data\<close>.\<close>

lemma bad_version_ends_server:
  assumes "version < 0x100" "version \<noteq> PROTOCOL_VERSION" "length rest < 2 ^ 32"
  shows "\<not> cn_alive (on_data E (of_nat version # write_be32 (length rest) @ rest) (fresh_connection ds))"
proof -
  let ?frame = "of_nat version # write_be32 (length rest) @ rest"
  have "frame_size ?frame = Some (length ?frame)"
    using be_value_write32 [OF assms(3)] by (simp add: frame_size_def Let_def)
  moreover have "processFrame E ?frame ds = None"
    using assms(2) be_value_byte [OF assms(1)] by (simp add: processFrame_def read_be_def split: sum.split)
  ultimately show ?thesis by (simp add: on_data_def fresh_connection_def drain.simps)
qed

text \<open>The sixth byte of a number is shifted by 35, that is by 3: \<open>2 ^ 35\<close> reads as 8.\<close>

lemma six_byte_number_misread: "readVarUint [0x80, 0x80, 0x80, 0x80, 0x80, 0x01] = Inr (8, [])"
  by code_simp

section \<open>Witnesses\<close>

text \<open>A server whose documents are the bytes applied so far.\<close>

definition append_engine :: "byte list engine_env" where
  "append_engine = \<lparr>ye_new = [], ye_applyUpdate = (\<lambda>u d. (None, d @ u)), ye_encodeState = (\<lambda>sv d. Inr d),
     ye_encodeStateVector = (\<lambda>d. [of_nat (length d)]), ye_getText = (\<lambda>name d. (Inr (js ''hi''), d)),
     ye_rangeMessage = js ''out of range''\<rparr>"

text \<open>Open the document \<open>a\<close>, append two bytes, ask for the state, and use an operation that is not there.\<close>

definition sample_requests :: "request_frame list" where
  "sample_requests =
     [\<lparr>rf_seq = 7, rf_op = 1, rf_payload = [0, 1, 97]\<rparr>, \<lparr>rf_seq = 8, rf_op = 3, rf_payload = [0, 1, 97, 5, 6]\<rparr>,
      \<lparr>rf_seq = 9, rf_op = 5, rf_payload = [0, 1, 97]\<rparr>, \<lparr>rf_seq = 10, rf_op = 9, rf_payload = []\<rparr>]"

definition byte_chunks :: "byte list list" where
  "byte_chunks = map (\<lambda>b. [b]) (concat (map encoded sample_requests))"

lemma concat_singletons: "concat (map (\<lambda>b. [b]) xs) = xs"
  by (induction xs) simp_all

lemma name_a: "js ''a'' = [97]" "js ''b'' = [98]"
  by code_simp+

lemma named_a: "readVarString (0 # 1 # 97 # rest) 0 = Inr (js ''a'', 3)"
  by (simp add: name_a readVarString_def read_be_def be_value_def bind_res_def)

lemma js_append_9: "js ''unknown op 0x'' @ [0x39] = js ''unknown op 0x9''"
  by code_simp

lemmas engine_steps = perform_def HANDLERS_def handleOpen_def openDoc_def handleApplyUpdate_def apply_to_def getDoc_def
  handleEncodeState_def read_doc_def bind_res_def named_a append_engine_def

lemma sample_fits: "list_all fits sample_requests"
  by (simp add: sample_requests_def fits_def)

lemma sample_chunks: "concat byte_chunks = concat (map encoded sample_requests)"
  by (simp add: byte_chunks_def concat_singletons)

theorem requests_answered_in_order_witness:
  "list_all fits sample_requests \<and> length byte_chunks = 55 \<and>
   cn_written (fold (on_data append_engine) byte_chunks (fresh_connection [])) =
     [buildFrame 7 1 0 [], buildFrame 8 3 0 [], buildFrame 9 5 0 [5, 6], buildFrame 10 9 1 (utf8_encode (js ''unknown op 0x9''))]"
proof -
  have "length byte_chunks = 55" by (simp add: byte_chunks_def sample_requests_def encoded_def HEADER_BYTES_def)
  moreover have "fst (serve append_engine sample_requests []) =
     [buildFrame 7 1 0 [], buildFrame 8 3 0 [], buildFrame 9 5 0 [5, 6], buildFrame 10 9 1 (utf8_encode (js ''unknown op 0x9''))]"
    by (simp add: sample_requests_def engine_steps hex_digits.simps js_append_9)
  ultimately show ?thesis
    using requests_answered_in_order [OF sample_fits sample_chunks, of append_engine "[]"] sample_fits by simp
qed

theorem document_lifetime_witness:
  "open_docs (cn_docs (fold (on_data append_engine) byte_chunks (fresh_connection [(js ''b'', [1])]))) = {js ''a'', js ''b''}"
proof -
  have "fold opened_after sample_requests {js ''b''} = {js ''a'', js ''b''}"
    by (simp add: sample_requests_def opened_after_def named_def named_a split: option.split)
  moreover have "open_docs [(js ''b'', [1::byte])] = {js ''b''}" by (simp add: open_docs_def)
  ultimately show ?thesis
    using document_lifetime [OF sample_fits sample_chunks, of append_engine "[(js ''b'', [1])]"] by simp
qed

theorem engine_codecs_roundtrip_witness:
  "readVarUint (writeVarUint 300 @ [9]) = Inr (300, [9]) \<and> readVarUint8Array (writeVarUint8Array [1, 2] @ [9]) = Inr ([1, 2], [9])
   \<and> readVarString ([0, 1, 97] @ [9]) 0 = Inr (js ''a'', 3)"
proof -
  have "utf8_encode (js ''a'') = [97]" by (simp add: name_a utf8_unit_def utf8_point_def surrogate_def)
  moreover have "well_formed (js ''a'')" by (simp add: name_a surrogate_def)
  ultimately have "writeVarString (js ''a'') = Inr [0, 1, 97]" by (simp add: writeVarString_def write_be16_def)
  from engine_codecs_roundtrip [OF _ _ this \<open>well_formed (js ''a'')\<close>, of 300 "[1, 2]" "[9]"] show ?thesis by simp
qed

theorem sync_step1_answered_witness:
  "\<exists>m m'. sync_body append_engine (js ''a'') (writeVarUint MSG_SYNC_STEP1 @ writeVarUint8Array [0]) [(js ''a'', [5, 6])] =
       (Inr (0 # m), [(js ''a'', [5, 6])])
    \<and> readVarUint m = Inr (MSG_SYNC_STEP2, m') \<and> readVarUint8Array m' = Inr ([5, 6], [])"
  using sync_step1_answered [of "[(js ''a'', [5, 6])]" "js ''a''" "[5, 6]" "[0]" append_engine "[5, 6]"]
  by (simp add: append_engine_def)

end
