(* ===== verification/Decorations.thy ===== *)
theory Decorations
  imports Comment_Coordinator Position_Map "HOL-Library.Product_Lexorder" "HOL-Library.Multiset"
begin

text \<open>
  What the editors draw: the highlights and gutter marks of comments and blame in the source editor
  (\<open>comment-cm-extension.ts\<close>, \<open>blame-cm-extension.ts\<close>) and in the rich-text editor
  (\<open>comment-tiptap-plugin.ts\<close>, \<open>blame-tiptap-plugin.ts\<close>), computed from the views that the
  coordinators push. Shown: the ranges handed to CodeMirror are ordered as its builder demands, every
  unresolved thread is drawn once and inside the document, blame colours every line and every visible
  character by its author, and every open thread counts on one gutter line. Styles follow from the
  classes and are left out.
\<close>

section \<open>Lines\<close>

text \<open>The lines of a document as \<open>from\<close> and \<open>to\<close> of \<open>doc.line\<close>, and the index of \<open>doc.lineAt\<close>.\<close>

fun spans :: "nat \<Rightarrow> jsstring list \<Rightarrow> (nat \<times> nat) list" where
  "spans a [] = []"
| "spans a (l # ls) = (a, a + length l) # spans (a + length l + 1) ls"

definition doc_lines :: "jsstring \<Rightarrow> (nat \<times> nat) list" where
  "doc_lines doc = spans 0 (split_on newline doc)"

fun line_at :: "(nat \<times> nat) list \<Rightarrow> nat \<Rightarrow> nat" where
  "line_at [] pos = 0"
| "line_at ((a, b) # ls) pos = (if pos \<le> b then 0 else Suc (line_at ls pos))"

section \<open>Comments in the source editor\<close>

datatype cm_decoration =
    Cm_Mark "string list" jsstring
  | Cm_Caret jsstring bool

record cm_range =
  cr_from :: int
  cr_to :: int
  cr_sort :: nat
  cr_dec :: cm_decoration

definition unresolved :: "comment_thread \<Rightarrow> bool" where
  "unresolved t \<longleftrightarrow> ct_status t \<noteq> Resolved_Thread"

definition hasSuggestion :: "comment_thread \<Rightarrow> bool" where
  "hasSuggestion t = (case ct_suggestion t of None \<Rightarrow> False | Some s \<Rightarrow> sg_status s = Pending)"

definition isActive :: "comments_view \<Rightarrow> comment_thread \<Rightarrow> bool" where
  "isActive v t \<longleftrightarrow> cv_activeThreadId v = Some (ct_id t)"

text \<open>The class names: the base, and its variants for a pending suggestion and for the active thread.\<close>

definition classes :: "string \<Rightarrow> comments_view \<Rightarrow> comment_thread \<Rightarrow> string list" where
  "classes base v t =
     [base] @ (if hasSuggestion t then [base @ ''--suggestion''] else []) @ (if isActive v t then [base @ ''--active''] else [])"

definition cm_range_of :: "jsstring \<Rightarrow> comments_view \<Rightarrow> comment_thread \<Rightarrow> cm_range" where
  "cm_range_of doc v t =
     (let from = min (ca_start (ct_anchor t)) (int (length doc));
          to = min (ca_end (ct_anchor t)) (int (length doc))
      in if from < to then
           \<lparr>cr_from = from, cr_to = to, cr_sort = 0,
            cr_dec = Cm_Mark (classes ''cm-comment-anchor'' v t) (ct_id t)\<rparr>
         else \<lparr>cr_from = from, cr_to = from, cr_sort = 1, cr_dec = Cm_Caret (ct_id t) (isActive v t)\<rparr>)"

definition cm_buildDecorations :: "jsstring \<Rightarrow> comments_view \<Rightarrow> cm_range list" where
  "cm_buildDecorations doc v =
     sort_key (\<lambda>r. (cr_from r, cr_to r, cr_sort r)) (map (cm_range_of doc v) (filter unresolved (cv_threads v)))"

text \<open>The state fields: the first pushed view of a transaction replaces the state and the decorations;
  otherwise a change of the document moves them (\<open>moved\<close> is \<open>deco.map(tr.changes)\<close>).\<close>

definition cm_state_update :: "comments_view \<Rightarrow> comments_view list \<Rightarrow> comments_view" where
  "cm_state_update old pushed = (case pushed of [] \<Rightarrow> old | v # _ \<Rightarrow> v)"

definition cm_decoration_update ::
  "(cm_range list \<Rightarrow> cm_range list) \<Rightarrow> jsstring \<Rightarrow> bool \<Rightarrow> cm_range list \<Rightarrow> comments_view list \<Rightarrow> cm_range list" where
  "cm_decoration_update moved doc docChanged deco pushed =
     (case pushed of [] \<Rightarrow> if docChanged then moved deco else deco | v # _ \<Rightarrow> cm_buildDecorations doc v)"

datatype gutter_marker = Suggestions nat | Comments nat

definition starts_in :: "nat \<times> nat \<Rightarrow> comment_thread \<Rightarrow> bool" where
  "starts_in line t \<longleftrightarrow> ct_status t = Open_Thread \<and> int (fst line) \<le> ca_start (ct_anchor t)
     \<and> ca_start (ct_anchor t) \<le> int (snd line)"

definition commentCmGutter :: "comments_view \<Rightarrow> nat \<times> nat \<Rightarrow> gutter_marker option" where
  "commentCmGutter v line =
     (let suggestionCount = length (filter (\<lambda>t. starts_in line t \<and> hasSuggestion t) (cv_threads v));
          commentCount = length (filter (\<lambda>t. starts_in line t \<and> \<not> hasSuggestion t) (cv_threads v))
      in if suggestionCount > 0 then Some (Suggestions suggestionCount)
         else if commentCount > 0 then Some (Comments commentCount) else None)"

section \<open>Comments in the rich-text editor\<close>

datatype pm_decoration =
    Pm_Inline nat nat "string list" jsstring
  | Pm_Caret nat "string list" jsstring

text \<open>The loop of \<open>snapSinglePosition\<close> over the sorted keys.\<close>

fun single_loop :: "nat \<Rightarrow> (nat, nat) jsmap \<Rightarrow> nat list \<Rightarrow> nat option \<Rightarrow> nat option" where
  "single_loop off m [] pos = pos"
| "single_loop off m (k # ks) pos =
     (if k < off then single_loop off m ks (map_option (\<lambda>p. p + (off - k)) (jm_get m k))
      else case pos of None \<Rightarrow> jm_get m k | Some p \<Rightarrow> Some p)"

definition snapSinglePosition :: "nat \<Rightarrow> (nat, nat) jsmap \<Rightarrow> nat \<Rightarrow> nat option" where
  "snapSinglePosition off m contentSize =
     (if m = [] then None
      else case jm_get m off of
             Some p \<Rightarrow> Some p
           | None \<Rightarrow> map_option (\<lambda>p. min p contentSize) (single_loop off m (sortedKeys m) None))"

text \<open>The decoration of a thread. A negative offset finds the same keys as 0.\<close>

definition pm_range_of :: "(nat, nat) jsmap \<Rightarrow> nat \<Rightarrow> comment_thread \<Rightarrow> (nat \<times> nat option) option" where
  "pm_range_of m contentSize t =
     (let a = ct_anchor t
      in if ca_end a \<le> ca_start a
         then map_option (\<lambda>p. (p, None)) (snapSinglePosition (nat (ca_start a)) m contentSize)
         else map_option (\<lambda>(f, u). (f, Some u)) (snapRange (nat (ca_start a)) (nat (ca_end a)) m))"

definition pm_decoration_of :: "(nat, nat) jsmap \<Rightarrow> nat \<Rightarrow> comments_view \<Rightarrow> comment_thread \<Rightarrow> pm_decoration option" where
  "pm_decoration_of m contentSize v t =
     (case pm_range_of m contentSize t of
        None \<Rightarrow> None
      | Some (f, u) \<Rightarrow>
          (case u of
             Some u' \<Rightarrow> Some (if f < u' then Pm_Inline f u' (classes ''me-comment-anchor'' v t) (ct_id t)
                              else Pm_Caret f (classes ''me-comment-caret'' v t) (ct_id t))
           | None \<Rightarrow> Some (Pm_Caret f (classes ''me-comment-caret'' v t) (ct_id t))))"

definition pm_buildDecorations :: "text_node list \<Rightarrow> nat \<Rightarrow> jsstring \<Rightarrow> comments_view \<Rightarrow> pm_decoration list" where
  "pm_buildDecorations nodes contentSize yTextStr v =
     (let posMap = buildPositionMap nodes yTextStr
      in if posMap = [] \<and> cv_threads v = [] then []
         else List.map_filter (pm_decoration_of posMap contentSize v) (filter unresolved (cv_threads v)))"

text \<open>The plug-in: pushed fields replace those of the state, and both a push and a change of the
  document draw everything anew.\<close>

definition comment_plugin_apply ::
  "text_node list \<Rightarrow> nat \<Rightarrow> jsstring \<Rightarrow> bool \<Rightarrow> comments_view option \<Rightarrow> comments_view \<times> pm_decoration list
     \<Rightarrow> comments_view \<times> pm_decoration list" where
  "comment_plugin_apply nodes contentSize yTextStr docChanged pushed old =
     (case pushed of
        Some v \<Rightarrow> (v, pm_buildDecorations nodes contentSize yTextStr v)
      | None \<Rightarrow> if docChanged then (fst old, pm_buildDecorations nodes contentSize yTextStr (fst old)) else old)"

section \<open>Blame in the source editor\<close>

text \<open>The segments that a line decoration colours: the lines from that of the first to that of the last
  character, clamped to the document.\<close>

definition segment_lines :: "jsstring \<Rightarrow> blame_segment \<Rightarrow> nat list" where
  "segment_lines doc seg =
     (let ls = doc_lines doc;
          startLine = line_at ls (min (seg_start seg) (length doc));
          endPos = min (seg_end seg) (length doc);
          endLine = (if endPos > 0 then line_at ls (endPos - 1) else startLine)
      in [startLine ..< Suc endLine])"

definition buildLineDecorations :: "jsstring \<Rightarrow> blame_segment list \<Rightarrow> (nat \<times> string option) list" where
  "buildLineDecorations doc segments =
     concat (map (\<lambda>seg. map (\<lambda>n. (fst (doc_lines doc ! n), assignColor (seg_user seg))) (segment_lines doc seg))
       (sort_key seg_start segments))"

definition blameGutter :: "blame_segment list \<Rightarrow> nat \<Rightarrow> (jsstring \<times> string option) option" where
  "blameGutter segments lineStart =
     map_option (\<lambda>seg. (seg_user seg, assignColor (seg_user seg)))
       (List.find (\<lambda>seg. seg_start seg \<le> lineStart \<and> lineStart < seg_end seg) segments)"

section \<open>Blame in the rich-text editor\<close>

datatype blame_decoration =
    Blame_Inline nat nat jsstring
  | Override_Inline nat nat jsstring jsstring

definition blame_decorations :: "text_node list \<Rightarrow> blame_segment list \<Rightarrow> formatting_override list \<Rightarrow> jsstring \<Rightarrow> blame_decoration list" where
  "blame_decorations nodes segments overrides yTextStr =
     (let posMap = buildPositionMap nodes yTextStr
      in List.map_filter
           (\<lambda>seg. case snapRange (seg_start seg) (seg_end seg) posMap of
                    None \<Rightarrow> None
                  | Some (f, u) \<Rightarrow> if f \<ge> u then None else Some (Blame_Inline f u (seg_user seg))) segments
         @ map (\<lambda>ov. Override_Inline (fo_from ov) (fo_to ov) (fo_delimiterUser ov) (fo_textUser ov))
             (filter (\<lambda>ov. fo_from ov < fo_to ov) overrides))"

text \<open>The meta payload of a transaction: \<open>null\<close>, a list of segments, or segments with overrides and the
  shared text; \<open>pm_string\<close> is the text of the document, taken when there is no shared text.\<close>

datatype blame_meta =
    Clear_Blame
  | Plain_Segments "blame_segment list"
  | Full_Meta "blame_segment list option" "formatting_override list option" "jsstring option"

definition blame_plugin_apply ::
  "(blame_decoration list \<Rightarrow> blame_decoration list) \<Rightarrow> text_node list \<Rightarrow> jsstring \<Rightarrow> bool \<Rightarrow> blame_meta option
     \<Rightarrow> blame_decoration list \<Rightarrow> blame_decoration list" where
  "blame_plugin_apply moved nodes pm_string docChanged meta oldSet =
     (case meta of
        None \<Rightarrow> if docChanged then moved oldSet else oldSet
      | Some Clear_Blame \<Rightarrow> []
      | Some (Plain_Segments segs) \<Rightarrow> if segs = [] then [] else blame_decorations nodes segs [] pm_string
      | Some (Full_Meta segments overrides ytext) \<Rightarrow>
          (let source = (case ytext of None \<Rightarrow> pm_string | Some t \<Rightarrow> t);
               ovs = (case overrides of None \<Rightarrow> [] | Some l \<Rightarrow> l)
           in case segments of
                Some (s # segs) \<Rightarrow> blame_decorations nodes (s # segs) ovs source
              | _ \<Rightarrow> if ovs \<noteq> [] then blame_decorations nodes [] ovs source else []))"

section \<open>Lemmas on lines\<close>

lemma line_at_mono: "p \<le> q \<Longrightarrow> line_at ls p \<le> line_at ls q"
  by (induction ls p rule: line_at.induct) auto

lemma spans_at:
  assumes "a \<le> pos" "pos < a + length (join_with newline ls) + 1" "ls \<noteq> []"
  shows "line_at (spans a ls) pos < length ls \<and>
    fst (spans a ls ! line_at (spans a ls) pos) \<le> pos \<and> pos \<le> snd (spans a ls ! line_at (spans a ls) pos)"
  using assms
proof (induction a ls rule: spans.induct)
  case (2 a l ls)
  show ?case
  proof (cases "pos \<le> a + length l")
    case True
    then show ?thesis using 2(2) by simp
  next
    case False
    then have "ls \<noteq> []" using 2(3) by auto
    moreover from this have "pos < a + length l + 1 + length (join_with newline ls) + 1"
      using 2(3) by (cases ls) auto
    ultimately show ?thesis using 2(1) False by simp
  qed
qed simp

lemma spans_from_mono: "i < j \<Longrightarrow> j < length ls \<Longrightarrow> snd (spans a ls ! i) < fst (spans a ls ! j)"
proof (induction a ls arbitrary: i j rule: spans.induct)
  case (2 a l ls)
  have bound: "a' \<le> fst (spans a' ls ! k)" if "k < length ls" for k a'
    using that
  proof (induction a' ls arbitrary: k rule: spans.induct)
    case (2 b m ms)
    show ?case
    proof (cases k)
      case (Suc k')
      then have "b + length m + 1 \<le> fst (spans (b + length m + 1) ms ! k')" using 2 by auto
      then show ?thesis using Suc by simp
    qed simp
  qed simp
  from 2(2,3) obtain j' where j: "j = Suc j'" "j' < length ls" by (cases j) auto
  show ?case
  proof (cases i)
    case 0
    then show ?thesis using bound [OF j(2), of "a + length l + 1"] j by simp
  next
    case (Suc i')
    then show ?thesis using 2 j by simp
  qed
qed simp

lemma length_spans [simp]: "length (spans a ls) = length ls"
  by (induction a ls rule: spans.induct) simp_all

definition holds_pos :: "nat \<Rightarrow> nat \<times> nat \<Rightarrow> bool" where
  "holds_pos pos line \<longleftrightarrow> fst line \<le> pos \<and> pos \<le> snd line"

lemma line_at_doc:
  assumes "pos \<le> length doc"
  shows "line_at (doc_lines doc) pos < length (doc_lines doc)" "holds_pos pos (doc_lines doc ! line_at (doc_lines doc) pos)"
proof -
  have "split_on newline doc \<noteq> []" "join_with newline (split_on newline doc) = doc"
    by simp_all
  then show "line_at (doc_lines doc) pos < length (doc_lines doc)" "holds_pos pos (doc_lines doc ! line_at (doc_lines doc) pos)"
    using spans_at [of 0 pos "split_on newline doc"] assms by (simp_all add: doc_lines_def holds_pos_def)
qed

text \<open>Every position of the document stands on exactly one line.\<close>

lemma line_unique:
  assumes "n < length (doc_lines doc)" "holds_pos pos (doc_lines doc ! n)" "pos \<le> length doc"
  shows "line_at (doc_lines doc) pos = n"
proof (rule ccontr)
  let ?k = "line_at (doc_lines doc) pos"
  assume "?k \<noteq> n"
  then consider "?k < n" | "n < ?k" by linarith
  then show False
    using spans_from_mono [of ?k n "split_on newline doc" 0] spans_from_mono [of n ?k "split_on newline doc" 0]
      assms line_at_doc [OF assms(3)] by cases (auto simp: doc_lines_def holds_pos_def)
qed

lemma line_bounds:
  assumes "n < length (doc_lines doc)"
  shows "fst (doc_lines doc ! n) \<le> snd (doc_lines doc ! n)"
proof -
  have "n < length ls \<Longrightarrow> fst (spans a ls ! n) \<le> snd (spans a ls ! n)" for a ls
    by (induction a ls arbitrary: n rule: spans.induct) (auto simp: nth_Cons split: nat.split)
  then show ?thesis using assms by (simp add: doc_lines_def)
qed

lemma line_start_before:
  assumes "n \<le> line_at (doc_lines doc) pos" "pos \<le> length doc"
  shows "fst (doc_lines doc ! n) \<le> pos \<and> n < length (doc_lines doc)"
proof -
  let ?k = "line_at (doc_lines doc) pos"
  have k: "?k < length (doc_lines doc)" "holds_pos pos (doc_lines doc ! ?k)" using line_at_doc [OF assms(2)] by auto
  show ?thesis
  proof (cases "n = ?k")
    case False
    then have "snd (doc_lines doc ! n) < fst (doc_lines doc ! ?k)"
      using spans_from_mono [of n ?k "split_on newline doc" 0] assms(1) k(1) by (simp add: doc_lines_def)
    then show ?thesis using line_bounds [of n doc] assms(1) k by (simp add: holds_pos_def)
  qed (use k in \<open>auto simp: holds_pos_def\<close>)
qed

lemma line_from_mono: "m \<le> n \<Longrightarrow> n < length (doc_lines doc) \<Longrightarrow> fst (doc_lines doc ! m) \<le> fst (doc_lines doc ! n)"
  using spans_from_mono [of m n "split_on newline doc" 0] line_bounds [of m doc]
  by (cases "m = n") (auto simp: doc_lines_def)

lemma line_from_inj:
  "fst (doc_lines doc ! m) = fst (doc_lines doc ! n) \<Longrightarrow> m < length (doc_lines doc) \<Longrightarrow> n < length (doc_lines doc) \<Longrightarrow> m = n"
  using spans_from_mono [of m n "split_on newline doc" 0] spans_from_mono [of n m "split_on newline doc" 0]
    line_bounds [of m doc] line_bounds [of n doc]
  by (cases m n rule: linorder_cases) (auto simp: doc_lines_def)

lemma line_at_iff:
  "n < length (doc_lines doc) \<Longrightarrow> pos \<le> length doc \<Longrightarrow> line_at (doc_lines doc) pos = n \<longleftrightarrow> holds_pos pos (doc_lines doc ! n)"
  using line_unique line_at_doc(2) by blast

text \<open>The lines between those of two positions are the lines of the positions between them.\<close>

lemma lines_between:
  assumes "a < b" "b \<le> length doc"
  shows "line_at (doc_lines doc) a \<le> n \<and> n \<le> line_at (doc_lines doc) (b - 1)
    \<longleftrightarrow> (\<exists>i. a \<le> i \<and> i < b \<and> line_at (doc_lines doc) i = n)" (is "?L \<longleftrightarrow> ?R")
proof
  assume L: ?L
  show ?R
  proof (cases "line_at (doc_lines doc) a = n")
    case True
    then show ?thesis using assms by auto
  next
    case False
    let ?i = "fst (doc_lines doc ! n)"
    have n: "?i \<le> b - 1" "n < length (doc_lines doc)" using line_start_before [of n doc "b - 1"] L assms by auto
    have "line_at (doc_lines doc) ?i = n"
      using n assms line_bounds [OF n(2)] by (intro line_unique) (auto simp: holds_pos_def)
    moreover from this have "a \<le> ?i" using False L line_at_mono [of ?i a "doc_lines doc"] by linarith
    ultimately show ?thesis using n assms by (intro exI [of _ ?i]) auto
  qed
next
  assume ?R
  then obtain i where "a \<le> i" "i \<le> b - 1" "line_at (doc_lines doc) i = n" by auto
  then show ?L using line_at_mono [of a i "doc_lines doc"] line_at_mono [of i "b - 1" "doc_lines doc"] by auto
qed

section \<open>Lemmas on segments\<close>

lemma tiling_inside: "tiling lo segs hi \<Longrightarrow> s \<in> set segs \<Longrightarrow> lo \<le> seg_start s \<and> seg_start s < seg_end s \<and> seg_end s \<le> hi"
  by (induction lo segs hi rule: tiling.induct) (force dest: tiling_le)+

lemma tiling_exists: "tiling lo segs hi \<Longrightarrow> lo \<le> i \<Longrightarrow> i < hi \<Longrightarrow> \<exists>s \<in> set segs. seg_start s \<le> i \<and> i < seg_end s"
  by (induction lo segs hi rule: tiling.induct) (auto, metis not_less)

lemma tiling_sorted: "tiling lo segs hi \<Longrightarrow> sorted_wrt (\<lambda>s t. seg_end s \<le> seg_start t) segs"
  by (induction lo segs hi rule: tiling.induct) (auto dest: tiling_inside)

lemma tiling_sort: "tiling lo segs hi \<Longrightarrow> sort_key seg_start segs = segs"
proof -
  assume t: "tiling lo segs hi"
  have "sorted_wrt (\<lambda>s t. seg_start s \<le> seg_start t) segs"
    using tiling_sorted [OF t] by (rule sorted_wrt_mono_rel [rotated]) (use tiling_inside [OF t] in force)
  then show "sort_key seg_start segs = segs" by (simp add: sorted_sort_id sort_key_id_if_sorted sorted_map)
qed

lemma tiling_author:
  assumes "tiling 0 segs hi" "i < hi"
  shows "\<exists>!s. s \<in> set segs \<and> seg_start s \<le> i \<and> i < seg_end s"
    "s \<in> set segs \<Longrightarrow> seg_start s \<le> i \<Longrightarrow> i < seg_end s \<Longrightarrow> seg_user s = char_authors segs ! i"
proof -
  show "s \<in> set segs \<Longrightarrow> seg_start s \<le> i \<Longrightarrow> i < seg_end s \<Longrightarrow> seg_user s = char_authors segs ! i"
    using tiling_cover [OF assms(1), of s i] by simp
  have "s = t" if "s \<in> set segs" "seg_start s \<le> i" "i < seg_end s" "t \<in> set segs" "seg_start t \<le> i" "i < seg_end t" for s t
    using tiling_sorted [OF assms(1)] that
    by (induction segs) auto
  then show "\<exists>!s. s \<in> set segs \<and> seg_start s \<le> i \<and> i < seg_end s"
    using tiling_exists [OF assms(1), of i] assms(2) by (meson le0)
qed

section \<open>Comment marks\<close>

definition drawn_thread :: "cm_range \<Rightarrow> jsstring" where
  "drawn_thread r = (case cr_dec r of Cm_Mark _ i \<Rightarrow> i | Cm_Caret i _ \<Rightarrow> i)"

text \<open>The side of a decoration: marks that do not extend with typed text have the larger one.\<close>

definition start_side :: "int \<Rightarrow> int \<Rightarrow> cm_range \<Rightarrow> int" where
  "start_side markSide caretSide r = (case cr_dec r of Cm_Mark _ _ \<Rightarrow> markSide | Cm_Caret _ _ \<Rightarrow> caretSide)"

lemma cm_range_of_shape:
  "(cr_from (cm_range_of doc v t) < cr_to (cm_range_of doc v t) \<and> (\<exists>cl. cr_dec (cm_range_of doc v t) = Cm_Mark cl (ct_id t)))
   \<or> (cr_from (cm_range_of doc v t) = cr_to (cm_range_of doc v t) \<and> (\<exists>b. cr_dec (cm_range_of doc v t) = Cm_Caret (ct_id t) b))"
  by (auto simp: cm_range_of_def Let_def)

text \<open>The highlights of comments in the source editor are drawn as CodeMirror demands: for any
  threads with anchors that are not negative, the ranges are ordered by position and then by side,
  there is exactly one for every thread that is not resolved, and each lies inside the document,
  a mark over what the anchor covers of it or a caret where it covers nothing.\<close>

theorem comment_marks_ordered:
  assumes "caretSide \<le> markSide" "\<forall>t \<in> set (cv_threads v). 0 \<le> ca_start (ct_anchor t)"
  shows "sorted_wrt (\<lambda>r r'. cr_from r < cr_from r' \<or> cr_from r = cr_from r' \<and> start_side markSide caretSide r \<le> start_side markSide caretSide r')
      (cm_buildDecorations doc v)
    \<and> mset (map drawn_thread (cm_buildDecorations doc v)) = mset (map ct_id (filter unresolved (cv_threads v)))
    \<and> (\<forall>r \<in> set (cm_buildDecorations doc v). 0 \<le> cr_from r \<and> cr_from r \<le> cr_to r \<and> cr_to r \<le> int (length doc)
        \<and> ((\<exists>cl i. cr_dec r = Cm_Mark cl i) \<longleftrightarrow> cr_from r < cr_to r))"
    (is "?sorted \<and> ?once \<and> ?inside")
proof -
  let ?k = "\<lambda>r. (cr_from r, cr_to r, cr_sort r)" and ?rs = "map (cm_range_of doc v) (filter unresolved (cv_threads v))"
  have els: "\<exists>t. r = cm_range_of doc v t \<and> t \<in> set (cv_threads v)" if "r \<in> set (cm_buildDecorations doc v)" for r
    using that by (auto simp: cm_buildDecorations_def)
  have "sorted_wrt (\<lambda>r r'. ?k r \<le> ?k r') (cm_buildDecorations doc v)"
    using sorted_sort_key [of ?k ?rs] by (simp add: cm_buildDecorations_def sorted_map)
  then have ?sorted
  proof (rule sorted_wrt_mono_rel [rotated])
    fix r r' assume r: "r \<in> set (cm_buildDecorations doc v)" "r' \<in> set (cm_buildDecorations doc v)" "?k r \<le> ?k r'"
    from els [OF r(1)] els [OF r(2)] obtain t t' where t: "r = cm_range_of doc v t" "r' = cm_range_of doc v t'" by blast
    show "cr_from r < cr_from r' \<or> cr_from r = cr_from r' \<and> start_side markSide caretSide r \<le> start_side markSide caretSide r'"
      using r(3) assms(1) cm_range_of_shape [of doc v t] cm_range_of_shape [of doc v t']
      unfolding t by (auto simp: less_eq_prod_def start_side_def)
  qed
  moreover have "drawn_thread (cm_range_of doc v t) = ct_id t" for t
    using cm_range_of_shape [of doc v t] by (auto simp: drawn_thread_def)
  then have "mset (map drawn_thread ?rs) = mset (map ct_id (filter unresolved (cv_threads v)))"
    by (simp add: comp_def)
  then have ?once unfolding cm_buildDecorations_def mset_map mset_sort .
  moreover have ?inside
  proof
    fix r assume "r \<in> set (cm_buildDecorations doc v)"
    then obtain t where t: "r = cm_range_of doc v t" "0 \<le> ca_start (ct_anchor t)" using els assms(2) by blast
    then have "0 \<le> cr_from r \<and> cr_from r \<le> cr_to r \<and> cr_to r \<le> int (length doc)"
      by (auto simp: cm_range_of_def Let_def)
    then show "0 \<le> cr_from r \<and> cr_from r \<le> cr_to r \<and> cr_to r \<le> int (length doc)
        \<and> ((\<exists>cl i. cr_dec r = Cm_Mark cl i) \<longleftrightarrow> cr_from r < cr_to r)"
      using cm_range_of_shape [of doc v t] unfolding t(1) by auto
  qed
  ultimately show ?thesis by blast
qed

text \<open>Every open thread that starts inside the document counts on one line of the gutter.\<close>

lemma thread_on_one_line:
  assumes "ct_status t = Open_Thread" "0 \<le> ca_start (ct_anchor t)" "ca_start (ct_anchor t) \<le> int (length doc)"
  shows "\<exists>!n. n < length (doc_lines doc) \<and> starts_in (doc_lines doc ! n) t"
proof -
  let ?p = "nat (ca_start (ct_anchor t))"
  have iff: "starts_in l t \<longleftrightarrow> holds_pos ?p l" for l
    using assms(1,2) by (auto simp: starts_in_def holds_pos_def nat_le_iff le_nat_iff)
  have "?p \<le> length doc" using assms(3) by simp
  then show ?thesis using line_at_doc [of ?p doc] line_unique [of _ doc ?p] unfolding iff by blast
qed

section \<open>Blame\<close>

lemma segment_lines_tiling:
  assumes "tiling 0 segs (length doc)" "s \<in> set segs"
  shows "segment_lines doc s = [line_at (doc_lines doc) (seg_start s) ..< Suc (line_at (doc_lines doc) (seg_end s - 1))]"
  using tiling_inside [OF assms] by (simp add: segment_lines_def Let_def min_def)

lemma segment_lines_sorted:
  assumes "\<forall>s \<in> set segs. seg_start s < seg_end s \<and> seg_end s \<le> length doc" "sorted_wrt (\<lambda>s t. seg_end s \<le> seg_start t) segs"
  shows "sorted (concat (map (segment_lines doc) segs)) \<and> (\<forall>n \<in> set (concat (map (segment_lines doc) segs)). n < length (doc_lines doc))"
  using assms
proof (induction segs)
  case (Cons s segs)
  have lines: "segment_lines doc t = [line_at (doc_lines doc) (seg_start t) ..< Suc (line_at (doc_lines doc) (seg_end t - 1))]"
    if "t \<in> set (s # segs)" for t
    using that Cons.prems(1) by (auto simp: segment_lines_def Let_def min_def)
  have "m \<le> n" if "m \<in> set (segment_lines doc s)" "t \<in> set segs" "n \<in> set (segment_lines doc t)" for m n t
  proof -
    have "m \<le> line_at (doc_lines doc) (seg_end s - 1)" using that(1) lines [of s] by auto
    also have "\<dots> \<le> line_at (doc_lines doc) (seg_start t)" using Cons.prems(2) that(2) by (intro line_at_mono) auto
    also have "\<dots> \<le> n" using that(2,3) lines [of t] by auto
    finally show ?thesis .
  qed
  moreover have "n < length (doc_lines doc)" if "n \<in> set (segment_lines doc s)" for n
    using that lines [of s] line_at_doc(1) [of "seg_end s - 1" doc] Cons.prems(1) by fastforce
  moreover have "sorted (segment_lines doc s)" using lines [of s] by (simp del: upt_Suc)
  ultimately show ?case using Cons by (auto simp: sorted_append)
qed simp

lemma drawn_lines:
  assumes "tiling 0 segs (length doc)"
  shows "buildLineDecorations doc segs =
      concat (map (\<lambda>s. map (\<lambda>n. (fst (doc_lines doc ! n), assignColor (seg_user s))) (segment_lines doc s)) segs)"
    "s \<in> set segs \<Longrightarrow> m \<in> set (segment_lines doc s) \<longleftrightarrow>
      (\<exists>i. seg_start s \<le> i \<and> i < seg_end s \<and> line_at (doc_lines doc) i = m)"
proof -
  show "buildLineDecorations doc segs =
      concat (map (\<lambda>s. map (\<lambda>n. (fst (doc_lines doc ! n), assignColor (seg_user s))) (segment_lines doc s)) segs)"
    by (simp add: buildLineDecorations_def tiling_sort [OF assms])
  assume s: "s \<in> set segs"
  show "m \<in> set (segment_lines doc s) \<longleftrightarrow> (\<exists>i. seg_start s \<le> i \<and> i < seg_end s \<and> line_at (doc_lines doc) i = m)"
    unfolding segment_lines_tiling [OF assms s] set_upt
    using lines_between [of "seg_start s" "seg_end s" doc m] tiling_inside [OF assms s] by auto
qed

lemma drawn_in_order:
  assumes "\<forall>s \<in> set segs. seg_start s < seg_end s \<and> seg_end s \<le> length doc" "tiling 0 segs (length doc)"
  shows "sorted (map fst (buildLineDecorations doc segs))"
proof -
  have "map fst (buildLineDecorations doc segs) = map (\<lambda>n. fst (doc_lines doc ! n)) (concat (map (segment_lines doc) segs))"
    by (simp add: drawn_lines(1) [OF assms(2)] map_concat comp_def)
  then show ?thesis using segment_lines_sorted [OF assms(1) tiling_sorted [OF assms(2)]]
    by (auto intro!: sorted_map_mono mono_onI line_from_mono)
qed

lemma drawn_on_line:
  assumes "tiling 0 segs (length doc)" "n < length (doc_lines doc)"
  shows "(\<exists>s \<in> set segs. n \<in> set (segment_lines doc s) \<and> colour = assignColor (seg_user s))
    \<longleftrightarrow> (\<exists>i < length doc. holds_pos i (doc_lines doc ! n) \<and> colour = assignColor (char_authors segs ! i))" (is "?drawn \<longleftrightarrow> ?wrote")
proof
  assume ?drawn
  then obtain s i where s: "s \<in> set segs" "colour = assignColor (seg_user s)"
    and i: "seg_start s \<le> i" "i < seg_end s" "line_at (doc_lines doc) i = n" using drawn_lines(2) [OF assms(1)] by blast
  then have "i < length doc" using tiling_inside [OF assms(1) s(1)] by simp
  then show ?wrote using s i tiling_author(2) [OF assms(1) _ s(1)] line_at_iff [OF assms(2), of i] by auto
next
  assume ?wrote
  then obtain i where i: "i < length doc" "holds_pos i (doc_lines doc ! n)" "colour = assignColor (char_authors segs ! i)" by blast
  obtain s where s: "s \<in> set segs" "seg_start s \<le> i" "i < seg_end s" using tiling_author(1) [OF assms(1) i(1)] by blast
  then show ?drawn
    using i drawn_lines(2) [OF assms(1)] tiling_author(2) [OF assms(1) i(1) s] line_at_iff [OF assms(2), of i] by auto
qed

lemma gutter_exact:
  assumes "tiling 0 segs hi"
  shows "blameGutter segs p = (if p < hi then Some (char_authors segs ! p, assignColor (char_authors segs ! p)) else None)"
proof (cases "List.find (\<lambda>s. seg_start s \<le> p \<and> p < seg_end s) segs")
  case None
  then have "\<not> p < hi" using tiling_author(1) [OF assms, of p] by (auto simp: find_None_iff)
  then show ?thesis using None by (simp add: blameGutter_def)
next
  case (Some t)
  then have t: "t \<in> set segs" "seg_start t \<le> p" "p < seg_end t" by (auto simp: find_Some_iff)
  then have "p < hi" using tiling_inside [OF assms t(1)] by simp
  then show ?thesis using Some tiling_author(2) [OF assms _ t] by (simp add: blameGutter_def)
qed

text \<open>C19: Blame in the source editor is exact: for segments that tile the document, the line decorations
  come in the order CodeMirror demands, a line is coloured for a user exactly if the user wrote a
  character on it, and the gutter names the author of the first character of a line (nobody on an
  empty last line).\<close>

theorem blame_lines_exact:
  assumes "tiling 0 segs (length doc)" "n < length (doc_lines doc)"
  shows "sorted (map fst (buildLineDecorations doc segs))
    \<and> ((fst (doc_lines doc ! n), colour) \<in> set (buildLineDecorations doc segs)
        \<longleftrightarrow> (\<exists>i < length doc. holds_pos i (doc_lines doc ! n) \<and> colour = assignColor (char_authors segs ! i)))
    \<and> blameGutter segs (fst (doc_lines doc ! n)) =
        (if fst (doc_lines doc ! n) < length doc
         then Some (char_authors segs ! fst (doc_lines doc ! n), assignColor (char_authors segs ! fst (doc_lines doc ! n))) else None)"
proof (intro conjI)
  have inside: "\<forall>s \<in> set segs. seg_start s < seg_end s \<and> seg_end s \<le> length doc"
    using tiling_inside [OF assms(1)] by blast
  then show "sorted (map fst (buildLineDecorations doc segs))" using assms(1) by (rule drawn_in_order)
  have "(fst (doc_lines doc ! n), colour) \<in> set (buildLineDecorations doc segs)
      \<longleftrightarrow> (\<exists>s \<in> set segs. n \<in> set (segment_lines doc s) \<and> colour = assignColor (seg_user s))"
    using segment_lines_sorted [OF inside tiling_sorted [OF assms(1)]] line_from_inj [OF _ _ assms(2)]
    by (fastforce simp: drawn_lines(1) [OF assms(1)])
  then show "(fst (doc_lines doc ! n), colour) \<in> set (buildLineDecorations doc segs)
      \<longleftrightarrow> (\<exists>i < length doc. holds_pos i (doc_lines doc ! n) \<and> colour = assignColor (char_authors segs ! i))"
    using drawn_on_line [OF assms] by simp
qed (rule gutter_exact [OF assms(1)])

text \<open>The segments that hold an offset: one.\<close>

definition holds_offset :: "nat \<Rightarrow> blame_segment \<Rightarrow> bool" where
  "holds_offset i s \<longleftrightarrow> seg_start s \<le> i \<and> i < seg_end s"

lemma tiling_filter:
  assumes "tiling lo segs hi" "lo \<le> i" "i < hi"
  shows "\<exists>s. filter (holds_offset i) segs = [s] \<and> s \<in> set segs \<and> holds_offset i s"
  using assms
proof (induction lo segs hi rule: tiling.induct)
  case (2 lo s segs hi)
  show ?case
  proof (cases "i < seg_end s")
    case True
    then have "filter (holds_offset i) segs = []"
      using tiling_inside [of "seg_end s" segs hi] 2(2) by (force simp: holds_offset_def filter_empty_conv)
    moreover have "holds_offset i s" using True 2(2,3) by (simp add: holds_offset_def)
    ultimately show ?thesis by simp
  next
    case False
    then have "\<not> holds_offset i s" by (simp add: holds_offset_def)
    then show ?thesis using 2 False by auto
  qed
qed simp

definition covers_pos :: "nat \<Rightarrow> blame_decoration \<Rightarrow> bool" where
  "covers_pos p d = (case d of Blame_Inline f u _ \<Rightarrow> f \<le> p \<and> p < u | Override_Inline f u _ _ \<Rightarrow> f \<le> p \<and> p < u)"

lemma snapped_segment:
  assumes "sorted_wrt entry_less m" "(i, p) \<in> set m"
  shows "case snapRange (seg_start s) (seg_end s) m of
      None \<Rightarrow> \<not> holds_offset i s
    | Some (f, u) \<Rightarrow> f < u \<and> (holds_offset i s \<longleftrightarrow> f \<le> p \<and> p < u)"
proof (cases "snapRange (seg_start s) (seg_end s) m")
  case None
  then show ?thesis using snapRange_spec [OF assms(1), of "seg_start s" "seg_end s"] assms(2)
    by (auto simp: shown_in_def holds_offset_def)
next
  case (Some fu)
  obtain f u where fu: "fu = (f, u)" by fastforce
  then have spec: "f < u" "\<forall>e. shown_in m (seg_start s) (seg_end s) e \<longrightarrow> f \<le> snd e \<and> snd e < u"
    "\<exists>e e'. shown_in m (seg_start s) (seg_end s) e \<and> snd e = f \<and> shown_in m (seg_start s) (seg_end s) e' \<and> snd e' + 1 = u"
    using snapRange_spec [OF assms(1), of "seg_start s" "seg_end s"] Some by auto
  from spec(3) obtain a b q where ab: "(a, f) \<in> set m" "seg_start s \<le> a" "(b, q) \<in> set m" "b < seg_end s" "q + 1 = u"
    by (auto simp: shown_in_def)
  have "holds_offset i s" if "f \<le> p" "p < u"
    using ordered_mono [OF assms ab(1)] ordered_mono [OF assms(1) ab(3) assms(2)] that ab(2,4,5)
    by (auto simp: holds_offset_def not_le [symmetric] dest!: leD intro: ccontr)
  then show ?thesis using spec(1,2) assms(2) Some fu by (auto simp: shown_in_def holds_offset_def)
qed

definition override_decoration :: "formatting_override \<Rightarrow> blame_decoration" where
  "override_decoration ov = Override_Inline (fo_from ov) (fo_to ov) (fo_delimiterUser ov) (fo_textUser ov)"

lemma overrides_covering:
  "filter (covers_pos p) (map override_decoration (filter (\<lambda>ov. fo_from ov < fo_to ov) ovs)) =
     map override_decoration (filter (\<lambda>ov. fo_from ov \<le> p \<and> p < fo_to ov) ovs)"
  by (induction ovs) (auto simp: covers_pos_def override_decoration_def)

text \<open>C18: Blame in the rich-text editor is exact: for segments that tile the source, every character of
  the document that the position map maps to a source character lies under exactly one blame
  decoration, which names the author of that source character; on top of it, and only there, lie the
  formatting overrides whose range holds the character, in the order given, each naming the formatter
  and the author of the text.\<close>

theorem blame_inline_exact:
  assumes "nodes_ordered 0 nodes" "tiling 0 segs (length source)" "map_of (buildPositionMap nodes source) i = Some p"
  shows "\<exists>f u. filter (covers_pos p) (blame_decorations nodes segs overrides source) =
    Blame_Inline f u (char_authors segs ! i)
    # map (\<lambda>ov. Override_Inline (fo_from ov) (fo_to ov) (fo_delimiterUser ov) (fo_textUser ov))
        (filter (\<lambda>ov. fo_from ov \<le> p \<and> p < fo_to ov) overrides)"
proof -
  let ?m = "buildPositionMap nodes source"
  let ?draw = "\<lambda>s. case snapRange (seg_start s) (seg_end s) ?m of
      None \<Rightarrow> None | Some (f, u) \<Rightarrow> if f \<ge> u then None else Some (Blame_Inline f u (seg_user s))"
  have m: "sorted_wrt entry_less ?m" using assms(1) by (rule buildPositionMap_ordered)
  have ip: "(i, p) \<in> set ?m" using assms(3) by (rule map_of_SomeD)
  then have "char_ok source nodes (i, p)" unfolding buildPositionMap_def by (rule place_nodes_sound [rotated -1]) auto
  then have i: "i < length source" by (auto simp: char_ok_def)
  have draw: "case ?draw s of None \<Rightarrow> \<not> holds_offset i s | Some d \<Rightarrow> holds_offset i s = covers_pos p d" for s
    using snapped_segment [OF m ip, of s] by (auto simp: covers_pos_def split: option.splits)
  have "filter (covers_pos p) (List.map_filter ?draw ss) = List.map_filter ?draw (filter (holds_offset i) ss)" for ss
  proof (induction ss)
    case (Cons s ss)
    then show ?case using draw [of s] by (cases "?draw s") (auto simp: List.map_filter_simps)
  qed (simp add: List.map_filter_simps)
  moreover obtain s where s: "filter (holds_offset i) segs = [s]" "s \<in> set segs" "holds_offset i s"
    using tiling_filter [OF assms(2) le0 i] by blast
  moreover have "seg_user s = char_authors segs ! i" using tiling_author(2) [OF assms(2) i s(2)] s(3) by (simp add: holds_offset_def)
  ultimately have "\<exists>f u. filter (covers_pos p) (List.map_filter ?draw segs) = [Blame_Inline f u (char_authors segs ! i)]"
    using draw [of s] by (cases "snapRange (seg_start s) (seg_end s) ?m") (auto simp: List.map_filter_simps split: if_splits)
  then show ?thesis using overrides_covering [of p overrides]
    by (auto simp: blame_decorations_def Let_def override_decoration_def [abs_def])
qed

section \<open>Comments in the rich-text editor\<close>

text \<open>A thread on a range is highlighted exactly if a character of the range is shown, from the first to
  the last such character; a thread on a point has a caret as soon as anything is shown.\<close>

lemma comment_highlight_exact:
  assumes "sorted_wrt entry_less m" "ca_start (ct_anchor t) < ca_end (ct_anchor t)"
  shows "case pm_decoration_of m sz v t of
      None \<Rightarrow> \<forall>e. \<not> shown_in m (nat (ca_start (ct_anchor t))) (nat (ca_end (ct_anchor t))) e
    | Some d \<Rightarrow> \<exists>f u. d = Pm_Inline f u (classes ''me-comment-anchor'' v t) (ct_id t)
        \<and> (\<forall>e. shown_in m (nat (ca_start (ct_anchor t))) (nat (ca_end (ct_anchor t))) e \<longrightarrow> f \<le> snd e \<and> snd e < u)"
  using snapRange_spec [OF assms(1), of "nat (ca_start (ct_anchor t))" "nat (ca_end (ct_anchor t))"] assms(2)
  by (cases "snapRange (nat (ca_start (ct_anchor t))) (nat (ca_end (ct_anchor t))) m")
    (auto simp: pm_decoration_of_def pm_range_of_def Let_def split: prod.splits)

lemma single_loop_Some: "pos \<noteq> None \<or> ks \<noteq> [] \<Longrightarrow> \<forall>k \<in> set ks. jm_has m k \<Longrightarrow> single_loop off m ks pos \<noteq> None"
  by (induction off m ks pos rule: single_loop.induct) (auto split: option.splits)

lemma caret_drawn:
  assumes "m \<noteq> []" "ca_end (ct_anchor t) \<le> ca_start (ct_anchor t)"
  shows "\<exists>p. pm_decoration_of m sz v t = Some (Pm_Caret p (classes ''me-comment-caret'' v t) (ct_id t))"
proof -
  have "\<forall>k \<in> set (sortedKeys m). jm_has m k" by (auto simp: sortedKeys_def map_of_eq_None_iff)
  moreover have "sortedKeys m \<noteq> []" using assms(1) by (metis length_0_conv length_map length_sort sortedKeys_def)
  ultimately have "single_loop off m (sortedKeys m) None \<noteq> None" for off by (intro single_loop_Some) auto
  then have "\<exists>p. snapSinglePosition (nat (ca_start (ct_anchor t))) m sz = Some p"
    using assms(1) by (auto simp: snapSinglePosition_def split: option.split)
  then show ?thesis using assms(2) by (auto simp: pm_decoration_of_def pm_range_of_def Let_def)
qed

section \<open>Witnesses\<close>

text \<open>Two threads, on \<open>b\<close> and behind the end, and one that is resolved.\<close>

definition drawn_comment :: "string \<Rightarrow> int \<Rightarrow> int \<Rightarrow> thread_status \<Rightarrow> comment_thread" where
  "drawn_comment i a b st =
     \<lparr>ct_id = js i, ct_document_id = js ''d'', ct_anchor = \<lparr>ca_start = a, ca_end = b, ca_quoted_text = js ''b''\<rparr>,
      ct_status = st, ct_created_at = [], ct_resolved_at = None, ct_resolved_by = None, ct_comments = [],
      ct_reactions = None, ct_suggestion = None\<rparr>"

definition drawn_view :: comments_view where
  "drawn_view = \<lparr>cv_threads = [drawn_comment ''t'' 9 9 Open_Thread, drawn_comment ''s'' 1 2 Open_Thread, drawn_comment ''r'' 0 1 Resolved_Thread],
     cv_overlays = [], cv_activeThreadId = Some (js ''s''), cv_pending = None, cv_ytext = Some 0\<rparr>"

theorem comment_marks_ordered_witness:
  "mset (map drawn_thread (cm_buildDecorations (js ''ab'') drawn_view)) = {#js ''t'', js ''s''#}
   \<and> cm_buildDecorations (js ''ab'') drawn_view =
       [\<lparr>cr_from = 1, cr_to = 2, cr_sort = 0, cr_dec = Cm_Mark [''cm-comment-anchor'', ''cm-comment-anchor--active''] (js ''s'')\<rparr>,
        \<lparr>cr_from = 2, cr_to = 2, cr_sort = 1, cr_dec = Cm_Caret (js ''t'') False\<rparr>]"
proof -
  have "\<forall>t \<in> set (cv_threads drawn_view). 0 \<le> ca_start (ct_anchor t)" by (simp add: drawn_view_def drawn_comment_def)
  from comment_marks_ordered [OF _ this, of 0 1 "js ''ab''"]
  have "mset (map drawn_thread (cm_buildDecorations (js ''ab'') drawn_view)) = {#js ''t'', js ''s''#}"
    by (simp add: drawn_view_def drawn_comment_def unresolved_def)
  moreover have "cm_buildDecorations (js ''ab'') drawn_view =
       [\<lparr>cr_from = 1, cr_to = 2, cr_sort = 0, cr_dec = Cm_Mark [''cm-comment-anchor'', ''cm-comment-anchor--active''] (js ''s'')\<rparr>,
        \<lparr>cr_from = 2, cr_to = 2, cr_sort = 1, cr_dec = Cm_Caret (js ''t'') False\<rparr>]"
    by code_simp
  ultimately show ?thesis by simp
qed

text \<open>The text \<open>ab\<close> newline \<open>c\<close>, the first line begun by one user and the rest by another.\<close>

definition drawn_segments :: "blame_segment list" where
  "drawn_segments = [\<lparr>seg_start = 0, seg_end = 1, seg_user = js ''ann''\<rparr>, \<lparr>seg_start = 1, seg_end = 4, seg_user = js ''bob''\<rparr>]"

definition drawn_text :: jsstring where
  "drawn_text = [97, 98, 10, 99]"

lemma drawn_tiling: "tiling 0 drawn_segments (length drawn_text)"
  by code_simp

theorem blame_lines_exact_witness:
  "(0, assignColor (js ''bob'')) \<in> set (buildLineDecorations drawn_text drawn_segments)
   \<and> blameGutter drawn_segments 0 = Some (js ''ann'', assignColor (js ''ann''))"
proof -
  have l: "doc_lines drawn_text = [(0, 2), (3, 4)]" "length drawn_text = 4" "char_authors drawn_segments ! 1 = js ''bob''"
    "char_authors drawn_segments ! 0 = js ''ann''" by code_simp+
  have "\<exists>i < 4. holds_pos i (0, 2) \<and> assignColor (js ''bob'') = assignColor (char_authors drawn_segments ! i)"
    using l(3) by (intro exI [of _ 1]) (simp add: holds_pos_def)
  then show ?thesis using blame_lines_exact [OF drawn_tiling, of 0 "assignColor (js ''bob'')"] l by auto
qed

definition drawn_nodes :: "text_node list" where
  "drawn_nodes = [\<lparr>tn_pos = 1, tn_text = [97, 98], tn_marks = []\<rparr>, \<lparr>tn_pos = 5, tn_text = [99], tn_marks = []\<rparr>]"

definition drawn_override :: formatting_override where
  "drawn_override = \<lparr>fo_from = 5, fo_to = 6, fo_delimiterUser = js ''ann'', fo_textUser = js ''bob''\<rparr>"

theorem blame_inline_exact_witness:
  "\<exists>f u. filter (covers_pos 5) (blame_decorations drawn_nodes drawn_segments [drawn_override] drawn_text) =
     [Blame_Inline f u (js ''bob''), Override_Inline 5 6 (js ''ann'') (js ''bob'')]"
proof -
  have "nodes_ordered 0 drawn_nodes" "map_of (buildPositionMap drawn_nodes drawn_text) 3 = Some 5"
    "char_authors drawn_segments ! 3 = js ''bob''" by code_simp+
  then show ?thesis using blame_inline_exact [OF _ drawn_tiling, of drawn_nodes 3 5 "[drawn_override]"]
    by (simp add: drawn_override_def)
qed

text \<open>The highlights of the rich-text editor do not follow edits: they are drawn from the offsets stored
  with the threads. A comment on \<open>b\<close> of \<open>ab\<close> highlights \<open>a\<close> after an insertion before it.\<close>

lemma highlight_drifts:
  "snd (comment_plugin_apply [\<lparr>tn_pos = 1, tn_text = [97, 98], tn_marks = []\<rparr>] 4 [97, 98] True (Some drawn_view) (drawn_view, [])) =
     [Pm_Caret 4 [''me-comment-caret''] (js ''t''), Pm_Inline 2 3 [''me-comment-anchor'', ''me-comment-anchor--active''] (js ''s'')]
   \<and> snd (comment_plugin_apply [\<lparr>tn_pos = 1, tn_text = [120, 97, 98], tn_marks = []\<rparr>] 5 [120, 97, 98] True None (drawn_view, [])) =
     [Pm_Caret 5 [''me-comment-caret''] (js ''t''), Pm_Inline 2 3 [''me-comment-anchor'', ''me-comment-anchor--active''] (js ''s'')]"
  by code_simp

end
