(* ===== verification/Comment_Panel.thy ===== *)
theory Comment_Panel
  imports Feature_Mode
begin

text \<open>
  The thread popover and the thread lists: \<open>frontend/src/toolbar/comment-panel.ts\<close> and
  \<open>comment-list-panel.ts\<close>. The panel keeps a reply draft and the mention candidates; the element shows
  it while a thread is active or a draft anchor is set and removes it otherwise. Shown: the rendering
  of a comment loses nothing and marks exactly the mentions the engine extracts, a candidate that is
  picked becomes a mention, and what the panel sends is trimmed, not empty and addressed to the
  thread it shows.
\<close>

section \<open>Rendering\<close>

datatype piece = Text_Piece jsstring | Mention_Piece mention

definition text_piece :: "jsstring \<Rightarrow> piece list" where
  "text_piece t = (if t = [] then [] else [Text_Piece t])"

text \<open>The loop over the matches of \<open>/@\[([^\]]+)\]\(([^)]+)\)/g\<close>; \<open>t\<close> is the text since the last match.\<close>

function render_loop :: "jsstring \<Rightarrow> jsstring \<Rightarrow> piece list" where
  "render_loop t s =
     (case s of
        [] \<Rightarrow> text_piece t
      | c # cs \<Rightarrow>
          (case mention_at s of
             Some (m, rest) \<Rightarrow> text_piece t @ Mention_Piece m # render_loop [] rest
           | None \<Rightarrow> render_loop (t @ [c]) cs))"
  by pat_completeness auto
termination
  by (relation "measure (\<lambda>(t, s). length s)") (auto dest: mention_at_shorter)

declare render_loop.simps [simp del]

definition renderCommentContent :: "jsstring \<Rightarrow> piece list" where
  "renderCommentContent content = render_loop [] content"

definition quoteLabel :: "comment_thread \<Rightarrow> jsstring" where
  "quoteLabel t =
     (if ca_quoted_text (ct_anchor t) \<noteq> [] then 34 # ca_quoted_text (ct_anchor t) @ [34]
      else case ct_suggestion t of
             None \<Rightarrow> js ''(orphaned)''
           | Some s \<Rightarrow>
               (let after = js_trim (sv_after_text (sg_human_readable s))
                in if after \<noteq> []
                   then js ''+ '' @ 34 # (if length after > 48 then take 47 after @ [0x2026] else after) @ [34]
                   else js ''(orphaned)''))"

text \<open>\<open>Date.parse\<close> (\<open>None\<close>: \<open>NaN\<close>), the current time and \<open>toLocaleDateString\<close> are parameters; \<open>Math.round\<close>
  rounds half up.\<close>

record clock =
  ck_now :: int
  ck_parse :: "jsstring \<Rightarrow> int option"
  ck_localeDate :: "int \<Rightarrow> jsstring"

definition round_div :: "int \<Rightarrow> int \<Rightarrow> int" where
  "round_div a b = (2 * a + b) div (2 * b)"

definition formatRelative :: "clock \<Rightarrow> jsstring \<Rightarrow> jsstring" where
  "formatRelative K stamp =
     (case ck_parse K stamp of
        None \<Rightarrow> stamp
      | Some t \<Rightarrow>
          (let mins = round_div (ck_now K - t) 60000; hrs = round_div mins 60; days = round_div hrs 24
           in if mins < 1 then js ''just now''
              else if mins < 60 then js_of_int mins @ js ''m ago''
              else if hrs < 24 then js_of_int hrs @ js ''h ago''
              else if days < 30 then js_of_int days @ js ''d ago''
              else ck_localeDate K t))"

text \<open>A row of the list of threads: label, author, replies, time. \<open>''\<close> is shown for a missing time.\<close>

record list_row =
  lr_thread :: jsstring
  lr_quote :: jsstring
  lr_author :: jsstring
  lr_replies :: nat
  lr_when :: jsstring

definition renderItem :: "clock \<Rightarrow> comment_thread \<Rightarrow> list_row" where
  "renderItem K t =
     (let first = (case ct_comments t of [] \<Rightarrow> None | c # _ \<Rightarrow> Some c);
          author = (case first of
                      Some c \<Rightarrow> cm_author_name c
                    | None \<Rightarrow> (case ct_suggestion t of Some s \<Rightarrow> sg_author_name s | None \<Rightarrow> js ''Unknown''));
          when = (case ct_resolved_at t of
                    Some w \<Rightarrow> w
                  | None \<Rightarrow> (case first of
                               Some c \<Rightarrow> cm_created_at c
                             | None \<Rightarrow> (case ct_suggestion t of
                                          Some s \<Rightarrow> (case sg_decided_at s of Some w \<Rightarrow> w | None \<Rightarrow> [])
                                        | None \<Rightarrow> [])))
      in \<lparr>lr_thread = ct_id t, lr_quote = quoteLabel t, lr_author = author,
          lr_replies = length (ct_comments t) - 1, lr_when = (if when = [] then [] else formatRelative K when)\<rparr>)"

section \<open>Mentions in the draft\<close>

definition word_char :: "code_unit \<Rightarrow> bool" where
  "word_char c \<longleftrightarrow> (48 \<le> c \<and> c \<le> 57) \<or> (65 \<le> c \<and> c \<le> 90) \<or> (97 \<le> c \<and> c \<le> 122) \<or> c = 95 \<or> c = 45"

text \<open>The match of \<open>/@([\w-]*)$/\<close>: what stands before it and its group.\<close>

definition mention_suffix :: "jsstring \<Rightarrow> (jsstring \<times> jsstring) option" where
  "mention_suffix s =
     (let query = rev (takeWhile word_char (rev s))
      in case dropWhile word_char (rev s) of
           [] \<Rightarrow> None
         | c # before \<Rightarrow> if c = 64 then Some (rev before, query) else None)"

text \<open>The replacement string of \<open>replace\<close>: \<open>$$\<close>, \<open>$&\<close>, the parts before and after the match, and the group.\<close>

fun expand :: "jsstring \<Rightarrow> jsstring \<Rightarrow> jsstring \<Rightarrow> jsstring" where
  "expand before query (c # d # cs) =
     (if c \<noteq> 36 then c # expand before query (d # cs)
      else if d = 36 then 36 # expand before query cs
      else if d = 38 then 64 # query @ expand before query cs
      else if d = 96 then before @ expand before query cs
      else if d = 39 then expand before query cs
      else if d = 49 then query @ expand before query cs
      else if d = 48 \<and> cs \<noteq> [] \<and> hd cs = 49 then query @ expand before query (tl cs)
      else c # expand before query (d # cs))"
| "expand before query cs = cs"

definition mention_text :: "mention_candidate \<Rightarrow> jsstring" where
  "mention_text m = [64, 91] @ mc_display_name m @ [93, 40] @ mc_user_id m @ [41, 32]"

definition replace_mention :: "mention_candidate \<Rightarrow> jsstring \<Rightarrow> jsstring" where
  "replace_mention m draft =
     (case mention_suffix draft of
        None \<Rightarrow> draft
      | Some (before, query) \<Rightarrow> before @ expand before query (mention_text m))"

section \<open>The panel\<close>

datatype panel_event =
    Draft_Submitted jsstring
  | Draft_Cancelled
  | Reply_Sent jsstring jsstring
  | Thread_Resolve jsstring
  | Thread_Reopen jsstring
  | Thread_Delete jsstring
  | Suggestion_Accept jsstring
  | Suggestion_Reject jsstring
  | Suggestion_Dismiss jsstring
  | Panel_Close
  | Mention_Search jsstring

text \<open>\<open>pn_sent\<close> logs the dispatched events.\<close>

record comment_panel =
  pn_thread :: "comment_thread option"
  pn_draftAnchor :: "jsstring option"
  pn_capabilities :: "comments_capabilities option"
  pn_orphaned :: bool
  pn_replyDraft :: jsstring
  pn_mentionOptions :: "mention_candidate list"
  pn_mentionActive :: bool
  pn_sent :: "panel_event list"

definition new_panel :: comment_panel where
  "new_panel = \<lparr>pn_thread = None, pn_draftAnchor = None, pn_capabilities = None, pn_orphaned = False,
     pn_replyDraft = [], pn_mentionOptions = [], pn_mentionActive = False, pn_sent = []\<rparr>"

definition pn_dispatch :: "panel_event \<Rightarrow> comment_panel \<Rightarrow> comment_panel" where
  "pn_dispatch e p = p\<lparr>pn_sent := pn_sent p @ [e]\<rparr>"

definition onReplyInput :: "jsstring \<Rightarrow> nat \<Rightarrow> comment_panel \<Rightarrow> comment_panel" where
  "onReplyInput val caret p =
     (let p1 = p\<lparr>pn_replyDraft := val\<rparr>
      in case mention_suffix (take caret val) of
           Some (_, query) \<Rightarrow> pn_dispatch (Mention_Search query) (p1\<lparr>pn_mentionActive := True\<rparr>)
         | None \<Rightarrow> p1\<lparr>pn_mentionActive := False, pn_mentionOptions := []\<rparr>)"

text \<open>The answer to a search.\<close>

definition mention_answer :: "mention_candidate list \<Rightarrow> comment_panel \<Rightarrow> comment_panel" where
  "mention_answer results p = p\<lparr>pn_mentionOptions := results\<rparr>"

definition insertMention :: "mention_candidate \<Rightarrow> comment_panel \<Rightarrow> comment_panel" where
  "insertMention m p =
     p\<lparr>pn_replyDraft := replace_mention m (pn_replyDraft p), pn_mentionActive := False, pn_mentionOptions := []\<rparr>"

definition pn_send :: "(jsstring \<Rightarrow> panel_event) \<Rightarrow> comment_panel \<Rightarrow> comment_panel" where
  "pn_send ev p =
     (let content = js_trim (pn_replyDraft p)
      in if content = [] then p
         else (pn_dispatch (ev content) p)\<lparr>pn_replyDraft := [], pn_mentionActive := False\<rparr>)"

definition submitDraft :: "comment_panel \<Rightarrow> comment_panel" where
  "submitDraft = pn_send Draft_Submitted"

definition sendReply :: "jsstring \<Rightarrow> comment_panel \<Rightarrow> comment_panel" where
  "sendReply threadId = pn_send (Reply_Sent threadId)"

definition clearReply :: "comment_panel \<Rightarrow> comment_panel" where
  "clearReply p = p\<lparr>pn_replyDraft := [], pn_mentionActive := False\<rparr>"

definition confirmReopen :: "bool \<Rightarrow> jsstring \<Rightarrow> comment_panel \<Rightarrow> comment_panel" where
  "confirmReopen ok threadId p = (if ok then pn_dispatch (Thread_Reopen threadId) p else p)"

section \<open>Controls\<close>

datatype control =
    Resolve_Button | Delete_Button | Close_Button | Reopen_Link | Accept_Button | Reject_Button | Dismiss_Button
  | Reply_Box | Draft_Box | Candidate mention_candidate

definition capability :: "(comments_capabilities \<Rightarrow> bool) \<Rightarrow> comment_panel \<Rightarrow> bool" where
  "capability f p = (case pn_capabilities p of None \<Rightarrow> False | Some c \<Rightarrow> f c)"

text \<open>The controls of \<open>_renderSuggestion\<close> that can be clicked.\<close>

definition suggestion_controls :: "comment_panel \<Rightarrow> suggestion \<Rightarrow> control list" where
  "suggestion_controls p s =
     (let isPending = sg_status s = Pending; isOrphaned = isPending \<and> pn_orphaned p
      in if isPending \<and> capability cc_suggestions p
         then (if isOrphaned then [Dismiss_Button] else [Accept_Button, Reject_Button]) else [])"

definition mention_controls :: "comment_panel \<Rightarrow> control list" where
  "mention_controls p = (if pn_mentionActive p then map Candidate (pn_mentionOptions p) else [])"

definition controls :: "comment_panel \<Rightarrow> control list" where
  "controls p =
     (case pn_thread p of
        None \<Rightarrow> (case pn_draftAnchor p of None \<Rightarrow> [] | Some _ \<Rightarrow> Close_Button # Draft_Box # mention_controls p)
      | Some t \<Rightarrow>
          (let isResolved = ct_status t = Resolved_Thread
           in (if isResolved then [] else [Resolve_Button])
              @ (if capability cc_comment_delete p then [Delete_Button] else []) @ [Close_Button]
              @ (case ct_suggestion t of None \<Rightarrow> [] | Some s \<Rightarrow> suggestion_controls p s)
              @ (if isResolved then [Reopen_Link] else Reply_Box # mention_controls p)))"

text \<open>What a click does; \<open>Reply_Box\<close> and \<open>Draft_Box\<close> stand for their Send button. \<open>ok\<close> answers the
  confirmation.\<close>

definition shown_id :: "comment_panel \<Rightarrow> jsstring" where
  "shown_id p = (case pn_thread p of None \<Rightarrow> [] | Some t \<Rightarrow> ct_id t)"

definition click :: "bool \<Rightarrow> control \<Rightarrow> comment_panel \<Rightarrow> comment_panel" where
  "click ok k p =
     (case k of
        Resolve_Button \<Rightarrow> pn_dispatch (Thread_Resolve (shown_id p)) p
      | Delete_Button \<Rightarrow> pn_dispatch (Thread_Delete (shown_id p)) p
      | Close_Button \<Rightarrow> pn_dispatch (if pn_thread p = None then Draft_Cancelled else Panel_Close) p
      | Reopen_Link \<Rightarrow> confirmReopen ok (shown_id p) p
      | Accept_Button \<Rightarrow> pn_dispatch (Suggestion_Accept (shown_id p)) p
      | Reject_Button \<Rightarrow> pn_dispatch (Suggestion_Reject (shown_id p)) p
      | Dismiss_Button \<Rightarrow> pn_dispatch (Suggestion_Dismiss (shown_id p)) p
      | Reply_Box \<Rightarrow> sendReply (shown_id p) p
      | Draft_Box \<Rightarrow> submitDraft p
      | Candidate m \<Rightarrow> insertMention m p)"

text \<open>The element passes the properties; without a thread and a draft it removes the panel, so that the
  next one starts anew (the log of events goes on).\<close>

definition show_panel :: "comment_thread option \<Rightarrow> jsstring option \<Rightarrow> comments_capabilities option \<Rightarrow> bool \<Rightarrow> comment_panel \<Rightarrow> comment_panel" where
  "show_panel t d c orphan p =
     (if t = None \<and> d = None then new_panel\<lparr>pn_sent := pn_sent p\<rparr>
      else p\<lparr>pn_thread := t, pn_draftAnchor := d, pn_capabilities := c, pn_orphaned := orphan\<rparr>)"

datatype panel_input =
    Show "comment_thread option" "jsstring option" "comments_capabilities option" bool
  | Input jsstring nat
  | Answer "mention_candidate list"
  | Clear_Reply
  | Click bool control

inductive panel_step :: "comment_panel \<Rightarrow> panel_input \<Rightarrow> comment_panel \<Rightarrow> bool" where
  shown: "panel_step p (Show t d c orphan) (show_panel t d c orphan p)"
| typed: "Reply_Box \<in> set (controls p) \<or> Draft_Box \<in> set (controls p) \<Longrightarrow> panel_step p (Input s caret) (onReplyInput s caret p)"
| answered: "panel_step p (Answer ms) (mention_answer ms p)"
| cleared: "Reply_Box \<in> set (controls p) \<Longrightarrow> panel_step p Clear_Reply (clearReply p)"
| clicked: "k \<in> set (controls p) \<Longrightarrow> panel_step p (Click ok k) (click ok k p)"

inductive_cases panel_stepE: "panel_step p i p'"

section \<open>Rendering loses nothing\<close>

definition piece_source :: "piece \<Rightarrow> jsstring" where
  "piece_source x = (case x of Text_Piece t \<Rightarrow> t | Mention_Piece m \<Rightarrow> mention_token m)"

definition piece_mentions :: "piece list \<Rightarrow> mention list" where
  "piece_mentions xs = concat (map (\<lambda>x. case x of Text_Piece _ \<Rightarrow> [] | Mention_Piece m \<Rightarrow> [m]) xs)"

text \<open>No empty text, and no two texts side by side.\<close>

fun pieces_merged :: "piece list \<Rightarrow> bool" where
  "pieces_merged [] = True"
| "pieces_merged (Mention_Piece m # xs) = pieces_merged xs"
| "pieces_merged (Text_Piece t # xs) =
     (t \<noteq> [] \<and> (case xs of Text_Piece _ # _ \<Rightarrow> False | _ \<Rightarrow> True) \<and> pieces_merged xs)"

lemma mention_at_source: "mention_at s = Some (m, rest) \<Longrightarrow> s = mention_token m @ rest"
proof -
  assume "mention_at s = Some (m, rest)"
  then obtain r c d r' e where s: "s = 64 # 91 # r" "dropWhile (\<lambda>c. c \<noteq> 93) r = c # d # r'" "d = 40"
    "dropWhile (\<lambda>c. c \<noteq> 41) r' = e # rest"
    "m = \<lparr>mn_user_id = takeWhile (\<lambda>c. c \<noteq> 41) r', mn_display_name = takeWhile (\<lambda>c. c \<noteq> 93) r\<rparr>"
    by (auto simp: mention_at_def Let_def split: list.splits if_splits)
  have "c = 93" "e = 41" using s(2,4) by (metis (mono_tags, lifting) dropWhile_eq_Cons_conv)+
  moreover have "r = takeWhile (\<lambda>c. c \<noteq> 93) r @ c # d # r'" "r' = takeWhile (\<lambda>c. c \<noteq> 41) r' @ e # rest"
    by (metis s(2) takeWhile_dropWhile_id, metis s(4) takeWhile_dropWhile_id)
  ultimately show ?thesis using s by (simp add: mention_token_def)
qed

lemma render_loop_spec:
  "concat (map piece_source (render_loop t s)) = t @ s \<and> piece_mentions (render_loop t s) = extractMentions s
   \<and> pieces_merged (render_loop t s)"
proof (induction t s rule: render_loop.induct)
  case (1 t s)
  show ?case
  proof (cases s)
    case Nil
    then show ?thesis
      by (auto simp: render_loop.simps [of t "[]"] text_piece_def piece_source_def piece_mentions_def)
  next
    case (Cons c cs)
    show ?thesis
    proof (cases "mention_at s")
      case None
      then have "render_loop t s = render_loop (t @ [c]) cs" "extractMentions s = extractMentions cs"
        using Cons by (simp_all add: render_loop.simps [of t "c # cs"] extractMentions.simps [of "c # cs"])
      then show ?thesis using 1(1) [OF Cons None] Cons by simp
    next
      case (Some r)
      obtain m rest where r: "r = (m, rest)" by fastforce
      have "render_loop t s = text_piece t @ Mention_Piece m # render_loop [] rest" "extractMentions s = m # extractMentions rest"
        using Cons Some r by (simp_all add: render_loop.simps [of t "c # cs"] extractMentions.simps [of "c # cs"])
      moreover have "s = mention_token m @ rest" using Some r by (intro mention_at_source) simp
      ultimately show ?thesis
        using 1(2) [OF Cons Some r [symmetric]] by (auto simp: text_piece_def piece_source_def piece_mentions_def)
    qed
  qed
qed

text \<open>C21: The rendering of a comment is faithful: put together, the pieces are the content, no text is
  empty or split, and the highlighted mentions are exactly those that the comment engine extracts and
  stores, in order, for any content.\<close>

theorem comment_rendering_faithful:
  "concat (map piece_source (renderCommentContent content)) = content
   \<and> piece_mentions (renderCommentContent content) = extractMentions content
   \<and> pieces_merged (renderCommentContent content)"
  using render_loop_spec [of "[]" content] by (simp add: renderCommentContent_def)

section \<open>Picking a candidate\<close>

lemma space_not_at: "js_space c \<Longrightarrow> c \<noteq> 64"
  by (auto simp: js_space_def)

lemma extractMentions_lead: "extractMentions (dropWhile js_space s) = extractMentions s"
  by (induction s) (auto simp: extractMentions_plain space_not_at)

lemma expand_plain: "36 \<notin> set t \<Longrightarrow> expand before query t = t"
  by (induction before query t rule: expand.induct) auto

lemma mention_suffix_split:
  assumes "\<forall>c \<in> set query. word_char c"
  shows "mention_suffix (before @ 64 # query) = Some (before, query)"
proof -
  have "\<not> word_char 64" by (simp add: word_char_def)
  then have "takeWhile word_char (rev query @ 64 # rev before) = rev query"
    "dropWhile word_char (rev query @ 64 # rev before) = 64 # rev before"
    using assms by (subst takeWhile_append2 dropWhile_append2; simp)+
  then show ?thesis by (simp add: mention_suffix_def)
qed

definition candidate_mention :: "mention_candidate \<Rightarrow> mention" where
  "candidate_mention m = \<lparr>mn_user_id = mc_user_id m, mn_display_name = mc_display_name m\<rparr>"

definition typed :: "(jsstring \<times> mention) list \<Rightarrow> jsstring" where
  "typed pre = concat (map (\<lambda>(t, m). t @ mention_token m) pre)"

lemma extractMentions_typed:
  "\<forall>(t, m) \<in> set pre. 64 \<notin> set t \<and> token_safe m \<Longrightarrow> extractMentions (typed pre @ s) = map snd pre @ extractMentions s"
  by (induction pre) (auto simp: typed_def extractMentions_text extractMentions_token)

lemma trim_token:
  "js_trim (s @ mention_token m @ [32]) = dropWhile js_space (s @ mention_token m)"
proof -
  have sp: "js_space 32" "\<not> js_space 41" "\<not> js_space 64" by (simp_all add: js_space_def)
  have ends: "\<exists>u. dropWhile js_space (s @ mention_token m @ x) = u @ [41] @ x \<and> dropWhile js_space (s @ mention_token m) = u @ [41]" for x
  proof (cases "\<forall>c \<in> set s. js_space c")
    case True
    then show ?thesis using sp by (auto simp: mention_token_def dropWhile_append2)
  next
    case False
    then obtain u where "dropWhile js_space (s @ y) = u @ y" for y by (metis dropWhile_append1)
    then show ?thesis by (auto simp: mention_token_def)
  qed
  from ends [of "[32]"] obtain u where u: "dropWhile js_space (s @ mention_token m @ [32]) = u @ [41] @ [32]"
    "dropWhile js_space (s @ mention_token m) = u @ [41]" by blast
  show ?thesis unfolding js_trim_def u using sp by simp
qed

text \<open>A picked candidate becomes a mention: when the draft ends in @ and a word, after earlier
  mentions and other text, picking a candidate replaces exactly that word by the token of the
  candidate and a space, closes the list, and the content that is sent next mentions the candidate
  after the earlier ones, provided the names can be written in a token and hold no dollar sign.\<close>

theorem picked_mention_sent:
  assumes "pn_replyDraft p = typed pre @ t @ 64 # query" "\<forall>c \<in> set query. word_char c"
    and "\<forall>(t, m) \<in> set pre. 64 \<notin> set t \<and> token_safe m" "64 \<notin> set t"
    and "token_safe (candidate_mention m)" "36 \<notin> set (mc_display_name m)" "36 \<notin> set (mc_user_id m)"
  shows "\<exists>content. pn_replyDraft (insertMention m p) = typed pre @ t @ mention_token (candidate_mention m) @ [32]
    \<and> \<not> pn_mentionActive (insertMention m p)
    \<and> pn_sent (sendReply threadId (insertMention m p)) = pn_sent p @ [Reply_Sent threadId content]
    \<and> extractMentions content = map snd pre @ [candidate_mention m]"
proof -
  let ?c = "typed pre @ t @ mention_token (candidate_mention m)"
  have tok: "mention_text m = mention_token (candidate_mention m) @ [32]"
    by (simp add: mention_text_def mention_token_def candidate_mention_def)
  have "36 \<notin> set (mention_text m)" using assms(6,7) by (simp add: mention_text_def)
  then have d: "pn_replyDraft (insertMention m p) = ?c @ [32]"
    using mention_suffix_split [OF assms(2), of "typed pre @ t"] assms(1)
    by (simp add: insertMention_def replace_mention_def expand_plain tok)
  have trim: "js_trim (pn_replyDraft (insertMention m p)) = dropWhile js_space ?c"
    using trim_token [of "typed pre @ t" "candidate_mention m"] unfolding d by simp
  have m: "extractMentions (dropWhile js_space ?c) = map snd pre @ [candidate_mention m]"
    using extractMentions_token [OF assms(5), of "[]"] assms(3,4)
    by (simp add: extractMentions_lead extractMentions_typed extractMentions_text)
  then have "dropWhile js_space ?c \<noteq> []" by force
  then show ?thesis using d trim m
    by (intro exI [of _ "dropWhile js_space ?c"]) (simp add: sendReply_def pn_send_def pn_dispatch_def Let_def insertMention_def)
qed

section \<open>What the panel sends\<close>

text \<open>An event that fits what the panel shows.\<close>

definition shows_pending :: "comment_panel \<Rightarrow> bool \<Rightarrow> bool" where
  "shows_pending p orphan \<longleftrightarrow> pn_orphaned p = orphan \<and> capability cc_suggestions p
     \<and> (\<exists>t s. pn_thread p = Some t \<and> ct_suggestion t = Some s \<and> sg_status s = Pending)"

definition justified :: "comment_panel \<Rightarrow> panel_event \<Rightarrow> bool" where
  "justified p e =
     (case e of
        Draft_Submitted content \<Rightarrow> pn_thread p = None \<and> pn_draftAnchor p \<noteq> None \<and> content = js_trim (pn_replyDraft p) \<and> content \<noteq> []
      | Reply_Sent i content \<Rightarrow> (\<exists>t. pn_thread p = Some t \<and> ct_status t = Open_Thread \<and> i = ct_id t)
          \<and> content = js_trim (pn_replyDraft p) \<and> content \<noteq> []
      | Thread_Resolve i \<Rightarrow> (\<exists>t. pn_thread p = Some t \<and> ct_status t = Open_Thread \<and> i = ct_id t)
      | Thread_Reopen i \<Rightarrow> (\<exists>t. pn_thread p = Some t \<and> ct_status t = Resolved_Thread \<and> i = ct_id t)
      | Thread_Delete i \<Rightarrow> capability cc_comment_delete p \<and> i = shown_id p
      | Suggestion_Accept i \<Rightarrow> shows_pending p False \<and> i = shown_id p
      | Suggestion_Reject i \<Rightarrow> shows_pending p False \<and> i = shown_id p
      | Suggestion_Dismiss i \<Rightarrow> shows_pending p True \<and> i = shown_id p
      | Draft_Cancelled \<Rightarrow> pn_thread p = None
      | Panel_Close \<Rightarrow> pn_thread p \<noteq> None
      | Mention_Search _ \<Rightarrow> True)"

lemma controls_suggestion:
  assumes "k \<in> set (controls p)"
  shows "k = Accept_Button \<or> k = Reject_Button \<Longrightarrow> shows_pending p False"
    "k = Dismiss_Button \<Longrightarrow> shows_pending p True"
  using assms
  by (auto simp: controls_def mention_controls_def suggestion_controls_def shows_pending_def Let_def
      dest!: sym [of "Some _"] split: option.splits if_splits)

lemma controls_thread:
  assumes "k \<in> set (controls p)"
  shows "k = Resolve_Button \<or> k = Reply_Box \<Longrightarrow> \<exists>t. pn_thread p = Some t \<and> ct_status t = Open_Thread"
    "k = Reopen_Link \<Longrightarrow> \<exists>t. pn_thread p = Some t \<and> ct_status t = Resolved_Thread"
    "k = Draft_Box \<Longrightarrow> pn_thread p = None \<and> pn_draftAnchor p \<noteq> None"
    "k = Delete_Button \<Longrightarrow> capability cc_comment_delete p"
  using assms
  by (auto simp: controls_def mention_controls_def suggestion_controls_def Let_def
      intro: thread_status.exhaust dest!: sym [of "Some _"] split: option.splits if_splits)

lemma pn_send_events:
  "\<exists>es. pn_sent (pn_send ev p) = pn_sent p @ es \<and>
     (\<forall>e \<in> set es. e = ev (js_trim (pn_replyDraft p)) \<and> js_trim (pn_replyDraft p) \<noteq> [])"
  by (auto simp: pn_send_def pn_dispatch_def Let_def)

lemma click_events:
  assumes "k \<in> set (controls p)"
  shows "\<exists>es. pn_sent (click ok k p) = pn_sent p @ es \<and> (\<forall>e \<in> set es. justified p e)"
proof (cases k)
  case Reply_Box
  then obtain t where "pn_thread p = Some t" "ct_status t = Open_Thread" using controls_thread(1) [OF assms] by blast
  then show ?thesis using Reply_Box pn_send_events [of "Reply_Sent (shown_id p)" p]
    by (force simp: click_def sendReply_def justified_def shown_id_def)
next
  case Draft_Box
  then show ?thesis using controls_thread(3) [OF assms] pn_send_events [of Draft_Submitted p]
    by (force simp: click_def submitDraft_def justified_def)
next
  case Resolve_Button
  then show ?thesis using controls_thread(1) [OF assms] by (auto simp: click_def pn_dispatch_def justified_def shown_id_def)
next
  case Reopen_Link
  then show ?thesis using controls_thread(2) [OF assms]
    by (auto simp: click_def confirmReopen_def pn_dispatch_def justified_def shown_id_def)
next
  case Delete_Button
  then show ?thesis using controls_thread(4) [OF assms] by (simp add: click_def pn_dispatch_def justified_def)
next
  case Close_Button
  then show ?thesis by (simp add: click_def pn_dispatch_def justified_def)
next
  case Accept_Button
  then show ?thesis using controls_suggestion(1) [OF assms] by (simp add: click_def pn_dispatch_def justified_def)
next
  case Reject_Button
  then show ?thesis using controls_suggestion(1) [OF assms] by (simp add: click_def pn_dispatch_def justified_def)
next
  case Dismiss_Button
  then show ?thesis using controls_suggestion(2) [OF assms] by (simp add: click_def pn_dispatch_def justified_def)
next
  case (Candidate m)
  then show ?thesis by (simp add: click_def insertMention_def)
qed

text \<open>C22: The panel sends only what fits what it shows: whatever happens, every event it dispatches
  is justified by its state: a reply or a draft is trimmed and not empty, a reply goes to the thread
  shown, which is open, only open threads are resolved and resolved ones reopened, deletion needs the
  capability, and a suggestion is accepted or rejected only while it is pending and its text is
  still there, and dismissed only when it is gone.\<close>

theorem panel_events_justified:
  assumes "panel_step p i p'"
  shows "\<exists>es. pn_sent p' = pn_sent p @ es \<and> (\<forall>e \<in> set es. justified p e)"
  using assms
proof cases
  case (clicked k ok)
  then show ?thesis using click_events by blast
qed (auto simp: show_panel_def onReplyInput_def mention_answer_def clearReply_def pn_dispatch_def justified_def Let_def
    split: option.split)

section \<open>Findings\<close>

text \<open>The draft outlives a change of the thread: what was typed as a reply to one thread is sent to the
  thread the element shows next.\<close>

lemma draft_follows_thread:
  assumes "js_trim (pn_replyDraft p) \<noteq> []" "ct_status t = Open_Thread"
  shows "Reply_Box \<in> set (controls (show_panel (Some t) None c orphan p))
    \<and> pn_sent (click ok Reply_Box (show_panel (Some t) None c orphan p)) = pn_sent p @ [Reply_Sent (ct_id t) (js_trim (pn_replyDraft p))]"
  using assms
  by (simp add: show_panel_def controls_def click_def sendReply_def pn_send_def pn_dispatch_def shown_id_def Let_def)

text \<open>A word with @ in the middle of the draft opens the list, but picking a candidate changes nothing,
  because the replacement looks at the end of the draft.\<close>

lemma mention_inside_draft_ignored:
  assumes "mention_suffix draft = None" "pn_replyDraft p = draft"
  shows "pn_replyDraft (insertMention m p) = draft"
  using assms by (simp add: insertMention_def replace_mention_def)

text \<open>A dollar sign in a name is taken as a pattern of the replacement.\<close>

lemma dollar_name_expanded:
  "replace_mention \<lparr>mc_user_id = js ''u'', mc_display_name = js ''A$&B'', mc_avatar_url = None\<rparr> (js ''hi @a'') = js ''hi @[A@aB](u) ''"
  by code_simp

text \<open>An answer to an older search replaces the candidates of the newer one.\<close>

lemma late_answer_wins: "pn_mentionOptions (mention_answer older (mention_answer newer p)) = older"
  by (simp add: mention_answer_def)

section \<open>Witnesses\<close>

definition sample_panel :: comment_panel where
  "sample_panel = new_panel\<lparr>pn_draftAnchor := Some (js ''x''), pn_replyDraft := js ''hi @b'', pn_mentionActive := True\<rparr>"

definition sample_candidate :: mention_candidate where
  "sample_candidate = \<lparr>mc_user_id = js ''u1'', mc_display_name = js ''Bob'', mc_avatar_url = None\<rparr>"

theorem picked_mention_sent_witness:
  "\<exists>content. pn_sent (sendReply (js ''t'') (insertMention sample_candidate sample_panel)) = [Reply_Sent (js ''t'') content]
     \<and> extractMentions content = [candidate_mention sample_candidate]"
proof -
  have "pn_replyDraft sample_panel = typed [] @ js ''hi '' @ 64 # [98]" "64 \<notin> set (js ''hi '')"
    "token_safe (candidate_mention sample_candidate)" "36 \<notin> set (mc_display_name sample_candidate)" "36 \<notin> set (mc_user_id sample_candidate)"
    by code_simp+
  moreover have "\<forall>c \<in> set [98]. word_char c" by (simp add: word_char_def)
  moreover have "pn_sent sample_panel = []" by (simp add: sample_panel_def new_panel_def)
  ultimately show ?thesis using picked_mention_sent [of sample_panel "[]" "js ''hi ''" "[98]" sample_candidate "js ''t''"] by auto
qed

theorem panel_events_justified_witness:
  "\<exists>es. pn_sent (click True Draft_Box sample_panel) = pn_sent sample_panel @ es \<and> (\<forall>e \<in> set es. justified sample_panel e)"
proof -
  have "panel_step sample_panel (Click True Draft_Box) (click True Draft_Box sample_panel)"
    by (rule clicked) (simp add: controls_def sample_panel_def new_panel_def)
  then show ?thesis by (rule panel_events_justified)
qed

end
