(* ===== verification/Version_Panel.thy ===== *)
theory Version_Panel
  imports Version_Coordinator
begin

text \<open>
  \<open>frontend/src/toolbar/version-panel.ts\<close>: the history of versions, the selection of one or two of
  them, and the events that view, revert and compare them. The element passes the list, the version
  loaded last and the comparison of the version coordinator (\<open>Version_Coordinator\<close>) as properties.
  Shown: the selection behaves as a set of at most two versions that a click toggles, and the panel
  asks to compare two different versions and to view or revert one that is selected alone.
\<close>

section \<open>State\<close>

datatype panel_view = List_View | Diff_View

datatype history_event =
    Version_Select jsstring
  | Version_Diff_Clear
  | Version_Close
  | Version_Save
  | Version_View jsstring
  | Version_Revert jsstring
  | Version_Diff jsstring jsstring

record version_panel =
  vp_open :: bool
  vp_versions :: "version_list_entry list"
  vp_diffResult :: "diff_line list option"
  vp_selectedVersion :: "version_entry option"
  vp_diffFrom :: "jsstring option"
  vp_diffTo :: "jsstring option"
  vp_view :: panel_view
  vp_sent :: "history_event list"

definition new_version_panel :: version_panel where
  "new_version_panel = \<lparr>vp_open = False, vp_versions = [], vp_diffResult = None, vp_selectedVersion = None,
     vp_diffFrom = None, vp_diffTo = None, vp_view = List_View, vp_sent = []\<rparr>"

text \<open>A string is falsy when it is missing or empty.\<close>

definition truthy :: "jsstring option \<Rightarrow> bool" where
  "truthy s \<longleftrightarrow> s \<noteq> None \<and> s \<noteq> Some []"

definition vp_dispatch :: "history_event \<Rightarrow> version_panel \<Rightarrow> version_panel" where
  "vp_dispatch e p = p\<lparr>vp_sent := vp_sent p @ [e]\<rparr>"

section \<open>Operations\<close>

text \<open>\<open>willUpdate\<close> after the element set the list: the ids are compared joined by commas.\<close>

definition version_ids :: "version_list_entry list \<Rightarrow> jsstring" where
  "version_ids vs = join_with 44 (map vl_id vs)"

definition set_version_list :: "version_list_entry list \<Rightarrow> version_panel \<Rightarrow> version_panel" where
  "set_version_list vs p =
     (let p1 = p\<lparr>vp_versions := vs\<rparr>
      in if version_ids vs \<noteq> version_ids (vp_versions p)
         then p1\<lparr>vp_diffFrom := None, vp_diffTo := None, vp_view := List_View\<rparr> else p1)"

definition selectVersion :: "version_list_entry \<Rightarrow> version_panel \<Rightarrow> version_panel" where
  "selectVersion v p =
     vp_dispatch (Version_Select (vl_id v))
       (if vp_diffFrom p = None then p\<lparr>vp_diffFrom := Some (vl_id v)\<rparr>
        else if vp_diffFrom p = Some (vl_id v) then p\<lparr>vp_diffFrom := vp_diffTo p, vp_diffTo := None\<rparr>
        else if vp_diffTo p = Some (vl_id v) then p\<lparr>vp_diffTo := None\<rparr>
        else if vp_diffTo p = None then p\<lparr>vp_diffTo := Some (vl_id v)\<rparr>
        else p\<lparr>vp_diffTo := Some (vl_id v)\<rparr>)"

definition clearSelection :: "version_panel \<Rightarrow> version_panel" where
  "clearSelection p = vp_dispatch Version_Diff_Clear (p\<lparr>vp_diffFrom := None, vp_diffTo := None, vp_view := List_View\<rparr>)"

definition backToList :: "version_panel \<Rightarrow> version_panel" where
  "backToList p = p\<lparr>vp_view := List_View\<rparr>"

definition onViewVersion :: "version_panel \<Rightarrow> version_panel" where
  "onViewVersion p = (if truthy (vp_diffFrom p) then vp_dispatch (Version_View (the (vp_diffFrom p))) p else p)"

definition onRevertVersion :: "version_panel \<Rightarrow> version_panel" where
  "onRevertVersion p = (if truthy (vp_diffFrom p) then vp_dispatch (Version_Revert (the (vp_diffFrom p))) p else p)"

definition onDiff :: "version_panel \<Rightarrow> version_panel" where
  "onDiff p =
     (if truthy (vp_diffFrom p) \<and> truthy (vp_diffTo p)
      then vp_dispatch (Version_Diff (the (vp_diffFrom p)) (the (vp_diffTo p))) (p\<lparr>vp_view := Diff_View\<rparr>) else p)"

section \<open>Rendering\<close>

definition version_label :: "version_list_entry list \<Rightarrow> jsstring option \<Rightarrow> jsstring" where
  "version_label vs i =
     (case List.find (\<lambda>v. Some (vl_id v) = i) vs of
        None \<Rightarrow> js ''?''
      | Some v \<Rightarrow>
          if truthy (vl_label v) then the (vl_label v)
          else if vl_id v \<noteq> [] then take 8 (vl_id v) else js ''?'')"

datatype version_screen =
    Nothing_Shown
  | Versions_Shown
  | Same_Shown jsstring jsstring
  | Diff_Shown jsstring jsstring "(diff_type \<times> jsstring) list"

definition vp_render :: "version_panel \<Rightarrow> version_screen" where
  "vp_render p =
     (if \<not> vp_open p then Nothing_Shown
      else case (vp_view p, vp_diffResult p) of
             (Diff_View, Some ls) \<Rightarrow>
               (let a = version_label (vp_versions p) (vp_diffFrom p); b = version_label (vp_versions p) (vp_diffTo p)
                in if list_all (\<lambda>l. dl_type l = Unchanged) ls then Same_Shown a b
                   else Diff_Shown a b (map (\<lambda>l. (dl_type l, dl_content l)) ls))
           | _ \<Rightarrow> Versions_Shown)"

text \<open>The buttons below the list.\<close>

definition view_offered :: "version_panel \<Rightarrow> bool" where
  "view_offered p \<longleftrightarrow> vp_render p = Versions_Shown \<and> vp_selectedVersion p \<noteq> None \<and> \<not> truthy (vp_diffTo p)"

definition compare_offered :: "version_panel \<Rightarrow> bool" where
  "compare_offered p \<longleftrightarrow> vp_render p = Versions_Shown \<and> truthy (vp_diffFrom p) \<and> truthy (vp_diffTo p)"

definition clear_offered :: "version_panel \<Rightarrow> bool" where
  "clear_offered p \<longleftrightarrow> vp_render p = Versions_Shown \<and> (truthy (vp_diffFrom p) \<or> vp_selectedVersion p \<noteq> None)"

section \<open>Runs\<close>

datatype version_input =
    Set_Open bool
  | Set_List "version_list_entry list"
  | Set_Comparison "diff_line list option"
  | Set_Loaded "version_entry option"
  | Click_Version version_list_entry
  | Click_Clear
  | Click_Back
  | Click_View
  | Click_Revert
  | Click_Compare
  | Click_Save
  | Click_Close

inductive vp_step :: "version_panel \<Rightarrow> version_input \<Rightarrow> version_panel \<Rightarrow> bool" where
  opened: "vp_step p (Set_Open b) (p\<lparr>vp_open := b\<rparr>)"
| listed: "vp_step p (Set_List vs) (set_version_list vs p)"
| compared: "vp_step p (Set_Comparison r) (p\<lparr>vp_diffResult := r\<rparr>)"
| loaded: "vp_step p (Set_Loaded v) (p\<lparr>vp_selectedVersion := v\<rparr>)"
| picked: "vp_render p = Versions_Shown \<Longrightarrow> v \<in> set (vp_versions p) \<Longrightarrow> vp_step p (Click_Version v) (selectVersion v p)"
| cleared: "clear_offered p \<Longrightarrow> vp_step p Click_Clear (clearSelection p)"
| returned: "vp_render p \<notin> {Nothing_Shown, Versions_Shown} \<Longrightarrow> vp_step p Click_Back (backToList p)"
| viewed: "view_offered p \<Longrightarrow> vp_step p Click_View (onViewVersion p)"
| reverted: "view_offered p \<Longrightarrow> vp_step p Click_Revert (onRevertVersion p)"
| asked: "compare_offered p \<Longrightarrow> vp_step p Click_Compare (onDiff p)"
| saved: "vp_render p = Versions_Shown \<Longrightarrow> vp_step p Click_Save (vp_dispatch Version_Save p)"
| closed: "vp_render p = Versions_Shown \<Longrightarrow> vp_step p Click_Close (vp_dispatch Version_Close p)"

inductive vp_run :: "version_panel \<Rightarrow> bool" where
  start: "vp_run new_version_panel"
| step: "vp_run p \<Longrightarrow> vp_step p i p' \<Longrightarrow> vp_run p'"

section \<open>The selection as a set\<close>

definition chosen :: "version_panel \<Rightarrow> jsstring set" where
  "chosen p = set_option (vp_diffFrom p) \<union> set_option (vp_diffTo p)"

definition selection_ok :: "version_panel \<Rightarrow> bool" where
  "selection_ok p \<longleftrightarrow> (vp_diffTo p \<noteq> None \<longrightarrow> vp_diffFrom p \<noteq> None \<and> vp_diffFrom p \<noteq> vp_diffTo p)"

text \<open>The specification: a click takes a chosen version out and puts another one in, in place of the
  second one when two are chosen.\<close>

definition toggled :: "jsstring \<Rightarrow> jsstring option \<Rightarrow> jsstring set \<Rightarrow> jsstring set" where
  "toggled i first S = (if i \<in> S then S - {i} else if card S = 2 then set_option first \<union> {i} else insert i S)"

lemma selectVersion_ok:
  assumes "selection_ok p"
  shows "selection_ok (selectVersion v p)" "chosen (selectVersion v p) = toggled (vl_id v) (vp_diffFrom p) (chosen p)"
  using assms
  by (cases "vp_diffFrom p"; cases "vp_diffTo p";
      auto simp: selection_ok_def selectVersion_def vp_dispatch_def chosen_def toggled_def)+

lemma vp_step_ok:
  assumes "vp_step p i p'" "selection_ok p"
  shows "selection_ok p'"
  using assms
proof cases
  case (picked v)
  then show ?thesis using assms(2) selectVersion_ok(1) by simp
qed (auto simp: selection_ok_def set_version_list_def clearSelection_def backToList_def onViewVersion_def onRevertVersion_def
    onDiff_def vp_dispatch_def Let_def)

lemma vp_run_ok: "vp_run p \<Longrightarrow> selection_ok p"
  by (induction rule: vp_run.induct) (simp add: selection_ok_def new_version_panel_def, rule vp_step_ok)

text \<open>The selection of the version panel is a set of at most two versions: in every state it can
  reach, a click on a version takes it out when it is chosen and puts it in otherwise, replacing the
  second one when there are two.\<close>

theorem version_selection_toggles:
  assumes "vp_run p"
  shows "card (chosen p) \<le> 2 \<and> chosen (selectVersion v p) = toggled (vl_id v) (vp_diffFrom p) (chosen p)"
  using vp_run_ok [OF assms] selectVersion_ok(2)
  by (cases "vp_diffFrom p"; cases "vp_diffTo p") (auto simp: chosen_def selection_ok_def card_insert_if)

text \<open>An event that fits the selection.\<close>

definition event_ok :: "version_panel \<Rightarrow> history_event \<Rightarrow> bool" where
  "event_ok p e =
     (case e of
        Version_Diff a b \<Rightarrow> a \<noteq> b \<and> chosen p = {a, b}
      | Version_View i \<Rightarrow> chosen p - {[]} = {i}
      | Version_Revert i \<Rightarrow> chosen p - {[]} = {i}
      | Version_Select i \<Rightarrow> i \<in> vl_id ` set (vp_versions p)
      | _ \<Rightarrow> True)"

text \<open>The version panel asks for what is selected: in every run, it asks to compare exactly the two
  chosen versions, which differ, and to view or revert only the version that is chosen alone, and it
  selects only versions of the list.\<close>

theorem version_requests_match_selection:
  assumes "vp_run p" "vp_step p i p'"
  shows "\<exists>es. vp_sent p' = vp_sent p @ es \<and> (\<forall>e \<in> set es. event_ok p e)"
  using assms(2) vp_run_ok [OF assms(1)]
  by cases (auto simp: selection_ok_def event_ok_def chosen_def set_version_list_def clearSelection_def backToList_def
      onViewVersion_def onRevertVersion_def onDiff_def selectVersion_def vp_dispatch_def view_offered_def compare_offered_def
      truthy_def Let_def)

section \<open>Findings\<close>

text \<open>A new comparison is shown with the lines of the old one until the answer comes, and for good when a
  version cannot be loaded, because the coordinator then leaves the result as it is.\<close>

lemma stale_comparison_shown:
  assumes "vp_open p" "compare_offered p" "vp_diffResult p = Some ls" "\<not> list_all (\<lambda>l. dl_type l = Unchanged) ls"
  shows "vp_render (onDiff p) = Diff_Shown (version_label (vp_versions p) (vp_diffFrom p)) (version_label (vp_versions p) (vp_diffTo p))
    (map (\<lambda>l. (dl_type l, dl_content l)) ls)"
  using assms by (simp add: compare_offered_def onDiff_def vp_dispatch_def vp_render_def Let_def)

text \<open>After Clear the loaded version stays: View and Revert are offered and do nothing.\<close>

lemma dead_buttons_after_clear:
  assumes "vp_open p" "vp_selectedVersion p \<noteq> None"
  shows "view_offered (clearSelection p) \<and> onViewVersion (clearSelection p) = clearSelection p
    \<and> onRevertVersion (clearSelection p) = clearSelection p"
  using assms by (simp add: view_offered_def clearSelection_def vp_dispatch_def vp_render_def onViewVersion_def onRevertVersion_def truthy_def)

section \<open>Witnesses\<close>

definition list_entry :: "string \<Rightarrow> version_list_entry" where
  "list_entry i = \<lparr>vl_id = js i, vl_created_at = [], vl_type = Manual_Version, vl_label = None, vl_creator = None, vl_mime_type = None\<rparr>"

definition two_listed :: version_panel where
  "two_listed = new_version_panel\<lparr>vp_open := True, vp_versions := [list_entry ''a'', list_entry ''b'']\<rparr>"

lemma two_listed_run: "vp_run two_listed"
proof -
  have "vp_step new_version_panel (Set_Open True) (new_version_panel\<lparr>vp_open := True\<rparr>)" by (rule opened)
  moreover have "vp_step (new_version_panel\<lparr>vp_open := True\<rparr>) (Set_List [list_entry ''a'', list_entry ''b'']) two_listed"
    using listed [of "new_version_panel\<lparr>vp_open := True\<rparr>" "[list_entry ''a'', list_entry ''b'']"]
    by (simp add: set_version_list_def two_listed_def new_version_panel_def Let_def split: if_split_asm)
  ultimately show ?thesis by (meson vp_run.intros)
qed

theorem version_selection_toggles_witness:
  "chosen (selectVersion (list_entry ''a'') two_listed) = {js ''a''}"
  using version_selection_toggles [OF two_listed_run, of "list_entry ''a''"]
  by (simp add: toggled_def chosen_def two_listed_def new_version_panel_def list_entry_def)

theorem version_requests_match_selection_witness:
  "\<exists>es. vp_sent (selectVersion (list_entry ''a'') two_listed) = vp_sent two_listed @ es \<and> (\<forall>e \<in> set es. event_ok two_listed e)"
proof -
  have "vp_step two_listed (Click_Version (list_entry ''a'')) (selectVersion (list_entry ''a'') two_listed)"
    by (rule picked) (simp_all add: two_listed_def new_version_panel_def vp_render_def)
  with two_listed_run show ?thesis by (rule version_requests_match_selection)
qed

end
