(* ===== verification/Mermaid.thy ===== *)
theory Mermaid
  imports Prelude
begin

text \<open>
  Mermaid diagrams: the renderer (\<open>collab/mermaid-renderer.ts\<close>), the node view of a diagram
  (\<open>collab/mermaid-codeblock-extension.ts\<close>), the edit dialog (\<open>toolbar/mermaid-edit-dialog.ts\<close>) and the
  part of the rich-text editor that opens it (\<open>bindings/_wysiwyg-editor.ts\<close>). Rendering is asynchronous:
  timers fire and answers come in any order, as steps of their own. Shown: the runtime ends up with
  the theme set last, a view and the dialog settle on the diagram of their current source whatever
  the order of the answers, and they do so after finitely many such steps.
\<close>

section \<open>The renderer\<close>

datatype mermaid_theme = Default_Theme | Dark_Theme

datatype load_state = Not_Loaded | Loading | Loaded | Load_Failed

text \<open>\<open>mr_runtime\<close> is the theme of the last \<open>initialize\<close>, \<open>mr_queue\<close> the initialisations waiting on the promise.\<close>

record renderer =
  mr_module :: load_state
  mr_theme :: mermaid_theme
  mr_generation :: nat
  mr_idSeq :: nat
  mr_runtime :: "mermaid_theme option"
  mr_queue :: "mermaid_theme list"

definition new_renderer :: renderer where
  "new_renderer = \<lparr>mr_module = Not_Loaded, mr_theme = Default_Theme, mr_generation = 0, mr_idSeq = 0,
     mr_runtime = None, mr_queue = []\<rparr>"

definition loadMermaid :: "renderer \<Rightarrow> renderer" where
  "loadMermaid r = (if mr_module r = Not_Loaded then r\<lparr>mr_module := Loading\<rparr> else r)"

text \<open>The import ends.\<close>

definition module_loaded :: "bool \<Rightarrow> renderer \<Rightarrow> renderer" where
  "module_loaded ok r =
     (if mr_module r \<noteq> Loading then r
      else if ok then r\<lparr>mr_module := Loaded, mr_runtime := Some (mr_theme r)\<rparr>
      else r\<lparr>mr_module := Load_Failed, mr_queue := []\<rparr>)"

definition setMermaidTheme :: "mermaid_theme \<Rightarrow> renderer \<Rightarrow> renderer" where
  "setMermaidTheme theme r =
     (if theme = mr_theme r then r
      else let r1 = r\<lparr>mr_theme := theme, mr_generation := mr_generation r + 1\<rparr>
           in if mr_module r = Not_Loaded \<or> mr_module r = Load_Failed then r1 else r1\<lparr>mr_queue := mr_queue r @ [theme]\<rparr>)"

text \<open>The next waiting initialisation runs.\<close>

definition run_initialize :: "renderer \<Rightarrow> renderer" where
  "run_initialize r =
     (case mr_queue r of
        theme # rest \<Rightarrow> if mr_module r = Loaded then r\<lparr>mr_runtime := Some theme, mr_queue := rest\<rparr> else r
      | [] \<Rightarrow> r)"

datatype renderer_input = Load | Module bool | Theme mermaid_theme | Initialize

fun renderer_step :: "renderer_input \<Rightarrow> renderer \<Rightarrow> renderer" where
  "renderer_step Load r = loadMermaid r"
| "renderer_step (Module ok) r = module_loaded ok r"
| "renderer_step (Theme t) r = setMermaidTheme t r"
| "renderer_step Initialize r = run_initialize r"

text \<open>\<open>renderMermaid\<close>: what the load and \<open>api.render\<close> answer are arguments; \<open>find_svg\<close> is the first diagram in the markup. The id counts the renders.\<close>

datatype 'g outcome = Svg 'g | Render_Error jsstring

definition renderMermaid ::
  "(jsstring \<Rightarrow> 'g option) \<Rightarrow> jsstring option \<Rightarrow> (nat \<Rightarrow> jsstring \<Rightarrow> jsstring + jsstring)
     \<Rightarrow> jsstring \<Rightarrow> renderer \<Rightarrow> 'g outcome \<times> renderer" where
  "renderMermaid find_svg loadError render code r =
     (let trimmed = js_trim code
      in if trimmed = [] then (Render_Error (js ''Empty diagram source''), r)
         else case loadError of
                Some m \<Rightarrow> (Render_Error (js ''Failed to load mermaid: '' @ m), loadMermaid r)
              | None \<Rightarrow>
                  (let r1 = (loadMermaid r)\<lparr>mr_idSeq := mr_idSeq r + 1\<rparr>
                   in case render (mr_idSeq r1) trimmed of
                        Inl m \<Rightarrow> (Render_Error m, r1)
                      | Inr markup \<Rightarrow>
                          (case find_svg markup of
                             None \<Rightarrow> (Render_Error (js ''Mermaid produced no SVG output''), r1)
                           | Some g \<Rightarrow> (Svg g, r1))))"

section \<open>Numbered renders\<close>

text \<open>What the node view and the dialog share: a sequence number, the renders under way with their number
  and source, and what is shown, with the source it was rendered from.\<close>

record 'g preview =
  pv_seq :: nat
  pv_pending :: "(nat \<times> jsstring) list"
  pv_shown :: "(jsstring \<times> 'g outcome) option"

definition no_preview :: "'g preview" where
  "no_preview = \<lparr>pv_seq = 0, pv_pending = [], pv_shown = None\<rparr>"

definition start_render :: "jsstring \<Rightarrow> 'g preview \<Rightarrow> 'g preview" where
  "start_render code v = v\<lparr>pv_seq := pv_seq v + 1, pv_pending := pv_pending v @ [(pv_seq v + 1, code)]\<rparr>"

text \<open>A render ends; a superseded one is dropped.\<close>

definition finish_render :: "nat \<times> jsstring \<Rightarrow> 'g outcome \<Rightarrow> 'g preview \<Rightarrow> 'g preview" where
  "finish_render x out v =
     (let v1 = v\<lparr>pv_pending := remove1 x (pv_pending v)\<rparr>
      in if fst x = pv_seq v then v1\<lparr>pv_shown := Some (snd x, out)\<rparr> else v1)"

definition newest :: "jsstring \<Rightarrow> 'g preview \<Rightarrow> bool" where
  "newest code v \<longleftrightarrow> distinct (map fst (pv_pending v)) \<and> (\<forall>x \<in> set (pv_pending v). fst x \<le> pv_seq v)
     \<and> ((pv_seq v, code) \<in> set (pv_pending v)
        \<or> pv_seq v \<notin> fst ` set (pv_pending v) \<and> (\<exists>out. pv_shown v = Some (code, out)))"

lemma start_render_newest:
  assumes "distinct (map fst (pv_pending v))" "\<forall>x \<in> set (pv_pending v). fst x \<le> pv_seq v"
  shows "newest code (start_render code v)"
  using assms by (auto simp: newest_def start_render_def le_SucI)

lemma newest_parts: "newest code v \<Longrightarrow> distinct (map fst (pv_pending v)) \<and> (\<forall>x \<in> set (pv_pending v). fst x \<le> pv_seq v)"
  by (simp add: newest_def)

lemma finish_render_newest:
  assumes "newest code v" "x \<in> set (pv_pending v)"
  shows "newest code (finish_render x out v)"
proof -
  have d: "distinct (map fst (remove1 x (pv_pending v)))" "distinct (pv_pending v)"
    using assms(1) by (auto simp: newest_def distinct_map intro: inj_on_subset)
  have uniq: "y = x" if "y \<in> set (pv_pending v)" "fst y = fst x" for y
    using assms that by (auto simp: newest_def distinct_map inj_on_def)
  show ?thesis
  proof (cases "fst x = pv_seq v")
    case True
    then have "pv_seq v \<notin> fst ` set (remove1 x (pv_pending v))" using uniq d(2) by (auto simp: set_remove1_eq)
    moreover have "(pv_seq v, code) \<in> set (pv_pending v)"
      using assms True by (auto simp: newest_def) (metis image_eqI)
    then have "snd x = code" using uniq [of "(pv_seq v, code)"] True by auto
    ultimately show ?thesis using assms(1) d True by (auto simp: newest_def finish_render_def set_remove1_eq)
  next
    case False
    have "set (remove1 x (pv_pending v)) = set (pv_pending v) - {x}" using d(2) by (rule set_remove1_eq)
    then show ?thesis using assms(1) d(1) False unfolding newest_def finish_render_def Let_def by auto
  qed
qed

lemma newest_settled: "newest code v \<Longrightarrow> pv_pending v = [] \<Longrightarrow> \<exists>out. pv_shown v = Some (code, out)"
  by (auto simp: newest_def)

section \<open>Settling\<close>

text \<open>What the owner of a numbered render promises: its internal steps keep its invariant and its source,
  use up work, and a state without further steps shows its source.\<close>

locale settling =
  fixes internal :: "'s \<Rightarrow> 's \<Rightarrow> bool"
    and ok :: "'s \<Rightarrow> bool"
    and work :: "'s \<Rightarrow> nat"
    and source :: "'s \<Rightarrow> jsstring"
    and shown :: "'s \<Rightarrow> (jsstring \<times> 'g outcome) option"
  assumes internal_ok: "internal s t \<Longrightarrow> ok s \<Longrightarrow> ok t"
    and internal_source: "internal s t \<Longrightarrow> source t = source s"
    and internal_work: "internal s t \<Longrightarrow> work t < work s"
    and stuck_shows: "ok s \<Longrightarrow> \<nexists>t. internal s t \<Longrightarrow> \<exists>out. shown s = Some (source s, out)"
begin

lemma terminates: "wfP (\<lambda>t s. internal s t)"
  by (rule wfp_if_convertible_to_nat) (rule internal_work)

lemma run_keeps: "internal\<^sup>*\<^sup>* s t \<Longrightarrow> ok s \<Longrightarrow> ok t \<and> source t = source s"
  by (induction rule: rtranclp_induct) (auto simp: internal_ok internal_source)

lemma settles: "ok s \<Longrightarrow> internal\<^sup>*\<^sup>* s t \<Longrightarrow> \<nexists>u. internal t u \<Longrightarrow> \<exists>out. shown t = Some (source s, out)"
  using run_keeps [of s t] stuck_shows [of t] by auto

end

section \<open>The node view\<close>

text \<open>\<open>nv_timer\<close>: the debounce timer runs. \<open>nv_lastSource\<close>, \<open>nv_lastGen\<close>: source and theme generation of the last
  render started.\<close>

record 'g node_view =
  nv_source :: jsstring
  nv_timer :: bool
  nv_lastSource :: jsstring
  nv_lastGen :: nat
  nv_preview :: "'g preview"

definition nv_run :: "nat \<Rightarrow> 'g node_view \<Rightarrow> 'g node_view" where
  "nv_run gen n = n\<lparr>nv_timer := False, nv_lastSource := nv_source n, nv_lastGen := gen,
     nv_preview := start_render (nv_source n) (nv_preview n)\<rparr>"

definition buildNodeView :: "nat \<Rightarrow> jsstring \<Rightarrow> 'g node_view" where
  "buildNodeView gen src =
     nv_run gen \<lparr>nv_source = src, nv_timer = False, nv_lastSource = [32], nv_lastGen = 0, nv_preview = no_preview\<rparr>"

text \<open>\<open>update\<close>: \<open>None\<close> is the answer \<open>false\<close>, upon which the editor builds another view.\<close>

definition nv_update :: "nat \<Rightarrow> bool \<Rightarrow> jsstring \<Rightarrow> jsstring \<Rightarrow> 'g node_view \<Rightarrow> 'g node_view option" where
  "nv_update gen sameType language src n =
     (if \<not> sameType \<or> language \<noteq> js ''mermaid'' then None
      else let n1 = n\<lparr>nv_source := src\<rparr>
           in Some (if src \<noteq> nv_lastSource n \<or> gen \<noteq> nv_lastGen n then n1\<lparr>nv_timer := True\<rparr> else n1))"

text \<open>Internal steps: the timer fires, an answer comes; the other steps are updates of the node. The theme
  generation of the moment is an input.\<close>

inductive nv_internal :: "'g node_view \<Rightarrow> 'g node_view \<Rightarrow> bool" where
  fired: "nv_timer n \<Longrightarrow> nv_internal n (nv_run gen n)"
| answered: "x \<in> set (pv_pending (nv_preview n)) \<Longrightarrow> nv_internal n (n\<lparr>nv_preview := finish_render x out (nv_preview n)\<rparr>)"

inductive nv_reached :: "'g node_view \<Rightarrow> bool" where
  built: "nv_reached (buildNodeView gen src)"
| updated: "nv_reached n \<Longrightarrow> nv_update gen True (js ''mermaid'') src n = Some n' \<Longrightarrow> nv_reached n'"
| internal: "nv_reached n \<Longrightarrow> nv_internal n n' \<Longrightarrow> nv_reached n'"

definition nv_ok :: "'g node_view \<Rightarrow> bool" where
  "nv_ok n \<longleftrightarrow> newest (nv_lastSource n) (nv_preview n) \<and> (nv_timer n \<or> nv_source n = nv_lastSource n)"

lemma nv_run_ok:
  "distinct (map fst (pv_pending (nv_preview n))) \<Longrightarrow> \<forall>x \<in> set (pv_pending (nv_preview n)). fst x \<le> pv_seq (nv_preview n)
    \<Longrightarrow> nv_ok (nv_run gen n)"
  by (simp add: nv_ok_def nv_run_def start_render_newest)

lemma nv_internal_ok: "nv_internal n n' \<Longrightarrow> nv_ok n \<Longrightarrow> nv_ok n'"
proof (induction rule: nv_internal.induct)
  case (fired n gen)
  then show ?case using newest_parts by (intro nv_run_ok) (auto simp: nv_ok_def)
next
  case (answered x n out)
  then show ?case by (simp add: nv_ok_def finish_render_newest)
qed

lemma nv_reached_ok: "nv_reached n \<Longrightarrow> nv_ok n"
proof (induction rule: nv_reached.induct)
  case (built gen src)
  show ?case unfolding buildNodeView_def by (rule nv_run_ok) (simp_all add: no_preview_def)
next
  case (updated n gen src n')
  then show ?case by (auto simp: nv_update_def nv_ok_def Let_def split: if_splits)
qed (rule nv_internal_ok)

text \<open>The internal steps end: a timer is worth two answers.\<close>

definition nv_work :: "'g node_view \<Rightarrow> nat" where
  "nv_work n = (if nv_timer n then 2 else 0) + length (pv_pending (nv_preview n))"

lemma nv_internal_work: "nv_internal n n' \<Longrightarrow> nv_work n' < nv_work n"
proof (induction rule: nv_internal.induct)
  case (answered x n out)
  then show ?case
    using length_pos_if_in_set [OF answered] by (simp add: nv_work_def finish_render_def Let_def length_remove1)
qed (simp add: nv_work_def nv_run_def start_render_def)

lemma nv_stuck:
  assumes "\<nexists>n'. nv_internal n n'"
  shows "\<not> nv_timer n" "pv_pending (nv_preview n) = []"
proof -
  show "\<not> nv_timer n" using assms nv_internal.fired by blast
  show "pv_pending (nv_preview n) = []"
  proof (rule ccontr)
    assume "pv_pending (nv_preview n) \<noteq> []"
    then have "hd (pv_pending (nv_preview n)) \<in> set (pv_pending (nv_preview n))" by simp
    then show False using assms nv_internal.answered by blast
  qed
qed

interpretation view: settling nv_internal nv_ok nv_work nv_source "\<lambda>n. pv_shown (nv_preview n)"
proof
  show "\<exists>out. pv_shown (nv_preview n) = Some (nv_source n, out)" if "nv_ok n" "\<nexists>t. nv_internal n t" for n :: "'g node_view"
    using that newest_settled [of "nv_source n" "nv_preview n"] nv_stuck [of n] by (auto simp: nv_ok_def)
qed (auto simp: nv_internal_ok nv_internal_work nv_run_def elim!: nv_internal.cases)

section \<open>The edit dialog\<close>

text \<open>\<open>dg_timer\<close> is the source that the running timer will render.\<close>

record 'g mermaid_dialog =
  dg_draft :: jsstring
  dg_timer :: "jsstring option"
  dg_preview :: "'g preview"

definition dg_scheduleRender :: "jsstring \<Rightarrow> bool \<Rightarrow> 'g mermaid_dialog \<Rightarrow> 'g mermaid_dialog" where
  "dg_scheduleRender code immediate d =
     (if immediate then d\<lparr>dg_timer := None, dg_preview := start_render code (dg_preview d)\<rparr>
      else d\<lparr>dg_timer := Some code\<rparr>)"

definition dg_willUpdate :: "jsstring \<Rightarrow> 'g mermaid_dialog \<Rightarrow> 'g mermaid_dialog" where
  "dg_willUpdate src d = dg_scheduleRender src True (d\<lparr>dg_draft := src\<rparr>)"

definition dg_onInput :: "jsstring \<Rightarrow> 'g mermaid_dialog \<Rightarrow> 'g mermaid_dialog" where
  "dg_onInput val d = dg_scheduleRender val False (d\<lparr>dg_draft := val\<rparr>)"

definition new_dialog :: "'g mermaid_dialog" where
  "new_dialog = \<lparr>dg_draft = [], dg_timer = None, dg_preview = no_preview\<rparr>"

inductive dg_internal :: "'g mermaid_dialog \<Rightarrow> 'g mermaid_dialog \<Rightarrow> bool" where
  fired: "dg_timer d = Some code \<Longrightarrow> dg_internal d (d\<lparr>dg_timer := None, dg_preview := start_render code (dg_preview d)\<rparr>)"
| answered: "x \<in> set (pv_pending (dg_preview d)) \<Longrightarrow> dg_internal d (d\<lparr>dg_preview := finish_render x out (dg_preview d)\<rparr>)"

inductive dg_reached :: "'g mermaid_dialog \<Rightarrow> bool" where
  shown: "dg_reached (dg_willUpdate src new_dialog)"
| reopened: "dg_reached d \<Longrightarrow> dg_reached (dg_willUpdate src d)"
| typed: "dg_reached d \<Longrightarrow> dg_reached (dg_onInput val d)"
| internal: "dg_reached d \<Longrightarrow> dg_internal d d' \<Longrightarrow> dg_reached d'"

definition dg_ok :: "'g mermaid_dialog \<Rightarrow> bool" where
  "dg_ok d \<longleftrightarrow> (\<exists>c. newest c (dg_preview d) \<and> (case dg_timer d of None \<Rightarrow> c = dg_draft d | Some t \<Rightarrow> t = dg_draft d))"

lemma dg_render_ok:
  "distinct (map fst (pv_pending (dg_preview d))) \<Longrightarrow> \<forall>x \<in> set (pv_pending (dg_preview d)). fst x \<le> pv_seq (dg_preview d)
    \<Longrightarrow> dg_ok (d\<lparr>dg_timer := None, dg_preview := start_render (dg_draft d) (dg_preview d)\<rparr>)"
  by (auto simp: dg_ok_def intro: start_render_newest)

lemma dg_internal_ok: "dg_internal d d' \<Longrightarrow> dg_ok d \<Longrightarrow> dg_ok d'"
proof (induction rule: dg_internal.induct)
  case (fired d code)
  then have "code = dg_draft d" by (auto simp: dg_ok_def)
  then show ?case using dg_render_ok [of d] fired.prems newest_parts by (auto simp: dg_ok_def)
next
  case (answered x d out)
  from answered.prems obtain c where c: "newest c (dg_preview d)" "case dg_timer d of None \<Rightarrow> c = dg_draft d | Some t \<Rightarrow> t = dg_draft d"
    by (auto simp: dg_ok_def)
  then show ?case using finish_render_newest [OF c(1) answered.hyps] by (auto simp: dg_ok_def split: option.splits)
qed

lemma dg_reached_ok: "dg_reached d \<Longrightarrow> dg_ok d"
proof (induction rule: dg_reached.induct)
  case (shown src)
  show ?case using dg_render_ok [of "new_dialog\<lparr>dg_draft := src\<rparr>"]
    by (simp add: dg_willUpdate_def dg_scheduleRender_def new_dialog_def no_preview_def)
next
  case (reopened d src)
  then show ?case using dg_render_ok [of "d\<lparr>dg_draft := src\<rparr>"] newest_parts
    by (fastforce simp: dg_willUpdate_def dg_scheduleRender_def dg_ok_def)
next
  case (typed d val)
  then show ?case by (auto simp: dg_onInput_def dg_scheduleRender_def dg_ok_def)
qed (rule dg_internal_ok)

definition dg_work :: "'g mermaid_dialog \<Rightarrow> nat" where
  "dg_work d = (if dg_timer d = None then 0 else 2) + length (pv_pending (dg_preview d))"

lemma dg_internal_work: "dg_internal d d' \<Longrightarrow> dg_work d' < dg_work d"
proof (induction rule: dg_internal.induct)
  case (answered x d out)
  then show ?case
    using length_pos_if_in_set [OF answered] by (simp add: dg_work_def finish_render_def Let_def length_remove1)
qed (simp add: dg_work_def start_render_def)

lemma dg_stuck:
  assumes "\<nexists>d'. dg_internal d d'"
  shows "dg_timer d = None" "pv_pending (dg_preview d) = []"
proof -
  show "dg_timer d = None" using assms dg_internal.fired [of d] by (cases "dg_timer d") auto
  show "pv_pending (dg_preview d) = []"
  proof (rule ccontr)
    assume "pv_pending (dg_preview d) \<noteq> []"
    then have "hd (pv_pending (dg_preview d)) \<in> set (pv_pending (dg_preview d))" by simp
    then show False using assms dg_internal.answered by blast
  qed
qed

interpretation dialog: settling dg_internal dg_ok dg_work dg_draft "\<lambda>d. pv_shown (dg_preview d)"
proof
  show "\<exists>out. pv_shown (dg_preview d) = Some (dg_draft d, out)" if "dg_ok d" "\<nexists>t. dg_internal d t" for d :: "'g mermaid_dialog"
    using that newest_settled [of "dg_draft d" "dg_preview d"] dg_stuck [of d] by (auto simp: dg_ok_def)
qed (auto simp: dg_internal_ok dg_internal_work elim!: dg_internal.cases)

section \<open>Opening the dialog\<close>

text \<open>The editor's side: \<open>mh_opening\<close> are calls of \<open>_openMermaidDialog\<close> that wait for the module, \<open>mh_body\<close> the
  dialogs in the page, \<open>mh_replaced\<close> the transactions: range and new source. The schema always has the
  code block that \<open>_handleMermaidSave\<close> looks up.\<close>

record mermaid_host =
  mh_range :: "(nat \<times> nat) option"
  mh_dialog :: "nat option"
  mh_opening :: "jsstring list"
  mh_body :: "nat list"
  mh_created :: nat
  mh_replaced :: "(nat \<times> nat \<times> jsstring) list"

definition new_host :: mermaid_host where
  "new_host = \<lparr>mh_range = None, mh_dialog = None, mh_opening = [], mh_body = [], mh_created = 0, mh_replaced = []\<rparr>"

definition openMermaidDialog :: "jsstring \<Rightarrow> mermaid_host \<Rightarrow> mermaid_host" where
  "openMermaidDialog src h = (if mh_dialog h = None then h\<lparr>mh_opening := mh_opening h @ [src]\<rparr> else h)"

definition handleMermaidEditRequest :: "nat \<Rightarrow> nat \<Rightarrow> jsstring \<Rightarrow> mermaid_host \<Rightarrow> mermaid_host" where
  "handleMermaidEditRequest from to src h = openMermaidDialog src (h\<lparr>mh_range := Some (from, to)\<rparr>)"

definition dialog_module_loaded :: "mermaid_host \<Rightarrow> mermaid_host" where
  "dialog_module_loaded h =
     (case mh_opening h of
        [] \<Rightarrow> h
      | _ # rest \<Rightarrow> h\<lparr>mh_opening := rest, mh_created := mh_created h + 1, mh_body := mh_body h @ [mh_created h],
                       mh_dialog := Some (mh_created h)\<rparr>)"

definition closeMermaidDialog :: "mermaid_host \<Rightarrow> mermaid_host" where
  "closeMermaidDialog h =
     (case mh_dialog h of
        None \<Rightarrow> h
      | Some d \<Rightarrow> h\<lparr>mh_body := filter (\<lambda>x. x \<noteq> d) (mh_body h), mh_dialog := None, mh_range := None\<rparr>)"

definition handleMermaidSave :: "jsstring \<Rightarrow> mermaid_host \<Rightarrow> mermaid_host" where
  "handleMermaidSave src h =
     (case mh_range h of
        None \<Rightarrow> closeMermaidDialog h
      | Some (from, to) \<Rightarrow> closeMermaidDialog (h\<lparr>mh_replaced := mh_replaced h @ [(from, to, src)]\<rparr>))"

section \<open>Properties\<close>

text \<open>C23: A diagram settles on its source: the timers and answers of a node view, and those of the edit
  dialog, run out after finitely many steps, and whatever the order in which they come, a view then
  shows the rendering of the source its node has, and the dialog that of its draft.\<close>

theorem diagram_settles:
  fixes n n' :: "'g node_view" and d d' :: "'g mermaid_dialog"
  assumes "nv_reached n" "nv_internal\<^sup>*\<^sup>* n n'" "\<nexists>m. nv_internal n' m" "dg_reached d" "dg_internal\<^sup>*\<^sup>* d d'" "\<nexists>e. dg_internal d' e"
  shows "wfP (\<lambda>m n :: 'g node_view. nv_internal n m) \<and> wfP (\<lambda>e d :: 'g mermaid_dialog. dg_internal d e)
    \<and> (\<exists>out. pv_shown (nv_preview n') = Some (nv_source n, out)) \<and> (\<exists>out. pv_shown (dg_preview d') = Some (dg_draft d, out))"
  using view.terminates dialog.terminates view.settles [OF nv_reached_ok [OF assms(1)] assms(2,3)]
    dialog.settles [OF dg_reached_ok [OF assms(4)] assms(5,6)] by blast

definition theme_inv :: "renderer \<Rightarrow> bool" where
  "theme_inv r \<longleftrightarrow> (mr_module r = Not_Loaded \<longrightarrow> mr_queue r = [])
     \<and> (mr_module r = Loading \<longrightarrow> mr_queue r \<noteq> [] \<longrightarrow> last (mr_queue r) = mr_theme r)
     \<and> (mr_module r = Loaded \<longrightarrow> mr_runtime r \<noteq> None \<and> last (the (mr_runtime r) # mr_queue r) = mr_theme r)"

lemma renderer_theme: "theme_inv (fold renderer_step inputs new_renderer)"
proof -
  have "theme_inv (renderer_step i r)" if "theme_inv r" for i r
    using that
    by (cases i) (auto simp: theme_inv_def loadMermaid_def module_loaded_def setMermaidTheme_def run_initialize_def Let_def
        split: list.splits if_splits)
  moreover have "theme_inv new_renderer" by (simp add: theme_inv_def new_renderer_def)
  ultimately show ?thesis by (induction inputs rule: rev_induct) auto
qed

lemma run_initialize_all:
  assumes "mr_module r = Loaded" "mr_runtime r = Some t" "mr_queue r = ts"
  shows "mr_runtime ((run_initialize ^^ length ts) r) = Some (last (t # ts))"
  using assms
proof (induction ts arbitrary: r t)
  case (Cons u ts)
  then have "run_initialize r = r\<lparr>mr_runtime := Some u, mr_queue := ts\<rparr>" by (simp add: run_initialize_def)
  then show ?case using Cons.IH [of "r\<lparr>mr_runtime := Some u, mr_queue := ts\<rparr>" u] Cons.prems by (simp add: funpow_swap1)
qed simp

text \<open>The diagrams get the theme set last: whenever the theme was set, before, during or after
  loading, once the runtime is loaded and the waiting initialisations have run, it has the current
  theme.\<close>

theorem theme_settles:
  fixes inputs :: "renderer_input list"
  defines "r \<equiv> fold renderer_step inputs new_renderer"
  assumes "mr_module r = Loaded"
  shows "mr_runtime ((run_initialize ^^ length (mr_queue r)) r) = Some (mr_theme r)"
  using renderer_theme [of inputs] run_initialize_all [of r _ "mr_queue r"] assms by (auto simp: r_def theme_inv_def)

section \<open>Findings\<close>

text \<open>A load that failed is never tried again.\<close>

lemma failed_load_is_final: "mr_module r = Load_Failed \<Longrightarrow> mr_module (fold renderer_step inputs r) = Load_Failed"
proof (induction inputs arbitrary: r)
  case (Cons i inputs)
  have "mr_module (renderer_step i r) = Load_Failed" using Cons.prems
    by (cases i) (auto simp: loadMermaid_def module_loaded_def setMermaidTheme_def run_initialize_def Let_def split: list.split)
  then show ?case using Cons.IH by simp
qed simp

text \<open>The range of the block is taken when the dialog opens; what happens to the document meanwhile does not
  change it, so Save replaces whatever stands there then.\<close>

lemma save_replaces_old_range:
  assumes "mh_dialog h = None" "mh_opening h = []"
  shows "mh_replaced (handleMermaidSave src (dialog_module_loaded (handleMermaidEditRequest from to old h))) = mh_replaced h @ [(from, to, src)]"
  using assms
  by (simp add: handleMermaidSave_def dialog_module_loaded_def handleMermaidEditRequest_def openMermaidDialog_def closeMermaidDialog_def)

text \<open>Two requests before the module is loaded create two dialogs, of which only the second can be closed.\<close>

definition two_requests :: mermaid_host where
  "two_requests = dialog_module_loaded (dialog_module_loaded
     (handleMermaidEditRequest 0 5 [] (handleMermaidEditRequest 0 5 [] new_host)))"

lemma first_dialog_stays:
  assumes "h \<in> {closeMermaidDialog two_requests, handleMermaidSave src two_requests}"
  shows "mh_body h = [0] \<and> closeMermaidDialog h = h \<and> handleMermaidSave src' h = h"
  using assms
  by (auto simp: two_requests_def new_host_def handleMermaidSave_def dialog_module_loaded_def handleMermaidEditRequest_def
      openMermaidDialog_def closeMermaidDialog_def)

section \<open>Witnesses\<close>

text \<open>A view whose source changed while its first render was under way; the answers come in the wrong order.\<close>

definition late_view :: "nat node_view" where
  "late_view = (let n1 = buildNodeView 0 [65]; n2 = nv_run 0 (n1\<lparr>nv_source := [66], nv_timer := True\<rparr>);
     n3 = n2\<lparr>nv_preview := finish_render (2, [66]) (Svg 7) (nv_preview n2)\<rparr>
   in n3\<lparr>nv_preview := finish_render (1, [65]) (Svg 3) (nv_preview n3)\<rparr>)"

lemma late_view_reached: "nv_reached late_view"
proof -
  let ?n1 = "buildNodeView 0 [65] :: nat node_view"
  let ?u = "?n1\<lparr>nv_source := [66], nv_timer := True\<rparr>"
  let ?n2 = "nv_run 0 ?u"
  let ?n3 = "?n2\<lparr>nv_preview := finish_render (2, [66]) (Svg 7) (nv_preview ?n2)\<rparr>"
  have "nv_reached ?n1" by (rule nv_reached.built)
  moreover have "nv_update 0 True (js ''mermaid'') [66] ?n1 = Some ?u"
    by (simp add: nv_update_def buildNodeView_def nv_run_def Let_def)
  ultimately have "nv_reached ?u" by (rule nv_reached.updated)
  moreover have "nv_internal ?u ?n2" by (rule nv_internal.fired) simp
  ultimately have "nv_reached ?n2" by (rule nv_reached.internal)
  moreover have "nv_internal ?n2 ?n3"
    by (rule nv_internal.answered) (simp add: nv_run_def buildNodeView_def start_render_def no_preview_def)
  ultimately have "nv_reached ?n3" by (rule nv_reached.internal)
  moreover have "nv_internal ?n3 late_view" unfolding late_view_def Let_def
    by (rule nv_internal.answered) (simp add: nv_run_def buildNodeView_def start_render_def no_preview_def finish_render_def)
  ultimately show ?thesis by (rule nv_reached.internal)
qed

definition drawn_dialog :: "nat mermaid_dialog" where
  "drawn_dialog = (let d = dg_willUpdate [65] new_dialog in d\<lparr>dg_preview := finish_render (1, [65]) (Svg 3) (dg_preview d)\<rparr>)"

lemma drawn_dialog_reached: "dg_reached drawn_dialog"
proof -
  have "dg_reached (dg_willUpdate [65] new_dialog :: nat mermaid_dialog)" by (rule dg_reached.shown)
  moreover have "dg_internal (dg_willUpdate [65] new_dialog) drawn_dialog" unfolding drawn_dialog_def Let_def
    by (rule dg_internal.answered)
      (simp add: dg_willUpdate_def dg_scheduleRender_def new_dialog_def no_preview_def start_render_def)
  ultimately show ?thesis by (rule dg_reached.internal)
qed

theorem diagram_settles_witness:
  "(\<exists>out. pv_shown (nv_preview late_view) = Some ([66], out)) \<and> (\<exists>out. pv_shown (dg_preview drawn_dialog) = Some ([65], out))"
proof -
  have l: "\<not> nv_timer late_view" "pv_pending (nv_preview late_view) = []" "nv_source late_view = [66]"
    "dg_timer drawn_dialog = None" "pv_pending (dg_preview drawn_dialog) = []" "dg_draft drawn_dialog = [65]"
    by code_simp+
  have "\<nexists>m. nv_internal late_view m" "\<nexists>e. dg_internal drawn_dialog e"
    using l by (auto elim: nv_internal.cases dg_internal.cases)
  then show ?thesis using diagram_settles [OF late_view_reached rtranclp.rtrancl_refl _ drawn_dialog_reached rtranclp.rtrancl_refl] l by auto
qed

theorem theme_settles_witness:
  "mr_runtime (fold renderer_step [Load, Theme Dark_Theme, Module True, Theme Default_Theme, Initialize, Initialize] new_renderer) = Some Default_Theme"
proof -
  let ?r = "fold renderer_step [Load, Theme Dark_Theme, Module True, Theme Default_Theme] new_renderer"
  have "mr_module ?r = Loaded" "length (mr_queue ?r) = 2" "mr_theme ?r = Default_Theme" by code_simp+
  then show ?thesis using theme_settles [of "[Load, Theme Dark_Theme, Module True, Theme Default_Theme]"]
    by (simp add: numeral_2_eq_2)
qed

end
