(* ===== verification/Spec2Isabelle.thy ===== *)
theory Spec2Isabelle
  imports Version_Blame Diff_Engine String_Diff Collab_Provider
    Provider_Router Comments_Router Comment_Sync Position_Map Registry Socketio_Provider Feature_Properties Element_Init Yjs_Engine
    Decorations Comment_Panel Version_Panel Mermaid
begin

text \<open>
  Verification development of the collaborative editor.

  \<^bold>\<open>The program.\<close> A relay connects editors that share a Yjs document. The browser side is the element
  \<open><multi-editor>\<close> (\<open>frontend/src/multi-editor.ts\<close>): it connects to the relay, mounts a source or
  rich-text editor on the shared text, and adds blame, versions, comments and suggestions. The server
  side is the provider SDK (\<open>packages/provider-sdk-ts\<close>), with which a host stores documents, versions and
  comments behind an HTTP interface, and a document server beside the relay
  (\<open>cmd/yjs-engine/index.js\<close>). The theories follow the TypeScript (and that JavaScript) code; functions keep
  its names as far as they are free, and a definition stands in the theory of its source file.

  \<^bold>\<open>Conventions.\<close> Strings are lists of 16-bit code units; offsets that a program computes are \<open>nat\<close>, those
  it reads from the network \<open>int\<close>. A \<open>Map\<close> is an association list in insertion order. A call that throws
  returns \<open>Inl\<close>; where state survives the exception, both are returned. An \<open>async\<close> operation is split at its
  \<open>await\<close> points into steps, so that runs interleave them with everything else; timers and answers of
  the network are steps of their own. What the repository does not contain is a parameter: Yjs
  (\<open>Yjs_Interface\<close>: a record of operations with the laws the code relies on), the storage backend, the
  answers of HTTP requests, Express and its body parser, time and random ids, CodeMirror, ProseMirror and Mermaid. Loops and
  recursions are total functions with termination proofs; no fuel is used.

  \<^bold>\<open>Shared theories.\<close> \<open>Prelude\<close> holds the JavaScript vocabulary and generic lemmas, \<open>Base64\<close> and \<open>Utf8\<close> the
  two codecs with their round trips, \<open>Http_Router\<close> the matching of routes, \<open>Blame_Segments\<close> runs of equally
  attributed characters, \<open>Lcs\<close> the longest common subsequence, proved optimal, behind the locale
  \<open>line_matcher\<close> that its two copies in the repository interpret.

  \<^bold>\<open>Provider SDK.\<close>
  \<^item> \<open>Version_Blame\<close> (\<open>blame.ts\<close>, \<open>types.ts\<close>): blame of a chain of versions; a blamed user wrote the line.
  \<^item> \<open>Doc_Cache\<close> (\<open>engine.ts\<close>): the cache of documents and the update frames. The cache stays within its
    bound, destroys what leaves it once, and refines the list of most recently used documents; locale
    \<open>evicting_map\<close>.
  \<^item> \<open>Provider_Processor\<close> (\<open>provider.ts\<close>): every request, and overlapping requests as interleaved segments;
    what a store applies, answers and writes, and how overlapping stores lose updates.
  \<^item> \<open>Provider_Router\<close>, \<open>Comments_Router\<close> (\<open>handler.ts\<close>, \<open>comments/*.ts\<close>): routing, the body parser in front of
    the handlers, and the status and effect of every request.

  \<^bold>\<open>Document server.\<close> \<open>Yjs_Engine\<close> (\<open>cmd/yjs-engine/index.js\<close>): codecs, handlers and the frame loop. Requests are
  answered once and in order however the stream is cut; open documents refine a set; codecs round-trip.

  \<^bold>\<open>Collaboration in the browser\<close> (\<open>frontend/src/collab\<close>).
  \<^item> \<open>String_Diff\<close>, \<open>Text_Binding\<close> (\<open>text-binding.ts\<close>): the minimal edit turns the old text into the new one; the
    binding between shared text and rich-text editor writes user edits, never echoes, and agrees when
    settled.
  \<^item> \<open>Suggest_Engine\<close>, \<open>Collab_Provider\<close> (\<open>suggest-engine.ts\<close>, \<open>doc-replicator.ts\<close>, \<open>collab-provider.ts\<close>): the pair of
    documents and its gates. The locale \<open>collab_provider\<close> is what the suggest engine needs of a provider;
    the provider is an interpretation. Drafts stay local, accepting a suggestion gives what its author
    saw, with open gates every update is applied once to each document and
    they converge, and every connection call is answered once.
  \<^item> \<open>Socketio_Provider\<close> (\<open>socketio-provider.ts\<close>): the transport; local updates and presence are sent once,
    what is received is never sent back.
  \<^item> \<open>Diff_Engine\<close>, \<open>Version_Manager\<close>, \<open>Version_Coordinator\<close>, \<open>Version_Panel\<close> (\<open>diff-engine.ts\<close>, \<open>version-*.ts\<close>): diffs rebuild
    both texts, snapshots, the editor is read-only exactly while a version is viewed (locale
    \<open>readonly_view\<close>), and the selection of the panel refines a set of at most two versions.
  \<^item> \<open>Blame_Engine\<close>, \<open>Blame_Coordinator\<close>, \<open>Position_Map\<close> (\<open>blame-*.ts\<close>, \<open>pm-position-map.ts\<close>): authorship of the live text
    and its projection onto the rich-text document.
  \<^item> \<open>Comment_Types\<close>, \<open>Comment_Anchor\<close>, \<open>Comment_Engine\<close>, \<open>Comment_Sync\<close> (\<open>comment-engine.ts\<close>): threads, anchors, and their
    persistence. Under any interleaving of edits, flushes and polls no change is forgotten, except in stated
    situations in which it is (a poll or a second flush while requests are on the wire, a thread written
    again before its deletion is sent, threads older than the engine); which requests each operation
    leads to; each operation touches its thread only.
  \<^item> \<open>Comment_Coordinator\<close>, \<open>Decorations\<close>, \<open>Comment_Panel\<close> (\<open>comment-coordinator.ts\<close>, the editor plug-ins,
    \<open>toolbar/comment-*.ts\<close>): what is shown. Views are current, decorations are ordered and exact, the panel
    renders comments faithfully and sends only what fits what it shows.
  \<^item> \<open>Mermaid\<close> (\<open>mermaid-*.ts\<close>): diagrams settle on their source; the locale \<open>settling\<close> is shared by the
    node view and the dialog.

  \<^bold>\<open>The element.\<close> \<open>Editor_Bindings\<close> (\<open>frontend/src/bindings\<close>) models the three bindings as one state machine,
  \<open>Registry\<close> (\<open>registry.ts\<close>, \<open>handlers\<close>) chooses among them. \<open>Feature_Mode\<close>, \<open>Feature_Session\<close>, \<open>Feature_Invariant\<close>
  and \<open>Feature_Properties\<close> model the handlers of \<open>multi-editor.ts\<close> for blame, Suggest Mode and comments on top of
  the components above: the modes exclude each other (but for a \<open>readonly\<close> change during a preview and
  the deletion of the open thread, which break it), a preview is local and undone, accepting a
  suggestion writes it and ends the preview, a draft is submitted. The locale \<open>review_provider\<close> extends \<open>collab_provider\<close>.
  \<open>Element_Init\<close> models initialisation and removal: superseded runs, the objects they create and destroy,
  termination of the chain, and that the element catches up with its last configuration.

  \<^bold>\<open>Not modelled.\<close> Rendering templates and styles, the toolbar and the status bar (elements without state),
  formatting commands and selection of the editors, awareness (presence), the placing of panels, the
  console log, the gRPC client (a wrapper over a generated client), re-exports and type declarations,
  the examples, and the parts in other languages: the Go relay and its storage, the vendored
  CRDT library and the Python SDK.
\<close>

end
